(* ===== verification/Go_Prelude.thy ===== *)
theory Go_Prelude
  imports Main "HOL-Library.Multiset" "HOL-Library.Sublist"
begin

text \<open>
  Shared ground of the development: the Go values the services compute with, and the lemmas the
  component theories share.

  \<^item> Integers. \<open>int64\<close> and \<open>int32\<close> values are HOL integers; wherever the Go code adds, multiplies
    or converts in a way that can leave the range, the wrap-around is written out with
    \<open>wrap64\<close> and \<open>wrap32\<close>. Division is Go's truncated division \<open>go_div\<close>.
  \<^item> Time. A \<open>time.Time\<close> is its instant in nanoseconds since the Unix epoch, a
    \<open>time.Duration\<close> a number of nanoseconds. \<open>zero_time\<close> is the instant of \<open>time.Time{}\<close>.
    \<open>Sub\<close> saturates as Go's does.
  \<^item> Strings. A Go string or byte slice is a list of bytes (HOL's \<open>char\<close>). Trimming, case mapping
    and hexadecimal decoding act on ASCII, as the Go functions do on ASCII input.
  \<^item> Errors. A fallible function returns a sum, \<open>Inl\<close> the error; a function that only returns
    \<open>error\<close> returns an option, \<open>None\<close> for nil.
\<close>

named_theorems go_str "defining equations of the Go string functions"
named_theorems go_num "defining equations of the Go integer functions"

type_synonym int64 = int
type_synonym int32 = int
type_synonym time = int
type_synonym duration = int
type_synonym bytes = string

section \<open>Definitions\<close>

subsection \<open>Machine integers and time\<close>

definition wrap64 :: "int \<Rightarrow> int" where
  "wrap64 x = (x + 9223372036854775808) mod 18446744073709551616 - 9223372036854775808"

definition wrap32 :: "int \<Rightarrow> int" where
  "wrap32 x = (x + 2147483648) mod 4294967296 - 2147483648"

definition max_int64 :: int where
  "max_int64 = 9223372036854775807"

definition min_int64 :: int where
  "min_int64 = - 9223372036854775808"

definition max_int32 :: int where
  "max_int32 = 2147483647"

definition go_div :: "int \<Rightarrow> int \<Rightarrow> int" where
  "go_div a b = sgn a * sgn b * (\<bar>a\<bar> div \<bar>b\<bar>)"

definition Nanosecond :: int where
  "Nanosecond = 1"

definition Microsecond :: int where
  "Microsecond = 1000"

definition Millisecond :: int where
  "Millisecond = 1000000"

definition Second :: int where
  "Second = 1000000000"

definition Minute :: int where
  "Minute = 60000000000"

definition Hour :: int where
  "Hour = 3600000000000"

definition zero_time :: time where
  "zero_time = - 62135596800000000000"

definition time_sub :: "time \<Rightarrow> time \<Rightarrow> duration" where
  "time_sub t u = max min_int64 (min max_int64 (t - u))"

definition time_truncate :: "duration \<Rightarrow> time \<Rightarrow> time" where
  "time_truncate d t = t - (t - zero_time) mod d"

subsection \<open>Byte strings\<close>

definition is_space :: "char \<Rightarrow> bool" where
  "is_space c \<longleftrightarrow> c \<in> {CHR '' '', CHR 0x09, CHR 0x0A, CHR 0x0B, CHR 0x0C, CHR 0x0D}"

definition trim_right_of :: "(char \<Rightarrow> bool) \<Rightarrow> string \<Rightarrow> string" where
  "trim_right_of p s = rev (dropWhile p (rev s))"

definition trim_space :: "string \<Rightarrow> string" where
  "trim_space s = trim_right_of is_space (dropWhile is_space s)"

definition lower_char :: "char \<Rightarrow> char" where
  "lower_char c = (let n = (of_char c :: nat) in if 65 \<le> n \<and> n \<le> 90 then char_of (n + 32) else c)"

definition upper_char :: "char \<Rightarrow> char" where
  "upper_char c = (let n = (of_char c :: nat) in if 97 \<le> n \<and> n \<le> 122 then char_of (n - 32) else c)"

definition to_lower :: "string \<Rightarrow> string" where
  "to_lower s = map lower_char s"

definition to_upper :: "string \<Rightarrow> string" where
  "to_upper s = map upper_char s"

definition equal_fold :: "string \<Rightarrow> string \<Rightarrow> bool" where
  "equal_fold s t \<longleftrightarrow> to_lower s = to_lower t"

definition has_prefix :: "string \<Rightarrow> string \<Rightarrow> bool" where
  "has_prefix s p \<longleftrightarrow> take (length p) s = p"

definition trim_prefix :: "string \<Rightarrow> string \<Rightarrow> string" where
  "trim_prefix s p = (if has_prefix s p then drop (length p) s else s)"

fun contains_sub :: "string \<Rightarrow> string \<Rightarrow> bool" where
  "contains_sub [] p \<longleftrightarrow> p = []"
| "contains_sub (c # s) p \<longleftrightarrow> has_prefix (c # s) p \<or> contains_sub s p"

fun split_on :: "char \<Rightarrow> string \<Rightarrow> string list" where
  "split_on d [] = [[]]"
| "split_on d (c # s) =
     (if c = d then [] # split_on d s
      else (case split_on d s of [] \<Rightarrow> [[c]] | x # xs \<Rightarrow> (c # x) # xs))"

fun join_with :: "char \<Rightarrow> string list \<Rightarrow> string" where
  "join_with d [] = []"
| "join_with d [x] = x"
| "join_with d (x # y # xs) = x @ d # join_with d (y # xs)"

definition is_hex_digit :: "char \<Rightarrow> bool" where
  "is_hex_digit c \<longleftrightarrow>
     (let n = (of_char c :: nat)
      in (48 \<le> n \<and> n \<le> 57) \<or> (97 \<le> n \<and> n \<le> 102) \<or> (65 \<le> n \<and> n \<le> 70))"

definition hex_decoded_length :: "string \<Rightarrow> nat option" where
  \<comment> \<open>\<open>hex.DecodeString\<close>: an error on odd length or a non-hexadecimal byte, else the number of bytes.\<close>
  "hex_decoded_length s =
     (if even (length s) \<and> list_all is_hex_digit s then Some (length s div 2) else None)"

definition hex_digit :: "nat \<Rightarrow> char" where
  "hex_digit n = char_of (if n < 10 then 48 + n else 87 + n)"

fun hex_encode :: "bytes \<Rightarrow> string" where
  "hex_encode [] = []"
| "hex_encode (b # bs) =
     hex_digit (of_char b div 16) # hex_digit (of_char b mod 16) # hex_encode bs"

fun decimal_digits :: "nat \<Rightarrow> string" where
  "decimal_digits n =
     (if n < 10 then [char_of (48 + n)]
      else decimal_digits (n div 10) @ [char_of (48 + n mod 10)])"

declare decimal_digits.simps [simp del]

definition format_int :: "int \<Rightarrow> string" where
  "format_int i =
     (if i < 0 then CHR ''-'' # decimal_digits (nat (- i)) else decimal_digits (nat i))"

subsection \<open>Results\<close>

definition bindE :: "'e + 'a \<Rightarrow> ('a \<Rightarrow> 'e + 'b) \<Rightarrow> 'e + 'b" where
  "bindE r f = (case r of Inl e \<Rightarrow> Inl e | Inr x \<Rightarrow> f x)"

definition guardE :: "bool \<Rightarrow> 'e \<Rightarrow> 'e + 'b \<Rightarrow> 'e + 'b" where
  \<comment> \<open>\<open>if cond { return err }\<close> followed by the rest of the function.\<close>
  "guardE c e r = (if c then Inl e else r)"

definition errE :: "'e option \<Rightarrow> 'e + 'b \<Rightarrow> 'e + 'b" where
  \<comment> \<open>\<open>if err := f(); err != nil { return err }\<close> followed by the rest.\<close>
  "errE o1 r = (case o1 of Some e \<Rightarrow> Inl e | None \<Rightarrow> r)"

subsection \<open>Order of byte strings and association lists\<close>

fun bytes_less :: "string \<Rightarrow> string \<Rightarrow> bool" where
  "bytes_less [] t = (t \<noteq> [])"
| "bytes_less (c # s) [] = False"
| "bytes_less (c # s) (d # t) =
     ((of_char c :: nat) < of_char d \<or> (c = d \<and> bytes_less s t))"

fun assoc_put :: "'k \<Rightarrow> 'v \<Rightarrow> ('k \<times> 'v) list \<Rightarrow> ('k \<times> 'v) list" where
  "assoc_put k v [] = [(k, v)]"
| "assoc_put k v ((k', v') # xs) = (if k' = k then (k, v) # xs else (k', v') # assoc_put k v xs)"

section \<open>Lemmas\<close>

lemma bindE_simps [simp]: "bindE (Inl e) f = Inl e" "bindE (Inr x) f = f x"
  by (simp_all add: bindE_def)

lemma bindE_eq_Inr [simp]: "bindE r f = Inr y \<longleftrightarrow> (\<exists>x. r = Inr x \<and> f x = Inr y)"
  by (cases r) (auto simp: bindE_def)

lemma bindE_split: "P (bindE r f) \<longleftrightarrow> (\<forall>e. r = Inl e \<longrightarrow> P (Inl e)) \<and> (\<forall>x. r = Inr x \<longrightarrow> P (f x))"
  by (cases r) auto

lemma guardE_simps [simp]: "guardE True e r = Inl e" "guardE False e r = r"
  by (simp_all add: guardE_def)

lemma guardE_eq_Inr [simp]: "guardE c e r = Inr y \<longleftrightarrow> \<not> c \<and> r = Inr y"
  by (simp add: guardE_def)

lemma errE_simps [simp]: "errE (Some e) r = Inl e" "errE None r = r"
  by (simp_all add: errE_def)

lemma errE_eq_Inr [simp]: "errE o1 r = Inr y \<longleftrightarrow> o1 = None \<and> r = Inr y"
  by (cases o1) auto

subsection \<open>Integers\<close>

lemma wrap64_id [go_num]: "min_int64 \<le> x \<Longrightarrow> x \<le> max_int64 \<Longrightarrow> wrap64 x = x"
  by (simp add: wrap64_def min_int64_def max_int64_def)

lemma wrap64_range: "min_int64 \<le> wrap64 x \<and> wrap64 x \<le> max_int64"
proof -
  have "0 \<le> (x + 9223372036854775808) mod 18446744073709551616"
    "(x + 9223372036854775808) mod 18446744073709551616 < 18446744073709551616"
    by simp_all
  then show ?thesis by (simp add: wrap64_def min_int64_def max_int64_def)
qed

lemma wrap32_id [go_num]: "- 2147483648 \<le> x \<Longrightarrow> x \<le> max_int32 \<Longrightarrow> wrap32 x = x"
  by (simp add: wrap32_def max_int32_def)

lemma wrap32_range: "- 2147483648 \<le> wrap32 x \<and> wrap32 x \<le> max_int32"
proof -
  have "0 \<le> (x + 2147483648) mod 4294967296" "(x + 2147483648) mod 4294967296 < 4294967296"
    by simp_all
  then show ?thesis by (simp add: wrap32_def max_int32_def)
qed

lemma go_div_nonneg [go_num]: "0 \<le> a \<Longrightarrow> 0 < b \<Longrightarrow> go_div a b = a div b"
  by (cases "a = 0") (simp_all add: go_div_def)

lemma time_sub_exact [go_num]:
  "min_int64 \<le> t - u \<Longrightarrow> t - u \<le> max_int64 \<Longrightarrow> time_sub t u = t - u"
  by (simp add: time_sub_def)

subsection \<open>Strings\<close>

lemma of_char_lt_256: "(of_char c :: nat) < 256"
  by (rule of_char_mod_256 [of c, THEN subst]) simp

lemma lower_char_idem [simp]: "lower_char (lower_char c) = lower_char c"
  by (simp add: lower_char_def Let_def)

lemma to_lower_idem [simp]: "to_lower (to_lower s) = to_lower s"
  by (simp add: to_lower_def)

lemma length_to_lower [simp]: "length (to_lower s) = length s"
  by (simp add: to_lower_def)

lemma equal_fold_refl [simp]: "equal_fold s s"
  by (simp add: equal_fold_def)

lemma trim_right_of_hd: "s \<noteq> [] \<Longrightarrow> \<not> p (hd s) \<Longrightarrow>
    trim_right_of p s \<noteq> [] \<and> hd (trim_right_of p s) = hd s"
proof -
  assume s: "s \<noteq> []" and h: "\<not> p (hd s)"
  then obtain c t where ct: "s = c # t" and c: "\<not> p c" by (cases s) auto
  have "dropWhile p (us @ [c]) = dropWhile p us @ [c]" for us
    using c by (induction us) auto
  with ct show ?thesis by (simp add: trim_right_of_def)
qed

lemma dropWhile_hd_not: "dropWhile p s = [] \<or> \<not> p (hd (dropWhile p s))"
  by (induction s) auto

lemma trim_right_of_idem [simp]: "trim_right_of p (trim_right_of p s) = trim_right_of p s"
  by (simp add: trim_right_of_def dropWhile_idem)

lemma trim_space_idem [simp]: "trim_space (trim_space s) = trim_space s"
proof -
  let ?d = "dropWhile is_space s"
  show ?thesis
  proof (cases "?d = []")
    case True
    then have "trim_space s = []" unfolding trim_space_def by (simp only: trim_right_of_def) simp
    moreover have "trim_space [] = []" by (simp add: trim_space_def trim_right_of_def)
    ultimately show ?thesis by simp
  next
    case False
    then have "\<not> is_space (hd ?d)" using dropWhile_hd_not by blast
    with False have "trim_right_of is_space ?d \<noteq> []"
      "\<not> is_space (hd (trim_right_of is_space ?d))"
      using trim_right_of_hd by metis+
    then have "dropWhile is_space (trim_right_of is_space ?d) = trim_right_of is_space ?d"
      by (cases "trim_right_of is_space ?d") auto
    then show ?thesis by (simp add: trim_space_def)
  qed
qed

lemma split_on_not_Nil [simp]: "split_on d s \<noteq> []"
  by (induction s) (auto split: list.splits)

lemma join_split_on [simp]: "join_with d (split_on d s) = s"
proof (induction s)
  case Nil
  then show ?case by simp
next
  case (Cons c s)
  then show ?case
    by (cases "split_on d s"; cases "tl (split_on d s)") (auto split: list.splits)
qed

lemma has_prefix_append [simp]: "has_prefix (p @ s) p"
  by (simp add: has_prefix_def)

lemma trim_prefix_append [simp]: "trim_prefix (p @ s) p = s"
  by (simp add: trim_prefix_def)

lemma hex_digit_inj: "hex_digit m = hex_digit n \<Longrightarrow> m < 16 \<Longrightarrow> n < 16 \<Longrightarrow> m = n"
proof -
  assume h: "hex_digit m = hex_digit n" and m: "m < 16" and n: "n < 16"
  let ?f = "\<lambda>k :: nat. if k < 10 then 48 + k else 87 + k"
  have "(char_of (?f m) :: char) = char_of (?f n)" using h by (simp only: hex_digit_def)
  then have "?f m mod 256 = ?f n mod 256" by (metis of_char_of)
  with m n show "m = n" by (simp split: if_splits)
qed

lemma hex_pair_inj:
  assumes "hex_digit (of_char a div 16) = hex_digit (of_char b div 16)"
    and "hex_digit (of_char a mod 16) = hex_digit (of_char b mod 16)"
  shows "a = b"
proof -
  have "of_char a div 16 = (of_char b div 16 :: nat)"
    by (rule hex_digit_inj [OF assms(1)])
      (use of_char_lt_256 [of a] of_char_lt_256 [of b] in \<open>simp_all add: less_mult_imp_div_less\<close>)
  moreover have "of_char a mod 16 = (of_char b mod 16 :: nat)"
    by (rule hex_digit_inj [OF assms(2)]) simp_all
  ultimately have "(of_char a :: nat) = of_char b" by (metis mult_div_mod_eq)
  then show ?thesis by (simp add: of_char_eq_iff)
qed

lemma hex_encode_inj: "hex_encode bs = hex_encode cs \<Longrightarrow> bs = cs"
proof (induction bs arbitrary: cs)
  case Nil
  then show ?case by (cases cs) simp_all
next
  case (Cons b bs)
  then obtain c cs' where cs: "cs = c # cs'" by (cases cs) auto
  with Cons.prems have "b = c" "hex_encode bs = hex_encode cs'"
    by (auto intro: hex_pair_inj)
  with Cons.IH cs show ?case by simp
qed

lemma map_of_assoc_put [simp]: "map_of (assoc_put k v xs) = (map_of xs)(k \<mapsto> v)"
  by (induction xs rule: assoc_put.induct) auto

end
