(* ===== verification/Json.thy ===== *)
theory Json
  imports Go_Prelude
begin

text \<open>
  JSON as \<open>encoding/json\<close> sees it after tokenisation. A message body is a \<open>json option\<close>:
  \<open>None\<close> is a body that is not JSON text. \<open>JTime t\<close> is a string token in RFC 3339 form that names
  the instant \<open>t\<close> (what \<open>time.Time\<close> encodes to), \<open>JFrac\<close> a number token with a fraction or an
  exponent; every other string token is a \<open>JStr\<close>. Strings are taken to be valid UTF-8, so that
  encoding keeps their bytes.

  Decoding follows \<open>json.Unmarshal\<close>: a field is matched by its name up to letter case, the last
  occurrence wins, \<open>null\<close> leaves the zero value, a type mismatch or an integer out of range is an
  error, unknown fields are ignored. Encoding a \<open>time.Time\<close> whose year is outside 0 to 9999 is an
  error (\<open>time_json_ok\<close>).
\<close>

section \<open>Definitions\<close>

datatype json =
    JNull
  | JBool bool
  | JNum int
  | JFrac string
  | JStr string
  | JTime time
  | JArr "json list"
  | JObj "(string \<times> json) list"

type_synonym jfields = "(string \<times> json) list"

definition time_json_ok :: "time \<Rightarrow> bool" where
  "time_json_ok t \<longleftrightarrow> - 62167219200000000000 \<le> t \<and> t < 253402300800000000000"

fun dec_str :: "json \<Rightarrow> string option" where
  "dec_str (JStr s) = Some s"
| "dec_str _ = None"

fun dec_bool :: "json \<Rightarrow> bool option" where
  "dec_bool (JBool b) = Some b"
| "dec_bool _ = None"

fun dec_time :: "json \<Rightarrow> time option" where
  "dec_time (JTime t) = Some t"
| "dec_time _ = None"

fun dec_int64 :: "json \<Rightarrow> int option" where
  "dec_int64 (JNum n) = (if min_int64 \<le> n \<and> n \<le> max_int64 then Some n else None)"
| "dec_int64 _ = None"

fun dec_int32 :: "json \<Rightarrow> int option" where
  "dec_int32 (JNum n) = (if - 2147483648 \<le> n \<and> n \<le> max_int32 then Some n else None)"
| "dec_int32 _ = None"

fun dec_list :: "(json \<Rightarrow> 'a option) \<Rightarrow> json list \<Rightarrow> 'a list option" where
  "dec_list d [] = Some []"
| "dec_list d (v # vs) =
     (case d v of None \<Rightarrow> None | Some x \<Rightarrow> map_option (Cons x) (dec_list d vs))"

fun dec_array :: "(json \<Rightarrow> 'a option) \<Rightarrow> json \<Rightarrow> 'a list option" where
  "dec_array d (JArr vs) = dec_list d vs"
| "dec_array d _ = None"

fun dec_struct :: "(jfields \<Rightarrow> 'a option) \<Rightarrow> json \<Rightarrow> 'a option" where
  "dec_struct f (JObj kvs) = f kvs"
| "dec_struct f JNull = f []"
| "dec_struct f _ = None"

definition field_values :: "string \<Rightarrow> jfields \<Rightarrow> json list" where
  "field_values k kvs = map snd (filter (\<lambda>kv. equal_fold (fst kv) k) kvs)"

definition dec_field :: "(json \<Rightarrow> 'a option) \<Rightarrow> 'a \<Rightarrow> string \<Rightarrow> jfields \<Rightarrow> 'a option" where
  "dec_field d z k kvs =
     (let rs = map d (filter (\<lambda>v. v \<noteq> JNull) (field_values k kvs))
      in if None \<in> set rs then None else if rs = [] then Some z else last rs)"

definition dec_raw :: "string \<Rightarrow> jfields \<Rightarrow> json option" where
  \<comment> \<open>a \<open>json.RawMessage\<close> field: absent (empty) or the raw token, \<open>null\<close> included\<close>
  "dec_raw k kvs = (let vs = field_values k kvs in if vs = [] then None else Some (last vs))"

definition omitempty :: "string \<Rightarrow> string \<Rightarrow> jfields" where
  "omitempty k s = (if s = [] then [] else [(k, JStr s)])"

definition key_lower :: "string \<Rightarrow> bool" where
  "key_lower k \<longleftrightarrow> to_lower k = k"

section \<open>Lemmas\<close>

lemma equal_fold_key_lower: "key_lower k \<Longrightarrow> key_lower k' \<Longrightarrow> equal_fold k k' \<longleftrightarrow> k = k'"
  by (simp add: equal_fold_def key_lower_def)

lemma field_values_Nil [simp]: "field_values k [] = []"
  by (simp add: field_values_def)

lemma field_values_Cons:
  "key_lower k \<Longrightarrow> key_lower k' \<Longrightarrow>
    field_values k ((k', v) # kvs) = (if k' = k then v # field_values k kvs else field_values k kvs)"
  by (simp add: field_values_def equal_fold_key_lower)

lemma field_values_append: "field_values k (xs @ ys) = field_values k xs @ field_values k ys"
  by (simp add: field_values_def)

lemma field_values_omitempty:
  "key_lower k \<Longrightarrow> key_lower k' \<Longrightarrow>
    field_values k (omitempty k' s) = (if k' = k \<and> s \<noteq> [] then [JStr s] else [])"
  by (simp add: omitempty_def field_values_Cons)

lemma dec_field_single:
  "field_values k kvs = [v] \<Longrightarrow> v \<noteq> JNull \<Longrightarrow> d v = Some x \<Longrightarrow> dec_field d z k kvs = Some x"
  by (simp add: dec_field_def)

lemma dec_field_empty: "field_values k kvs = [] \<Longrightarrow> dec_field d z k kvs = Some z"
  by (simp add: dec_field_def)

lemma dec_list_map: "(\<And>x. x \<in> set xs \<Longrightarrow> d (e x) = Some x) \<Longrightarrow> dec_list d (map e xs) = Some xs"
  by (induction xs) auto

end
