(* ===== verification/Mq.thy ===== *)
theory Mq
  imports Json
begin

text \<open>
  The message contracts of \<open>src/pkg/mq\<close> (\<open>judge.go\<close>, \<open>submission.go\<close>, \<open>envelope.go\<close>) and the judge
  manifest of \<open>src/pkg/judge/manifest.go\<close>: the payload structs, their \<open>Validate\<close> methods, the
  routing keys, and the versioned event envelope with its encoding and decoding.

  \<open>uuid.Parse\<close> (a third-party package) enters as the parameter \<open>uuid_ok\<close>, true when parsing
  succeeds. \<open>error\<close> results carry the message of the Go error.
\<close>

section \<open>Payloads\<close>

record JudgeTask =
  jt_SubmissionID :: int64
  jt_ProblemID :: int64
  jt_Language :: string
  jt_JudgeRevision :: string
  jt_SourceObjectKey :: string
  jt_SourceSHA256 :: string
  jt_SourceSizeBytes :: int64
  jt_JudgeDeadlineAt :: time
  jt_Attempt :: int32

record JudgeCaseResult =
  cr_CaseNo :: int32
  cr_Verdict :: string
  cr_TimeMS :: int32
  cr_MemoryKB :: int32
  cr_Message :: string

record JudgeCompleted =
  jc_SubmissionID :: int64
  jc_JudgeRevision :: string
  jc_Verdict :: string
  jc_TimeMS :: int32
  jc_MemoryKB :: int32
  jc_CaseResults :: "JudgeCaseResult list"

record JudgeFailed =
  jf_SubmissionID :: int64
  jf_JudgeRevision :: string
  jf_Code :: string
  jf_Message :: string
  jf_Retryable :: bool
  jf_Reason :: string

record SubmissionJudged =
  sj_SubmissionID :: int64
  sj_ContestID :: int64
  sj_UserID :: int64
  sj_ProblemID :: int64
  sj_Verdict :: string
  sj_SubmittedAt :: time
  sj_JudgedAt :: time

record SubmissionInvalidated =
  si_SubmissionID :: int64
  si_ContestID :: int64
  si_UserID :: int64
  si_ProblemID :: int64
  si_PreviousVerdict :: string
  si_SubmittedAt :: time
  si_InvalidatedAt :: time

definition EventVersion1 :: int32 where "EventVersion1 = 1"
definition EventTypeJudgeTask :: string where "EventTypeJudgeTask = ''judge.task''"
definition EventTypeJudgeCompleted :: string where "EventTypeJudgeCompleted = ''judge.completed''"
definition EventTypeJudgeFailed :: string where "EventTypeJudgeFailed = ''judge.failed''"
definition EventSubmissionJudged :: string where "EventSubmissionJudged = ''submission.judged''"
definition EventSubmissionInvalidated :: string where
  "EventSubmissionInvalidated = ''submission.invalidated''"

definition FailureSourceUnavailable :: string where "FailureSourceUnavailable = ''SOURCE_UNAVAILABLE''"
definition FailureSourceCorrupted :: string where "FailureSourceCorrupted = ''SOURCE_CORRUPTED''"
definition FailureRevisionUnavailable :: string where
  "FailureRevisionUnavailable = ''REVISION_UNAVAILABLE''"
definition FailureRevisionCorrupted :: string where "FailureRevisionCorrupted = ''REVISION_CORRUPTED''"
definition FailureSandboxUnavailable :: string where
  "FailureSandboxUnavailable = ''SANDBOX_UNAVAILABLE''"
definition FailureSandboxInternal :: string where "FailureSandboxInternal = ''SANDBOX_INTERNAL''"
definition FailureTaskExpired :: string where "FailureTaskExpired = ''TASK_EXPIRED''"
definition FailureWorkerInternal :: string where "FailureWorkerInternal = ''WORKER_INTERNAL''"

lemmas failure_codes = FailureSourceUnavailable_def FailureSourceCorrupted_def
  FailureRevisionUnavailable_def FailureRevisionCorrupted_def FailureSandboxUnavailable_def FailureSandboxInternal_def
  FailureTaskExpired_def FailureWorkerInternal_def

section \<open>Routing and validation\<close>

definition JudgeTaskQueueArguments :: "string \<Rightarrow> string \<Rightarrow> (string \<times> string) list" where
  "JudgeTaskQueueArguments exchange deadLetterQueue =
     (let dlq = (if deadLetterQueue = [] then ''judge.dlq'' else deadLetterQueue)
      in [(''x-dead-letter-exchange'', exchange), (''x-dead-letter-routing-key'', dlq)])"

definition JudgeTaskRoutingKey :: "string \<Rightarrow> string + string" where
  "JudgeTaskRoutingKey language =
     (let l = to_lower (trim_space language)
      in if l = ''cpp'' then Inr ''judge.task.cpp''
         else if l = ''c'' then Inr ''judge.task.c''
         else if l = ''go'' then Inr ''judge.task.go''
         else if l = ''python'' then Inr ''judge.task.python''
         else if l = ''java'' then Inr ''judge.task.java''
         else Inl (''unsupported judge language '' @ l))"

definition JudgeTaskRoutingKeys :: "string list" where
  "JudgeTaskRoutingKeys =
     [''judge.task.c'', ''judge.task.cpp'', ''judge.task.go'', ''judge.task.python'', ''judge.task.java'']"

definition IsJudgeTaskRoutingKey :: "string \<Rightarrow> bool" where
  "IsJudgeTaskRoutingKey route \<longleftrightarrow>
     route \<in> {''judge.task.c'', ''judge.task.cpp'', ''judge.task.go'', ''judge.task.python'', ''judge.task.java''}"

definition SupportedLanguage :: "string \<Rightarrow> bool" where
  "SupportedLanguage language \<longleftrightarrow>
     to_lower (trim_space language) \<in> {''c'', ''cpp'', ''go'', ''python'', ''java''}"

definition mq_validSHA256 :: "string \<Rightarrow> bool" where
  "mq_validSHA256 value \<longleftrightarrow> hex_decoded_length value = Some 32 \<and> to_lower value = value"

definition validVerdict :: "string \<Rightarrow> bool" where
  "validVerdict value \<longleftrightarrow>
     trim_prefix (to_upper (trim_space value)) ''JUDGE_VERDICT_''
       \<in> {''AC'', ''WA'', ''TLE'', ''MLE'', ''RE'', ''CE''}"

definition failure_code_char :: "char \<Rightarrow> bool" where
  "failure_code_char ch \<longleftrightarrow>
     (let n = (of_char ch :: nat)
      in \<not> ((n < 65 \<or> n > 90) \<and> (n < 48 \<or> n > 57) \<and> ch \<noteq> CHR ''_''))"

definition validFailureCode :: "string \<Rightarrow> bool" where
  "validFailureCode value =
     (let v = trim_space value in if v = [] then False else list_all failure_code_char v)"

definition JudgeTask_Validate :: "JudgeTask \<Rightarrow> string option" where
  "JudgeTask_Validate t =
     (if jt_SubmissionID t \<le> 0 \<or> jt_ProblemID t \<le> 0 \<or> \<not> SupportedLanguage (jt_Language t)
         \<or> length (jt_JudgeRevision t) \<noteq> 26
      then Some ''invalid judge task identity''
      else if jt_Attempt t < 0 then Some ''invalid judge task attempt''
      else if jt_SourceObjectKey t = [] \<or> jt_SourceSizeBytes t \<le> 0
         \<or> \<not> mq_validSHA256 (jt_SourceSHA256 t)
      then Some ''invalid judge task source metadata''
      else if jt_JudgeDeadlineAt t = zero_time then Some ''invalid judge task deadline''
      else None)"

fun validate_case_results :: "int32 list \<Rightarrow> JudgeCaseResult list \<Rightarrow> string option" where
  "validate_case_results seen [] = None"
| "validate_case_results seen (r # rs) =
     (if cr_CaseNo r \<le> 0 \<or> \<not> validVerdict (cr_Verdict r) \<or> cr_TimeMS r < 0 \<or> cr_MemoryKB r < 0
      then Some ''invalid judge case result''
      else if cr_CaseNo r \<in> set seen
      then Some (''duplicate judge case result '' @ format_int (cr_CaseNo r))
      else validate_case_results (cr_CaseNo r # seen) rs)"

definition JudgeCompleted_Validate :: "JudgeCompleted \<Rightarrow> string option" where
  "JudgeCompleted_Validate e =
     (if jc_SubmissionID e \<le> 0 \<or> length (jc_JudgeRevision e) \<noteq> 26 \<or> \<not> validVerdict (jc_Verdict e)
         \<or> jc_TimeMS e < 0 \<or> jc_MemoryKB e < 0
      then Some ''invalid judge completed event''
      else validate_case_results [] (jc_CaseResults e))"

definition JudgeFailed_Validate :: "JudgeFailed \<Rightarrow> string option" where
  "JudgeFailed_Validate e =
     (if jf_SubmissionID e \<le> 0 \<or> length (jf_JudgeRevision e) \<noteq> 26
      then Some ''invalid judge failed event''
      else if trim_space (jf_Code e) = [] \<and> trim_space (jf_Reason e) = []
      then Some ''invalid judge failed event''
      else if length (jf_Code e) > 64 \<or> length (jf_Message e) > 1024 \<or> length (jf_Reason e) > 128
      then Some ''invalid judge failed event''
      else if jf_Code e \<noteq> [] \<and> \<not> validFailureCode (jf_Code e)
      then Some ''invalid judge failure code''
      else None)"

definition SubmissionJudged_Validate :: "SubmissionJudged \<Rightarrow> string option" where
  "SubmissionJudged_Validate e =
     (if sj_SubmissionID e \<le> 0 \<or> sj_ContestID e \<le> 0 \<or> sj_UserID e \<le> 0 \<or> sj_ProblemID e \<le> 0
         \<or> sj_SubmittedAt e = zero_time \<or> sj_JudgedAt e = zero_time
      then Some ''invalid submission judged identity or timestamps''
      else if sj_Verdict e \<in> {''AC'', ''WA'', ''TLE'', ''MLE'', ''RE'', ''CE'', ''SYSTEM_ERROR''}
      then None
      else Some ''invalid submission judged verdict'')"

definition SubmissionInvalidated_Validate :: "SubmissionInvalidated \<Rightarrow> string option" where
  "SubmissionInvalidated_Validate e =
     (if si_SubmissionID e \<le> 0 \<or> si_ContestID e < 0 \<or> si_UserID e \<le> 0 \<or> si_ProblemID e \<le> 0
         \<or> si_InvalidatedAt e = zero_time \<or> (si_ContestID e > 0 \<and> si_SubmittedAt e = zero_time)
      then Some ''invalid submission invalidated event'' else None)"

section \<open>The event envelope\<close>

record Envelope =
  env_EventID :: string
  env_EventType :: string
  env_EventVersion :: int32
  env_OccurredAt :: time
  env_TraceID :: string
  env_TraceParent :: string
  env_TraceState :: string
  env_CausationID :: string
  env_Data :: "json option"

record EnvelopeMetadata =
  em_EventID :: string
  em_EventType :: string
  em_EventVersion :: int32
  em_OccurredAt :: time
  em_TraceID :: string
  em_TraceParent :: string
  em_TraceState :: string
  em_CausationID :: string

definition validateMetadata :: "(string \<Rightarrow> bool) \<Rightarrow> EnvelopeMetadata \<Rightarrow> string option" where
  "validateMetadata uuid_ok m =
     (if \<not> uuid_ok (em_EventID m) then Some ''invalid event id''
      else if em_EventType m = [] \<or> em_EventVersion m \<noteq> EventVersion1 \<or> em_OccurredAt m = zero_time
      then Some ''invalid event metadata''
      else if em_CausationID m \<noteq> [] \<and> \<not> uuid_ok (em_CausationID m)
      then Some ''invalid causation id''
      else if length (em_TraceParent m) > 255 \<or> length (em_TraceState m) > 512
      then Some ''invalid trace context''
      else None)"

definition enc_envelope :: "Envelope \<Rightarrow> json option" where
  \<comment> \<open>\<open>json.Marshal(envelope)\<close>: the field tags of \<open>Envelope\<close>; an empty \<open>RawMessage\<close> is \<open>null\<close>\<close>
  "enc_envelope e =
     (if time_json_ok (env_OccurredAt e)
      then Some (JObj
        ([(''event_id'', JStr (env_EventID e)), (''event_type'', JStr (env_EventType e)),
          (''event_version'', JNum (env_EventVersion e)), (''occurred_at'', JTime (env_OccurredAt e))]
         @ omitempty ''trace_id'' (env_TraceID e)
         @ omitempty ''traceparent'' (env_TraceParent e)
         @ omitempty ''tracestate'' (env_TraceState e)
         @ omitempty ''causation_id'' (env_CausationID e)
         @ [(''data'', case env_Data e of None \<Rightarrow> JNull | Some d \<Rightarrow> d)]))
      else None)"

definition dec_envelope :: "jfields \<Rightarrow> Envelope option" where
  \<comment> \<open>\<open>json.Unmarshal(body, &envelope)\<close>\<close>
  "dec_envelope kvs =
     (case (dec_field dec_str [] ''event_id'' kvs, dec_field dec_str [] ''event_type'' kvs,
            dec_field dec_int32 0 ''event_version'' kvs, dec_field dec_time zero_time ''occurred_at'' kvs,
            dec_field dec_str [] ''trace_id'' kvs, dec_field dec_str [] ''traceparent'' kvs,
            dec_field dec_str [] ''tracestate'' kvs, dec_field dec_str [] ''causation_id'' kvs)
      of (Some i, Some ty, Some v, Some at, Some tr, Some tp, Some ts, Some ca) \<Rightarrow>
           Some \<lparr>env_EventID = i, env_EventType = ty, env_EventVersion = v, env_OccurredAt = at,
                 env_TraceID = tr, env_TraceParent = tp, env_TraceState = ts, env_CausationID = ca,
                 env_Data = dec_raw ''data'' kvs\<rparr>
       | _ \<Rightarrow> None)"

definition envelope_of_metadata :: "EnvelopeMetadata \<Rightarrow> json \<Rightarrow> Envelope" where
  "envelope_of_metadata m d =
     \<lparr>env_EventID = em_EventID m, env_EventType = em_EventType m,
      env_EventVersion = em_EventVersion m, env_OccurredAt = em_OccurredAt m,
      env_TraceID = em_TraceID m, env_TraceParent = em_TraceParent m,
      env_TraceState = em_TraceState m, env_CausationID = em_CausationID m, env_Data = Some d\<rparr>"

definition metadata_of_envelope :: "Envelope \<Rightarrow> EnvelopeMetadata" where
  "metadata_of_envelope e =
     \<lparr>em_EventID = env_EventID e, em_EventType = env_EventType e,
      em_EventVersion = env_EventVersion e, em_OccurredAt = env_OccurredAt e,
      em_TraceID = env_TraceID e, em_TraceParent = env_TraceParent e,
      em_TraceState = env_TraceState e, em_CausationID = env_CausationID e\<rparr>"

definition MarshalEnvelope ::
  "(string \<Rightarrow> bool) \<Rightarrow> EnvelopeMetadata \<Rightarrow> json option \<Rightarrow> string + json" where
  \<comment> \<open>the last argument is \<open>json.Marshal(data)\<close>, \<open>None\<close> when it fails\<close>
  "MarshalEnvelope uuid_ok metadata data =
     errE (validateMetadata uuid_ok metadata)
       (case data of None \<Rightarrow> Inl ''marshal event data''
        | Some payload \<Rightarrow>
            (case enc_envelope (envelope_of_metadata metadata payload) of
               None \<Rightarrow> Inl ''marshal envelope'' | Some body \<Rightarrow> Inr body))"

definition UnmarshalEnvelope ::
  "(string \<Rightarrow> bool) \<Rightarrow> json option \<Rightarrow> string \<Rightarrow> (json \<Rightarrow> 'a option) \<Rightarrow> string + Envelope \<times> 'a" where
  \<comment> \<open>the last argument is \<open>json.Unmarshal\<close> into the caller's struct\<close>
  "UnmarshalEnvelope uuid_ok body expectedType dec =
     (case Option.bind body (dec_struct dec_envelope) of
        None \<Rightarrow> Inl ''unmarshal event envelope''
      | Some envelope \<Rightarrow>
          errE (validateMetadata uuid_ok (metadata_of_envelope envelope))
            (guardE (expectedType \<noteq> [] \<and> env_EventType envelope \<noteq> expectedType)
               ''event type does not match''
               (case env_Data envelope of
                  None \<Rightarrow> Inl ''event data is required''
                | Some d \<Rightarrow>
                    guardE (d = JNull) ''event data is required''
                      (case dec d of None \<Rightarrow> Inl ''unmarshal event data''
                       | Some x \<Rightarrow> Inr (envelope, x)))))"

definition WithTraceContext :: "json option \<Rightarrow> string \<Rightarrow> string \<Rightarrow> string + json" where
  "WithTraceContext body traceparent tracestate =
     (case Option.bind body (dec_struct dec_envelope) of
        None \<Rightarrow> Inl ''unmarshal event envelope''
      | Some envelope \<Rightarrow>
          (case enc_envelope (envelope\<lparr>env_TraceParent := traceparent, env_TraceState := tracestate\<rparr>) of
             None \<Rightarrow> Inl ''marshal envelope'' | Some b \<Rightarrow> Inr b))"

section \<open>Payload encodings\<close>

definition enc_JudgeTask :: "JudgeTask \<Rightarrow> json option" where
  "enc_JudgeTask t =
     (if time_json_ok (jt_JudgeDeadlineAt t)
      then Some (JObj
        [(''submission_id'', JNum (jt_SubmissionID t)), (''problem_id'', JNum (jt_ProblemID t)),
         (''language'', JStr (jt_Language t)), (''judge_revision'', JStr (jt_JudgeRevision t)),
         (''source_object_key'', JStr (jt_SourceObjectKey t)),
         (''source_sha256'', JStr (jt_SourceSHA256 t)),
         (''source_size_bytes'', JNum (jt_SourceSizeBytes t)),
         (''judge_deadline_at'', JTime (jt_JudgeDeadlineAt t)), (''attempt'', JNum (jt_Attempt t))])
      else None)"

definition dec_JudgeTask_fields :: "jfields \<Rightarrow> JudgeTask option" where
  "dec_JudgeTask_fields kvs =
     (case (dec_field dec_int64 0 ''submission_id'' kvs, dec_field dec_int64 0 ''problem_id'' kvs,
            dec_field dec_str [] ''language'' kvs, dec_field dec_str [] ''judge_revision'' kvs,
            dec_field dec_str [] ''source_object_key'' kvs, dec_field dec_str [] ''source_sha256'' kvs,
            dec_field dec_int64 0 ''source_size_bytes'' kvs,
            dec_field dec_time zero_time ''judge_deadline_at'' kvs, dec_field dec_int32 0 ''attempt'' kvs)
      of (Some s, Some p, Some l, Some r, Some k, Some h, Some z, Some d, Some a) \<Rightarrow>
           Some \<lparr>jt_SubmissionID = s, jt_ProblemID = p, jt_Language = l, jt_JudgeRevision = r,
                 jt_SourceObjectKey = k, jt_SourceSHA256 = h, jt_SourceSizeBytes = z,
                 jt_JudgeDeadlineAt = d, jt_Attempt = a\<rparr>
       | _ \<Rightarrow> None)"

definition dec_JudgeTask :: "json \<Rightarrow> JudgeTask option" where
  "dec_JudgeTask = dec_struct dec_JudgeTask_fields"

definition enc_SubmissionJudged :: "SubmissionJudged \<Rightarrow> json option" where
  "enc_SubmissionJudged e =
     (if time_json_ok (sj_SubmittedAt e) \<and> time_json_ok (sj_JudgedAt e)
      then Some (JObj
        [(''submission_id'', JNum (sj_SubmissionID e)), (''contest_id'', JNum (sj_ContestID e)),
         (''user_id'', JNum (sj_UserID e)), (''problem_id'', JNum (sj_ProblemID e)),
         (''verdict'', JStr (sj_Verdict e)), (''submitted_at'', JTime (sj_SubmittedAt e)),
         (''judged_at'', JTime (sj_JudgedAt e))])
      else None)"

definition dec_SubmissionJudged_fields :: "jfields \<Rightarrow> SubmissionJudged option" where
  "dec_SubmissionJudged_fields kvs =
     (case (dec_field dec_int64 0 ''submission_id'' kvs, dec_field dec_int64 0 ''contest_id'' kvs,
            dec_field dec_int64 0 ''user_id'' kvs, dec_field dec_int64 0 ''problem_id'' kvs,
            dec_field dec_str [] ''verdict'' kvs, dec_field dec_time zero_time ''submitted_at'' kvs,
            dec_field dec_time zero_time ''judged_at'' kvs)
      of (Some s, Some c, Some u, Some p, Some v, Some sa, Some ja) \<Rightarrow>
           Some \<lparr>sj_SubmissionID = s, sj_ContestID = c, sj_UserID = u, sj_ProblemID = p,
                 sj_Verdict = v, sj_SubmittedAt = sa, sj_JudgedAt = ja\<rparr>
       | _ \<Rightarrow> None)"

definition dec_SubmissionJudged :: "json \<Rightarrow> SubmissionJudged option" where
  "dec_SubmissionJudged = dec_struct dec_SubmissionJudged_fields"

definition enc_SubmissionInvalidated :: "SubmissionInvalidated \<Rightarrow> json option" where
  \<comment> \<open>\<open>omitempty\<close> has no effect on the struct \<open>time.Time\<close>\<close>
  "enc_SubmissionInvalidated e =
     (if time_json_ok (si_SubmittedAt e) \<and> time_json_ok (si_InvalidatedAt e)
      then Some (JObj
        ([(''submission_id'', JNum (si_SubmissionID e))]
         @ (if si_ContestID e = 0 then [] else [(''contest_id'', JNum (si_ContestID e))])
         @ [(''user_id'', JNum (si_UserID e)), (''problem_id'', JNum (si_ProblemID e))]
         @ omitempty ''previous_verdict'' (si_PreviousVerdict e)
         @ [(''submitted_at'', JTime (si_SubmittedAt e)),
            (''invalidated_at'', JTime (si_InvalidatedAt e))]))
      else None)"

definition dec_SubmissionInvalidated_fields :: "jfields \<Rightarrow> SubmissionInvalidated option" where
  "dec_SubmissionInvalidated_fields kvs =
     (case (dec_field dec_int64 0 ''submission_id'' kvs, dec_field dec_int64 0 ''contest_id'' kvs,
            dec_field dec_int64 0 ''user_id'' kvs, dec_field dec_int64 0 ''problem_id'' kvs,
            dec_field dec_str [] ''previous_verdict'' kvs,
            dec_field dec_time zero_time ''submitted_at'' kvs,
            dec_field dec_time zero_time ''invalidated_at'' kvs)
      of (Some s, Some c, Some u, Some p, Some v, Some sa, Some ia) \<Rightarrow>
           Some \<lparr>si_SubmissionID = s, si_ContestID = c, si_UserID = u, si_ProblemID = p,
                 si_PreviousVerdict = v, si_SubmittedAt = sa, si_InvalidatedAt = ia\<rparr>
       | _ \<Rightarrow> None)"

definition dec_SubmissionInvalidated :: "json \<Rightarrow> SubmissionInvalidated option" where
  "dec_SubmissionInvalidated = dec_struct dec_SubmissionInvalidated_fields"

definition enc_JudgeCaseResult :: "JudgeCaseResult \<Rightarrow> json" where
  "enc_JudgeCaseResult r =
     JObj ([(''case_no'', JNum (cr_CaseNo r)), (''verdict'', JStr (cr_Verdict r)),
            (''time_ms'', JNum (cr_TimeMS r)), (''memory_kb'', JNum (cr_MemoryKB r))]
           @ omitempty ''message'' (cr_Message r))"

definition dec_JudgeCaseResult_fields :: "jfields \<Rightarrow> JudgeCaseResult option" where
  "dec_JudgeCaseResult_fields kvs =
     (case (dec_field dec_int32 0 ''case_no'' kvs, dec_field dec_str [] ''verdict'' kvs,
            dec_field dec_int32 0 ''time_ms'' kvs, dec_field dec_int32 0 ''memory_kb'' kvs,
            dec_field dec_str [] ''message'' kvs)
      of (Some n, Some v, Some t, Some m, Some s) \<Rightarrow>
           Some \<lparr>cr_CaseNo = n, cr_Verdict = v, cr_TimeMS = t, cr_MemoryKB = m, cr_Message = s\<rparr>
       | _ \<Rightarrow> None)"

definition enc_JudgeCompleted :: "JudgeCompleted \<Rightarrow> json option" where
  "enc_JudgeCompleted e =
     Some (JObj
       [(''submission_id'', JNum (jc_SubmissionID e)), (''judge_revision'', JStr (jc_JudgeRevision e)),
        (''verdict'', JStr (jc_Verdict e)), (''time_ms'', JNum (jc_TimeMS e)),
        (''memory_kb'', JNum (jc_MemoryKB e)),
        (''case_results'', JArr (map enc_JudgeCaseResult (jc_CaseResults e)))])"

definition dec_JudgeCompleted_fields :: "jfields \<Rightarrow> JudgeCompleted option" where
  "dec_JudgeCompleted_fields kvs =
     (case (dec_field dec_int64 0 ''submission_id'' kvs, dec_field dec_str [] ''judge_revision'' kvs,
            dec_field dec_str [] ''verdict'' kvs, dec_field dec_int32 0 ''time_ms'' kvs,
            dec_field dec_int32 0 ''memory_kb'' kvs,
            dec_field (dec_array (dec_struct dec_JudgeCaseResult_fields)) [] ''case_results'' kvs)
      of (Some s, Some r, Some v, Some t, Some m, Some cs) \<Rightarrow>
           Some \<lparr>jc_SubmissionID = s, jc_JudgeRevision = r, jc_Verdict = v, jc_TimeMS = t,
                 jc_MemoryKB = m, jc_CaseResults = cs\<rparr>
       | _ \<Rightarrow> None)"

definition dec_JudgeCompleted :: "json \<Rightarrow> JudgeCompleted option" where
  "dec_JudgeCompleted = dec_struct dec_JudgeCompleted_fields"

definition enc_JudgeFailed :: "JudgeFailed \<Rightarrow> json option" where
  "enc_JudgeFailed e =
     Some (JObj
       ([(''submission_id'', JNum (jf_SubmissionID e)), (''judge_revision'', JStr (jf_JudgeRevision e))]
        @ omitempty ''code'' (jf_Code e) @ omitempty ''message'' (jf_Message e)
        @ [(''retryable'', JBool (jf_Retryable e))] @ omitempty ''reason'' (jf_Reason e)))"

definition dec_JudgeFailed_fields :: "jfields \<Rightarrow> JudgeFailed option" where
  "dec_JudgeFailed_fields kvs =
     (case (dec_field dec_int64 0 ''submission_id'' kvs, dec_field dec_str [] ''judge_revision'' kvs,
            dec_field dec_str [] ''code'' kvs, dec_field dec_str [] ''message'' kvs,
            dec_field dec_bool False ''retryable'' kvs, dec_field dec_str [] ''reason'' kvs)
      of (Some s, Some r, Some c, Some m, Some t, Some x) \<Rightarrow>
           Some \<lparr>jf_SubmissionID = s, jf_JudgeRevision = r, jf_Code = c, jf_Message = m,
                 jf_Retryable = t, jf_Reason = x\<rparr>
       | _ \<Rightarrow> None)"

definition dec_JudgeFailed :: "json \<Rightarrow> JudgeFailed option" where
  "dec_JudgeFailed = dec_struct dec_JudgeFailed_fields"

section \<open>The judge manifest\<close>

record ManifestObject =
  ob_ObjectKey :: string
  ob_SHA256 :: string
  ob_SizeBytes :: int64

record ManifestTestcase =
  mt_CaseNo :: int32
  mt_Input :: ManifestObject
  mt_Output :: ManifestObject

record Manifest =
  mf_ManifestVersion :: int32
  mf_ProblemID :: int64
  mf_JudgeRevision :: string
  mf_TimeLimitMS :: int32
  mf_MemoryLimitKB :: int32
  mf_Testcases :: "ManifestTestcase list"

definition ManifestVersion :: int32 where
  "ManifestVersion = 1"

definition ManifestObjectKey :: "int64 \<Rightarrow> string \<Rightarrow> string + string" where
  "ManifestObjectKey problemID judgeRevision =
     (if problemID \<le> 0 \<or> length judgeRevision \<noteq> 26 then Inl ''invalid judge revision identity''
      else Inr (''problem-'' @ format_int problemID @ ''/judge-revisions/'' @ judgeRevision
                @ ''/manifest.json''))"

definition Object_validate :: "ManifestObject \<Rightarrow> string option" where
  "Object_validate o1 =
     (if ob_ObjectKey o1 = [] \<or> ob_SizeBytes o1 \<le> 0 then Some ''invalid object metadata''
      else if hex_decoded_length (ob_SHA256 o1) \<noteq> Some 32 then Some ''invalid sha256''
      else None)"

fun validate_testcases :: "int32 list \<Rightarrow> ManifestTestcase list \<Rightarrow> string option" where
  "validate_testcases seen [] = None"
| "validate_testcases seen (t # ts) =
     (if mt_CaseNo t \<le> 0 then Some ''invalid testcase number''
      else if mt_CaseNo t \<in> set seen
      then Some (''duplicate testcase number '' @ format_int (mt_CaseNo t))
      else case Object_validate (mt_Input t) of
             Some e \<Rightarrow> Some (''testcase '' @ format_int (mt_CaseNo t) @ '' input: '' @ e)
           | None \<Rightarrow>
               (case Object_validate (mt_Output t) of
                  Some e \<Rightarrow> Some (''testcase '' @ format_int (mt_CaseNo t) @ '' output: '' @ e)
                | None \<Rightarrow> validate_testcases (mt_CaseNo t # seen) ts))"

definition Manifest_Validate :: "Manifest \<Rightarrow> string option" where
  "Manifest_Validate m =
     (if mf_ManifestVersion m \<noteq> ManifestVersion
      then Some (''unsupported manifest version '' @ format_int (mf_ManifestVersion m))
      else if mf_ProblemID m \<le> 0 \<or> length (mf_JudgeRevision m) \<noteq> 26
      then Some ''invalid manifest identity''
      else if mf_TimeLimitMS m \<le> 0 \<or> mf_MemoryLimitKB m \<le> 0
      then Some ''invalid manifest resource limits''
      else if mf_Testcases m = [] then Some ''manifest has no testcases''
      else validate_testcases [] (mf_Testcases m))"

text \<open>The \<open>int32\<close> fields of a case result, as ranges of their integers.\<close>

definition int32_case :: "JudgeCaseResult \<Rightarrow> bool" where
  "int32_case r \<longleftrightarrow> cr_CaseNo r \<in> {-2147483648..max_int32} \<and> cr_TimeMS r \<in> {-2147483648..max_int32}
     \<and> cr_MemoryKB r \<in> {-2147483648..max_int32}"

section \<open>Lemmas\<close>

lemma wire_keys [simp]:
  "key_lower ''event_id''"
  "key_lower ''event_type''"
  "key_lower ''event_version''"
  "key_lower ''occurred_at''"
  "key_lower ''trace_id''"
  "key_lower ''traceparent''"
  "key_lower ''tracestate''"
  "key_lower ''causation_id''"
  "key_lower ''data''"
  "key_lower ''submission_id''"
  "key_lower ''problem_id''"
  "key_lower ''language''"
  "key_lower ''judge_revision''"
  "key_lower ''source_object_key''"
  "key_lower ''source_sha256''"
  "key_lower ''source_size_bytes''"
  "key_lower ''judge_deadline_at''"
  "key_lower ''attempt''"
  "key_lower ''contest_id''"
  "key_lower ''user_id''"
  "key_lower ''verdict''"
  "key_lower ''submitted_at''"
  "key_lower ''judged_at''"
  "key_lower ''previous_verdict''"
  "key_lower ''invalidated_at''"
  "key_lower ''case_no''"
  "key_lower ''time_ms''"
  "key_lower ''memory_kb''"
  "key_lower ''message''"
  "key_lower ''case_results''"
  "key_lower ''code''"
  "key_lower ''retryable''"
  "key_lower ''reason''"
  by code_simp+

lemmas field_eval = field_values_Cons field_values_append field_values_omitempty

lemma dec_enc_envelope:
  assumes "enc_envelope e = Some b" and "- 2147483648 \<le> env_EventVersion e"
    and "env_EventVersion e \<le> max_int32"
  shows "dec_struct dec_envelope b =
           Some (e\<lparr>env_Data := Some (case env_Data e of None \<Rightarrow> JNull | Some d \<Rightarrow> d)\<rparr>)"
  using assms
  by (auto simp: enc_envelope_def dec_envelope_def dec_field_def dec_raw_def field_eval Let_def
      split: if_splits)

lemma dec_enc_JudgeTask:
  assumes "enc_JudgeTask t = Some b"
    and "jt_SubmissionID t \<in> {min_int64..max_int64}" "jt_ProblemID t \<in> {min_int64..max_int64}"
    and "jt_SourceSizeBytes t \<in> {min_int64..max_int64}" "jt_Attempt t \<in> {-2147483648..max_int32}"
  shows "dec_JudgeTask b = Some t"
  using assms
  by (auto simp: enc_JudgeTask_def dec_JudgeTask_def dec_JudgeTask_fields_def dec_field_def
      field_eval Let_def split: if_splits)

lemma enc_JudgeTask_not_null: "enc_JudgeTask t = Some b \<Longrightarrow> b \<noteq> JNull"
  by (auto simp: enc_JudgeTask_def split: if_splits)

lemma dec_enc_SubmissionJudged:
  assumes "enc_SubmissionJudged e = Some b"
    and "sj_SubmissionID e \<in> {min_int64..max_int64}" "sj_ContestID e \<in> {min_int64..max_int64}"
    and "sj_UserID e \<in> {min_int64..max_int64}" "sj_ProblemID e \<in> {min_int64..max_int64}"
  shows "dec_SubmissionJudged b = Some e \<and> b \<noteq> JNull"
  using assms
  by (auto simp: enc_SubmissionJudged_def dec_SubmissionJudged_def dec_SubmissionJudged_fields_def
      dec_field_def field_eval Let_def split: if_splits)

lemma dec_enc_SubmissionInvalidated:
  assumes "enc_SubmissionInvalidated e = Some b"
    and "si_SubmissionID e \<in> {min_int64..max_int64}" "si_ContestID e \<in> {min_int64..max_int64}"
    and "si_UserID e \<in> {min_int64..max_int64}" "si_ProblemID e \<in> {min_int64..max_int64}"
  shows "dec_SubmissionInvalidated b = Some e \<and> b \<noteq> JNull"
  using assms
  by (auto simp: enc_SubmissionInvalidated_def dec_SubmissionInvalidated_def
      dec_SubmissionInvalidated_fields_def dec_field_def field_eval Let_def split: if_splits)

lemma dec_enc_JudgeCaseResult:
  "int32_case r \<Longrightarrow> dec_struct dec_JudgeCaseResult_fields (enc_JudgeCaseResult r) = Some r"
  by (auto simp: int32_case_def enc_JudgeCaseResult_def dec_JudgeCaseResult_fields_def dec_field_def
      field_eval Let_def)

lemma dec_enc_JudgeCompleted:
  assumes "enc_JudgeCompleted e = Some b"
    and "jc_SubmissionID e \<in> {min_int64..max_int64}"
    and "jc_TimeMS e \<in> {-2147483648..max_int32}" "jc_MemoryKB e \<in> {-2147483648..max_int32}"
    and "\<forall>r \<in> set (jc_CaseResults e). int32_case r"
  shows "dec_JudgeCompleted b = Some e \<and> b \<noteq> JNull"
proof -
  have "dec_list (dec_struct dec_JudgeCaseResult_fields) (map enc_JudgeCaseResult (jc_CaseResults e))
        = Some (jc_CaseResults e)"
    using assms(5) by (intro dec_list_map) (simp add: dec_enc_JudgeCaseResult)
  then show ?thesis
    using assms(1-4)
    by (auto simp: enc_JudgeCompleted_def dec_JudgeCompleted_def dec_JudgeCompleted_fields_def
        dec_field_def field_eval Let_def split: if_splits)
qed

lemma dec_enc_JudgeFailed:
  assumes "enc_JudgeFailed e = Some b" and "jf_SubmissionID e \<in> {min_int64..max_int64}"
  shows "dec_JudgeFailed b = Some e \<and> b \<noteq> JNull"
  using assms
  by (auto simp: enc_JudgeFailed_def dec_JudgeFailed_def dec_JudgeFailed_fields_def dec_field_def
      field_eval Let_def split: if_splits)

lemma validateMetadata_version: "validateMetadata uuid_ok m = None \<Longrightarrow> em_EventVersion m = 1"
  by (simp add: validateMetadata_def EventVersion1_def split: if_splits)

lemma metadata_envelope [simp]: "metadata_of_envelope (envelope_of_metadata m d) = m"
  by (simp add: metadata_of_envelope_def envelope_of_metadata_def)

lemma unmarshal_marshal:
  assumes "MarshalEnvelope uuid_ok m (Some d) = Inr body" and "d \<noteq> JNull" and "dec d = Some x"
  shows "UnmarshalEnvelope uuid_ok (Some body) (em_EventType m) dec = Inr (envelope_of_metadata m d, x)"
proof -
  let ?e = "envelope_of_metadata m d"
  have valid: "validateMetadata uuid_ok m = None" and enc: "enc_envelope ?e = Some body"
    using assms(1) by (auto simp: MarshalEnvelope_def split: option.splits)
  have "env_EventVersion ?e = 1" using validateMetadata_version [OF valid] by (simp add: envelope_of_metadata_def)
  with dec_enc_envelope [OF enc] have "dec_struct dec_envelope body = Some ?e"
    by (simp add: max_int32_def) (simp add: envelope_of_metadata_def)
  moreover have "env_EventType ?e = em_EventType m" "env_Data ?e = Some d"
    by (simp_all add: envelope_of_metadata_def)
  ultimately show ?thesis using valid assms(2,3) by (simp add: UnmarshalEnvelope_def)
qed

section \<open>Properties\<close>

text \<open>
  Events survive the wire: whatever event a producer marshals, a consumer that expects its type
  unmarshals it to the same metadata and the same payload; a task, a judged submission and an
  invalidated one are decoded to exactly the values that were encoded.
\<close>

theorem events_round_trip:
  assumes "MarshalEnvelope uuid_ok m (enc_JudgeTask t) = Inr body1"
    and "jt_SubmissionID t \<in> {min_int64..max_int64}" and "jt_ProblemID t \<in> {min_int64..max_int64}"
    and "jt_SourceSizeBytes t \<in> {min_int64..max_int64}" and "jt_Attempt t \<in> {-2147483648..max_int32}"
    and "MarshalEnvelope uuid_ok m' (enc_SubmissionJudged j) = Inr body2"
    and "sj_SubmissionID j \<in> {min_int64..max_int64}" and "sj_ContestID j \<in> {min_int64..max_int64}"
    and "sj_UserID j \<in> {min_int64..max_int64}" and "sj_ProblemID j \<in> {min_int64..max_int64}"
    and "MarshalEnvelope uuid_ok m'' (enc_SubmissionInvalidated i) = Inr body3"
    and "si_SubmissionID i \<in> {min_int64..max_int64}" and "si_ContestID i \<in> {min_int64..max_int64}"
    and "si_UserID i \<in> {min_int64..max_int64}" and "si_ProblemID i \<in> {min_int64..max_int64}"
  shows "\<exists>e1 e2 e3. UnmarshalEnvelope uuid_ok (Some body1) (em_EventType m) dec_JudgeTask = Inr (e1, t)
    \<and> metadata_of_envelope e1 = m
    \<and> UnmarshalEnvelope uuid_ok (Some body2) (em_EventType m') dec_SubmissionJudged = Inr (e2, j)
    \<and> metadata_of_envelope e2 = m'
    \<and> UnmarshalEnvelope uuid_ok (Some body3) (em_EventType m'') dec_SubmissionInvalidated = Inr (e3, i)
    \<and> metadata_of_envelope e3 = m''"
proof -
  obtain d1 where d1: "enc_JudgeTask t = Some d1"
    using assms(1) by (cases "enc_JudgeTask t") (auto simp: MarshalEnvelope_def errE_def split: option.splits)
  obtain d2 where d2: "enc_SubmissionJudged j = Some d2"
    using assms(6) by (cases "enc_SubmissionJudged j") (auto simp: MarshalEnvelope_def errE_def split: option.splits)
  obtain d3 where d3: "enc_SubmissionInvalidated i = Some d3"
    using assms(11) by (cases "enc_SubmissionInvalidated i") (auto simp: MarshalEnvelope_def errE_def split: option.splits)
  show ?thesis
    using unmarshal_marshal [where dec = dec_JudgeTask, OF assms(1) [unfolded d1] enc_JudgeTask_not_null [OF d1]
        dec_enc_JudgeTask [OF d1 assms(2-5)]]
      unmarshal_marshal [where dec = dec_SubmissionJudged, OF assms(6) [unfolded d2] dec_enc_SubmissionJudged [OF d2 assms(7-10), THEN conjunct2]
        dec_enc_SubmissionJudged [OF d2 assms(7-10), THEN conjunct1]]
      unmarshal_marshal [where dec = dec_SubmissionInvalidated, OF assms(11) [unfolded d3] dec_enc_SubmissionInvalidated [OF d3 assms(12-15), THEN conjunct2]
        dec_enc_SubmissionInvalidated [OF d3 assms(12-15), THEN conjunct1]]
    by (metis metadata_envelope)
qed

theorem events_round_trip_witness:
  "\<exists>body. MarshalEnvelope (\<lambda>u. True) \<lparr>em_EventID = ''e'', em_EventType = ''judge.task'', em_EventVersion = 1,
      em_OccurredAt = 5, em_TraceID = [], em_TraceParent = [], em_TraceState = [], em_CausationID = []\<rparr>
      (enc_JudgeTask \<lparr>jt_SubmissionID = 1, jt_ProblemID = 2, jt_Language = ''go'', jt_JudgeRevision = [],
        jt_SourceObjectKey = ''k'', jt_SourceSHA256 = [], jt_SourceSizeBytes = 3, jt_JudgeDeadlineAt = 9,
        jt_Attempt = 0\<rparr>) = Inr body
    \<and> (\<exists>e t. UnmarshalEnvelope (\<lambda>u. True) (Some body) ''judge.task'' dec_JudgeTask = Inr (e, t) \<and> jt_ProblemID t = 2)"
proof -
  let ?m = "\<lparr>em_EventID = ''e'', em_EventType = ''judge.task'', em_EventVersion = 1,
      em_OccurredAt = 5, em_TraceID = [], em_TraceParent = [], em_TraceState = [], em_CausationID = []\<rparr>"
  let ?t = "\<lparr>jt_SubmissionID = 1, jt_ProblemID = 2, jt_Language = ''go'', jt_JudgeRevision = [],
        jt_SourceObjectKey = ''k'', jt_SourceSHA256 = [], jt_SourceSizeBytes = 3, jt_JudgeDeadlineAt = 9,
        jt_Attempt = 0\<rparr>"
  let ?j = "\<lparr>sj_SubmissionID = 1, sj_ContestID = 1, sj_UserID = 1, sj_ProblemID = 1, sj_Verdict = ''AC'',
        sj_SubmittedAt = 1, sj_JudgedAt = 2\<rparr>"
  let ?i = "\<lparr>si_SubmissionID = 1, si_ContestID = 0, si_UserID = 1, si_ProblemID = 1, si_PreviousVerdict = [],
        si_SubmittedAt = 1, si_InvalidatedAt = 2\<rparr>"
  note defs = MarshalEnvelope_def validateMetadata_def EventVersion1_def zero_time_def enc_envelope_def
    envelope_of_metadata_def time_json_ok_def
  obtain b1 where b1: "MarshalEnvelope (\<lambda>u. True) ?m (enc_JudgeTask ?t) = Inr b1"
    by (simp add: defs enc_JudgeTask_def)
  obtain b2 where b2: "MarshalEnvelope (\<lambda>u. True) ?m (enc_SubmissionJudged ?j) = Inr b2"
    by (simp add: defs enc_SubmissionJudged_def)
  obtain b3 where b3: "MarshalEnvelope (\<lambda>u. True) ?m (enc_SubmissionInvalidated ?i) = Inr b3"
    by (simp add: defs enc_SubmissionInvalidated_def)
  from events_round_trip [OF b1 _ _ _ _ b2 _ _ _ _ b3] b1 show ?thesis
    by (intro exI [of _ b1]) (auto simp: min_int64_def max_int64_def max_int32_def)
qed

end
