(* ===== verification/Judge_Types.thy ===== *)
theory Judge_Types
  imports Mq
begin

text \<open>
  The domain of the judge service, \<open>src/services/judge/internal/biz\<close>: the protobuf enums
  (\<open>api/submission/v1\<close>), the structs of \<open>submission.go\<close>, the errors of \<open>errors.go\<close>, the status
  state machine of \<open>state_machine.go\<close> and the validation functions at the end of \<open>submission.go\<close>.

  Protobuf enums are open: a value the schema does not name is \<open>ST_OTHER n\<close> or \<open>VD_OTHER n\<close>.
  Third-party parsers are parameters: \<open>uuid_parse\<close> gives the canonical form of a UUID
  (\<open>uuid.Parse\<close> followed by \<open>String\<close>), \<open>ulid_ok\<close> says whether \<open>ulid.ParseStrict\<close> accepts.
  \<open>sha256\<close> is the digest function.
\<close>

section \<open>Definitions\<close>

datatype SubmissionStatus =
    ST_UNSPECIFIED | ST_QUEUED | ST_COMPILING | ST_RUNNING | ST_DONE | ST_RETRY_WAIT
  | ST_CANCELLED | ST_INVALIDATED | ST_OTHER int32

datatype JudgeVerdict =
    VD_UNSPECIFIED | VD_AC | VD_WA | VD_TLE | VD_MLE | VD_RE | VD_CE | VD_SYSTEM_ERROR
  | VD_OTHER int32

fun status_String :: "SubmissionStatus \<Rightarrow> string" where
  "status_String ST_UNSPECIFIED = ''SUBMISSION_STATUS_UNSPECIFIED''"
| "status_String ST_QUEUED = ''SUBMISSION_STATUS_QUEUED''"
| "status_String ST_COMPILING = ''SUBMISSION_STATUS_COMPILING''"
| "status_String ST_RUNNING = ''SUBMISSION_STATUS_RUNNING''"
| "status_String ST_DONE = ''SUBMISSION_STATUS_DONE''"
| "status_String ST_RETRY_WAIT = ''SUBMISSION_STATUS_RETRY_WAIT''"
| "status_String ST_CANCELLED = ''SUBMISSION_STATUS_CANCELLED''"
| "status_String ST_INVALIDATED = ''SUBMISSION_STATUS_INVALIDATED''"
| "status_String (ST_OTHER n) = format_int n"

fun verdict_String :: "JudgeVerdict \<Rightarrow> string" where
  "verdict_String VD_UNSPECIFIED = ''JUDGE_VERDICT_UNSPECIFIED''"
| "verdict_String VD_AC = ''JUDGE_VERDICT_AC''"
| "verdict_String VD_WA = ''JUDGE_VERDICT_WA''"
| "verdict_String VD_TLE = ''JUDGE_VERDICT_TLE''"
| "verdict_String VD_MLE = ''JUDGE_VERDICT_MLE''"
| "verdict_String VD_RE = ''JUDGE_VERDICT_RE''"
| "verdict_String VD_CE = ''JUDGE_VERDICT_CE''"
| "verdict_String VD_SYSTEM_ERROR = ''JUDGE_VERDICT_SYSTEM_ERROR''"
| "verdict_String (VD_OTHER n) = format_int n"

definition named_statuses :: "SubmissionStatus list" where
  "named_statuses = [ST_UNSPECIFIED, ST_QUEUED, ST_COMPILING, ST_RUNNING, ST_DONE, ST_RETRY_WAIT,
     ST_CANCELLED, ST_INVALIDATED]"

definition named_verdicts :: "JudgeVerdict list" where
  "named_verdicts = [VD_UNSPECIFIED, VD_AC, VD_WA, VD_TLE, VD_MLE, VD_RE, VD_CE, VD_SYSTEM_ERROR]"

fun status_number :: "SubmissionStatus \<Rightarrow> int32" where
  \<comment> \<open>the enum value, as \<open>encoding/json\<close> writes it\<close>
  "status_number ST_UNSPECIFIED = 0"
| "status_number ST_QUEUED = 1"
| "status_number ST_COMPILING = 2"
| "status_number ST_RUNNING = 3"
| "status_number ST_DONE = 4"
| "status_number ST_RETRY_WAIT = 5"
| "status_number ST_CANCELLED = 6"
| "status_number ST_INVALIDATED = 7"
| "status_number (ST_OTHER n) = n"

definition status_of_number :: "int32 \<Rightarrow> SubmissionStatus" where
  "status_of_number n =
     (case find (\<lambda>s. status_number s = n) named_statuses of Some s \<Rightarrow> s | None \<Rightarrow> ST_OTHER n)"

datatype judge_error =
    InvalidArgument string
  | Unauthenticated string
  | PermissionDenied string
  | SubmissionNotFound
  | ProblemUnavailable string
  | InvalidTransition string
  | IdempotencyConflict
  | IdempotencyInProgress
  | ConcurrentRejudge
  | DependencyUnavailable string
  | Internal string

fun judge_error_code :: "judge_error \<Rightarrow> int" where
  "judge_error_code (InvalidArgument _) = 400"
| "judge_error_code (Unauthenticated _) = 401"
| "judge_error_code (PermissionDenied _) = 403"
| "judge_error_code SubmissionNotFound = 404"
| "judge_error_code (ProblemUnavailable _) = 412"
| "judge_error_code (InvalidTransition _) = 412"
| "judge_error_code IdempotencyConflict = 409"
| "judge_error_code IdempotencyInProgress = 409"
| "judge_error_code ConcurrentRejudge = 409"
| "judge_error_code (DependencyUnavailable _) = 503"
| "judge_error_code (Internal _) = 500"

record Submission =
  sub_ID :: int64
  sub_UserID :: int64
  sub_ProblemID :: int64
  sub_ContestID :: int64
  sub_Language :: string
  sub_SourceObjectKey :: string
  sub_SourceSHA256 :: string
  sub_SourceSizeBytes :: int64
  sub_JudgeRevision :: string
  sub_Status :: SubmissionStatus
  sub_Verdict :: JudgeVerdict
  sub_TimeMS :: "int32 option"
  sub_MemoryKB :: "int32 option"
  sub_RetryCount :: int32
  sub_SystemErrorReason :: string
  sub_JudgeDeadlineAt :: time
  sub_CreatedAt :: time
  sub_JudgedAt :: "time option"
  sub_InvalidatedAt :: "time option"
  sub_UpdatedAt :: time

record CaseResult =
  bc_ID :: int64
  bc_SubmissionID :: int64
  bc_CaseNo :: int32
  bc_Verdict :: JudgeVerdict
  bc_TimeMS :: "int32 option"
  bc_MemoryKB :: "int32 option"
  bc_Message :: string
  bc_CreatedAt :: time

record JudgeResult =
  jr_Submission :: Submission
  jr_Cases :: "CaseResult list"

record JudgeProfile =
  jp_ProblemID :: int64
  jp_TimeLimitMS :: int32
  jp_MemoryLimitKB :: int32
  jp_JudgeRevision :: string

record Actor =
  ac_ID :: int64
  ac_Roles :: "string list"
  ac_RequestID :: string
  ac_TraceID :: string

record ListFilter =
  lf_UserID :: int64
  lf_ProblemID :: int64
  lf_Status :: SubmissionStatus
  lf_Language :: string
  lf_Page :: int32
  lf_PageSize :: int32

record SubmissionPage =
  sp_Items :: "Submission list"
  sp_Page :: int32
  sp_PageSize :: int32
  sp_Total :: int64

record SourceObject =
  so_Key :: string
  so_SHA256 :: string
  so_Size :: int64

record IdempotencyRequest =
  ir_ActorID :: int64
  ir_Operation :: string
  ir_Key :: string
  ir_RequestHash :: string
  ir_ExpiresAt :: time

record IdempotencyRecord = IdempotencyRequest +
  ir_Response :: "json option"
  ir_CreatedAt :: time

record CreateSubmissionInput =
  ci_ContestStartAt :: time
  ci_ContestEndAt :: time
  ci_Actor :: Actor
  ci_ProblemID :: int64
  ci_ContestID :: int64
  ci_Language :: string
  ci_SourceCode :: bytes
  ci_IdempotencyKey :: string

record RejudgeSubmissionInput =
  ri_Actor :: Actor
  ri_SubmissionID :: int64
  ri_IdempotencyKey :: string

record CreateSubmissionCommand =
  cc_ContestStartAt :: time
  cc_ContestEndAt :: time
  cc_Submission :: Submission
  cc_Idempotency :: IdempotencyRequest
  cc_OutboxEventID :: string

record CreateSubmissionResult =
  cs_SubmissionID :: int64
  cs_Status :: SubmissionStatus
  cs_Replayed :: bool

record RejudgeSubmissionCommand =
  rc_SubmissionID :: int64
  rc_JudgeRevision :: string
  rc_JudgeDeadlineAt :: time
  rc_Idempotency :: IdempotencyRequest
  rc_InvalidatedOutboxEventID :: string
  rc_RequestedOutboxEventID :: string

record RejudgeSubmissionResult =
  rr_InvalidatedSubmissionID :: int64
  rr_Submission :: Submission
  rr_Replayed :: bool

definition MaxSourceSizeBytes :: int64 where "MaxSourceSizeBytes = 1048576"
definition MaxObjectKeyLength :: int where "MaxObjectKeyLength = 512"
definition MaxPageSize :: int32 where "MaxPageSize = 100"
definition DefaultPageSize :: int32 where "DefaultPageSize = 20"
definition MaxRetryCount :: int32 where "MaxRetryCount = 3"
definition IdempotencyTTL :: duration where "IdempotencyTTL = 24 * Hour"
definition JudgeQueueDeadline :: duration where "JudgeQueueDeadline = 5 * Minute"
definition OperationCreateSubmission :: string where
  "OperationCreateSubmission = ''CreateSubmission''"
definition OperationRejudgeSubmission :: string where
  "OperationRejudgeSubmission = ''RejudgeSubmission''"
definition EventTypeJudgeRequested :: string where "EventTypeJudgeRequested = ''judge.requested''"

definition empty_submission :: Submission where
  \<comment> \<open>\<open>Submission{}\<close>\<close>
  "empty_submission =
     \<lparr>sub_ID = 0, sub_UserID = 0, sub_ProblemID = 0, sub_ContestID = 0, sub_Language = [],
      sub_SourceObjectKey = [], sub_SourceSHA256 = [], sub_SourceSizeBytes = 0,
      sub_JudgeRevision = [], sub_Status = ST_UNSPECIFIED, sub_Verdict = VD_UNSPECIFIED,
      sub_TimeMS = None, sub_MemoryKB = None, sub_RetryCount = 0, sub_SystemErrorReason = [],
      sub_JudgeDeadlineAt = zero_time, sub_CreatedAt = zero_time, sub_JudgedAt = None,
      sub_InvalidatedAt = None, sub_UpdatedAt = zero_time\<rparr>"

subsection \<open>The status state machine\<close>

fun allowedTransitions :: "SubmissionStatus \<Rightarrow> SubmissionStatus list" where
  "allowedTransitions ST_QUEUED = [ST_COMPILING, ST_CANCELLED, ST_INVALIDATED]"
| "allowedTransitions ST_COMPILING =
     [ST_RUNNING, ST_DONE, ST_RETRY_WAIT, ST_CANCELLED, ST_INVALIDATED]"
| "allowedTransitions ST_RUNNING = [ST_DONE, ST_RETRY_WAIT, ST_CANCELLED, ST_INVALIDATED]"
| "allowedTransitions ST_RETRY_WAIT = [ST_QUEUED, ST_CANCELLED, ST_INVALIDATED]"
| "allowedTransitions ST_DONE = [ST_INVALIDATED]"
| "allowedTransitions _ = []"

definition CanTransition :: "SubmissionStatus \<Rightarrow> SubmissionStatus \<Rightarrow> bool" where
  "CanTransition from to \<longleftrightarrow> to \<in> set (allowedTransitions from)"

definition ValidateTransition :: "SubmissionStatus \<Rightarrow> SubmissionStatus \<Rightarrow> judge_error option" where
  "ValidateTransition from to =
     (if \<not> CanTransition from to
      then Some (InvalidTransition (''submission cannot transition from '' @ status_String from
                   @ '' to '' @ status_String to))
      else None)"

definition CanInvalidate :: "SubmissionStatus \<Rightarrow> bool" where
  "CanInvalidate status = CanTransition status ST_INVALIDATED"

subsection \<open>Filters, actors and validation\<close>

definition Normalized :: "ListFilter \<Rightarrow> ListFilter" where
  "Normalized f =
     (let f1 = (if lf_Page f < 1 then f\<lparr>lf_Page := 1\<rparr> else f);
          f2 = (if lf_PageSize f1 < 1 then f1\<lparr>lf_PageSize := DefaultPageSize\<rparr> else f1);
          f3 = (if lf_PageSize f2 > MaxPageSize then f2\<lparr>lf_PageSize := MaxPageSize\<rparr> else f2)
      in f3\<lparr>lf_Language := to_lower (trim_space (lf_Language f3))\<rparr>)"

definition requireActor :: "Actor \<Rightarrow> judge_error option" where
  "requireActor actor =
     (if ac_ID actor \<le> 0 then Some (Unauthenticated ''trusted actor is missing'') else None)"

definition actorIsAdmin :: "Actor \<Rightarrow> bool" where
  "actorIsAdmin actor \<longleftrightarrow>
     (\<exists>role \<in> set (ac_Roles actor). to_lower (trim_space role) \<in> {''admin'', ''system_admin''})"

definition biz_SupportedLanguage :: "string \<Rightarrow> bool" where
  "biz_SupportedLanguage language \<longleftrightarrow>
     to_lower (trim_space language) \<in> {''c'', ''cpp'', ''go'', ''python'', ''java''}"

definition LanguageExtension :: "string \<Rightarrow> string option" where
  "LanguageExtension language =
     (let l = to_lower (trim_space language)
      in if l = ''c'' then Some ''c'' else if l = ''cpp'' then Some ''cpp''
         else if l = ''go'' then Some ''go'' else if l = ''python'' then Some ''py''
         else if l = ''java'' then Some ''java'' else None)"

definition biz_validSHA256 :: "string \<Rightarrow> bool" where
  "biz_validSHA256 value =
     (if length value \<noteq> 64 \<or> to_lower value \<noteq> value then False
      else hex_decoded_length value = Some 32)"

definition ValidateJudgeRevision :: "(string \<Rightarrow> bool) \<Rightarrow> string \<Rightarrow> judge_error option" where
  "ValidateJudgeRevision ulid_ok revision =
     (if length revision \<noteq> 26 then Some (InvalidArgument ''invalid judge revision'')
      else if \<not> ulid_ok revision then Some (InvalidArgument ''invalid judge revision'')
      else None)"

definition validateJudgeProfile ::
  "(string \<Rightarrow> bool) \<Rightarrow> JudgeProfile \<Rightarrow> int64 \<Rightarrow> judge_error option" where
  "validateJudgeProfile ulid_ok profile problemID =
     (if jp_ProblemID profile \<noteq> problemID \<or> jp_TimeLimitMS profile \<le> 0 \<or> jp_MemoryLimitKB profile \<le> 0
      then Some (DependencyUnavailable ''problem service returned an invalid judge profile'')
      else if ValidateJudgeRevision ulid_ok (jp_JudgeRevision profile) \<noteq> None
      then Some (ProblemUnavailable ''problem has no valid judge revision'')
      else None)"

definition ValidateSubmissionForCreate ::
  "(string \<Rightarrow> bool) \<Rightarrow> Submission \<Rightarrow> judge_error option" where
  "ValidateSubmissionForCreate ulid_ok s =
     (if sub_UserID s \<le> 0 \<or> sub_ProblemID s \<le> 0
      then Some (InvalidArgument ''submission user and problem are required'')
      else if \<not> biz_SupportedLanguage (sub_Language s)
      then Some (InvalidArgument ''unsupported submission language'')
      else if sub_SourceObjectKey s = [] \<or> int (length (sub_SourceObjectKey s)) > MaxObjectKeyLength
      then Some (InvalidArgument ''invalid source object key'')
      else if \<not> biz_validSHA256 (sub_SourceSHA256 s)
      then Some (InvalidArgument ''invalid source sha256'')
      else if sub_SourceSizeBytes s \<le> 0 \<or> sub_SourceSizeBytes s > MaxSourceSizeBytes
      then Some (InvalidArgument ''invalid source size'')
      else case ValidateJudgeRevision ulid_ok (sub_JudgeRevision s) of Some e \<Rightarrow> Some e
      | None \<Rightarrow>
      (if sub_JudgeDeadlineAt s = zero_time
       then Some (InvalidArgument ''judge deadline is required'')
       else if sub_RetryCount s < 0 \<or> sub_RetryCount s > MaxRetryCount
       then Some (InvalidArgument ''invalid retry count'')
       else if sub_Status s \<noteq> ST_UNSPECIFIED \<and> sub_Status s \<noteq> ST_QUEUED
       then Some (InvalidArgument ''new submission must be queued'')
       else if sub_Verdict s \<noteq> VD_UNSPECIFIED \<or> sub_TimeMS s \<noteq> None \<or> sub_MemoryKB s \<noteq> None
         \<or> sub_RetryCount s \<noteq> 0 \<or> sub_SystemErrorReason s \<noteq> [] \<or> sub_JudgedAt s \<noteq> None
         \<or> sub_InvalidatedAt s \<noteq> None
       then Some (InvalidArgument ''new submission contains judge result state'')
       else None))"

definition ValidateIdempotency ::
  "(string \<Rightarrow> string option) \<Rightarrow> IdempotencyRequest \<Rightarrow> string \<Rightarrow> time \<Rightarrow> judge_error option" where
  "ValidateIdempotency uuid_parse request operation now =
     (if ir_ActorID request \<le> 0 \<or> ir_Operation request \<noteq> operation
      then Some (InvalidArgument ''invalid idempotency identity or operation'')
      else if uuid_parse (ir_Key request) \<noteq> Some (to_lower (ir_Key request))
      then Some (InvalidArgument ''invalid idempotency key'')
      else if \<not> biz_validSHA256 (ir_RequestHash request)
      then Some (InvalidArgument ''invalid idempotency request hash'')
      else if \<not> ir_ExpiresAt request > now
      then Some (InvalidArgument ''idempotency expiry must be in the future'')
      else None)"

definition ValidateEventID :: "(string \<Rightarrow> string option) \<Rightarrow> string \<Rightarrow> judge_error option" where
  "ValidateEventID uuid_parse value =
     (if uuid_parse value \<noteq> Some (to_lower value)
      then Some (InvalidArgument ''invalid outbox event id'') else None)"

subsection \<open>Request hashes\<close>

definition be64 :: "int64 \<Rightarrow> bytes" where
  \<comment> \<open>\<open>binary.BigEndian.PutUint64(buf, uint64(id))\<close>\<close>
  "be64 n = map (\<lambda>k. char_of (nat ((n mod 18446744073709551616) div 256 ^ k mod 256)))
              [7, 6, 5, 4, 3, 2, 1, 0]"

definition create_preimage :: "int64 \<Rightarrow> string \<Rightarrow> bytes \<Rightarrow> bytes" where
  \<comment> \<open>what \<open>createRequestHash\<close> writes into the digest\<close>
  "create_preimage problemID language source =
     be64 problemID @ [CHR 0x00] @ language @ [CHR 0x00] @ source"

definition createRequestHash :: "(bytes \<Rightarrow> bytes) \<Rightarrow> int64 \<Rightarrow> string \<Rightarrow> bytes \<Rightarrow> string" where
  "createRequestHash sha256 problemID language source =
     hex_encode (sha256 (create_preimage problemID language source))"

definition rejudgeRequestHash :: "(bytes \<Rightarrow> bytes) \<Rightarrow> int64 \<Rightarrow> string" where
  "rejudgeRequestHash sha256 submissionID = hex_encode (sha256 (be64 submissionID))"

definition contestRequestHash :: "(bytes \<Rightarrow> bytes) \<Rightarrow> string \<Rightarrow> int64 \<Rightarrow> string" where
  "contestRequestHash sha256 requestHash contestID =
     hex_encode (sha256 (requestHash @ '':contest:'' @ format_int contestID))"

section \<open>Lemmas\<close>

lemma requireActor_None [simp]: "requireActor a = None \<longleftrightarrow> ac_ID a > 0"
  by (auto simp: requireActor_def)

lemma ValidateJudgeRevision_None [simp]:
  "ValidateJudgeRevision u r = None \<longleftrightarrow> length r = 26 \<and> u r"
  by (auto simp: ValidateJudgeRevision_def)

lemma ValidateEventID_None [simp]: "ValidateEventID u v = None \<longleftrightarrow> u v = Some (to_lower v)"
  by (auto simp: ValidateEventID_def)

lemma ValidateIdempotency_None [simp]:
  "ValidateIdempotency u r op now = None \<longleftrightarrow>
     ir_ActorID r > 0 \<and> ir_Operation r = op \<and> u (ir_Key r) = Some (to_lower (ir_Key r))
     \<and> biz_validSHA256 (ir_RequestHash r) \<and> now < ir_ExpiresAt r"
  by (auto simp: ValidateIdempotency_def)

lemma biz_validSHA256_mq: "biz_validSHA256 v \<longleftrightarrow> mq_validSHA256 v"
proof -
  have "even n \<and> n div 2 = 32 \<longleftrightarrow> n = 64" for n :: nat by presburger
  then have "hex_decoded_length v = Some 32 \<longleftrightarrow> length v = 64 \<and> list_all is_hex_digit v"
    unfolding hex_decoded_length_def by (metis (no_types, lifting) option.distinct(1) option.inject)
  then show ?thesis unfolding biz_validSHA256_def mq_validSHA256_def by argo
qed

lemma biz_SupportedLanguage_mq: "biz_SupportedLanguage = SupportedLanguage"
  by (intro ext) (simp add: biz_SupportedLanguage_def SupportedLanguage_def)

lemma length_be64 [simp]: "length (be64 n) = 8"
  by (simp add: be64_def)

lemma digits_determine:
  fixes M N b :: int
  assumes "b > 0" and "\<And>k. k < n \<Longrightarrow> M div b ^ k mod b = N div b ^ k mod b"
    and "M div b ^ n = N div b ^ n"
  shows "M = N"
  using assms
proof (induction n)
  case 0
  then show ?case by simp
next
  case (Suc n)
  have step: "x div b ^ n = b * (x div b ^ Suc n) + x div b ^ n mod b" for x
  proof -
    have "x div b ^ Suc n = x div b ^ n div b"
      using \<open>b > 0\<close> by (simp add: zdiv_zmult2_eq power_Suc2 del: power_Suc)
    then show ?thesis by (simp add: mult_div_mod_eq)
  qed
  have "M div b ^ n = N div b ^ n"
    using step [of M] step [of N] Suc.prems(2) [of n] Suc.prems(3) by simp
  then show ?case using Suc by simp
qed

lemma be64_inj:
  assumes "be64 m = be64 n" and m: "min_int64 \<le> m" "m \<le> max_int64"
    and n: "min_int64 \<le> n" "n \<le> max_int64"
  shows "m = n"
proof -
  define M where "M = m mod 18446744073709551616"
  define N where "N = n mod 18446744073709551616"
  have bytes_eq: "M div 256 ^ k mod 256 = N div 256 ^ k mod 256" if "k < 8" for k
  proof -
    have "k \<in> set [7, 6, 5, 4, 3, 2, 1, 0::nat]" using that by auto
    moreover have "\<forall>k \<in> set [7, 6, 5, 4, 3, 2, 1, 0::nat].
        (char_of (nat (M div 256 ^ k mod 256)) :: char) = char_of (nat (N div 256 ^ k mod 256))"
      using assms(1) unfolding be64_def M_def N_def map_eq_conv .
    ultimately have "(char_of (nat (M div 256 ^ k mod 256)) :: char) = char_of (nat (N div 256 ^ k mod 256))"
      by blast
    moreover have "nat (M div 256 ^ k mod 256) < 256" "nat (N div 256 ^ k mod 256) < 256"
      by (simp_all add: nat_less_iff)
    ultimately have "nat (M div 256 ^ k mod 256) = nat (N div 256 ^ k mod 256)"
      by (metis of_char_of mod_less)
    then show ?thesis by (simp add: eq_nat_nat_iff)
  qed
  have "M div 256 ^ 8 = 0" "N div 256 ^ 8 = 0"
    by (simp_all add: M_def N_def)
  then have "M = N"
    using bytes_eq digits_determine [of 256 8 M N] by simp
  then have "(m + 9223372036854775808) mod 18446744073709551616
      = (n + 9223372036854775808) mod 18446744073709551616"
    unfolding M_def N_def by (rule mod_add_cong [OF _ refl])
  then have "wrap64 m = wrap64 n" unfolding wrap64_def by (rule arg_cong)
  with m n show ?thesis by (simp add: wrap64_id)
qed

subsection \<open>The request hash determines the request\<close>

lemma append_marker_inj:
  "xs @ z # ys = us @ z # vs \<Longrightarrow> z \<notin> set xs \<Longrightarrow> z \<notin> set us \<Longrightarrow> xs = us \<and> ys = vs"
proof (induction xs arbitrary: us)
  case Nil
  then show ?case by (cases us) auto
next
  case (Cons x xs)
  then show ?case by (cases us) auto
qed

lemma create_preimage_inj:
  assumes "create_preimage p l s = create_preimage p' l' s'"
    and "CHR 0x00 \<notin> set l" "CHR 0x00 \<notin> set l'"
    and "p \<in> {min_int64..max_int64}" "p' \<in> {min_int64..max_int64}"
  shows "p = p' \<and> l = l' \<and> s = s'"
proof -
  have "be64 p = be64 p'" "l @ CHR 0x00 # s = l' @ CHR 0x00 # s'"
    using assms(1) by (simp_all add: create_preimage_def append_eq_append_conv)
  then show ?thesis
    using append_marker_inj [of l "CHR 0x00" s l' s'] assms(2-5) be64_inj [of p p'] by simp
qed

lemma supported_language_no_nul:
  "biz_SupportedLanguage l \<Longrightarrow> CHR 0x00 \<notin> set (to_lower (trim_space l))"
  unfolding biz_SupportedLanguage_def by (elim insertE emptyE) (simp_all only: list.set, simp_all)

end
