(* ===== verification/Judge_Result.thy ===== *)
theory Judge_Result
  imports Judge_Types
begin

text \<open>
  The events the judge service consumes from the workers,
  \<open>src/services/judge/internal/biz/result_consumer.go\<close>: the struct \<open>JudgeResultEvent\<close>, its parser and
  its validation.
\<close>

section \<open>Definitions\<close>

record JudgeResultEvent =
  je_EventID :: string
  je_EventType :: string
  je_EventVersion :: int32
  je_CausationID :: string
  je_TraceID :: string
  je_TraceParent :: string
  je_TraceState :: string
  je_SubmissionID :: int64
  je_JudgeRevision :: string
  je_Verdict :: JudgeVerdict
  je_TimeMS :: "int32 option"
  je_MemoryKB :: "int32 option"
  je_CaseResults :: "CaseResult list"
  je_Reason :: string
  je_Code :: string
  je_Message :: string
  je_Retryable :: bool
  je_OccurredAt :: time

definition wire_verdicts :: "JudgeVerdict list" where
  "wire_verdicts = [VD_AC, VD_WA, VD_TLE, VD_MLE, VD_RE, VD_CE]"

definition verdictFromWire :: "string \<Rightarrow> JudgeVerdict \<times> bool" where
  "verdictFromWire value =
     (let v1 = to_upper (trim_space value);
          v2 = (if has_prefix v1 ''JUDGE_VERDICT_'' then trim_prefix v1 ''JUDGE_VERDICT_'' else v1)
      in case find (\<lambda>item. verdict_String item = ''JUDGE_VERDICT_'' @ v2) wire_verdicts of
           Some item \<Rightarrow> (item, True)
         | None \<Rightarrow> (VD_UNSPECIFIED, False))"

fun parse_case_results :: "JudgeCaseResult list \<Rightarrow> judge_error + CaseResult list" where
  "parse_case_results [] = Inr []"
| "parse_case_results (item # items) =
     (let (verdict, ok) = verdictFromWire (cr_Verdict item)
      in guardE (\<not> ok) (InvalidArgument ''invalid judge case result'')
           (bindE (parse_case_results items) (\<lambda>rest.
              Inr (\<lparr>bc_ID = 0, bc_SubmissionID = 0, bc_CaseNo = cr_CaseNo item, bc_Verdict = verdict,
                    bc_TimeMS = Some (cr_TimeMS item), bc_MemoryKB = Some (cr_MemoryKB item),
                    bc_Message = cr_Message item, bc_CreatedAt = zero_time\<rparr> # rest))))"

definition ParseJudgeResultEvent ::
  "(string \<Rightarrow> bool) \<Rightarrow> string \<Rightarrow> json option \<Rightarrow> judge_error + JudgeResultEvent" where
  "ParseJudgeResultEvent uuid_ok eventType body =
     (if eventType = EventTypeJudgeCompleted then
        (case UnmarshalEnvelope uuid_ok body eventType dec_JudgeCompleted of
           Inl _ \<Rightarrow> Inl (InvalidArgument ''invalid judge completed payload'')
         | Inr (envelope, v) \<Rightarrow>
             guardE (JudgeCompleted_Validate v \<noteq> None)
               (InvalidArgument ''invalid judge completed payload'')
               (bindE (parse_case_results (jc_CaseResults v)) (\<lambda>cases.
                  Inr \<lparr>je_EventID = env_EventID envelope, je_EventType = eventType,
                       je_EventVersion = env_EventVersion envelope,
                       je_CausationID = env_CausationID envelope, je_TraceID = env_TraceID envelope,
                       je_TraceParent = env_TraceParent envelope,
                       je_TraceState = env_TraceState envelope,
                       je_SubmissionID = jc_SubmissionID v, je_JudgeRevision = jc_JudgeRevision v,
                       je_Verdict = fst (verdictFromWire (jc_Verdict v)),
                       je_TimeMS = Some (jc_TimeMS v), je_MemoryKB = Some (jc_MemoryKB v),
                       je_CaseResults = cases, je_Reason = [], je_Code = [], je_Message = [],
                       je_Retryable = False, je_OccurredAt = env_OccurredAt envelope\<rparr>)))
      else if eventType = EventTypeJudgeFailed then
        (case UnmarshalEnvelope uuid_ok body eventType dec_JudgeFailed of
           Inl _ \<Rightarrow> Inl (InvalidArgument ''invalid judge failed payload'')
         | Inr (envelope, v) \<Rightarrow>
             guardE (JudgeFailed_Validate v \<noteq> None)
               (InvalidArgument ''invalid judge failed payload'')
               (Inr \<lparr>je_EventID = env_EventID envelope, je_EventType = eventType,
                     je_EventVersion = env_EventVersion envelope,
                     je_CausationID = env_CausationID envelope, je_TraceID = env_TraceID envelope,
                     je_TraceParent = env_TraceParent envelope,
                     je_TraceState = env_TraceState envelope,
                     je_SubmissionID = jf_SubmissionID v, je_JudgeRevision = jf_JudgeRevision v,
                     je_Verdict = VD_UNSPECIFIED, je_TimeMS = None, je_MemoryKB = None,
                     je_CaseResults = [], je_Reason = jf_Reason v, je_Code = jf_Code v,
                     je_Message = jf_Message v, je_Retryable = jf_Retryable v,
                     je_OccurredAt = env_OccurredAt envelope\<rparr>))
      else Inl (InvalidArgument (''unsupported judge result event '' @ eventType)))"

definition JudgeResultEvent_Validate :: "JudgeResultEvent \<Rightarrow> string option" where
  "JudgeResultEvent_Validate e =
     (if je_EventID e = [] \<or> je_SubmissionID e \<le> 0 \<or> length (je_JudgeRevision e) \<noteq> 26
      then Some ''invalid judge result identity'' else None)"

section \<open>Lemmas\<close>

lemma find_wire:
  "find (\<lambda>item. verdict_String item = ''JUDGE_VERDICT_'' @ x) wire_verdicts =
     (if x = ''AC'' then Some VD_AC else if x = ''WA'' then Some VD_WA
      else if x = ''TLE'' then Some VD_TLE else if x = ''MLE'' then Some VD_MLE
      else if x = ''RE'' then Some VD_RE else if x = ''CE'' then Some VD_CE else None)"
  by (simp add: wire_verdicts_def eq_commute [of _ x])

lemma verdictFromWire_eq:
  "verdictFromWire v =
     (case find (\<lambda>item. verdict_String item
                    = ''JUDGE_VERDICT_'' @ trim_prefix (to_upper (trim_space v)) ''JUDGE_VERDICT_'')
             wire_verdicts of
        Some item \<Rightarrow> (item, True) | None \<Rightarrow> (VD_UNSPECIFIED, False))"
  unfolding verdictFromWire_def trim_prefix_def Let_def by (simp split: if_split)

lemma find_wire_Some:
  assumes "x \<in> {''AC'', ''WA'', ''TLE'', ''MLE'', ''RE'', ''CE''}"
  shows "\<exists>v \<in> set wire_verdicts.
    find (\<lambda>item. verdict_String item = ''JUDGE_VERDICT_'' @ x) wire_verdicts = Some v"
  using assms unfolding find_wire by (elim insertE emptyE) (simp_all add: wire_verdicts_def)

lemma find_wire_None:
  assumes "x \<notin> {''AC'', ''WA'', ''TLE'', ''MLE'', ''RE'', ''CE''}"
  shows "find (\<lambda>item. verdict_String item = ''JUDGE_VERDICT_'' @ x) wire_verdicts = None"
  using assms unfolding find_wire by simp

lemma verdictFromWire_cases:
  "(validVerdict v \<and> snd (verdictFromWire v) \<and> fst (verdictFromWire v) \<in> set wire_verdicts)
   \<or> (\<not> validVerdict v \<and> \<not> snd (verdictFromWire v))"
proof -
  let ?x = "trim_prefix (to_upper (trim_space v)) ''JUDGE_VERDICT_''"
  show ?thesis
  proof (cases "?x \<in> {''AC'', ''WA'', ''TLE'', ''MLE'', ''RE'', ''CE''}")
    case True
    then obtain w where "w \<in> set wire_verdicts"
      "find (\<lambda>item. verdict_String item = ''JUDGE_VERDICT_'' @ ?x) wire_verdicts = Some w"
      using find_wire_Some by blast
    with True show ?thesis unfolding verdictFromWire_eq validVerdict_def by (simp only:) simp
  next
    case False
    from find_wire_None [OF this] False show ?thesis
      unfolding verdictFromWire_eq validVerdict_def by (simp only:) simp
  qed
qed

lemma validVerdict_iff_wire: "snd (verdictFromWire v) \<longleftrightarrow> validVerdict v"
  using verdictFromWire_cases by blast

lemma verdictFromWire_named:
  "validVerdict v \<Longrightarrow> fst (verdictFromWire v) \<in> set wire_verdicts"
  using verdictFromWire_cases by blast

lemma parse_case_results_valid:
  "validate_case_results seen rs = None \<Longrightarrow>
    \<exists>cs. parse_case_results rs = Inr cs \<and> map bc_CaseNo cs = map cr_CaseNo rs
      \<and> (\<forall>c \<in> set cs. bc_Verdict c \<in> set wire_verdicts)
      \<and> distinct (map cr_CaseNo rs) \<and> set (map cr_CaseNo rs) \<inter> set seen = {}"
proof (induction seen rs rule: validate_case_results.induct)
  case (2 seen r rs)
  from "2.prems" have ok: "validVerdict (cr_Verdict r)" and fresh: "cr_CaseNo r \<notin> set seen"
    and tail: "validate_case_results (cr_CaseNo r # seen) rs = None"
    and pos: "\<not> (cr_CaseNo r \<le> 0 \<or> \<not> validVerdict (cr_Verdict r) \<or> cr_TimeMS r < 0 \<or> cr_MemoryKB r < 0)"
    by (auto split: if_splits)
  from "2.IH" [OF pos fresh tail] obtain cs where
    "parse_case_results rs = Inr cs" "map bc_CaseNo cs = map cr_CaseNo rs"
    "\<forall>c \<in> set cs. bc_Verdict c \<in> set wire_verdicts" "distinct (map cr_CaseNo rs)"
    "set (map cr_CaseNo rs) \<inter> set (cr_CaseNo r # seen) = {}" by blast
  then show ?case
    using ok validVerdict_iff_wire [of "cr_Verdict r"] verdictFromWire_named [OF ok] fresh
    by (auto split: prod.splits)
qed simp

end
