(* ===== verification/Sql_Tx.thy ===== *)
theory Sql_Tx
  imports Go_Prelude
begin

text \<open>
  What the repositories rely on of \<open>database/sql\<close> and MySQL, shared by the judge and the contest
  store. A transaction is a function from the tables to an error or to a result and new tables;
  \<open>run_tx\<close> is \<open>BeginTx\<close>, the body, and \<open>Commit\<close> or \<open>Rollback\<close>. Transactions are atomic steps:
  row locks serialise the conflicting ones.

  A \<open>db_env\<close> says what the outside world does during one operation: which statements fail
  (\<open>fails\<close>, by the statement's label), whether a commit that reports an error was nevertheless
  applied by the server (\<open>commit_lost\<close>), the service clock (\<open>app_now\<close>) and the database clock
  (\<open>db_now\<close>, the value of \<open>UTC_TIMESTAMP\<close>).

  \<open>db_ms\<close> and \<open>db_us\<close> are the rounding of a time stored in a \<open>DATETIME(3)\<close> and \<open>DATETIME(6)\<close> column.
  \<open>db_eq\<close> is equality under the tables' case-insensitive collation.
\<close>

section \<open>Definitions\<close>

record db_env =
  fails :: "string \<Rightarrow> bool"
  commit_lost :: bool
  app_now :: time
  db_now :: time

definition run_tx :: "'x db_env_scheme \<Rightarrow> 'e \<Rightarrow> ('s \<Rightarrow> 'e + ('a \<times> 's)) \<Rightarrow> 's \<Rightarrow> ('e + 'a) \<times> 's" where
  "run_tx env err body s =
     (if fails env ''begin'' then (Inl err, s)
      else case body s of
             Inl e \<Rightarrow> (Inl e, s)
           | Inr (a, s') \<Rightarrow>
               (if fails env ''commit'' then (Inl err, if commit_lost env then s' else s)
                else (Inr a, s')))"

definition stmtE :: "'x db_env_scheme \<Rightarrow> 'e \<Rightarrow> string \<Rightarrow> 'e + 'b \<Rightarrow> 'e + 'b" where
  \<comment> \<open>a statement and the reading of its result: the connection fails, or the rest follows\<close>
  "stmtE env err label r = guardE (fails env label) err r"

definition utc_timestamp3 :: "'x db_env_scheme \<Rightarrow> time" where
  \<comment> \<open>\<open>UTC_TIMESTAMP(3)\<close>\<close>
  "utc_timestamp3 env = db_now env - db_now env mod 1000000"

definition db_ms :: "time \<Rightarrow> time" where
  "db_ms t = (t + 500000) div 1000000 * 1000000"

definition db_us :: "time \<Rightarrow> time" where
  "db_us t = (t + 500) div 1000 * 1000"

definition db_eq :: "string \<Rightarrow> string \<Rightarrow> bool" where
  "db_eq s t \<longleftrightarrow> equal_fold s t"

definition healthy :: "time \<Rightarrow> db_env" where
  \<comment> \<open>an environment in which no statement fails and both clocks show the given time\<close>
  "healthy t = \<lparr>fails = (\<lambda>_. False), commit_lost = False, app_now = t, db_now = t\<rparr>"

section \<open>Lemmas\<close>

lemma stmtE_eq_Inr [simp]: "stmtE env err l r = Inr y \<longleftrightarrow> \<not> fails env l \<and> r = Inr y"
  by (simp add: stmtE_def)

lemma stmtE_runs [simp]: "\<not> fails env l \<Longrightarrow> stmtE env err l r = r"
  by (simp add: stmtE_def)

lemma run_tx_ok:
  "run_tx env err body s = (Inr a, s') \<longleftrightarrow>
     \<not> fails env ''begin'' \<and> \<not> fails env ''commit'' \<and> body s = Inr (a, s')"
  by (auto simp: run_tx_def split: sum.splits)

lemma run_tx_atomic:
  assumes "run_tx env err body s = (r, s')"
  shows "s' = s \<or> (\<exists>a. body s = Inr (a, s'))"
  using assms by (auto simp: run_tx_def split: if_splits sum.splits)

lemma run_tx_error_keeps:
  assumes "run_tx env err body s = (Inl e, s')" and "\<not> (fails env ''commit'' \<and> commit_lost env)"
  shows "s' = s"
  using assms by (auto simp: run_tx_def split: if_splits sum.splits)

lemma healthy_simps [simp]:
  "fails (healthy t) l = False" "commit_lost (healthy t) = False"
  "app_now (healthy t) = t" "db_now (healthy t) = t"
  by (simp_all add: healthy_def)

lemma db_ms_idem [simp]: "db_ms (db_ms t) = db_ms t"
  by (simp add: db_ms_def)

lemma db_ms_mono: "t \<le> u \<Longrightarrow> db_ms t \<le> db_ms u"
  by (simp add: db_ms_def zdiv_mono1)

lemma db_us_idem [simp]: "db_us (db_us t) = db_us t"
  by (simp add: db_us_def)

lemma db_eq_refl [simp]: "db_eq s s"
  by (simp add: db_eq_def)

lemma db_eq_sym: "db_eq s t \<longleftrightarrow> db_eq t s"
  by (auto simp: db_eq_def equal_fold_def)

lemma db_eq_trans: "db_eq s t \<Longrightarrow> db_eq t u \<Longrightarrow> db_eq s u"
  by (simp add: db_eq_def equal_fold_def)

lemma db_eq_lower: "to_lower s = to_lower t \<Longrightarrow> db_eq s t"
  by (simp add: db_eq_def equal_fold_def)

section \<open>Idempotent consumers\<close>

text \<open>
  The contract of a message consumer that records the events it has processed: a step on a
  processed event changes nothing and succeeds, a step that succeeds has recorded its event, and no
  step forgets one. Under at-least-once delivery a redelivered event is then harmless, at any later
  point and however often.
\<close>

locale idempotent_consumer =
  fixes consume :: "'env \<Rightarrow> 'ev \<Rightarrow> 's \<Rightarrow> bool \<times> 's"
    and handled :: "'s \<Rightarrow> 'ev \<Rightarrow> bool"
    and quiet :: "'env \<Rightarrow> 'ev \<Rightarrow> bool"
  assumes handled_skip: "handled s e \<Longrightarrow> consume env e s = (b, s') \<Longrightarrow> s' = s"
    and handled_accept: "handled s e \<Longrightarrow> quiet env e \<Longrightarrow> fst (consume env e s)"
    and accept_handled: "consume env e s = (True, s') \<Longrightarrow> handled s' e"
    and handled_mono: "handled s e \<Longrightarrow> consume env e2 s = (b, s') \<Longrightarrow> handled s' e"
begin

fun consume_all :: "('env \<times> 'ev) list \<Rightarrow> 's \<Rightarrow> 's" where
  "consume_all [] s = s"
| "consume_all ((env, e) # xs) s = consume_all xs (snd (consume env e s))"

lemma consume_all_append: "consume_all (xs @ ys) s = consume_all ys (consume_all xs s)"
  by (induction xs s rule: consume_all.induct) auto

lemma consume_all_handled: "handled s e \<Longrightarrow> handled (consume_all xs s) e"
proof (induction xs s rule: consume_all.induct)
  case (2 env e2 xs s)
  have "handled (snd (consume env e2 s)) e"
    using handled_mono [OF "2.prems", of env e2] by (cases "consume env e2 s") auto
  then show ?case using "2.IH" by simp
qed simp

lemma redelivery_harmless:
  assumes "consume env e s = (True, s1)"
  shows "consume_all (xs @ [(env2, e)]) s1 = consume_all xs s1"
proof -
  have "handled (consume_all xs s1) e"
    by (rule consume_all_handled) (rule accept_handled [OF assms])
  then show ?thesis
    by (cases "consume env2 e (consume_all xs s1)") (auto simp: consume_all_append dest: handled_skip)
qed

lemma redelivery_accepted:
  assumes "consume env e s = (True, s1)" and "quiet env2 e"
  shows "consume env2 e (consume_all xs s1) = (True, consume_all xs s1)"
proof -
  have h: "handled (consume_all xs s1) e"
    by (rule consume_all_handled) (rule accept_handled [OF assms(1)])
  obtain b s2 where c: "consume env2 e (consume_all xs s1) = (b, s2)" by fastforce
  have "b" using handled_accept [OF h assms(2)] c by simp
  moreover have "s2 = consume_all xs s1" using handled_skip [OF h c] .
  ultimately show ?thesis using c by simp
qed

end

end
