(* ===== verification/Judge_Db.thy ===== *)
theory Judge_Db
  imports Judge_Result Sql_Tx
begin

text \<open>
  The tables of the judge service (\<open>src/migrations/submission\<close>) as the repository
  \<open>src/services/judge/internal/data/submission_repo.go\<close> reads and writes them: rows with the column
  types of the schema, the constraints a statement can violate, the conversions between rows and the
  structs of the domain, and the row-level helpers of the transactions.

  A table is the list of its rows in primary-key order; the \<open>next_\<close> fields are the AUTO_INCREMENT
  counters. MySQL runs in strict mode: a value too long for its column or a violated CHECK is an
  error of the statement, which the repository reports as \<open>storageError\<close>. Lengths count bytes.
  A \<open>judge_env\<close> adds to the database environment the caller's trace context
  (\<open>mq.TraceContextValues(ctx)\<close>) and the value \<open>uuid.NewString()\<close> returns.
\<close>

section \<open>Definitions\<close>

record judge_env = db_env +
  tx_traceparent :: string
  tx_tracestate :: string
  tx_new_uuid :: string

record submission_row =
  r_id :: int64
  r_user_id :: int64
  r_problem_id :: int64
  r_contest_id :: "int64 option"
  r_language :: string
  r_source_object_key :: string
  r_source_sha256 :: string
  r_source_size_bytes :: int64
  r_judge_revision :: string
  r_status :: string
  r_verdict :: "string option"
  r_time_ms :: "int32 option"
  r_memory_kb :: "int32 option"
  r_retry_count :: int32
  r_system_error_reason :: "string option"
  r_judge_deadline_at :: time
  r_created_at :: time
  r_judged_at :: "time option"
  r_invalidated_at :: "time option"
  r_updated_at :: time

record case_row =
  k_id :: int64
  k_submission_id :: int64
  k_case_no :: int32
  k_verdict :: string
  k_time_ms :: "int32 option"
  k_memory_kb :: "int32 option"
  k_message :: "string option"
  k_created_at :: time

record outbox_row =
  o_id :: int64
  o_event_id :: string
  o_aggregate_type :: string
  o_aggregate_id :: int64
  o_event_type :: string
  o_event_version :: int32
  o_traceparent :: "string option"
  o_tracestate :: "string option"
  o_payload :: json
  o_status :: string
  o_retry_count :: int
  o_next_retry_at :: "time option"
  o_lease_owner :: "string option"
  o_lease_until :: "time option"
  o_last_error :: "string option"
  o_created_at :: time
  o_published_at :: "time option"

record idempotency_row =
  i_actor_id :: int64
  i_operation :: string
  i_key :: string
  i_request_hash :: string
  i_response :: "json option"
  i_created_at :: time
  i_expires_at :: time

record judge_db =
  submissions :: "submission_row list"
  case_results :: "case_row list"
  outbox_events :: "outbox_row list"
  processed_events :: "(string \<times> string \<times> time) list"
  idempotency_requests :: "idempotency_row list"
  next_submission_id :: int64
  next_case_id :: int64
  next_outbox_id :: int64

record OutboxEvent =
  oe_ID :: int64
  oe_EventID :: string
  oe_AggregateType :: string
  oe_AggregateID :: int64
  oe_EventType :: string
  oe_EventVersion :: int32
  oe_TraceParent :: string
  oe_TraceState :: string
  oe_Payload :: json
  oe_Status :: string
  oe_RetryCount :: int
  oe_NextRetryAt :: "time option"
  oe_LeaseOwner :: string
  oe_LeaseUntil :: "time option"
  oe_CreatedAt :: time
  oe_PublishedAt :: "time option"

definition OutboxStatusPending :: string where "OutboxStatusPending = ''pending''"
definition OutboxStatusPublished :: string where "OutboxStatusPublished = ''published''"
definition OutboxStatusDead :: string where "OutboxStatusDead = ''dead''"
definition EventTypeSubmissionJudged :: string where
  "EventTypeSubmissionJudged = EventSubmissionJudged"
definition EventTypeSubmissionInvalidated :: string where
  "EventTypeSubmissionInvalidated = EventSubmissionInvalidated"
definition resultConsumerName :: string where "resultConsumerName = ''judge-result-consumer''"

definition empty_db :: judge_db where
  "empty_db = \<lparr>submissions = [], case_results = [], outbox_events = [], processed_events = [],
     idempotency_requests = [], next_submission_id = 1, next_case_id = 1, next_outbox_id = 1\<rparr>"

subsection \<open>Values of columns\<close>

definition storageError :: judge_error where
  "storageError = Internal ''submission storage operation failed''"

definition statusToDB :: "SubmissionStatus \<Rightarrow> string" where
  "statusToDB status = trim_prefix (status_String status) ''SUBMISSION_STATUS_''"

definition statusFromDB :: "string \<Rightarrow> judge_error + SubmissionStatus" where
  "statusFromDB value =
     (case find (\<lambda>s. status_String s = ''SUBMISSION_STATUS_'' @ to_upper value) named_statuses of
        None \<Rightarrow> Inl (Internal ''stored submission status is invalid'')
      | Some status \<Rightarrow> guardE (status = ST_UNSPECIFIED) (Internal ''stored submission status is invalid'')
                         (Inr status))"

definition verdictToDB :: "JudgeVerdict \<Rightarrow> string" where
  "verdictToDB verdict =
     (if verdict = VD_UNSPECIFIED then [] else trim_prefix (verdict_String verdict) ''JUDGE_VERDICT_'')"

definition verdictFromDB :: "string \<Rightarrow> judge_error + JudgeVerdict" where
  "verdictFromDB value =
     (case find (\<lambda>v. verdict_String v = ''JUDGE_VERDICT_'' @ to_upper value) named_verdicts of
        None \<Rightarrow> Inl (Internal ''stored judge verdict is invalid'')
      | Some verdict \<Rightarrow> guardE (verdict = VD_UNSPECIFIED) (Internal ''stored judge verdict is invalid'')
                          (Inr verdict))"

definition nullableString :: "string \<Rightarrow> string option" where
  "nullableString value = (if value = [] then None else Some value)"

definition nullableVerdict :: "JudgeVerdict \<Rightarrow> string option" where
  "nullableVerdict verdict =
     (let value = verdictToDB verdict in if value \<noteq> [] then Some value else None)"

definition nullableContestID :: "int64 \<Rightarrow> int64 option" where
  "nullableContestID value = (if value \<le> 0 then None else Some value)"

definition null_string :: "string option \<Rightarrow> string" where
  \<comment> \<open>\<open>sql.NullString.String\<close>\<close>
  "null_string v = (case v of None \<Rightarrow> [] | Some s \<Rightarrow> s)"

definition short_text :: "nat \<Rightarrow> string option \<Rightarrow> bool" where
  \<comment> \<open>a value fits a nullable \<open>VARCHAR(n)\<close>\<close>
  "short_text n v \<longleftrightarrow> (case v of None \<Rightarrow> True | Some s \<Rightarrow> length s \<le> n)"

subsection \<open>Constraints of the schema\<close>

definition submission_row_ok :: "submission_row \<Rightarrow> bool" where
  "submission_row_ok r \<longleftrightarrow>
     length (r_language r) \<le> 32 \<and> r_source_object_key r \<noteq> [] \<and> length (r_source_object_key r) \<le> 512
     \<and> length (r_source_sha256 r) = 64 \<and> list_all is_hex_digit (r_source_sha256 r)
     \<and> r_source_size_bytes r > 0 \<and> length (r_judge_revision r) = 26 \<and> length (r_status r) \<le> 32
     \<and> short_text 32 (r_verdict r) \<and> 0 \<le> r_retry_count r \<and> r_retry_count r \<le> 3
     \<and> short_text 128 (r_system_error_reason r)"

definition case_row_ok :: "case_row \<Rightarrow> bool" where
  "case_row_ok k \<longleftrightarrow> length (k_verdict k) \<le> 32 \<and> short_text 1024 (k_message k)"

definition outbox_row_ok :: "outbox_row \<Rightarrow> bool" where
  "outbox_row_ok o1 \<longleftrightarrow>
     length (o_event_id o1) \<le> 36 \<and> length (o_event_type o1) \<le> 128 \<and> short_text 255 (o_traceparent o1)
     \<and> short_text 512 (o_tracestate o1) \<and> short_text 128 (o_lease_owner o1)
     \<and> short_text 255 (o_last_error o1) \<and> (o_lease_owner o1 = None \<longleftrightarrow> o_lease_until o1 = None)"

definition uuid_text :: "string \<Rightarrow> bool" where
  \<comment> \<open>the REGEXP of \<open>chk_idempotency_requests_key_uuid_length\<close>, case-insensitive by the collation\<close>
  "uuid_text s \<longleftrightarrow> length s = 36 \<and>
     list_all (\<lambda>(i, c). if i \<in> {8, 13, 18, 23} then c = CHR ''-'' else is_hex_digit c)
       (zip [0..<36] s)"

definition idempotency_row_ok :: "idempotency_row \<Rightarrow> bool" where
  "idempotency_row_ok i \<longleftrightarrow>
     i_operation i \<noteq> [] \<and> length (i_operation i) \<le> 64 \<and> uuid_text (i_key i)
     \<and> length (i_request_hash i) = 64 \<and> list_all is_hex_digit (i_request_hash i)
     \<and> i_created_at i < i_expires_at i"

subsection \<open>Rows to structs\<close>

definition scanSubmission :: "submission_row option \<Rightarrow> judge_error + Submission" where
  "scanSubmission row =
     (case row of None \<Rightarrow> Inl SubmissionNotFound
      | Some r \<Rightarrow>
          bindE (statusFromDB (r_status r)) (\<lambda>status.
          bindE (case r_verdict r of None \<Rightarrow> Inr VD_UNSPECIFIED | Some v \<Rightarrow> verdictFromDB v) (\<lambda>verdict.
            Inr \<lparr>sub_ID = r_id r, sub_UserID = r_user_id r, sub_ProblemID = r_problem_id r,
                 sub_ContestID = (case r_contest_id r of None \<Rightarrow> 0 | Some c \<Rightarrow> c),
                 sub_Language = r_language r, sub_SourceObjectKey = r_source_object_key r,
                 sub_SourceSHA256 = r_source_sha256 r, sub_SourceSizeBytes = r_source_size_bytes r,
                 sub_JudgeRevision = r_judge_revision r, sub_Status = status, sub_Verdict = verdict,
                 sub_TimeMS = r_time_ms r, sub_MemoryKB = r_memory_kb r,
                 sub_RetryCount = r_retry_count r,
                 sub_SystemErrorReason = null_string (r_system_error_reason r),
                 sub_JudgeDeadlineAt = r_judge_deadline_at r, sub_CreatedAt = r_created_at r,
                 sub_JudgedAt = r_judged_at r, sub_InvalidatedAt = r_invalidated_at r,
                 sub_UpdatedAt = r_updated_at r\<rparr>)))"

definition scanOutbox :: "outbox_row \<Rightarrow> OutboxEvent" where
  "scanOutbox r =
     \<lparr>oe_ID = o_id r, oe_EventID = o_event_id r, oe_AggregateType = o_aggregate_type r,
      oe_AggregateID = o_aggregate_id r, oe_EventType = o_event_type r,
      oe_EventVersion = o_event_version r, oe_TraceParent = null_string (o_traceparent r),
      oe_TraceState = null_string (o_tracestate r), oe_Payload = o_payload r,
      oe_Status = o_status r, oe_RetryCount = o_retry_count r, oe_NextRetryAt = o_next_retry_at r,
      oe_LeaseOwner = null_string (o_lease_owner r), oe_LeaseUntil = o_lease_until r,
      oe_CreatedAt = o_created_at r, oe_PublishedAt = o_published_at r\<rparr>"

definition find_submission :: "int64 \<Rightarrow> judge_db \<Rightarrow> submission_row option" where
  "find_submission sid db = find (\<lambda>r. r_id r = sid) (submissions db)"

definition update_submission ::
  "int64 \<Rightarrow> (submission_row \<Rightarrow> submission_row) \<Rightarrow> judge_db \<Rightarrow> judge_error + judge_db" where
  \<comment> \<open>\<open>UPDATE submissions SET ... WHERE id = ?\<close>\<close>
  "update_submission sid f db =
     (let rows = map (\<lambda>r. if r_id r = sid then f r else r) (submissions db)
      in guardE (\<exists>r \<in> set rows. r_id r = sid \<and> \<not> submission_row_ok r) storageError
           (Inr (db\<lparr>submissions := rows\<rparr>)))"

subsection \<open>Inserts\<close>

definition row_of_submission :: "int64 \<Rightarrow> Submission \<Rightarrow> submission_row" where
  \<comment> \<open>the column values of the INSERT of \<open>insertSubmission\<close>\<close>
  "row_of_submission sid s =
     \<lparr>r_id = sid, r_user_id = sub_UserID s, r_problem_id = sub_ProblemID s,
      r_contest_id = nullableContestID (sub_ContestID s), r_language = sub_Language s,
      r_source_object_key = sub_SourceObjectKey s, r_source_sha256 = sub_SourceSHA256 s,
      r_source_size_bytes = sub_SourceSizeBytes s, r_judge_revision = sub_JudgeRevision s,
      r_status = statusToDB (sub_Status s), r_verdict = nullableVerdict (sub_Verdict s),
      r_time_ms = sub_TimeMS s, r_memory_kb = sub_MemoryKB s, r_retry_count = sub_RetryCount s,
      r_system_error_reason = nullableString (sub_SystemErrorReason s),
      r_judge_deadline_at = db_ms (sub_JudgeDeadlineAt s), r_created_at = db_ms (sub_CreatedAt s),
      r_judged_at = map_option db_ms (sub_JudgedAt s),
      r_invalidated_at = map_option db_ms (sub_InvalidatedAt s),
      r_updated_at = db_ms (sub_UpdatedAt s)\<rparr>"

definition add_submission_row :: "submission_row \<Rightarrow> judge_db \<Rightarrow> judge_db" where
  "add_submission_row row db =
     db\<lparr>submissions := submissions db @ [row], next_submission_id := next_submission_id db + 1\<rparr>"

definition insertSubmission ::
  "judge_env \<Rightarrow> Submission \<Rightarrow> judge_db \<Rightarrow> judge_error + int64 \<times> judge_db" where
  "insertSubmission env s db =
     stmtE env storageError ''insert submissions''
       (let row = row_of_submission (next_submission_id db) s
        in guardE (\<not> submission_row_ok row) storageError
             (Inr (r_id row, add_submission_row row db)))"

definition insertContestSubmission ::
  "judge_env \<Rightarrow> Submission \<Rightarrow> time \<Rightarrow> time \<Rightarrow> judge_db \<Rightarrow> judge_error + Submission \<times> judge_db" where
  \<comment> \<open>the Go function updates the struct it is given; here it is returned, its ID included\<close>
  "insertContestSubmission env s start_at end_at db =
     guardE (start_at = zero_time \<or> \<not> start_at < end_at)
       (InvalidArgument ''contest interval is required'')
       (stmtE env storageError ''insert contest submission''
         (let now = utc_timestamp3 env;
              row = \<lparr>r_id = next_submission_id db, r_user_id = sub_UserID s,
                     r_problem_id = sub_ProblemID s, r_contest_id = Some (sub_ContestID s),
                     r_language = sub_Language s, r_source_object_key = sub_SourceObjectKey s,
                     r_source_sha256 = sub_SourceSHA256 s,
                     r_source_size_bytes = sub_SourceSizeBytes s,
                     r_judge_revision = sub_JudgeRevision s, r_status = ''QUEUED'',
                     r_verdict = None, r_time_ms = None, r_memory_kb = None, r_retry_count = 0,
                     r_system_error_reason = None,
                     r_judge_deadline_at = db_ms (sub_JudgeDeadlineAt s), r_created_at = now,
                     r_judged_at = None, r_invalidated_at = None, r_updated_at = now\<rparr>
          in guardE (\<not> (now \<ge> start_at \<and> now < end_at))
               (InvalidTransition ''contest is not accepting submissions'')
               (guardE (\<not> submission_row_ok row) storageError
                 (stmtE env storageError ''select created_at''
                   (Inr (s\<lparr>sub_ID := r_id row, sub_CreatedAt := r_created_at row,
                           sub_UpdatedAt := r_created_at row\<rparr>,
                         add_submission_row row db))))))"

definition insertOutbox ::
  "judge_env \<Rightarrow> string \<Rightarrow> int64 \<Rightarrow> string \<Rightarrow> json option \<Rightarrow> time \<Rightarrow> judge_db \<Rightarrow> judge_error + judge_db" where
  \<comment> \<open>the payload argument is \<open>json.Marshal(payload)\<close>, \<open>None\<close> when it fails\<close>
  "insertOutbox env eventID aggregateID eventType payload now db =
     (case payload of None \<Rightarrow> Inl (Internal ''outbox payload cannot be encoded'')
      | Some encoded \<Rightarrow>
          stmtE env storageError (''insert outbox '' @ eventType)
            (let untraced = (tx_traceparent env = [] \<and> tx_tracestate env = []);
                 row = \<lparr>o_id = next_outbox_id db, o_event_id = eventID,
                        o_aggregate_type = ''submission'', o_aggregate_id = aggregateID,
                        o_event_type = eventType, o_event_version = 1,
                        o_traceparent = (if untraced then None else Some (tx_traceparent env)),
                        o_tracestate = (if untraced then None else Some (tx_tracestate env)),
                        o_payload = encoded, o_status = OutboxStatusPending, o_retry_count = 0,
                        o_next_retry_at = None, o_lease_owner = None, o_lease_until = None,
                        o_last_error = None, o_created_at = db_ms now, o_published_at = None\<rparr>
             in guardE (\<not> outbox_row_ok row \<or> (\<exists>r \<in> set (outbox_events db). db_eq (o_event_id r) eventID))
                  storageError
                  (Inr (db\<lparr>outbox_events := outbox_events db @ [row],
                           next_outbox_id := next_outbox_id db + 1\<rparr>))))"

definition requested_payload :: "Submission \<Rightarrow> JudgeTask" where
  "requested_payload s =
     \<lparr>jt_SubmissionID = sub_ID s, jt_ProblemID = sub_ProblemID s, jt_Language = sub_Language s,
      jt_JudgeRevision = sub_JudgeRevision s, jt_SourceObjectKey = sub_SourceObjectKey s,
      jt_SourceSHA256 = sub_SourceSHA256 s, jt_SourceSizeBytes = sub_SourceSizeBytes s,
      jt_JudgeDeadlineAt = sub_JudgeDeadlineAt s, jt_Attempt = 0\<rparr>"

definition insertJudgeRequestedOutbox ::
  "judge_env \<Rightarrow> string \<Rightarrow> Submission \<Rightarrow> time \<Rightarrow> judge_db \<Rightarrow> judge_error + judge_db" where
  "insertJudgeRequestedOutbox env eventID s now db =
     insertOutbox env eventID (sub_ID s) EventTypeJudgeRequested
       (enc_JudgeTask (requested_payload s)) now db"

definition invalidated_payload :: "Submission \<Rightarrow> time \<Rightarrow> SubmissionInvalidated" where
  "invalidated_payload s now =
     \<lparr>si_SubmissionID = sub_ID s, si_ContestID = sub_ContestID s, si_UserID = sub_UserID s,
      si_ProblemID = sub_ProblemID s, si_PreviousVerdict = verdictToDB (sub_Verdict s),
      si_SubmittedAt = sub_CreatedAt s, si_InvalidatedAt = now\<rparr>"

definition insertInvalidatedOutbox ::
  "judge_env \<Rightarrow> string \<Rightarrow> Submission \<Rightarrow> time \<Rightarrow> judge_db \<Rightarrow> judge_error + judge_db" where
  "insertInvalidatedOutbox env eventID s now db =
     insertOutbox env eventID (sub_ID s) EventTypeSubmissionInvalidated
       (enc_SubmissionInvalidated (invalidated_payload s now)) now db"

subsection \<open>Idempotency records\<close>

definition same_idem :: "int64 \<Rightarrow> string \<Rightarrow> string \<Rightarrow> idempotency_row \<Rightarrow> bool" where
  \<comment> \<open>the primary key, under the collation of the table\<close>
  "same_idem actor operation key i \<longleftrightarrow>
     i_actor_id i = actor \<and> db_eq (i_operation i) operation \<and> db_eq (i_key i) key"

definition reserveIdempotency ::
  "judge_env \<Rightarrow> IdempotencyRequest \<Rightarrow> time \<Rightarrow> judge_db \<Rightarrow> judge_error + (json option \<times> judge_db)" where
  \<comment> \<open>\<open>Inr (None, db)\<close>: a new record was inserted; \<open>Inr (Some response, db)\<close>: a completed one exists\<close>
  "reserveIdempotency env request now db =
     stmtE env storageError ''insert idempotency_requests''
       (case find (same_idem (ir_ActorID request) (ir_Operation request) (ir_Key request))
               (idempotency_requests db) of
          None \<Rightarrow>
            (let row = \<lparr>i_actor_id = ir_ActorID request, i_operation = ir_Operation request,
                        i_key = ir_Key request, i_request_hash = ir_RequestHash request,
                        i_response = None, i_created_at = db_ms now,
                        i_expires_at = db_ms (ir_ExpiresAt request)\<rparr>
             in guardE (\<not> idempotency_row_ok row) storageError
                  (Inr (None, db\<lparr>idempotency_requests := idempotency_requests db @ [row]\<rparr>)))
        | Some stored \<Rightarrow>
            stmtE env storageError ''select idempotency_requests''
              (guardE (i_request_hash stored \<noteq> ir_RequestHash request) IdempotencyConflict
                (case i_response stored of None \<Rightarrow> Inl IdempotencyInProgress
                 | Some response \<Rightarrow> Inr (Some response, db))))"

definition completeIdempotency ::
  "judge_env \<Rightarrow> IdempotencyRequest \<Rightarrow> json \<Rightarrow> judge_db \<Rightarrow> judge_error + judge_db" where
  "completeIdempotency env request response db =
     stmtE env storageError ''update idempotency_requests''
       (let open1 = (\<lambda>i. same_idem (ir_ActorID request) (ir_Operation request) (ir_Key request) i
                       \<and> i_response i = None)
        in guardE (length (filter open1 (idempotency_requests db)) \<noteq> 1) IdempotencyInProgress
             (Inr (db\<lparr>idempotency_requests :=
                     map (\<lambda>i. if open1 i then i\<lparr>i_response := Some response\<rparr> else i)
                       (idempotency_requests db)\<rparr>)))"

subsection \<open>Stored responses\<close>

definition enc_CreateSubmissionResult :: "CreateSubmissionResult \<Rightarrow> json" where
  "enc_CreateSubmissionResult r =
     JObj [(''submission_id'', JNum (cs_SubmissionID r)),
           (''status'', JNum (status_number (cs_Status r)))]"

definition dec_CreateSubmissionResult :: "json \<Rightarrow> CreateSubmissionResult option" where
  "dec_CreateSubmissionResult =
     dec_struct (\<lambda>kvs.
       case (dec_field dec_int64 0 ''submission_id'' kvs, dec_field dec_int32 0 ''status'' kvs) of
         (Some i, Some n) \<Rightarrow>
           Some \<lparr>cs_SubmissionID = i, cs_Status = status_of_number n, cs_Replayed = False\<rparr>
       | _ \<Rightarrow> None)"

definition enc_rejudge_response :: "int64 \<Rightarrow> int64 \<Rightarrow> json" where
  "enc_rejudge_response old_id new_id =
     JObj [(''invalidated_submission_id'', JNum old_id), (''submission_id'', JNum new_id)]"

definition dec_rejudge_response :: "json \<Rightarrow> (int64 \<times> int64) option" where
  "dec_rejudge_response =
     dec_struct (\<lambda>kvs.
       case (dec_field dec_int64 0 ''invalidated_submission_id'' kvs,
             dec_field dec_int64 0 ''submission_id'' kvs) of
         (Some a, Some b) \<Rightarrow> Some (a, b)
       | _ \<Rightarrow> None)"

end
