(* ===== verification/Judge_Store.thy ===== *)
theory Judge_Store
  imports Judge_Db
begin

text \<open>
  The operations of the judge service's repository, \<open>StoreSet\<close> of
  \<open>src/services/judge/internal/data/submission_repo.go\<close>: the transaction that applies a judge result,
  the two transactions that create and rejudge submissions under an idempotency key, the outbox lease
  operations and the queries. A handle to the database is always present, so the \<open>nil\<close> checks at the
  head of every method have no counterpart.
\<close>

section \<open>Definitions\<close>

subsection \<open>Applying a judge result\<close>

definition is_processed :: "judge_db \<Rightarrow> string \<Rightarrow> bool" where
  \<comment> \<open>\<open>INSERT IGNORE\<close> cuts the id to the 36 characters of its column\<close>
  "is_processed db eventID \<longleftrightarrow>
     (\<exists>(c, e, t) \<in> set (processed_events db). db_eq c resultConsumerName \<and> db_eq e (take 36 eventID))"

definition terminal_text :: "string \<Rightarrow> bool" where
  "terminal_text status \<longleftrightarrow>
     status = statusToDB ST_DONE \<or> status = statusToDB ST_INVALIDATED \<or> status = statusToDB ST_CANCELLED"

definition upsert_case ::
  "judge_env \<Rightarrow> int64 \<Rightarrow> CaseResult \<Rightarrow> judge_db \<Rightarrow> judge_error + judge_db" where
  "upsert_case env submissionID item db =
     stmtE env storageError (''upsert case '' @ format_int (bc_CaseNo item))
       (let same = (\<lambda>k. k_submission_id k = submissionID \<and> k_case_no k = bc_CaseNo item);
            row = \<lparr>k_id = next_case_id db, k_submission_id = submissionID, k_case_no = bc_CaseNo item,
                   k_verdict = verdictToDB (bc_Verdict item), k_time_ms = bc_TimeMS item,
                   k_memory_kb = bc_MemoryKB item, k_message = nullableString (bc_Message item),
                   k_created_at = db_ms (app_now env)\<rparr>
        in guardE (\<not> case_row_ok row) storageError
             (Inr (if \<exists>k \<in> set (case_results db). same k
                   then db\<lparr>case_results :=
                          map (\<lambda>k. if same k
                                   then k\<lparr>k_verdict := k_verdict row, k_time_ms := k_time_ms row,
                                          k_memory_kb := k_memory_kb row, k_message := k_message row\<rparr>
                                   else k) (case_results db)\<rparr>
                   else db\<lparr>case_results := case_results db @ [row],
                           next_case_id := next_case_id db + 1\<rparr>)))"

fun upsert_cases ::
  "judge_env \<Rightarrow> int64 \<Rightarrow> CaseResult list \<Rightarrow> judge_db \<Rightarrow> judge_error + judge_db" where
  "upsert_cases env submissionID [] db = Inr db"
| "upsert_cases env submissionID (item # items) db =
     bindE (upsert_case env submissionID item db) (upsert_cases env submissionID items)"

definition failure_reason :: "JudgeResultEvent \<Rightarrow> string" where
  "failure_reason event = (if je_Message event = [] then je_Reason event else je_Message event)"

definition set_done :: "judge_env \<Rightarrow> JudgeResultEvent \<Rightarrow> submission_row \<Rightarrow> submission_row" where
  "set_done env event r =
     r\<lparr>r_status := statusToDB ST_DONE, r_verdict := Some (verdictToDB (je_Verdict event)),
       r_time_ms := je_TimeMS event, r_memory_kb := je_MemoryKB event,
       r_judged_at := Some (db_ms (je_OccurredAt event)), r_updated_at := db_ms (app_now env),
       r_system_error_reason := None\<rparr>"

definition set_retry_wait :: "judge_env \<Rightarrow> JudgeResultEvent \<Rightarrow> submission_row \<Rightarrow> submission_row" where
  "set_retry_wait env event r =
     r\<lparr>r_status := statusToDB ST_RETRY_WAIT, r_retry_count := min (r_retry_count r + 1) 3,
       r_system_error_reason := Some (failure_reason event), r_updated_at := db_ms (app_now env)\<rparr>"

definition set_system_error :: "judge_env \<Rightarrow> JudgeResultEvent \<Rightarrow> submission_row \<Rightarrow> submission_row" where
  "set_system_error env event r =
     r\<lparr>r_status := statusToDB ST_DONE, r_verdict := Some ''SYSTEM_ERROR'',
       r_system_error_reason := Some (failure_reason event),
       r_judged_at := Some (db_ms (je_OccurredAt event)), r_updated_at := db_ms (app_now env)\<rparr>"

definition judged_payload :: "JudgeResultEvent \<Rightarrow> submission_row \<Rightarrow> int64 \<Rightarrow> SubmissionJudged" where
  "judged_payload event row contestID =
     \<lparr>sj_SubmissionID = je_SubmissionID event, sj_ContestID = contestID, sj_UserID = r_user_id row,
      sj_ProblemID = r_problem_id row,
      sj_Verdict = (if je_EventType event = EventTypeJudgeFailed then ''SYSTEM_ERROR''
                    else verdictToDB (je_Verdict event)),
      sj_SubmittedAt = r_created_at row, sj_JudgedAt = je_OccurredAt event\<rparr>"

definition announce_judged ::
  "judge_env \<Rightarrow> JudgeResultEvent \<Rightarrow> submission_row \<Rightarrow> judge_db \<Rightarrow> judge_error + judge_db" where
  \<comment> \<open>the tail of the function: a contest submission announces its verdict\<close>
  "announce_judged env event row db =
     (case r_contest_id row of
        None \<Rightarrow> Inr db
      | Some contestID \<Rightarrow>
          insertOutbox env (tx_new_uuid env) (je_SubmissionID event) EventTypeSubmissionJudged
            (enc_SubmissionJudged (judged_payload event row contestID)) (app_now env) db)"

definition apply_to_row ::
  "judge_env \<Rightarrow> JudgeResultEvent \<Rightarrow> submission_row \<Rightarrow> judge_db \<Rightarrow> judge_error + judge_db" where
  "apply_to_row env event row db =
     (if je_EventType event = EventTypeJudgeCompleted then
        bindE (stmtE env storageError ''update submissions''
                 (update_submission (je_SubmissionID event) (set_done env event) db)) (\<lambda>db1.
        bindE (upsert_cases env (je_SubmissionID event) (je_CaseResults event) db1)
          (announce_judged env event row))
      else if je_Retryable event then
        stmtE env storageError ''update submissions''
          (update_submission (je_SubmissionID event) (set_retry_wait env event) db)
      else
        bindE (stmtE env storageError ''update submissions''
                 (update_submission (je_SubmissionID event) (set_system_error env event) db))
          (announce_judged env event row))"

definition mark_processed :: "judge_env \<Rightarrow> string \<Rightarrow> judge_db \<Rightarrow> judge_db" where
  "mark_processed env eventID db =
     db\<lparr>processed_events :=
          processed_events db @ [(resultConsumerName, take 36 eventID, db_ms (app_now env))]\<rparr>"

definition apply_result_tx ::
  "judge_env \<Rightarrow> JudgeResultEvent \<Rightarrow> judge_db \<Rightarrow> judge_error + unit \<times> judge_db" where
  "apply_result_tx env event db =
     stmtE env storageError ''insert processed_events''
       (if is_processed db (je_EventID event) then Inr ((), db)
        else
          (let db1 = mark_processed env (je_EventID event) db
           in stmtE env storageError ''select submission for update''
                (case find_submission (je_SubmissionID event) db1 of
                   None \<Rightarrow> Inl SubmissionNotFound
                 | Some row \<Rightarrow>
                     guardE (r_judge_revision row \<noteq> je_JudgeRevision event)
                       (InvalidArgument ''judge result revision does not match submission'')
                       (if terminal_text (r_status row) then Inr ((), db1)
                        else bindE (apply_to_row env event row db1) (\<lambda>db2. Inr ((), db2))))))"

definition ApplyJudgeResult ::
  "judge_env \<Rightarrow> JudgeResultEvent \<Rightarrow> judge_db \<Rightarrow> (judge_error + unit) \<times> judge_db" where
  "ApplyJudgeResult env event db =
     (case JudgeResultEvent_Validate event of
        Some msg \<Rightarrow> (Inl (InvalidArgument (''invalid judge result: '' @ msg)), db)
      | None \<Rightarrow> run_tx env storageError (apply_result_tx env event) db)"

definition ResultConsumer_Handle ::
  "(string \<Rightarrow> bool) \<Rightarrow> judge_env \<Rightarrow> string \<Rightarrow> json option \<Rightarrow> judge_db \<Rightarrow> (judge_error + unit) \<times> judge_db" where
  \<comment> \<open>\<open>ResultConsumer.Handle\<close> of \<open>biz/result_consumer.go\<close>\<close>
  "ResultConsumer_Handle uuid_ok env eventType body db =
     (case ParseJudgeResultEvent uuid_ok eventType body of
        Inl e \<Rightarrow> (Inl e, db)
      | Inr event \<Rightarrow> ApplyJudgeResult env event db)"

subsection \<open>Creating a submission\<close>

definition create_tx ::
  "judge_env \<Rightarrow> CreateSubmissionCommand \<Rightarrow> judge_db \<Rightarrow> judge_error + CreateSubmissionResult \<times> judge_db" where
  "create_tx env command db =
     bindE (reserveIdempotency env (cc_Idempotency command) (app_now env) db) (\<lambda>(response, db1).
       case response of
         Some stored \<Rightarrow>
           (case dec_CreateSubmissionResult stored of
              None \<Rightarrow> Inl (Internal ''stored idempotency response is invalid'')
            | Some result \<Rightarrow> Inr (result\<lparr>cs_Replayed := True\<rparr>, db1))
       | None \<Rightarrow>
           (let s = (cc_Submission command)\<lparr>sub_Status := ST_QUEUED, sub_CreatedAt := app_now env,
                       sub_UpdatedAt := app_now env\<rparr>
            in bindE (if sub_ContestID s > 0
                      then insertContestSubmission env s (cc_ContestStartAt command)
                             (cc_ContestEndAt command) db1
                      else bindE (insertSubmission env s db1) (\<lambda>(sid, db2).
                             Inr (s\<lparr>sub_ID := sid\<rparr>, db2))) (\<lambda>(s2, db2).
               bindE (insertJudgeRequestedOutbox env (cc_OutboxEventID command) s2 (sub_CreatedAt s2) db2)
                 (\<lambda>db3.
               let result = \<lparr>cs_SubmissionID = sub_ID s2, cs_Status = sub_Status s2, cs_Replayed = False\<rparr>
               in bindE (completeIdempotency env (cc_Idempotency command)
                           (enc_CreateSubmissionResult result) db3) (\<lambda>db4.
                    Inr (result, db4))))))"

definition CreateWithOutboxAndIdempotency ::
  "(string \<Rightarrow> string option) \<Rightarrow> (string \<Rightarrow> bool) \<Rightarrow> judge_env \<Rightarrow> CreateSubmissionCommand \<Rightarrow> judge_db
     \<Rightarrow> (judge_error + CreateSubmissionResult) \<times> judge_db" where
  "CreateWithOutboxAndIdempotency uuid_parse ulid_ok env command db =
     (case ValidateSubmissionForCreate ulid_ok (cc_Submission command) of Some e \<Rightarrow> (Inl e, db)
      | None \<Rightarrow>
      if \<not> sub_JudgeDeadlineAt (cc_Submission command) > app_now env
      then (Inl (InvalidArgument ''judge deadline must be in the future''), db)
      else case ValidateIdempotency uuid_parse (cc_Idempotency command) OperationCreateSubmission
                  (app_now env) of Some e \<Rightarrow> (Inl e, db)
      | None \<Rightarrow>
      (case ValidateEventID uuid_parse (cc_OutboxEventID command) of Some e \<Rightarrow> (Inl e, db)
       | None \<Rightarrow> run_tx env storageError (create_tx env command) db))"

subsection \<open>Rejudging a submission\<close>

definition replacement_of ::
  "RejudgeSubmissionCommand \<Rightarrow> Submission \<Rightarrow> time \<Rightarrow> Submission" where
  "replacement_of command old now =
     empty_submission\<lparr>sub_UserID := sub_UserID old, sub_ProblemID := sub_ProblemID old,
       sub_ContestID := sub_ContestID old, sub_Language := sub_Language old,
       sub_SourceObjectKey := sub_SourceObjectKey old, sub_SourceSHA256 := sub_SourceSHA256 old,
       sub_SourceSizeBytes := sub_SourceSizeBytes old, sub_JudgeRevision := rc_JudgeRevision command,
       sub_Status := ST_QUEUED, sub_JudgeDeadlineAt := rc_JudgeDeadlineAt command,
       sub_CreatedAt := (if sub_ContestID old > 0 then sub_CreatedAt old else now),
       sub_UpdatedAt := now\<rparr>"

definition invalidate_row ::
  "judge_env \<Rightarrow> Submission \<Rightarrow> judge_db \<Rightarrow> judge_error + judge_db" where
  \<comment> \<open>the conditional UPDATE and the check of its row count\<close>
  "invalidate_row env old db =
     stmtE env storageError ''update submissions''
       (let hit = (\<lambda>r. r_id r = sub_ID old \<and> db_eq (r_status r) (statusToDB (sub_Status old)));
            rows = map (\<lambda>r. if hit r
                            then r\<lparr>r_status := statusToDB ST_INVALIDATED,
                                   r_invalidated_at := Some (db_ms (app_now env)),
                                   r_updated_at := db_ms (app_now env)\<rparr>
                            else r) (submissions db)
        in guardE (length (filter hit (submissions db)) \<noteq> 1) ConcurrentRejudge
             (Inr (db\<lparr>submissions := rows\<rparr>)))"

definition rejudge_tx ::
  "judge_env \<Rightarrow> RejudgeSubmissionCommand \<Rightarrow> judge_db \<Rightarrow> judge_error + RejudgeSubmissionResult \<times> judge_db" where
  "rejudge_tx env command db =
     bindE (reserveIdempotency env (rc_Idempotency command) (app_now env) db) (\<lambda>(response, db1).
       case response of
         Some stored \<Rightarrow>
           (case dec_rejudge_response stored of
              None \<Rightarrow> Inl (Internal ''stored idempotency response is invalid'')
            | Some (old_id, new_id) \<Rightarrow>
                stmtE env storageError ''select replacement''
                  (bindE (scanSubmission (find_submission new_id db1)) (\<lambda>replacement.
                     Inr (\<lparr>rr_InvalidatedSubmissionID = old_id, rr_Submission = replacement,
                           rr_Replayed = True\<rparr>, db1))))
       | None \<Rightarrow>
           stmtE env storageError ''select submission for update''
             (bindE (scanSubmission (find_submission (rc_SubmissionID command) db1)) (\<lambda>old.
                guardE (\<not> CanInvalidate (sub_Status old) \<and> sub_Status old = ST_INVALIDATED)
                  ConcurrentRejudge
                (guardE (\<not> CanInvalidate (sub_Status old))
                  (InvalidTransition (''submission in '' @ status_String (sub_Status old)
                     @ '' cannot be rejudged''))
                (bindE (invalidate_row env old db1) (\<lambda>db2.
                 bindE (insertInvalidatedOutbox env (rc_InvalidatedOutboxEventID command) old
                          (app_now env) db2) (\<lambda>db3.
                 let replacement = replacement_of command old (app_now env)
                 in bindE (insertSubmission env replacement db3) (\<lambda>(new_id, db4).
                    let stored = replacement\<lparr>sub_ID := new_id\<rparr>
                    in bindE (insertJudgeRequestedOutbox env (rc_RequestedOutboxEventID command) stored
                                (app_now env) db4) (\<lambda>db5.
                       bindE (completeIdempotency env (rc_Idempotency command)
                                (enc_rejudge_response (sub_ID old) new_id) db5) (\<lambda>db6.
                         Inr (\<lparr>rr_InvalidatedSubmissionID = sub_ID old, rr_Submission = stored,
                               rr_Replayed = False\<rparr>, db6))))))))))) "

definition InvalidateAndRequeueWithOutboxAndIdempotency ::
  "(string \<Rightarrow> string option) \<Rightarrow> (string \<Rightarrow> bool) \<Rightarrow> judge_env \<Rightarrow> RejudgeSubmissionCommand \<Rightarrow> judge_db
     \<Rightarrow> (judge_error + RejudgeSubmissionResult) \<times> judge_db" where
  "InvalidateAndRequeueWithOutboxAndIdempotency uuid_parse ulid_ok env command db =
     (if rc_SubmissionID command \<le> 0 \<or> rc_JudgeDeadlineAt command = zero_time
      then (Inl (InvalidArgument ''invalid rejudge submission''), db)
      else if \<not> rc_JudgeDeadlineAt command > app_now env
      then (Inl (InvalidArgument ''judge deadline must be in the future''), db)
      else case ValidateJudgeRevision ulid_ok (rc_JudgeRevision command) of Some e \<Rightarrow> (Inl e, db)
      | None \<Rightarrow>
      (case ValidateIdempotency uuid_parse (rc_Idempotency command) OperationRejudgeSubmission
              (app_now env) of Some e \<Rightarrow> (Inl e, db)
       | None \<Rightarrow>
       (case ValidateEventID uuid_parse (rc_InvalidatedOutboxEventID command) of Some e \<Rightarrow> (Inl e, db)
        | None \<Rightarrow>
        (case ValidateEventID uuid_parse (rc_RequestedOutboxEventID command) of Some e \<Rightarrow> (Inl e, db)
         | None \<Rightarrow>
         if rc_InvalidatedOutboxEventID command = rc_RequestedOutboxEventID command
         then (Inl (InvalidArgument ''rejudge outbox event ids must be distinct''), db)
         else run_tx env storageError (rejudge_tx env command) db))))"

subsection \<open>Outbox leases\<close>

definition claimable :: "time \<Rightarrow> outbox_row \<Rightarrow> bool" where
  "claimable now r \<longleftrightarrow>
     db_eq (o_status r) OutboxStatusPending
     \<and> (case o_next_retry_at r of None \<Rightarrow> True | Some t \<Rightarrow> t \<le> now)
     \<and> (case o_lease_until r of None \<Rightarrow> True | Some t \<Rightarrow> t \<le> now)"

definition claim_tx ::
  "judge_env \<Rightarrow> string \<Rightarrow> time \<Rightarrow> time \<Rightarrow> nat \<Rightarrow> judge_db \<Rightarrow> judge_error + OutboxEvent list \<times> judge_db" where
  "claim_tx env owner now leaseUntil limit db =
     stmtE env storageError ''select outbox_events''
       (let rows = take limit (filter (claimable now) (outbox_events db));
            ids = map o_id rows
        in guardE (rows \<noteq> [] \<and> length owner > 128) storageError
           (stmtE env storageError ''update outbox_events''
             (Inr (map (\<lambda>r. (scanOutbox r)\<lparr>oe_LeaseOwner := owner, oe_LeaseUntil := Some leaseUntil\<rparr>) rows,
                   db\<lparr>outbox_events :=
                        map (\<lambda>r. if o_id r \<in> set ids \<and> db_eq (o_status r) OutboxStatusPending
                                 then r\<lparr>o_lease_owner := Some owner,
                                        o_lease_until := Some (db_ms leaseUntil)\<rparr>
                                 else r) (outbox_events db)\<rparr>))))"

definition ClaimOutbox ::
  "judge_env \<Rightarrow> string \<Rightarrow> time \<Rightarrow> time \<Rightarrow> int \<Rightarrow> judge_db \<Rightarrow> (judge_error + OutboxEvent list) \<times> judge_db" where
  "ClaimOutbox env owner now leaseUntil limit db =
     (if trim_space owner = [] \<or> limit \<le> 0 \<or> \<not> leaseUntil > now
      then (Inl (InvalidArgument ''invalid outbox lease request''), db)
      else run_tx env storageError (claim_tx env owner now leaseUntil (nat limit)) db)"

definition owned :: "int64 \<Rightarrow> string \<Rightarrow> outbox_row \<Rightarrow> bool" where
  "owned eid owner r \<longleftrightarrow>
     o_id r = eid \<and> db_eq (o_status r) OutboxStatusPending
     \<and> (case o_lease_owner r of None \<Rightarrow> False | Some w \<Rightarrow> db_eq w owner)"

definition update_owned ::
  "judge_env \<Rightarrow> int64 \<Rightarrow> string \<Rightarrow> (outbox_row \<Rightarrow> outbox_row) \<Rightarrow> judge_error \<Rightarrow> judge_db
     \<Rightarrow> (judge_error + unit) \<times> judge_db" where
  \<comment> \<open>a single UPDATE outside a transaction: \<open>commit_lost\<close> says whether it took effect although the
     connection failed\<close>
  "update_owned env eid owner f lost db =
     (let rows = map (\<lambda>r. if owned eid owner r then f r else r) (outbox_events db);
          db1 = db\<lparr>outbox_events := rows\<rparr>
      in if \<exists>r \<in> set (outbox_events db). owned eid owner r \<and> \<not> outbox_row_ok (f r)
         then (Inl storageError, db)
         else if fails env ''update outbox_events''
         then (Inl storageError, if commit_lost env then db1 else db)
         else if length (filter (owned eid owner) (outbox_events db)) \<noteq> 1 then (Inl lost, db1)
         else (Inr (), db1))"

definition MarkOutboxPublished ::
  "judge_env \<Rightarrow> int64 \<Rightarrow> string \<Rightarrow> time \<Rightarrow> judge_db \<Rightarrow> (judge_error + unit) \<times> judge_db" where
  "MarkOutboxPublished env eid owner publishedAt db =
     update_owned env eid owner
       (\<lambda>r. r\<lparr>o_status := OutboxStatusPublished, o_published_at := Some (db_ms publishedAt),
              o_lease_owner := None, o_lease_until := None\<rparr>)
       (Internal ''outbox lease was lost before publish confirmation'') db"

definition MarkOutboxFailure ::
  "judge_env \<Rightarrow> int64 \<Rightarrow> string \<Rightarrow> time \<Rightarrow> bool \<Rightarrow> string \<Rightarrow> judge_db \<Rightarrow> (judge_error + unit) \<times> judge_db" where
  "MarkOutboxFailure env eid owner nextRetryAt dead reason db =
     update_owned env eid owner
       (\<lambda>r. r\<lparr>o_status := (if dead then OutboxStatusDead else OutboxStatusPending),
              o_retry_count := o_retry_count r + 1,
              o_next_retry_at := (if dead then None else Some (db_ms nextRetryAt)),
              o_lease_owner := None, o_lease_until := None, o_last_error := Some reason\<rparr>)
       (Internal ''outbox lease was lost before failure update'') db"

subsection \<open>Queries\<close>

definition FindByID :: "judge_env \<Rightarrow> int64 \<Rightarrow> judge_db \<Rightarrow> judge_error + Submission" where
  "FindByID env sid db =
     stmtE env storageError ''select submission'' (scanSubmission (find_submission sid db))"

definition listPredicate :: "ListFilter \<Rightarrow> submission_row \<Rightarrow> bool" where
  "listPredicate f r \<longleftrightarrow>
     (lf_UserID f > 0 \<longrightarrow> r_user_id r = lf_UserID f)
     \<and> (lf_ProblemID f > 0 \<longrightarrow> r_problem_id r = lf_ProblemID f)
     \<and> (lf_Status f \<noteq> ST_UNSPECIFIED \<longrightarrow> db_eq (r_status r) (statusToDB (lf_Status f)))
     \<and> (lf_Language f \<noteq> [] \<longrightarrow> db_eq (r_language r) (lf_Language f))"

fun scan_all :: "submission_row list \<Rightarrow> judge_error + Submission list" where
  "scan_all [] = Inr []"
| "scan_all (r # rs) =
     bindE (scanSubmission (Some r)) (\<lambda>s. bindE (scan_all rs) (\<lambda>ss. Inr (s # ss)))"

definition newest_first :: "submission_row list \<Rightarrow> submission_row list" where
  \<comment> \<open>\<open>ORDER BY created_at DESC, id DESC\<close>\<close>
  "newest_first rs = rev (sort_key r_created_at (sort_key r_id rs))"

definition ListSubmissions :: "judge_env \<Rightarrow> ListFilter \<Rightarrow> judge_db \<Rightarrow> judge_error + SubmissionPage" where
  "ListSubmissions env filter0 db =
     (let f = Normalized filter0;
          hits = filter (listPredicate f) (submissions db);
          offset = wrap64 ((lf_Page f - 1) * lf_PageSize f)
      in stmtE env storageError ''count submissions''
         (stmtE env storageError ''list submissions''
           (bindE (scan_all (take (nat (lf_PageSize f)) (drop (nat offset) (newest_first hits)))) (\<lambda>items.
              Inr \<lparr>sp_Items = items, sp_Page = lf_Page f, sp_PageSize = lf_PageSize f,
                   sp_Total = int (length hits)\<rparr>))))"

fun scan_cases :: "case_row list \<Rightarrow> judge_error + CaseResult list" where
  "scan_cases [] = Inr []"
| "scan_cases (k # ks) =
     bindE (verdictFromDB (k_verdict k)) (\<lambda>verdict.
     bindE (scan_cases ks) (\<lambda>rest.
       Inr (\<lparr>bc_ID = k_id k, bc_SubmissionID = k_submission_id k, bc_CaseNo = k_case_no k,
             bc_Verdict = verdict, bc_TimeMS = k_time_ms k, bc_MemoryKB = k_memory_kb k,
             bc_Message = null_string (k_message k), bc_CreatedAt = k_created_at k\<rparr> # rest)))"

definition store_GetJudgeResult :: "judge_env \<Rightarrow> int64 \<Rightarrow> judge_db \<Rightarrow> judge_error + JudgeResult" where
  "store_GetJudgeResult env sid db =
     bindE (FindByID env sid db) (\<lambda>s.
       stmtE env storageError ''select cases''
         (bindE (scan_cases (sort_key k_case_no (filter (\<lambda>k. k_submission_id k = sid) (case_results db))))
           (\<lambda>cases. Inr \<lparr>jr_Submission = s, jr_Cases = cases\<rparr>)))"

definition FindIdempotency ::
  "judge_env \<Rightarrow> int64 \<Rightarrow> string \<Rightarrow> string \<Rightarrow> judge_db \<Rightarrow> judge_error + IdempotencyRecord option" where
  \<comment> \<open>\<open>Inr None\<close>: not found\<close>
  "FindIdempotency env actorID operation key db =
     stmtE env storageError ''select idempotency''
       (Inr (map_option (\<lambda>i. \<lparr>ir_ActorID = actorID, ir_Operation = operation, ir_Key = key,
                              ir_RequestHash = i_request_hash i, ir_ExpiresAt = i_expires_at i,
                              ir_Response = i_response i, ir_CreatedAt = i_created_at i\<rparr>)
              (find (same_idem actorID operation key) (idempotency_requests db))))"

end
