(* ===== verification/Judge_Store_Facts.thy ===== *)
theory Judge_Store_Facts
  imports Judge_Store
begin

text \<open>
  What each transaction of the judge repository does to the tables when it commits, stated as frame
  equations, and the interpretation of the idempotent-consumer contract on \<open>ApplyJudgeResult\<close>.
\<close>

section \<open>Definitions\<close>

definition all_complete :: "judge_db \<Rightarrow> bool" where
  "all_complete db \<longleftrightarrow> (\<forall>i \<in> set (idempotency_requests db). i_response i \<noteq> None)"

definition consume_result :: "judge_env \<Rightarrow> JudgeResultEvent \<Rightarrow> judge_db \<Rightarrow> bool \<times> judge_db" where
  "consume_result env event db =
     (case ApplyJudgeResult env event db of (Inr _, db') \<Rightarrow> (True, db') | (Inl _, db') \<Rightarrow> (False, db'))"

definition result_handled :: "judge_db \<Rightarrow> JudgeResultEvent \<Rightarrow> bool" where
  "result_handled db event \<longleftrightarrow>
     JudgeResultEvent_Validate event = None \<and> is_processed db (je_EventID event)"

definition quiet_env :: "judge_env \<Rightarrow> JudgeResultEvent \<Rightarrow> bool" where
  "quiet_env env event \<longleftrightarrow>
     \<not> fails env ''begin'' \<and> \<not> fails env ''commit'' \<and> \<not> fails env ''insert processed_events''"

section \<open>Frame equations of the statements\<close>

lemma insertOutbox_Inr:
  assumes "insertOutbox env eid agg ty payload now db = Inr db'"
  obtains row where
    "db' = db\<lparr>outbox_events := outbox_events db @ [row], next_outbox_id := next_outbox_id db + 1\<rparr>"
    "o_id row = next_outbox_id db" "o_event_id row = eid" "o_aggregate_id row = agg"
    "o_event_type row = ty" "o_event_version row = 1" "payload = Some (o_payload row)"
    "o_status row = OutboxStatusPending" "o_retry_count row = 0" "o_lease_owner row = None"
    "o_lease_until row = None" "o_next_retry_at row = None" "o_created_at row = db_ms now"
    "outbox_row_ok row" "\<not> (\<exists>r \<in> set (outbox_events db). db_eq (o_event_id r) eid)"
proof -
  from assms obtain encoded where p: "payload = Some encoded"
    by (auto simp: insertOutbox_def split: option.splits)
  define untraced where "untraced = (tx_traceparent env = [] \<and> tx_tracestate env = [])"
  define row where "row = \<lparr>o_id = next_outbox_id db, o_event_id = eid,
      o_aggregate_type = ''submission'', o_aggregate_id = agg, o_event_type = ty,
      o_event_version = 1, o_traceparent = (if untraced then None else Some (tx_traceparent env)),
      o_tracestate = (if untraced then None else Some (tx_tracestate env)),
      o_payload = encoded, o_status = OutboxStatusPending, o_retry_count = 0,
      o_next_retry_at = None, o_lease_owner = None, o_lease_until = None,
      o_last_error = None, o_created_at = db_ms now, o_published_at = None\<rparr>"
  have "outbox_row_ok row \<and> \<not> (\<exists>r \<in> set (outbox_events db). db_eq (o_event_id r) eid)
      \<and> db' = db\<lparr>outbox_events := outbox_events db @ [row], next_outbox_id := next_outbox_id db + 1\<rparr>"
    using assms unfolding insertOutbox_def p option.case Let_def untraced_def [symmetric]
      row_def [symmetric] by auto
  then show ?thesis using that [of row] p by (simp add: row_def)
qed

lemma update_submission_Inr:
  assumes "update_submission sid f db = Inr db'"
  shows "db' = db\<lparr>submissions := map (\<lambda>r. if r_id r = sid then f r else r) (submissions db)\<rparr>"
  using assms by (auto simp: update_submission_def Let_def)

definition cases_only :: "judge_db \<Rightarrow> judge_db \<Rightarrow> bool" where
  "cases_only db db' \<longleftrightarrow>
     submissions db' = submissions db \<and> outbox_events db' = outbox_events db
     \<and> processed_events db' = processed_events db \<and> idempotency_requests db' = idempotency_requests db
     \<and> next_submission_id db' = next_submission_id db \<and> next_outbox_id db' = next_outbox_id db"

lemma upsert_case_Inr: "upsert_case env sid item db = Inr db' \<Longrightarrow> cases_only db db'"
  by (auto simp: upsert_case_def Let_def cases_only_def split: if_splits)

lemma upsert_cases_Inr: "upsert_cases env sid items db = Inr db' \<Longrightarrow> cases_only db db'"
proof (induction items arbitrary: db)
  case (Cons item items)
  then obtain db1 where d: "upsert_case env sid item db = Inr db1"
    "upsert_cases env sid items db1 = Inr db'" by auto
  from upsert_case_Inr [OF d(1)] Cons.IH [OF d(2)] show ?case by (simp add: cases_only_def)
qed (simp add: cases_only_def)

lemma announce_judged_Inr:
  assumes "announce_judged env event row db = Inr db'"
  obtains (quiet) "r_contest_id row = None" "db' = db"
  | (sent) contestID orow where "r_contest_id row = Some contestID"
      "db' = db\<lparr>outbox_events := outbox_events db @ [orow], next_outbox_id := next_outbox_id db + 1\<rparr>"
      "o_id orow = next_outbox_id db" "o_event_type orow = EventTypeSubmissionJudged"
      "o_aggregate_id orow = je_SubmissionID event"
      "enc_SubmissionJudged (judged_payload event row contestID) = Some (o_payload orow)"
      "o_status orow = OutboxStatusPending" "o_lease_owner orow = None"
proof (cases "r_contest_id row")
  case None
  with assms quiet show ?thesis by (simp add: announce_judged_def)
next
  case (Some contestID)
  with assms have "insertOutbox env (tx_new_uuid env) (je_SubmissionID event) EventTypeSubmissionJudged
     (enc_SubmissionJudged (judged_payload event row contestID)) (app_now env) db = Inr db'"
    by (simp add: announce_judged_def)
  from insertOutbox_Inr [OF this] Some sent show ?thesis by metis
qed

subsection \<open>Applying a result\<close>

text \<open>What the function that changes a live row can have done, on its three branches.\<close>

definition result_update :: "judge_env \<Rightarrow> JudgeResultEvent \<Rightarrow> submission_row \<Rightarrow> submission_row" where
  "result_update env event =
     (if je_EventType event = EventTypeJudgeCompleted then set_done env event
      else if je_Retryable event then set_retry_wait env event
      else set_system_error env event)"

definition announces :: "JudgeResultEvent \<Rightarrow> submission_row \<Rightarrow> bool" where
  "announces event row \<longleftrightarrow>
     r_contest_id row \<noteq> None \<and> (je_EventType event = EventTypeJudgeCompleted \<or> \<not> je_Retryable event)"

lemma apply_to_row_Inr:
  assumes "apply_to_row env event row db = Inr db'"
  obtains news where
    "submissions db' = map (\<lambda>r. if r_id r = je_SubmissionID event then result_update env event r else r)
       (submissions db)"
    "outbox_events db' = outbox_events db @ news" "length news = (if announces event row then 1 else 0)"
    "\<And>n. n \<in> set news \<Longrightarrow> o_id n = next_outbox_id db \<and> o_event_type n = EventTypeSubmissionJudged
        \<and> o_aggregate_id n = je_SubmissionID event \<and> o_status n = OutboxStatusPending
        \<and> o_lease_owner n = None
        \<and> (\<exists>c. r_contest_id row = Some c \<and> enc_SubmissionJudged (judged_payload event row c) = Some (o_payload n))"
    "next_outbox_id db' = next_outbox_id db + int (length news)"
    "processed_events db' = processed_events db"
    "idempotency_requests db' = idempotency_requests db"
    "next_submission_id db' = next_submission_id db"
proof -
  note result = that
  have finish: thesis
    if ann: "announce_judged env event row db2 = Inr db'"
      and db2: "submissions db2 = map (\<lambda>r. if r_id r = je_SubmissionID event
                   then result_update env event r else r) (submissions db)"
        "outbox_events db2 = outbox_events db" "next_outbox_id db2 = next_outbox_id db"
        "processed_events db2 = processed_events db"
        "idempotency_requests db2 = idempotency_requests db"
        "next_submission_id db2 = next_submission_id db"
      and live: "je_EventType event = EventTypeJudgeCompleted \<or> \<not> je_Retryable event" for db2
    using ann
  proof (cases rule: announce_judged_Inr)
    case quiet
    show ?thesis by (rule result [of "[]"]) (use quiet db2 in \<open>auto simp: announces_def\<close>)
  next
    case (sent contestID orow)
    show ?thesis by (rule result [of "[orow]"]) (use sent db2 live in \<open>auto simp: announces_def\<close>)
  qed
  consider (done1) "je_EventType event = EventTypeJudgeCompleted"
    | (retry) "je_EventType event \<noteq> EventTypeJudgeCompleted" "je_Retryable event"
    | (failed) "je_EventType event \<noteq> EventTypeJudgeCompleted" "\<not> je_Retryable event" by blast
  then show ?thesis
  proof cases
    case done1
    then obtain db1 db2 where
      u: "update_submission (je_SubmissionID event) (set_done env event) db = Inr db1"
      and c: "upsert_cases env (je_SubmissionID event) (je_CaseResults event) db1 = Inr db2"
      and a: "announce_judged env event row db2 = Inr db'"
      using assms by (auto simp: apply_to_row_def)
    from update_submission_Inr [OF u] upsert_cases_Inr [OF c] done1 show ?thesis
      by (intro finish [OF a]) (auto simp: result_update_def cases_only_def)
  next
    case retry
    then have u: "update_submission (je_SubmissionID event) (set_retry_wait env event) db = Inr db'"
      using assms by (simp add: apply_to_row_def)
    show ?thesis
      by (rule result [of "[]"])
        (use update_submission_Inr [OF u] retry in \<open>auto simp: result_update_def announces_def\<close>)
  next
    case failed
    then obtain db1 where
      u: "update_submission (je_SubmissionID event) (set_system_error env event) db = Inr db1"
      and a: "announce_judged env event row db1 = Inr db'"
      using assms by (auto simp: apply_to_row_def)
    from update_submission_Inr [OF u] failed show ?thesis
      by (intro finish [OF a]) (auto simp: result_update_def)
  qed
qed

lemma mark_processed_simps [simp]:
  "submissions (mark_processed env e db) = submissions db"
  "outbox_events (mark_processed env e db) = outbox_events db"
  "case_results (mark_processed env e db) = case_results db"
  "idempotency_requests (mark_processed env e db) = idempotency_requests db"
  "next_submission_id (mark_processed env e db) = next_submission_id db"
  "next_outbox_id (mark_processed env e db) = next_outbox_id db"
  "find_submission sid (mark_processed env e db) = find_submission sid db"
  by (simp_all add: mark_processed_def find_submission_def)

lemma is_processed_mark [simp]: "is_processed (mark_processed env e db) e"
  by (auto simp: is_processed_def mark_processed_def)

lemma is_processed_mono:
  "is_processed db e \<Longrightarrow> set (processed_events db) \<subseteq> set (processed_events db') \<Longrightarrow> is_processed db' e"
  by (auto simp: is_processed_def)

lemma apply_result_tx_cases:
  assumes "apply_result_tx env event db = Inr (u, db')"
  obtains (duplicate) "is_processed db (je_EventID event)" "db' = db"
  | (settled) row where "\<not> is_processed db (je_EventID event)"
      "find_submission (je_SubmissionID event) db = Some row"
      "r_judge_revision row = je_JudgeRevision event" "terminal_text (r_status row)"
      "db' = mark_processed env (je_EventID event) db"
  | (live) row where "\<not> is_processed db (je_EventID event)"
      "find_submission (je_SubmissionID event) db = Some row"
      "r_judge_revision row = je_JudgeRevision event" "\<not> terminal_text (r_status row)"
      "apply_to_row env event row (mark_processed env (je_EventID event) db) = Inr db'"
  using assms by (auto simp: apply_result_tx_def Let_def split: if_splits option.splits)

lemma apply_result_processed:
  assumes "apply_result_tx env event db = Inr (u, db')"
  shows "is_processed db' (je_EventID event) \<and> set (processed_events db) \<subseteq> set (processed_events db')"
  using assms
proof (cases rule: apply_result_tx_cases)
  case (live row)
  from live(5) have p: "processed_events db' = processed_events (mark_processed env (je_EventID event) db)"
    by (rule apply_to_row_Inr)
  have "is_processed db' (je_EventID event)"
    by (rule is_processed_mono [OF is_processed_mark [of env _ db]]) (simp add: p)
  moreover have "set (processed_events db) \<subseteq> set (processed_events db')"
    by (simp add: p mark_processed_def subset_insertI)
  ultimately show ?thesis by blast
next
  case (settled row)
  then show ?thesis by (simp add: mark_processed_def [of env _ db] is_processed_def subset_insertI)
qed auto

lemma ApplyJudgeResult_atomic:
  assumes "ApplyJudgeResult env event db = (r, db')"
  shows "db' = db \<or> apply_result_tx env event db = Inr ((), db')"
  using assms by (auto simp: ApplyJudgeResult_def split: option.splits dest: run_tx_atomic)

interpretation judge_results: idempotent_consumer consume_result result_handled quiet_env
proof unfold_locales
  fix db :: judge_db and e env b db'
  assume h: "result_handled db e" and c: "consume_result env e db = (b, db')"
  from h have p: "is_processed db (je_EventID e)" by (simp add: result_handled_def)
  obtain r where a: "ApplyJudgeResult env e db = (r, db')"
    using c by (auto simp: consume_result_def split: prod.splits sum.splits)
  from ApplyJudgeResult_atomic [OF a] show "db' = db"
    using p by (auto simp: apply_result_tx_def)
next
  fix db :: judge_db and e env
  assume "result_handled db e" and "quiet_env env e"
  then show "fst (consume_result env e db)"
    by (simp add: result_handled_def quiet_env_def consume_result_def ApplyJudgeResult_def
        apply_result_tx_def run_tx_def)
next
  fix env e and db db' :: judge_db
  assume c: "consume_result env e db = (True, db')"
  then have v: "JudgeResultEvent_Validate e = None"
    by (auto simp: consume_result_def ApplyJudgeResult_def split: option.splits)
  with c have "apply_result_tx env e db = Inr ((), db')"
    by (auto simp: consume_result_def ApplyJudgeResult_def run_tx_ok split: prod.splits sum.splits)
  from apply_result_processed [OF this] v show "result_handled db' e"
    by (simp add: result_handled_def)
next
  fix db :: judge_db and e env e2 b db'
  assume h: "result_handled db e" and c: "consume_result env e2 db = (b, db')"
  obtain r where a: "ApplyJudgeResult env e2 db = (r, db')"
    using c by (auto simp: consume_result_def split: prod.splits sum.splits)
  from ApplyJudgeResult_atomic [OF a] show "result_handled db' e"
    using h apply_result_processed is_processed_mono by (auto simp: result_handled_def)
qed

subsection \<open>Idempotency records\<close>

lemma reserve_new:
  assumes "reserveIdempotency env rq now db = Inr (None, db1)"
  obtains row where "db1 = db\<lparr>idempotency_requests := idempotency_requests db @ [row]\<rparr>"
    "i_response row = None" "i_actor_id row = ir_ActorID rq" "i_operation row = ir_Operation rq"
    "i_key row = ir_Key rq" "i_request_hash row = ir_RequestHash rq"
    "find (same_idem (ir_ActorID rq) (ir_Operation rq) (ir_Key rq)) (idempotency_requests db) = None"
  using assms
  by (auto simp: reserveIdempotency_def Let_def split: option.splits)

lemma reserve_old:
  assumes "reserveIdempotency env rq now db = Inr (Some resp, db1)"
  obtains stored where "db1 = db"
    "find (same_idem (ir_ActorID rq) (ir_Operation rq) (ir_Key rq)) (idempotency_requests db) = Some stored"
    "i_request_hash stored = ir_RequestHash rq" "i_response stored = Some resp"
  using assms
  by (auto simp: reserveIdempotency_def Let_def split: option.splits)

lemma same_idem_self:
  "same_idem (ir_ActorID rq) (ir_Operation rq) (ir_Key rq) row"
  if "i_actor_id row = ir_ActorID rq" "i_operation row = ir_Operation rq" "i_key row = ir_Key rq"
  using that by (simp add: same_idem_def)

lemma complete_Inr:
  assumes "completeIdempotency env rq resp db = Inr db'"
    and rows: "idempotency_requests db = rows @ [row]" "\<forall>i \<in> set rows. i_response i \<noteq> None"
    and row: "i_response row = None" "same_idem (ir_ActorID rq) (ir_Operation rq) (ir_Key rq) row"
  shows "db' = db\<lparr>idempotency_requests := rows @ [row\<lparr>i_response := Some resp\<rparr>]\<rparr>"
proof -
  have "map (\<lambda>i. if same_idem (ir_ActorID rq) (ir_Operation rq) (ir_Key rq) i \<and> i_response i = None
                 then i\<lparr>i_response := Some resp\<rparr> else i) rows = rows"
    using rows(2) by (intro map_idI) auto
  then show ?thesis
    using assms by (auto simp: completeIdempotency_def Let_def)
qed

subsection \<open>Creating and rejudging\<close>

lemma insertSubmission_Inr:
  assumes "insertSubmission env s db = Inr (sid, db')"
  shows "sid = next_submission_id db \<and> submission_row_ok (row_of_submission sid s)
    \<and> db' = add_submission_row (row_of_submission sid s) db"
  using assms by (auto simp: insertSubmission_def Let_def row_of_submission_def)

lemma insertContestSubmission_Inr:
  assumes "insertContestSubmission env s start_at end_at db = Inr (s2, db')"
  obtains row where "db' = add_submission_row row db" "r_id row = next_submission_id db"
    "submission_row_ok row"
    "s2 = s\<lparr>sub_ID := r_id row, sub_CreatedAt := r_created_at row, sub_UpdatedAt := r_created_at row\<rparr>"
    "r_status row = ''QUEUED''" "r_judged_at row = None" "r_invalidated_at row = None"
    "r_verdict row = None" "r_contest_id row = Some (sub_ContestID s)"
    "r_created_at row = utc_timestamp3 env" "start_at \<le> r_created_at row" "r_created_at row < end_at"
    "r_user_id row = sub_UserID s" "r_problem_id row = sub_ProblemID s"
    "r_judge_revision row = sub_JudgeRevision s" "r_retry_count row = 0"
    "r_language row = sub_Language s" "r_source_object_key row = sub_SourceObjectKey s"
    "r_source_sha256 row = sub_SourceSHA256 s" "r_source_size_bytes row = sub_SourceSizeBytes s"
  using assms by (auto simp: insertContestSubmission_def Let_def)

lemma add_submission_row_simps [simp]:
  "submissions (add_submission_row row db) = submissions db @ [row]"
  "next_submission_id (add_submission_row row db) = next_submission_id db + 1"
  "outbox_events (add_submission_row row db) = outbox_events db"
  "next_outbox_id (add_submission_row row db) = next_outbox_id db"
  "case_results (add_submission_row row db) = case_results db"
  "processed_events (add_submission_row row db) = processed_events db"
  "idempotency_requests (add_submission_row row db) = idempotency_requests db"
  by (simp_all add: add_submission_row_def)

lemma statusToDB_values [simp]:
  "statusToDB ST_QUEUED = ''QUEUED''" "statusToDB ST_DONE = ''DONE''"
  "statusToDB ST_RETRY_WAIT = ''RETRY_WAIT''" "statusToDB ST_INVALIDATED = ''INVALIDATED''"
  "statusToDB ST_CANCELLED = ''CANCELLED''" "statusToDB ST_COMPILING = ''COMPILING''"
  "statusToDB ST_RUNNING = ''RUNNING''"
  by (simp_all add: statusToDB_def trim_prefix_def has_prefix_def)

text \<open>A committed creation either replays the stored response and changes nothing, or adds exactly one
  submission, one \<open>judge.requested\<close> event and one completed idempotency record.\<close>

definition fresh_row :: "submission_row \<Rightarrow> bool" where
  "fresh_row row \<longleftrightarrow>
     r_status row = ''QUEUED'' \<and> r_judged_at row = None \<and> r_invalidated_at row = None
     \<and> r_verdict row = None \<and> r_retry_count row = 0"

definition same_source :: "submission_row \<Rightarrow> Submission \<Rightarrow> bool" where
  "same_source row s \<longleftrightarrow>
     r_language row = sub_Language s \<and> r_source_object_key row = sub_SourceObjectKey s
     \<and> r_source_sha256 row = sub_SourceSHA256 s \<and> r_source_size_bytes row = sub_SourceSizeBytes s
     \<and> r_judge_revision row = sub_JudgeRevision s"

definition requests :: "submission_row \<Rightarrow> outbox_row \<Rightarrow> bool" where
  "requests row orow \<longleftrightarrow>
     o_event_type orow = EventTypeJudgeRequested \<and> o_aggregate_id orow = r_id row
     \<and> o_status orow = OutboxStatusPending \<and> o_lease_owner orow = None"

lemma create_validated:
  assumes "ValidateSubmissionForCreate ulid_ok s = None"
  shows "sub_Verdict s = VD_UNSPECIFIED \<and> sub_RetryCount s = 0 \<and> sub_JudgedAt s = None
    \<and> sub_InvalidatedAt s = None"
  using assms unfolding ValidateSubmissionForCreate_def
  by (simp split: if_splits option.splits del: ValidateJudgeRevision_None)

lemma create_tx_cases:
  assumes t: "create_tx env command db = Inr (res, db')" and ac: "all_complete db"
    and v: "ValidateSubmissionForCreate ulid_ok (cc_Submission command) = None"
  obtains (replay) stored resp where "db' = db"
      "find (same_idem (ir_ActorID (cc_Idempotency command)) (ir_Operation (cc_Idempotency command))
         (ir_Key (cc_Idempotency command))) (idempotency_requests db) = Some stored"
      "i_request_hash stored = ir_RequestHash (cc_Idempotency command)"
      "i_response stored = Some resp" "cs_Replayed res"
      "map_option (cs_Replayed_update (\<lambda>_. True)) (dec_CreateSubmissionResult resp) = Some res"
  | (new) row orow irow where
      "submissions db' = submissions db @ [row]" "next_submission_id db' = next_submission_id db + 1"
      "outbox_events db' = outbox_events db @ [orow]" "next_outbox_id db' = next_outbox_id db + 1"
      "idempotency_requests db' = idempotency_requests db @ [irow]"
      "processed_events db' = processed_events db" "case_results db' = case_results db"
      "r_id row = next_submission_id db" "fresh_row row" "requests row orow"
      "o_id orow = next_outbox_id db"
      "r_user_id row = sub_UserID (cc_Submission command)"
      "r_problem_id row = sub_ProblemID (cc_Submission command)"
      "r_contest_id row = nullableContestID (sub_ContestID (cc_Submission command))"
      "0 < sub_ContestID (cc_Submission command) \<Longrightarrow>
         cc_ContestStartAt command \<le> r_created_at row \<and> r_created_at row < cc_ContestEndAt command
         \<and> r_created_at row = utc_timestamp3 env"
      "find (same_idem (ir_ActorID (cc_Idempotency command)) (ir_Operation (cc_Idempotency command))
         (ir_Key (cc_Idempotency command))) (idempotency_requests db) = None"
      "i_actor_id irow = ir_ActorID (cc_Idempotency command)"
      "i_operation irow = ir_Operation (cc_Idempotency command)"
      "i_key irow = ir_Key (cc_Idempotency command)"
      "i_request_hash irow = ir_RequestHash (cc_Idempotency command)"
      "i_response irow = Some (enc_CreateSubmissionResult res)"
      "res = \<lparr>cs_SubmissionID = r_id row, cs_Status = ST_QUEUED, cs_Replayed = False\<rparr>"
      "same_source row (cc_Submission command)"
proof -
  let ?rq = "cc_Idempotency command"
  let ?s = "(cc_Submission command)\<lparr>sub_Status := ST_QUEUED, sub_CreatedAt := app_now env,
              sub_UpdatedAt := app_now env\<rparr>"
  from t obtain response db1 where r: "reserveIdempotency env ?rq (app_now env) db = Inr (response, db1)"
    by (auto simp: create_tx_def)
  show ?thesis
  proof (cases response)
    case (Some resp)
    from r [unfolded Some] obtain stored where st: "db1 = db"
      "find (same_idem (ir_ActorID ?rq) (ir_Operation ?rq) (ir_Key ?rq)) (idempotency_requests db) = Some stored"
      "i_request_hash stored = ir_RequestHash ?rq" "i_response stored = Some resp"
      by (rule reserve_old)
    show ?thesis
      by (rule replay [OF _ st(2,3,4)]) (use t r Some st(1) in \<open>auto simp: create_tx_def split: option.splits\<close>)
  next
    case None
    from r [unfolded None] obtain irow where i: "db1 = db\<lparr>idempotency_requests := idempotency_requests db @ [irow]\<rparr>"
      "i_response irow = None" "i_actor_id irow = ir_ActorID ?rq" "i_operation irow = ir_Operation ?rq"
      "i_key irow = ir_Key ?rq" "i_request_hash irow = ir_RequestHash ?rq"
      "find (same_idem (ir_ActorID ?rq) (ir_Operation ?rq) (ir_Key ?rq)) (idempotency_requests db) = None"
      by (rule reserve_new)
    from t r None obtain s2 db2 db3 where
      ins: "(if sub_ContestID ?s > 0
             then insertContestSubmission env ?s (cc_ContestStartAt command) (cc_ContestEndAt command) db1
             else bindE (insertSubmission env ?s db1) (\<lambda>(sid, db2). Inr (?s\<lparr>sub_ID := sid\<rparr>, db2)))
            = Inr (s2, db2)"
      and out: "insertJudgeRequestedOutbox env (cc_OutboxEventID command) s2 (sub_CreatedAt s2) db2 = Inr db3"
      and fin: "completeIdempotency env ?rq (enc_CreateSubmissionResult res) db3 = Inr db'"
      and res: "res = \<lparr>cs_SubmissionID = sub_ID s2, cs_Status = sub_Status s2, cs_Replayed = False\<rparr>"
      by (auto simp: create_tx_def Let_def)
    have "\<exists>row. db2 = add_submission_row row db1 \<and> r_id row = next_submission_id db1 \<and> fresh_row row
        \<and> r_user_id row = sub_UserID (cc_Submission command)
        \<and> r_problem_id row = sub_ProblemID (cc_Submission command)
        \<and> r_contest_id row = nullableContestID (sub_ContestID (cc_Submission command))
        \<and> sub_ID s2 = r_id row \<and> sub_Status s2 = ST_QUEUED
        \<and> same_source row (cc_Submission command)
        \<and> (0 < sub_ContestID (cc_Submission command) \<longrightarrow>
             cc_ContestStartAt command \<le> r_created_at row \<and> r_created_at row < cc_ContestEndAt command
             \<and> r_created_at row = utc_timestamp3 env)"
    proof (cases "sub_ContestID ?s > 0")
      case True
      with ins have "insertContestSubmission env ?s (cc_ContestStartAt command)
          (cc_ContestEndAt command) db1 = Inr (s2, db2)" by simp
      then show ?thesis
        by (rule insertContestSubmission_Inr)
          (use True in \<open>auto simp: fresh_row_def nullableContestID_def same_source_def\<close>)
    next
      case False
      then obtain sid where "insertSubmission env ?s db1 = Inr (sid, db2)" "s2 = ?s\<lparr>sub_ID := sid\<rparr>"
        using ins by auto
      with insertSubmission_Inr [of env ?s db1 sid db2] create_validated [OF v] False show ?thesis
        by (intro exI [of _ "row_of_submission sid ?s"])
          (simp add: fresh_row_def row_of_submission_def nullableVerdict_def verdictToDB_def
            same_source_def)
    qed
    then obtain row where row: "db2 = add_submission_row row db1" "r_id row = next_submission_id db1"
      "fresh_row row" "r_user_id row = sub_UserID (cc_Submission command)"
      "r_problem_id row = sub_ProblemID (cc_Submission command)"
      "r_contest_id row = nullableContestID (sub_ContestID (cc_Submission command))"
      "sub_ID s2 = r_id row" "sub_Status s2 = ST_QUEUED" "same_source row (cc_Submission command)"
      "0 < sub_ContestID (cc_Submission command) \<Longrightarrow>
             cc_ContestStartAt command \<le> r_created_at row \<and> r_created_at row < cc_ContestEndAt command
             \<and> r_created_at row = utc_timestamp3 env" by blast
    from out [unfolded insertJudgeRequestedOutbox_def] obtain orow where o:
      "db3 = db2\<lparr>outbox_events := outbox_events db2 @ [orow], next_outbox_id := next_outbox_id db2 + 1\<rparr>"
      "o_id orow = next_outbox_id db2" "requests row orow"
      by (rule insertOutbox_Inr) (use row(7) in \<open>auto simp: requests_def\<close>)
    have f: "db' = db3\<lparr>idempotency_requests := idempotency_requests db
        @ [irow\<lparr>i_response := Some (enc_CreateSubmissionResult res)\<rparr>]\<rparr>"
      by (rule complete_Inr [OF fin _ _ i(2)])
        (use o row i ac in \<open>auto simp: all_complete_def intro: same_idem_self\<close>)
    show ?thesis
      by (rule new [of row orow "irow\<lparr>i_response := Some (enc_CreateSubmissionResult res)\<rparr>"])
        (use f o row i res in auto)
  qed
qed

lemma lower_upper_char: "lower_char (upper_char c) = lower_char c"
proof -
  have "of_char (char_of (n - 32) :: char) = n - 32" if "97 \<le> n" "n \<le> 122" for n :: nat
    using that by (simp add: of_char_of)
  then show ?thesis by (auto simp: lower_char_def upper_char_def Let_def)
qed

lemma to_lower_to_upper: "to_lower (to_upper s) = to_lower s"
  by (simp add: to_lower_def to_upper_def lower_upper_char)

lemma statusFromDB_sound:
  assumes "statusFromDB v = Inr st"
  shows "statusToDB st = to_upper v \<and> db_eq v (statusToDB st)"
proof -
  from assms have "find (\<lambda>s. status_String s = ''SUBMISSION_STATUS_'' @ to_upper v) named_statuses = Some st"
    unfolding statusFromDB_def by (simp only: split: option.splits) (auto split: option.splits)
  then have "status_String st = ''SUBMISSION_STATUS_'' @ to_upper v"
    unfolding find_Some_iff by blast
  then have "statusToDB st = to_upper v" unfolding statusToDB_def by (simp only: trim_prefix_append)
  then show ?thesis by (simp add: db_eq_def equal_fold_def to_lower_to_upper)
qed

lemma scanSubmission_Inr:
  assumes "scanSubmission row = Inr s"
  obtains r where "row = Some r" "statusFromDB (r_status r) = Inr (sub_Status s)" "sub_ID s = r_id r"
    "sub_UserID s = r_user_id r" "sub_ProblemID s = r_problem_id r"
    "sub_ContestID s = (case r_contest_id r of None \<Rightarrow> 0 | Some c \<Rightarrow> c)"
    "sub_Language s = r_language r" "sub_SourceObjectKey s = r_source_object_key r"
    "sub_SourceSHA256 s = r_source_sha256 r" "sub_SourceSizeBytes s = r_source_size_bytes r"
    "sub_CreatedAt s = r_created_at r" "sub_JudgeRevision s = r_judge_revision r"
  using assms by (auto simp: scanSubmission_def split: option.splits)

lemma find_submission_id: "find_submission sid db = Some r \<Longrightarrow> r \<in> set (submissions db) \<and> r_id r = sid"
  by (auto simp: find_submission_def find_Some_iff)

definition invalidated_row :: "judge_env \<Rightarrow> submission_row \<Rightarrow> submission_row" where
  "invalidated_row env r =
     r\<lparr>r_status := statusToDB ST_INVALIDATED, r_invalidated_at := Some (db_ms (app_now env)),
       r_updated_at := db_ms (app_now env)\<rparr>"

definition replaces :: "submission_row \<Rightarrow> submission_row \<Rightarrow> bool" where
  \<comment> \<open>a rejudge copies the identity and the source of the submission it replaces\<close>
  "replaces old row \<longleftrightarrow>
     r_user_id row = r_user_id old \<and> r_problem_id row = r_problem_id old
     \<and> r_contest_id row = nullableContestID (case r_contest_id old of None \<Rightarrow> 0 | Some c \<Rightarrow> c)
     \<and> r_language row = r_language old \<and> r_source_object_key row = r_source_object_key old
     \<and> r_source_sha256 row = r_source_sha256 old \<and> r_source_size_bytes row = r_source_size_bytes old
     \<and> (r_contest_id row \<noteq> None \<longrightarrow> r_created_at row = db_ms (r_created_at old))"

lemma rejudge_tx_cases:
  assumes t: "rejudge_tx env command db = Inr (res, db')" and ac: "all_complete db"
  obtains (replay) stored where "db' = db"
      "find (same_idem (ir_ActorID (rc_Idempotency command)) (ir_Operation (rc_Idempotency command))
         (ir_Key (rc_Idempotency command))) (idempotency_requests db) = Some stored"
      "rr_Replayed res"
  | (new) old st row inv req irow where
      "find_submission (rc_SubmissionID command) db = Some old"
      "statusFromDB (r_status old) = Inr st" "CanInvalidate st"
      "length (filter (\<lambda>r. r_id r = r_id old \<and> db_eq (r_status r) (statusToDB st)) (submissions db)) = 1"
      "submissions db' = map (\<lambda>r. if r_id r = r_id old \<and> db_eq (r_status r) (statusToDB st)
          then invalidated_row env r else r) (submissions db) @ [row]"
      "next_submission_id db' = next_submission_id db + 1"
      "outbox_events db' = outbox_events db @ [inv, req]" "next_outbox_id db' = next_outbox_id db + 2"
      "idempotency_requests db' = idempotency_requests db @ [irow]" "i_response irow \<noteq> None"
      "processed_events db' = processed_events db" "case_results db' = case_results db"
      "r_id row = next_submission_id db" "fresh_row row" "requests row req" "replaces old row"
      "r_judge_revision row = rc_JudgeRevision command"
      "o_id inv = next_outbox_id db" "o_id req = next_outbox_id db + 1"
      "o_event_type inv = EventTypeSubmissionInvalidated" "o_aggregate_id inv = r_id old"
      "o_status inv = OutboxStatusPending" "o_lease_owner inv = None"
      "find (same_idem (ir_ActorID (rc_Idempotency command)) (ir_Operation (rc_Idempotency command))
         (ir_Key (rc_Idempotency command))) (idempotency_requests db) = None"
      "i_actor_id irow = ir_ActorID (rc_Idempotency command)"
      "i_operation irow = ir_Operation (rc_Idempotency command)"
      "i_key irow = ir_Key (rc_Idempotency command)"
      "rr_InvalidatedSubmissionID res = r_id old" "sub_ID (rr_Submission res) = r_id row"
      "\<not> rr_Replayed res"
proof -
  let ?rq = "rc_Idempotency command"
  from t obtain response db1 where r: "reserveIdempotency env ?rq (app_now env) db = Inr (response, db1)"
    by (auto simp: rejudge_tx_def)
  show ?thesis
  proof (cases response)
    case (Some resp)
    from r [unfolded Some] obtain stored where st: "db1 = db"
      "find (same_idem (ir_ActorID ?rq) (ir_Operation ?rq) (ir_Key ?rq)) (idempotency_requests db) = Some stored"
      by (rule reserve_old)
    show ?thesis
      by (rule replay [OF _ st(2)])
        (use t r Some st(1) in \<open>auto simp: rejudge_tx_def split: option.splits\<close>)
  next
    case None
    from r [unfolded None] obtain irow where i: "db1 = db\<lparr>idempotency_requests := idempotency_requests db @ [irow]\<rparr>"
      "i_response irow = None" "i_actor_id irow = ir_ActorID ?rq" "i_operation irow = ir_Operation ?rq"
      "i_key irow = ir_Key ?rq"
      "find (same_idem (ir_ActorID ?rq) (ir_Operation ?rq) (ir_Key ?rq)) (idempotency_requests db) = None"
      by (rule reserve_new)
    have db1: "find_submission sid db1 = find_submission sid db" "submissions db1 = submissions db" for sid
      by (simp_all add: i(1) find_submission_def)
    from t r None obtain os db2 db3 new_id db4 db5 where
      sc: "scanSubmission (find_submission (rc_SubmissionID command) db) = Inr os"
      and can: "CanInvalidate (sub_Status os)"
      and inv: "invalidate_row env os db1 = Inr db2"
      and io: "insertInvalidatedOutbox env (rc_InvalidatedOutboxEventID command) os (app_now env) db2 = Inr db3"
      and ins: "insertSubmission env (replacement_of command os (app_now env)) db3 = Inr (new_id, db4)"
      and ro: "insertJudgeRequestedOutbox env (rc_RequestedOutboxEventID command)
           ((replacement_of command os (app_now env))\<lparr>sub_ID := new_id\<rparr>) (app_now env) db4 = Inr db5"
      and fin: "completeIdempotency env ?rq (enc_rejudge_response (sub_ID os) new_id) db5 = Inr db'"
      and res: "res = \<lparr>rr_InvalidatedSubmissionID = sub_ID os,
           rr_Submission = (replacement_of command os (app_now env))\<lparr>sub_ID := new_id\<rparr>, rr_Replayed = False\<rparr>"
      by (auto simp: rejudge_tx_def Let_def db1)
    from sc obtain old where old: "find_submission (rc_SubmissionID command) db = Some old"
      "statusFromDB (r_status old) = Inr (sub_Status os)" "sub_ID os = r_id old"
      "sub_UserID os = r_user_id old" "sub_ProblemID os = r_problem_id old"
      "sub_ContestID os = (case r_contest_id old of None \<Rightarrow> 0 | Some c \<Rightarrow> c)"
      "sub_Language os = r_language old" "sub_SourceObjectKey os = r_source_object_key old"
      "sub_SourceSHA256 os = r_source_sha256 old" "sub_SourceSizeBytes os = r_source_size_bytes old"
      "sub_CreatedAt os = r_created_at old"
      by (rule scanSubmission_Inr)
    from inv have u: "length (filter (\<lambda>r. r_id r = r_id old \<and> db_eq (r_status r) (statusToDB (sub_Status os)))
          (submissions db)) = 1"
      "db2 = db1\<lparr>submissions := map (\<lambda>r. if r_id r = r_id old \<and> db_eq (r_status r) (statusToDB (sub_Status os))
          then invalidated_row env r else r) (submissions db)\<rparr>"
      unfolding invalidate_row_def Let_def old(3) db1 invalidated_row_def by auto
    from io [unfolded insertInvalidatedOutbox_def] obtain iv where iv:
      "db3 = db2\<lparr>outbox_events := outbox_events db2 @ [iv], next_outbox_id := next_outbox_id db2 + 1\<rparr>"
      "o_id iv = next_outbox_id db2" "o_event_type iv = EventTypeSubmissionInvalidated"
      "o_aggregate_id iv = sub_ID os" "o_status iv = OutboxStatusPending" "o_lease_owner iv = None"
      by (rule insertOutbox_Inr)
    let ?row = "row_of_submission new_id (replacement_of command os (app_now env))"
    from insertSubmission_Inr [OF ins] have row: "new_id = next_submission_id db3"
      "db4 = add_submission_row ?row db3" by simp_all
    from ro [unfolded insertJudgeRequestedOutbox_def] obtain rq where rq:
      "db5 = db4\<lparr>outbox_events := outbox_events db4 @ [rq], next_outbox_id := next_outbox_id db4 + 1\<rparr>"
      "o_id rq = next_outbox_id db4" "requests ?row rq"
      by (rule insertOutbox_Inr) (auto simp: requests_def row_of_submission_def)
    have f: "db' = db5\<lparr>idempotency_requests := idempotency_requests db
        @ [irow\<lparr>i_response := Some (enc_rejudge_response (sub_ID os) new_id)\<rparr>]\<rparr>"
      by (rule complete_Inr [OF fin _ _ i(2)])
        (use rq row iv u i ac in \<open>auto simp: all_complete_def intro: same_idem_self\<close>)
    have nid: "new_id = next_submission_id db" using row(1) by (simp add: iv u(2) i(1))
    have fr: "fresh_row ?row" "replaces old ?row" "r_judge_revision ?row = rc_JudgeRevision command"
      "r_id ?row = new_id"
      by (simp_all add: fresh_row_def replaces_def row_of_submission_def replacement_of_def
          empty_submission_def nullableVerdict_def verdictToDB_def nullableContestID_def old
          split: option.splits)
    show ?thesis
      by (rule new [OF old(1,2) can u(1), of ?row iv rq
            "irow\<lparr>i_response := Some (enc_rejudge_response (sub_ID os) new_id)\<rparr>"])
        (simp_all add: f rq(1,2) row(2) iv u(2) i rq(3) [unfolded nid] fr [unfolded nid] nid old(3) res)
  qed
qed

end
