(* ===== verification/Judge_Store_Inv.thy ===== *)
theory Judge_Store_Inv
  imports Judge_Store_Facts
begin

text \<open>
  The judge store as a state machine: every operation of the repository, under any environment, is a
  step; the reachable states are those the service can leave in the database. The invariant ties every
  submission to its outbox events: one judging request each, one announcement for each contest verdict,
  one invalidation for each replaced submission.
\<close>

section \<open>Definitions\<close>

inductive judge_step ::
  "(string \<Rightarrow> string option) \<Rightarrow> (string \<Rightarrow> bool) \<Rightarrow> judge_db \<Rightarrow> judge_db \<Rightarrow> bool"
  for uuid_parse ulid_ok where
  create: "CreateWithOutboxAndIdempotency uuid_parse ulid_ok env command db = (r, db') \<Longrightarrow>
    judge_step uuid_parse ulid_ok db db'"
| rejudge: "InvalidateAndRequeueWithOutboxAndIdempotency uuid_parse ulid_ok env rcommand db = (r2, db') \<Longrightarrow>
    judge_step uuid_parse ulid_ok db db'"
| apply_result: "ApplyJudgeResult env event db = (r3, db') \<Longrightarrow> judge_step uuid_parse ulid_ok db db'"
| claim: "ClaimOutbox env owner now leaseUntil limit db = (r4, db') \<Longrightarrow>
    judge_step uuid_parse ulid_ok db db'"
| published: "MarkOutboxPublished env eid owner at db = (r5, db') \<Longrightarrow>
    judge_step uuid_parse ulid_ok db db'"
| failure: "MarkOutboxFailure env eid owner at dead reason db = (r6, db') \<Longrightarrow>
    judge_step uuid_parse ulid_ok db db'"

inductive judge_steps ::
  "(string \<Rightarrow> string option) \<Rightarrow> (string \<Rightarrow> bool) \<Rightarrow> judge_db \<Rightarrow> judge_db \<Rightarrow> bool"
  for uuid_parse ulid_ok where
  start: "judge_steps uuid_parse ulid_ok db db"
| more: "judge_steps uuid_parse ulid_ok db db1 \<Longrightarrow> judge_step uuid_parse ulid_ok db1 db2 \<Longrightarrow>
    judge_steps uuid_parse ulid_ok db db2"

definition event_count :: "judge_db \<Rightarrow> string \<Rightarrow> int64 \<Rightarrow> nat" where
  "event_count db ty sid =
     length (filter (\<lambda>e. o_event_type e = ty \<and> o_aggregate_id e = sid) (outbox_events db))"

definition row_inv :: "judge_db \<Rightarrow> submission_row \<Rightarrow> bool" where
  "row_inv db r \<longleftrightarrow>
     0 < r_id r \<and> r_id r < next_submission_id db
     \<and> r_status r \<in> {''QUEUED'', ''RETRY_WAIT'', ''DONE'', ''INVALIDATED''}
     \<and> (r_status r = ''INVALIDATED'' \<longleftrightarrow> r_invalidated_at r \<noteq> None)
     \<and> (r_status r = ''DONE'' \<longrightarrow> r_judged_at r \<noteq> None)
     \<and> (r_status r \<in> {''QUEUED'', ''RETRY_WAIT''} \<longrightarrow> r_judged_at r = None)
     \<and> (r_judged_at r \<noteq> None \<longleftrightarrow> r_verdict r \<noteq> None)
     \<and> event_count db EventTypeJudgeRequested (r_id r) = 1
     \<and> event_count db EventTypeSubmissionJudged (r_id r) =
         (if r_contest_id r \<noteq> None \<and> r_judged_at r \<noteq> None then 1 else 0)
     \<and> event_count db EventTypeSubmissionInvalidated (r_id r) =
         (if r_invalidated_at r \<noteq> None then 1 else 0)"

definition outbox_inv :: "judge_db \<Rightarrow> bool" where
  "outbox_inv db \<longleftrightarrow>
     0 < next_outbox_id db \<and> distinct (map o_id (outbox_events db))
     \<and> (\<forall>e \<in> set (outbox_events db). 0 < o_id e \<and> o_id e < next_outbox_id db
          \<and> 0 < o_aggregate_id e \<and> o_aggregate_id e < next_submission_id db)"

definition store_inv :: "judge_db \<Rightarrow> bool" where
  "store_inv db \<longleftrightarrow>
     0 < next_submission_id db \<and> distinct (map r_id (submissions db))
     \<and> (\<forall>r \<in> set (submissions db). row_inv db r) \<and> outbox_inv db \<and> all_complete db"

section \<open>Lemmas\<close>

inductive_cases judge_stepE: "judge_step uuid_parse ulid_ok db db'"

lemmas event_types = EventTypeJudgeRequested_def EventTypeSubmissionJudged_def
  EventTypeSubmissionInvalidated_def EventSubmissionJudged_def EventSubmissionInvalidated_def

lemma event_types_distinct [simp]:
  "EventTypeJudgeRequested \<noteq> EventTypeSubmissionJudged"
  "EventTypeJudgeRequested \<noteq> EventTypeSubmissionInvalidated"
  "EventTypeSubmissionJudged \<noteq> EventTypeSubmissionInvalidated"
  "EventTypeSubmissionJudged \<noteq> EventTypeJudgeRequested"
  "EventTypeSubmissionInvalidated \<noteq> EventTypeJudgeRequested"
  "EventTypeSubmissionInvalidated \<noteq> EventTypeSubmissionJudged"
  by (simp_all add: event_types)

lemma run_tx_preserves:
  assumes "run_tx env err body s = (r, s')" and "P s"
    and "\<And>a s'. body s = Inr (a, s') \<Longrightarrow> P s'"
  shows "P s'"
  using run_tx_atomic [OF assms(1)] assms(2,3) by blast

lemma event_count_append:
  "outbox_events db' = outbox_events db @ news \<Longrightarrow>
    event_count db' ty sid = event_count db ty sid
      + length (filter (\<lambda>e. o_event_type e = ty \<and> o_aggregate_id e = sid) news)"
  by (simp add: event_count_def)

lemma event_count_same: "outbox_events db' = outbox_events db \<Longrightarrow> event_count db' = event_count db"
  by (intro ext) (simp add: event_count_def)

lemma event_count_new_id:
  "store_inv db \<Longrightarrow> next_submission_id db \<le> sid \<Longrightarrow> event_count db ty sid = 0"
  by (fastforce simp: event_count_def store_inv_def outbox_inv_def filter_empty_conv)

lemma outbox_inv_append:
  assumes inv: "outbox_inv db" and out: "outbox_events db' = outbox_events db @ news"
    and ids: "map o_id news = map (\<lambda>k. next_outbox_id db + int k) [0..<length news]"
    and nx: "next_outbox_id db' = next_outbox_id db + int (length news)"
    and ns: "next_submission_id db \<le> next_submission_id db'"
    and agg: "\<And>e. e \<in> set news \<Longrightarrow> 0 < o_aggregate_id e \<and> o_aggregate_id e < next_submission_id db'"
  shows "outbox_inv db'"
proof -
  have rng: "next_outbox_id db \<le> o_id e \<and> o_id e < next_outbox_id db'" if "e \<in> set news" for e
  proof -
    have "o_id e \<in> set (map o_id news)" using that by simp
    then show ?thesis unfolding ids nx by auto
  qed
  have "distinct (map o_id news)" unfolding ids by (simp add: distinct_map inj_on_def)
  moreover have "o_id ` set (outbox_events db) \<inter> o_id ` set news = {}"
    using inv rng by (force simp: outbox_inv_def)
  ultimately have "distinct (map o_id (outbox_events db'))"
    using inv by (simp add: out outbox_inv_def)
  moreover have "0 < o_id e \<and> o_id e < next_outbox_id db' \<and> 0 < o_aggregate_id e
      \<and> o_aggregate_id e < next_submission_id db'" if "e \<in> set (outbox_events db')" for e
    using that inv rng [of e] agg [of e] ns nx unfolding out by (fastforce simp: outbox_inv_def)
  ultimately show ?thesis using inv nx by (simp add: outbox_inv_def)
qed

lemma new_id_unused: "store_inv db \<Longrightarrow> next_submission_id db \<notin> r_id ` set (submissions db)"
  by (auto simp: store_inv_def row_inv_def)

lemma row_inv_id: "row_inv db r \<Longrightarrow> 0 < r_id r \<and> r_id r < next_submission_id db"
  by (simp add: row_inv_def)

lemma row_inv_other:
  assumes "row_inv db r" and "next_submission_id db \<le> next_submission_id db'"
    and "outbox_events db' = outbox_events db @ news"
    and "\<And>e. e \<in> set news \<Longrightarrow> o_aggregate_id e \<noteq> r_id r"
  shows "row_inv db' r"
proof -
  have "filter (\<lambda>e. o_event_type e = ty \<and> o_aggregate_id e = r_id r) news = []" for ty
    using assms(4) by (auto simp: filter_empty_conv)
  then have "event_count db' ty (r_id r) = event_count db ty (r_id r)" for ty
    by (simp add: event_count_append [OF assms(3)])
  with assms(1,2) show ?thesis unfolding row_inv_def by auto
qed

lemma create_tx_inv:
  assumes inv: "store_inv db" and t: "create_tx env command db = Inr (res, db')"
    and v: "ValidateSubmissionForCreate ulid_ok (cc_Submission command) = None"
  shows "store_inv db'"
proof -
  have ac: "all_complete db" using inv by (simp add: store_inv_def)
  from t ac v show ?thesis
  proof (cases rule: create_tx_cases)
    case replay
    with inv show ?thesis by simp
  next
    case (new row orow irow)
    have cnt: "event_count db' ty (r_id row) = (if ty = EventTypeJudgeRequested then 1 else 0)" for ty
      using new(10) event_count_new_id [OF inv, of "r_id row" ty] new(8)
      by (simp add: event_count_append [OF new(3)] requests_def)
    have "row_inv db' r" if "r \<in> set (submissions db)" for r
    proof -
      have r: "row_inv db r" using inv that by (simp add: store_inv_def)
      show ?thesis
        by (rule row_inv_other [OF r _ new(3)])
          (use row_inv_id [OF r] new(2,8,10) in \<open>auto simp: requests_def\<close>)
    qed
    moreover have "row_inv db' row"
      using new(8,9) inv new(2) cnt by (simp add: row_inv_def fresh_row_def store_inv_def)
    ultimately have rows: "\<forall>r \<in> set (submissions db'). row_inv db' r" using new(1) by auto
    have "outbox_inv db'"
      by (rule outbox_inv_append [OF _ new(3)]) (use inv new in \<open>auto simp: store_inv_def requests_def\<close>)
    moreover have "distinct (map r_id (submissions db'))"
      using new inv new_id_unused [OF inv] by (simp add: store_inv_def)
    ultimately show ?thesis
      using rows inv new(2,5,21) unfolding store_inv_def by (simp add: all_complete_def)
  qed
qed

lemma statusFromDB_DB:
  "statusFromDB ''QUEUED'' = Inr ST_QUEUED" "statusFromDB ''RETRY_WAIT'' = Inr ST_RETRY_WAIT"
  "statusFromDB ''DONE'' = Inr ST_DONE" "statusFromDB ''INVALIDATED'' = Inr ST_INVALIDATED"
  by code_simp+

lemma rejudge_tx_inv:
  assumes inv: "store_inv db" and t: "rejudge_tx env command db = Inr (res, db')"
  shows "store_inv db'"
proof -
  have ac: "all_complete db" using inv by (simp add: store_inv_def)
  from t ac show ?thesis
  proof (cases rule: rejudge_tx_cases)
    case replay
    with inv show ?thesis by simp
  next
    case (new old st row iv req irow)
    let ?hit = "\<lambda>r. r_id r = r_id old \<and> db_eq (r_status r) (statusToDB st)"
    let ?upd = "\<lambda>r. if ?hit r then invalidated_row env r else r"
    from new(1) have oldin: "old \<in> set (submissions db)" by (simp add: find_submission_id)
    then have oinv: "row_inv db old" using inv by (simp add: store_inv_def)
    have only: "r = old" if "r \<in> set (submissions db)" "r_id r = r_id old" for r
      using that oldin inv by (auto simp: store_inv_def distinct_map inj_on_def)
    have live: "r_invalidated_at old = None"
      using oinv new(2,3) by (auto simp: row_inv_def statusFromDB_DB CanInvalidate_def CanTransition_def)
    have hit: "?hit old" using statusFromDB_sound [OF new(2)] by blast
    have out: "outbox_events db' = outbox_events db @ [iv, req]" by (rule new(7))
    have cnt: "event_count db' ty (r_id row) = (if ty = EventTypeJudgeRequested then 1 else 0)" for ty
      using new(15,13,21) oinv event_count_new_id [OF inv, of "r_id row" ty]
      by (auto simp: event_count_append [OF out] requests_def row_inv_def)
    have ocnt: "event_count db' ty (r_id old)
        = event_count db ty (r_id old) + (if ty = EventTypeSubmissionInvalidated then 1 else 0)" for ty
      using new(13,15,20,21) oinv by (auto simp: event_count_append [OF out] requests_def row_inv_def)
    have upds: "\<forall>r \<in> set (submissions db). row_inv db' (?upd r)"
    proof
      fix r assume r: "r \<in> set (submissions db)"
      show "row_inv db' (?upd r)"
      proof (cases "r_id r = r_id old")
        case True
        then have "r = old" using only r by simp
        then show ?thesis using hit oinv live ocnt new(6) by (simp add: row_inv_def invalidated_row_def)
      next
        case False
        have ri: "row_inv db r" using inv r by (simp add: store_inv_def)
        have "row_inv db' r"
          by (rule row_inv_other [OF ri _ out])
            (use row_inv_id [OF ri] new(6,13,15,21) False in \<open>auto simp: requests_def\<close>)
        then show ?thesis using False by simp
      qed
    qed
    have added: "row_inv db' row"
      using new(6,13,14) inv cnt by (simp add: row_inv_def fresh_row_def store_inv_def)
    have rows: "\<forall>r \<in> set (submissions db'). row_inv db' r"
      unfolding new(5) set_append set_map ball_Un ball_simps using upds added by (intro conjI) simp_all
    have "map r_id (map ?upd (submissions db)) = map r_id (submissions db)"
      by (simp add: invalidated_row_def)
    then have "distinct (map r_id (submissions db'))"
      using new(5,13) inv new_id_unused [OF inv] by (simp add: store_inv_def del: map_map)
    moreover have "outbox_inv db'"
      by (rule outbox_inv_append [OF _ out])
        (use inv new(6,8,13,15,18,19,21) row_inv_id [OF oinv] in \<open>auto simp: store_inv_def requests_def\<close>)
    ultimately show ?thesis
      using rows inv new(6,9,10) unfolding store_inv_def by (simp add: all_complete_def)
  qed
qed

lemma result_update_keeps [simp]:
  "r_id (result_update env event r) = r_id r"
  "r_contest_id (result_update env event r) = r_contest_id r"
  "r_invalidated_at (result_update env event r) = r_invalidated_at r"
  "r_user_id (result_update env event r) = r_user_id r"
  "r_problem_id (result_update env event r) = r_problem_id r"
  "r_created_at (result_update env event r) = r_created_at r"
  "r_judge_revision (result_update env event r) = r_judge_revision r"
  by (simp_all add: result_update_def set_done_def set_retry_wait_def set_system_error_def)

lemma apply_result_inv:
  assumes inv: "store_inv db" and t: "apply_result_tx env event db = Inr (u, db')"
  shows "store_inv db'"
  using t
proof (cases rule: apply_result_tx_cases)
  case duplicate
  with inv show ?thesis by simp
next
  case (settled row)
  have "event_count db' = event_count db" by (rule event_count_same) (simp add: settled(5))
  then have "row_inv db' r = row_inv db r" for r
    by (simp only: row_inv_def settled(5) mark_processed_simps)
  with inv show ?thesis unfolding store_inv_def outbox_inv_def all_complete_def
    by (simp only: settled(5) mark_processed_simps) blast
next
  case (live row)
  let ?sid = "je_SubmissionID event"
  let ?db1 = "mark_processed env (je_EventID event) db"
  have rowin: "row \<in> set (submissions db)" and rid: "r_id row = ?sid"
    using find_submission_id [OF live(2)] by auto
  have rinv: "row_inv db row" using rowin inv by (simp add: store_inv_def)
  have only: "r = row" if "r \<in> set (submissions db)" "r_id r = ?sid" for r
    using that rowin rid inv by (auto simp: store_inv_def distinct_map inj_on_def)
  have undone: "r_status row \<in> {''QUEUED'', ''RETRY_WAIT''}" "r_judged_at row = None" "r_invalidated_at row = None"
    using rinv live(4) by (auto simp: row_inv_def terminal_text_def)
  from live(5) show ?thesis
  proof (rule apply_to_row_Inr)
    fix news
    assume subs: "submissions db' = map (\<lambda>r. if r_id r = ?sid then result_update env event r else r)
        (submissions ?db1)"
      and out: "outbox_events db' = outbox_events ?db1 @ news"
      and len: "length news = (if announces event row then 1 else 0)"
      and news: "\<And>n. n \<in> set news \<Longrightarrow> o_id n = next_outbox_id ?db1 \<and> o_event_type n = EventTypeSubmissionJudged
        \<and> o_aggregate_id n = ?sid \<and> o_status n = OutboxStatusPending \<and> o_lease_owner n = None
        \<and> (\<exists>c. r_contest_id row = Some c \<and> enc_SubmissionJudged (judged_payload event row c) = Some (o_payload n))"
      and nx: "next_outbox_id db' = next_outbox_id ?db1 + int (length news)"
      and idm: "idempotency_requests db' = idempotency_requests ?db1"
      and ns: "next_submission_id db' = next_submission_id ?db1"
    from out have out': "outbox_events db' = outbox_events db @ news" by simp
    have nlist: "news = [] \<or> (\<exists>n. news = [n])" using len by (cases news) (auto split: if_splits)
    have cnt: "event_count db' ty ?sid = event_count db ty ?sid
        + (if ty = EventTypeSubmissionJudged \<and> announces event row then 1 else 0)" for ty
      using nlist news len by (auto simp: event_count_append [OF out'] split: if_splits)
    have done1: "row_inv db' (result_update env event row)"
      using rinv undone cnt ns rid unfolding row_inv_def
      by (simp add: result_update_def set_done_def set_retry_wait_def set_system_error_def announces_def)
    have upds: "\<forall>r \<in> set (submissions db). row_inv db' (if r_id r = ?sid then result_update env event r else r)"
    proof
      fix r assume r: "r \<in> set (submissions db)"
      show "row_inv db' (if r_id r = ?sid then result_update env event r else r)"
      proof (cases "r_id r = ?sid")
        case False
        have "row_inv db' r"
          by (rule row_inv_other [OF _ _ out']) (use inv r news ns False in \<open>auto simp: store_inv_def\<close>)
        then show ?thesis using False by simp
      qed (use only [OF r] done1 in auto)
    qed
    have rows: "\<forall>r \<in> set (submissions db'). row_inv db' r"
      unfolding subs set_map ball_simps mark_processed_simps by (rule upds)
    have "map r_id (submissions db') = map r_id (submissions db)" using subs by simp
    moreover have "outbox_inv db'"
      by (rule outbox_inv_append [OF _ out'])
        (use inv nlist news nx ns row_inv_id [OF rinv] rid in \<open>auto simp: store_inv_def\<close>)
    ultimately show "store_inv db'"
      using rows inv ns idm unfolding store_inv_def by (simp add: all_complete_def)
  qed
qed

subsection \<open>Outbox bookkeeping leaves the identity of events alone\<close>

definition same_event :: "outbox_row \<Rightarrow> outbox_row \<Rightarrow> bool" where
  "same_event e e' \<longleftrightarrow>
     o_id e' = o_id e \<and> o_event_id e' = o_event_id e \<and> o_event_type e' = o_event_type e
     \<and> o_aggregate_id e' = o_aggregate_id e \<and> o_payload e' = o_payload e
     \<and> o_event_version e' = o_event_version e \<and> o_created_at e' = o_created_at e"

lemma outbox_map_inv:
  assumes inv: "store_inv db" and f: "\<And>e. same_event e (f e)"
  shows "store_inv (db\<lparr>outbox_events := map f (outbox_events db)\<rparr>)"
proof -
  let ?db' = "db\<lparr>outbox_events := map f (outbox_events db)\<rparr>"
  have "event_count ?db' ty sid = event_count db ty sid" for ty sid
    using f by (simp add: event_count_def filter_map o_def same_event_def)
  then have "row_inv ?db' r \<longleftrightarrow> row_inv db r" for r by (simp add: row_inv_def)
  moreover have "map o_id (map f (outbox_events db)) = map o_id (outbox_events db)"
    using f by (simp add: same_event_def)
  ultimately show ?thesis
    using inv f unfolding store_inv_def outbox_inv_def
    by (simp add: same_event_def all_complete_def del: map_map)
qed

lemma update_owned_shape:
  assumes "update_owned env eid owner f lost db = (r, db')"
  shows "db' = db \<or> db' = db\<lparr>outbox_events := map (\<lambda>r. if owned eid owner r then f r else r) (outbox_events db)\<rparr>"
  using assms by (auto simp: update_owned_def Let_def split: if_splits)

lemma judge_step_inv:
  assumes "judge_step uuid_parse ulid_ok db db'" and inv: "store_inv db"
  shows "store_inv db'"
  using assms(1)
proof (cases rule: judge_step.cases)
  case (create env command r)
  then show ?thesis
    using inv create_tx_inv [OF inv]
    by (auto simp: CreateWithOutboxAndIdempotency_def split: option.splits if_splits
        elim: run_tx_preserves)
next
  case (rejudge env rcommand r2)
  then show ?thesis
    using inv rejudge_tx_inv [OF inv]
    by (auto simp: InvalidateAndRequeueWithOutboxAndIdempotency_def split: option.splits if_splits
        elim: run_tx_preserves)
next
  case (apply_result env event r3)
  then show ?thesis using inv ApplyJudgeResult_atomic apply_result_inv by blast
next
  case (claim env owner now leaseUntil limit r4)
  then consider "db' = db" | "\<exists>es. claim_tx env owner now leaseUntil (nat limit) db = Inr (es, db')"
    by (auto simp: ClaimOutbox_def split: if_splits dest: run_tx_atomic)
  then show ?thesis
  proof cases
    case 2
    then show ?thesis
      by (auto simp: claim_tx_def Let_def same_event_def intro!: outbox_map_inv [OF inv])
  qed (use inv in simp)
next
  case (published env eid owner at r5)
  from update_owned_shape [OF published [unfolded MarkOutboxPublished_def]] inv show ?thesis
    by (auto simp: same_event_def intro!: outbox_map_inv [OF inv])
next
  case (failure env eid owner at dead reason r6)
  from update_owned_shape [OF failure [unfolded MarkOutboxFailure_def]] inv show ?thesis
    by (auto simp: same_event_def intro!: outbox_map_inv [OF inv])
qed

lemma empty_db_inv: "store_inv empty_db"
  by (simp add: store_inv_def outbox_inv_def empty_db_def all_complete_def)

lemma judge_steps_inv: "judge_steps uuid_parse ulid_ok db db' \<Longrightarrow> store_inv db \<Longrightarrow> store_inv db'"
  by (induction rule: judge_steps.induct) (auto intro: judge_step_inv)

end
