(* ===== verification/Judge_Examples.thy ===== *)
theory Judge_Examples
  imports Judge_Store_Inv
begin

text \<open>
  A concrete run of the judge store, the inputs at which the witnesses of the judge properties
  evaluate: one contest submission created in empty tables.
\<close>

section \<open>Definitions\<close>

definition calm :: "time \<Rightarrow> judge_env" where
  "calm t = \<lparr>fails = (\<lambda>_. False), commit_lost = False, app_now = t, db_now = t,
     tx_traceparent = [], tx_tracestate = [],
     tx_new_uuid = ''00000000-0000-4000-8000-00000000000f''\<rparr>"

definition demo_hash :: string where
  "demo_hash = replicate 64 (CHR ''a'')"

definition demo_revision :: string where
  "demo_revision = ''01ARZ3NDEKTSV4RRFFQ69G5FAV''"

definition demo_create :: "int64 \<Rightarrow> CreateSubmissionCommand" where
  "demo_create contest =
     \<lparr>cc_ContestStartAt = 1000000000000, cc_ContestEndAt = 9000000000000,
      cc_Submission = empty_submission\<lparr>sub_UserID := 7, sub_ProblemID := 3, sub_ContestID := contest,
        sub_Language := ''go'', sub_SourceObjectKey := ''k'', sub_SourceSHA256 := demo_hash,
        sub_SourceSizeBytes := 10, sub_JudgeRevision := demo_revision, sub_Status := ST_QUEUED,
        sub_JudgeDeadlineAt := 5000000000000\<rparr>,
      cc_Idempotency = \<lparr>ir_ActorID = 7, ir_Operation = ''CreateSubmission'',
        ir_Key = ''00000000-0000-4000-8000-000000000001'', ir_RequestHash = demo_hash,
        ir_ExpiresAt = 90000000000000\<rparr>,
      cc_OutboxEventID = ''00000000-0000-4000-8000-000000000002''\<rparr>"

definition demo_event :: "string \<Rightarrow> string \<Rightarrow> JudgeResultEvent" where
  "demo_event ty msg =
     \<lparr>je_EventID = ''00000000-0000-4000-8000-000000000003'', je_EventType = ty,
      je_EventVersion = 1, je_CausationID = [], je_TraceID = [], je_TraceParent = [],
      je_TraceState = [], je_SubmissionID = 1, je_JudgeRevision = demo_revision,
      je_Verdict = VD_AC, je_TimeMS = Some 12, je_MemoryKB = Some 300, je_CaseResults = [],
      je_Reason = ''SANDBOX_INTERNAL'', je_Code = [], je_Message = msg, je_Retryable = False,
      je_OccurredAt = 2000000000000\<rparr>"

definition demo_row :: "int64 option \<Rightarrow> submission_row" where
  "demo_row contest =
     \<lparr>r_id = 1, r_user_id = 7, r_problem_id = 3, r_contest_id = contest, r_language = ''go'',
      r_source_object_key = ''k'', r_source_sha256 = demo_hash, r_source_size_bytes = 10,
      r_judge_revision = demo_revision, r_status = ''QUEUED'', r_verdict = None, r_time_ms = None,
      r_memory_kb = None, r_retry_count = 0, r_system_error_reason = None,
      r_judge_deadline_at = 5000000000000, r_created_at = 1500000000000, r_judged_at = None,
      r_invalidated_at = None, r_updated_at = 1500000000000\<rparr>"

definition demo_task :: JudgeTask where
  "demo_task =
     \<lparr>jt_SubmissionID = 1, jt_ProblemID = 3, jt_Language = ''go'', jt_JudgeRevision = demo_revision,
      jt_SourceObjectKey = ''k'', jt_SourceSHA256 = demo_hash, jt_SourceSizeBytes = 10,
      jt_JudgeDeadlineAt = 5000000000000, jt_Attempt = 0\<rparr>"

definition demo_outbox :: outbox_row where
  "demo_outbox =
     \<lparr>o_id = 1, o_event_id = ''00000000-0000-4000-8000-000000000002'',
      o_aggregate_type = ''submission'', o_aggregate_id = 1, o_event_type = ''judge.requested'',
      o_event_version = 1, o_traceparent = None, o_tracestate = None,
      o_payload = the (enc_JudgeTask demo_task), o_status = ''pending'', o_retry_count = 0,
      o_next_retry_at = None, o_lease_owner = None, o_lease_until = None, o_last_error = None,
      o_created_at = 1500000000000, o_published_at = None\<rparr>"

definition demo_db :: "int64 option \<Rightarrow> judge_db" where
  \<comment> \<open>the tables after one creation\<close>
  "demo_db contest =
     \<lparr>submissions = [demo_row contest], case_results = [], outbox_events = [demo_outbox],
      processed_events = [],
      idempotency_requests =
        [\<lparr>i_actor_id = 7, i_operation = ''CreateSubmission'',
          i_key = ''00000000-0000-4000-8000-000000000001'', i_request_hash = demo_hash,
          i_response = Some (JObj [(''submission_id'', JNum 1), (''status'', JNum 1)]),
          i_created_at = 1500000000000, i_expires_at = 90000000000000\<rparr>],
      next_submission_id = 2, next_case_id = 1, next_outbox_id = 2\<rparr>"

definition demo_rejudge :: RejudgeSubmissionCommand where
  "demo_rejudge = \<lparr>rc_SubmissionID = 1, rc_JudgeRevision = demo_revision,
     rc_JudgeDeadlineAt = 5000000000000,
     rc_Idempotency = \<lparr>ir_ActorID = 9, ir_Operation = ''RejudgeSubmission'',
        ir_Key = ''00000000-0000-4000-8000-00000000000a'', ir_RequestHash = demo_hash,
        ir_ExpiresAt = 90000000000000\<rparr>,
     rc_InvalidatedOutboxEventID = ''00000000-0000-4000-8000-00000000000b'',
     rc_RequestedOutboxEventID = ''00000000-0000-4000-8000-00000000000c''\<rparr>"

section \<open>Lemmas\<close>

lemma demo_run:
  "CreateWithOutboxAndIdempotency (\<lambda>s. Some (to_lower s)) (\<lambda>_. True) (calm 1500000000000)
     (demo_create 5) empty_db
   = (Inr \<lparr>cs_SubmissionID = 1, cs_Status = ST_QUEUED, cs_Replayed = False\<rparr>, demo_db (Some 5))"
  by code_simp

lemma demo_created: "judge_steps (\<lambda>s. Some (to_lower s)) (\<lambda>_. True) empty_db (demo_db (Some 5))"
  by (rule judge_steps.more [OF judge_steps.start]) (rule judge_step.create [OF demo_run])

lemma demo_inv: "store_inv (demo_db (Some 5))"
  by (rule judge_steps_inv [OF demo_created empty_db_inv])

lemma demo_db_simps [simp]:
  "submissions (demo_db c) = [demo_row c]" "outbox_events (demo_db c) = [demo_outbox]"
  "processed_events (demo_db c) = []" "case_results (demo_db c) = []"
  "next_submission_id (demo_db c) = 2" "next_outbox_id (demo_db c) = 2"
  by (simp_all add: demo_db_def)

lemma demo_row_simps [simp]:
  "r_id (demo_row c) = 1" "r_contest_id (demo_row c) = c" "r_status (demo_row c) = ''QUEUED''"
  "r_judge_revision (demo_row c) = demo_revision" "r_judged_at (demo_row c) = None"
  "r_invalidated_at (demo_row c) = None" "r_created_at (demo_row c) = 1500000000000"
  by (simp_all add: demo_row_def)

end
