(* ===== verification/Judge_Store_Props.thy ===== *)
theory Judge_Store_Props
  imports Judge_Examples
begin

text \<open>
  The properties of the judge store: consistency of submissions and outbox in every reachable state,
  harmless redelivery of results, absorbing terminal states, idempotent creation, the contest
  deadline, rejudging, and the failure of long failure messages.
\<close>

section \<open>Definitions\<close>

fun apply_all :: "(judge_env \<times> JudgeResultEvent) list \<Rightarrow> judge_db \<Rightarrow> judge_db" where
  "apply_all [] db = db"
| "apply_all ((env, e) # xs) db = apply_all xs (snd (ApplyJudgeResult env e db))"

section \<open>Lemmas\<close>

lemma apply_all_consume: "apply_all xs db = judge_results.consume_all xs db"
proof (induction xs db rule: apply_all.induct)
  case (2 env e xs db)
  have "snd (consume_result env e db) = snd (ApplyJudgeResult env e db)"
    by (simp add: consume_result_def split: prod.splits sum.splits)
  with "2.IH" show ?case by simp
qed simp

lemma consume_accept: "ApplyJudgeResult env e db = (Inr (), db') \<longleftrightarrow> consume_result env e db = (True, db')"
  by (auto simp: consume_result_def split: prod.splits sum.splits)

text \<open>Idempotency records and processed events are only ever added.\<close>

lemma create_result_cases:
  assumes "CreateWithOutboxAndIdempotency uuid_parse ulid_ok env command db = (r, db')"
  obtains (same) "db' = db" "\<nexists>x. r = Inr x"
  | (committed) res where "create_tx env command db = Inr (res, db')"
      "ValidateSubmissionForCreate ulid_ok (cc_Submission command) = None" "\<And>x. r = Inr x \<Longrightarrow> x = res"
      "app_now env < sub_JudgeDeadlineAt (cc_Submission command)"
  using assms
  by (auto simp: CreateWithOutboxAndIdempotency_def run_tx_def
      split: option.splits if_splits sum.splits)

lemma rejudge_result_cases:
  assumes "InvalidateAndRequeueWithOutboxAndIdempotency uuid_parse ulid_ok env command db = (r, db')"
  obtains (same) "db' = db" "\<nexists>x. r = Inr x"
  | (committed) res where "rejudge_tx env command db = Inr (res, db')" "\<And>x. r = Inr x \<Longrightarrow> x = res"
  using assms
  by (auto simp: InvalidateAndRequeueWithOutboxAndIdempotency_def run_tx_def
      split: option.splits if_splits sum.splits)

lemma apply_result_idem:
  "apply_result_tx env event db = Inr (u, db') \<Longrightarrow> idempotency_requests db' = idempotency_requests db"
  by (erule apply_result_tx_cases) (auto elim: apply_to_row_Inr)

lemma judge_step_idem:
  assumes "judge_step uuid_parse ulid_ok db db'" and inv: "store_inv db"
  shows "\<exists>news. idempotency_requests db' = idempotency_requests db @ news"
proof -
  have ac: "all_complete db" using inv by (simp add: store_inv_def)
  from assms(1) show ?thesis
  proof (cases rule: judge_step.cases)
    case (create env command r)
    from create show ?thesis
      by (cases rule: create_result_cases) (auto elim: create_tx_cases [OF _ ac])
  next
    case (rejudge env rcommand r2)
    from rejudge show ?thesis
      by (cases rule: rejudge_result_cases) (auto elim: rejudge_tx_cases [OF _ ac])
  next
    case (apply_result env event r3)
    then show ?thesis using ApplyJudgeResult_atomic apply_result_idem by (metis append_Nil2)
  next
    case (claim env owner now leaseUntil limit r4)
    then have "idempotency_requests db' = idempotency_requests db"
      by (auto simp: ClaimOutbox_def claim_tx_def Let_def split: if_splits dest!: run_tx_atomic)
    then show ?thesis by simp
  next
    case (published env eid owner at r5)
    from update_owned_shape [OF published [unfolded MarkOutboxPublished_def]] show ?thesis by auto
  next
    case (failure env eid owner at dead reason r6)
    from update_owned_shape [OF failure [unfolded MarkOutboxFailure_def]] show ?thesis by auto
  qed
qed

lemma judge_steps_idem:
  assumes "judge_steps uuid_parse ulid_ok db db'" and "store_inv db"
  shows "\<exists>news. idempotency_requests db' = idempotency_requests db @ news"
  using assms
proof (induction rule: judge_steps.induct)
  case (more db db1 db2)
  then have "store_inv db1" using judge_steps_inv by blast
  from judge_step_idem [OF more.hyps(2) this] more show ?case by auto
qed simp

lemma find_append_None: "find P xs = None \<Longrightarrow> find P (xs @ ys) = find P ys"
  by (induction xs) auto

lemma find_append_Some: "find P xs = Some x \<Longrightarrow> find P (xs @ ys) = Some x"
  by (induction xs) (auto split: if_splits)

lemma create_wire_keys [simp]: "key_lower ''submission_id''" "key_lower ''status''"
  "key_lower ''invalidated_submission_id''"
  by code_simp+

lemma dec_enc_CreateSubmissionResult:
  assumes "0 < sid" "sid \<le> max_int64"
  shows "dec_CreateSubmissionResult
           (enc_CreateSubmissionResult \<lparr>cs_SubmissionID = sid, cs_Status = ST_QUEUED, cs_Replayed = b\<rparr>)
         = Some \<lparr>cs_SubmissionID = sid, cs_Status = ST_QUEUED, cs_Replayed = False\<rparr>"
  using assms
  by (auto simp: dec_CreateSubmissionResult_def enc_CreateSubmissionResult_def dec_field_def field_eval
      Let_def min_int64_def max_int32_def status_of_number_def named_statuses_def)

lemma reserve_replays:
  assumes "find (same_idem (ir_ActorID rq) (ir_Operation rq) (ir_Key rq)) (idempotency_requests db) = Some i"
    and "i_request_hash i = ir_RequestHash rq" and "i_response i = Some resp"
  shows "reserveIdempotency env rq now db =
    (if fails env ''insert idempotency_requests'' \<or> fails env ''select idempotency_requests''
     then Inl storageError else Inr (Some resp, db))"
  using assms by (simp add: reserveIdempotency_def stmtE_def guardE_def)

lemma create_tx_replays:
  assumes "find (same_idem (ir_ActorID (cc_Idempotency c)) (ir_Operation (cc_Idempotency c))
      (ir_Key (cc_Idempotency c))) (idempotency_requests db) = Some i"
    and "i_request_hash i = ir_RequestHash (cc_Idempotency c)" and "i_response i = Some resp"
    and "dec_CreateSubmissionResult resp = Some res"
  shows "create_tx env c db =
    (if fails env ''insert idempotency_requests'' \<or> fails env ''select idempotency_requests''
     then Inl storageError else Inr (res\<lparr>cs_Replayed := True\<rparr>, db))"
  using assms(4) by (simp add: create_tx_def reserve_replays [OF assms(1-3)])

lemma created_record:
  assumes inv: "store_inv db"
    and c: "CreateWithOutboxAndIdempotency uuid_parse ulid_ok env command db = (Inr res, db')"
    and new: "\<not> cs_Replayed res"
  obtains i where "find (same_idem (ir_ActorID (cc_Idempotency command))
      (ir_Operation (cc_Idempotency command)) (ir_Key (cc_Idempotency command)))
      (idempotency_requests db') = Some i"
    "i_request_hash i = ir_RequestHash (cc_Idempotency command)"
    "i_response i = Some (enc_CreateSubmissionResult res)"
    "res = \<lparr>cs_SubmissionID = next_submission_id db, cs_Status = ST_QUEUED, cs_Replayed = False\<rparr>"
  using c
proof (cases rule: create_result_cases)
  case (committed res')
  have ac: "all_complete db" using inv by (simp add: store_inv_def)
  have res: "res' = res" using committed(3) by blast
  from committed(1) ac committed(2) show ?thesis
  proof (cases rule: create_tx_cases)
    case (new row orow irow)
    have "same_idem (ir_ActorID (cc_Idempotency command)) (ir_Operation (cc_Idempotency command))
        (ir_Key (cc_Idempotency command)) irow"
      using new(17-19) by (rule same_idem_self)
    then show ?thesis
      using that [of irow] new(5,8,16,20,21,22) res by (simp add: find_append_None)
  qed (use new res in simp)
qed simp

section \<open>Properties\<close>

text \<open>
  C1. In every state the repository can reach, each submission has exactly one \<open>judge.requested\<close> event
  in the outbox; a contest submission has exactly one \<open>submission.judged\<close> event once it is judged and
  none before (a submission outside a contest never has one); and it has exactly one
  \<open>submission.invalidated\<close> event once it is invalidated and none before. Its status is one of QUEUED,
  RETRY_WAIT, DONE and INVALIDATED.
\<close>

theorem outbox_matches_submissions:
  assumes "judge_steps uuid_parse ulid_ok empty_db db" and "r \<in> set (submissions db)"
  shows "event_count db EventTypeJudgeRequested (r_id r) = 1
    \<and> event_count db EventTypeSubmissionJudged (r_id r) =
        (if r_contest_id r \<noteq> None \<and> r_judged_at r \<noteq> None then 1 else 0)
    \<and> event_count db EventTypeSubmissionInvalidated (r_id r) =
        (if r_status r = ''INVALIDATED'' then 1 else 0)
    \<and> r_status r \<in> {''QUEUED'', ''RETRY_WAIT'', ''DONE'', ''INVALIDATED''}
    \<and> (r_status r = ''DONE'' \<longrightarrow> r_judged_at r \<noteq> None \<and> r_verdict r \<noteq> None)"
proof -
  have "row_inv db r"
    using judge_steps_inv [OF assms(1) empty_db_inv] assms(2) by (simp add: store_inv_def)
  then show ?thesis unfolding row_inv_def by metis
qed

theorem outbox_matches_submissions_witness:
  "event_count (demo_db (Some 5)) EventTypeJudgeRequested 1 = 1
    \<and> event_count (demo_db (Some 5)) EventTypeSubmissionJudged 1 = 0"
  using outbox_matches_submissions [OF demo_created, of "demo_row (Some 5)"] by simp



text \<open>
  C3. Terminal states are absorbing for results: whatever event \<open>ApplyJudgeResult\<close> is given and
  whatever the database does, a submission that is DONE, INVALIDATED or CANCELLED, and every
  submission the event does not name, keeps its row; no submission is added or removed.
\<close>

theorem results_keep_terminal_rows:
  assumes "distinct (map r_id (submissions db))" and "ApplyJudgeResult env e db = (r, db')"
    and "row \<in> set (submissions db)" and "terminal_text (r_status row) \<or> r_id row \<noteq> je_SubmissionID e"
  shows "row \<in> set (submissions db') \<and> map r_id (submissions db') = map r_id (submissions db)"
proof -
  consider "db' = db" | "apply_result_tx env e db = Inr ((), db')"
    using ApplyJudgeResult_atomic [OF assms(2)] by blast
  then show ?thesis
  proof cases
    case 2
    then show ?thesis
    proof (cases rule: apply_result_tx_cases)
      case (live found)
      have "r_id row \<noteq> je_SubmissionID e"
      proof
        assume "r_id row = je_SubmissionID e"
        then have "row = found"
          using assms(1,3) find_submission_id [OF live(2)] by (auto simp: distinct_map inj_on_def)
        with live(4) assms(4) \<open>r_id row = je_SubmissionID e\<close> show False by simp
      qed
      moreover have "submissions db' = map (\<lambda>r. if r_id r = je_SubmissionID e then result_update env e r else r)
          (submissions db)"
        using live(5) by (rule apply_to_row_Inr) simp
      ultimately show ?thesis using assms(3) by (auto intro!: image_eqI [of _ _ row])
    qed (use assms(3) in simp_all)
  qed (use assms(3) in simp)
qed

theorem results_keep_terminal_rows_witness:
  "(let db1 = snd (ApplyJudgeResult (calm 3000000000000) (demo_event EventTypeJudgeCompleted []) (demo_db None));
        e2 = (demo_event EventTypeJudgeFailed ''boom'')\<lparr>je_EventID := ''other''\<rparr>;
        db2 = snd (ApplyJudgeResult (calm 4000000000000) e2 db1)
    in map r_verdict (submissions db1) = [Some ''AC''] \<and> map r_id (submissions db2) = map r_id (submissions db1)
       \<and> hd (submissions db1) \<in> set (submissions db2))"
proof -
  define db1 where "db1 = snd (ApplyJudgeResult (calm 3000000000000) (demo_event EventTypeJudgeCompleted []) (demo_db None))"
  let ?e2 = "(demo_event EventTypeJudgeFailed ''boom'')\<lparr>je_EventID := ''other''\<rparr>"
  have m: "map (\<lambda>r. (r_id r, r_status r, r_verdict r)) (submissions db1) = [(1, ''DONE'', Some ''AC'')]"
    unfolding db1_def by code_simp
  then obtain x where x: "submissions db1 = [x]" "r_id x = 1" "r_status x = ''DONE''" "r_verdict x = Some ''AC''"
    by auto
  have "x \<in> set (submissions (snd (ApplyJudgeResult (calm 4000000000000) ?e2 db1)))
      \<and> map r_id (submissions (snd (ApplyJudgeResult (calm 4000000000000) ?e2 db1))) = map r_id (submissions db1)"
    by (rule results_keep_terminal_rows [OF _ prod.collapse [symmetric]])
      (simp_all add: x terminal_text_def)
  then show ?thesis using x by (simp add: Let_def db1_def)
qed



text \<open>
  A contest submission is accepted only inside its contest: when \<open>CreateWithOutboxAndIdempotency\<close>
  creates a submission with a contest, the stored creation time is the database clock of the INSERT,
  and it lies in the interval from the contest's start (included) to its end (excluded), whatever
  the clock of the service showed.
\<close>

theorem contest_submission_inside_interval:
  assumes "store_inv db"
    and "CreateWithOutboxAndIdempotency uuid_parse ulid_ok env command db = (Inr res, db')"
    and "\<not> cs_Replayed res" and "0 < sub_ContestID (cc_Submission command)"
  shows "\<exists>row. find_submission (cs_SubmissionID res) db' = Some row
    \<and> r_contest_id row = Some (sub_ContestID (cc_Submission command))
    \<and> r_created_at row = utc_timestamp3 env
    \<and> cc_ContestStartAt command \<le> r_created_at row \<and> r_created_at row < cc_ContestEndAt command"
  using assms(2)
proof (cases rule: create_result_cases)
  case (committed res')
  have ac: "all_complete db" using assms(1) by (simp add: store_inv_def)
  have res: "res' = res" using committed(3) by blast
  from committed(1) ac committed(2) show ?thesis
  proof (cases rule: create_tx_cases)
    case replay
    with assms(3) res show ?thesis by simp
  next
    case (new row orow irow)
    have "find (\<lambda>r. r_id r = r_id row) (submissions db) = None"
      using new_id_unused [OF assms(1)] new(8) by (force simp: find_None_iff)
    then have "find_submission (cs_SubmissionID res) db' = Some row"
      using new(22) res by (simp add: find_submission_def new(1) find_append_None)
    then show ?thesis using new(14,15) assms(4) by (auto simp: nullableContestID_def)
  qed
qed simp

theorem contest_submission_inside_interval_witness:
  "\<exists>row. find_submission 1 (demo_db (Some 5)) = Some row \<and> r_contest_id row = Some 5
    \<and> 1000000000000 \<le> r_created_at row \<and> r_created_at row < 9000000000000"
  using contest_submission_inside_interval [OF empty_db_inv demo_run] by (auto simp: demo_create_def)

text \<open>
  C7. Creation is idempotent. Once a creation has succeeded, a second request of the same actor with
  the same idempotency key and request hash, at any later point and after any other operations, creates
  nothing: the tables stay as they are, and a successful answer names the submission of the first
  request, marked as replayed. When the request is valid and the database answers, that is the answer.
\<close>

theorem create_is_idempotent:
  assumes inv: "store_inv db"
    and first: "CreateWithOutboxAndIdempotency uuid_parse ulid_ok env c1 db = (Inr res, db1)"
    and new: "\<not> cs_Replayed res" and small: "cs_SubmissionID res \<le> max_int64"
    and later: "judge_steps uuid_parse ulid_ok db1 db2"
    and same: "ir_ActorID (cc_Idempotency c2) = ir_ActorID (cc_Idempotency c1)"
      "ir_Operation (cc_Idempotency c2) = ir_Operation (cc_Idempotency c1)"
      "ir_Key (cc_Idempotency c2) = ir_Key (cc_Idempotency c1)"
      "ir_RequestHash (cc_Idempotency c2) = ir_RequestHash (cc_Idempotency c1)"
    and second: "CreateWithOutboxAndIdempotency uuid_parse ulid_ok env2 c2 db2 = (r2, db3)"
  shows "db3 = db2 \<and> (\<forall>x. r2 = Inr x \<longrightarrow> x = res\<lparr>cs_Replayed := True\<rparr>)
    \<and> (ValidateSubmissionForCreate ulid_ok (cc_Submission c2) = None
        \<and> app_now env2 < sub_JudgeDeadlineAt (cc_Submission c2)
        \<and> ValidateIdempotency uuid_parse (cc_Idempotency c2) OperationCreateSubmission (app_now env2) = None
        \<and> ValidateEventID uuid_parse (cc_OutboxEventID c2) = None \<and> (\<forall>l. \<not> fails env2 l)
       \<longrightarrow> r2 = Inr (res\<lparr>cs_Replayed := True\<rparr>))"
proof -
  from created_record [OF inv first new] obtain i where i:
    "find (same_idem (ir_ActorID (cc_Idempotency c1)) (ir_Operation (cc_Idempotency c1))
       (ir_Key (cc_Idempotency c1))) (idempotency_requests db1) = Some i"
    "i_request_hash i = ir_RequestHash (cc_Idempotency c1)"
    "i_response i = Some (enc_CreateSubmissionResult res)"
    "res = \<lparr>cs_SubmissionID = next_submission_id db, cs_Status = ST_QUEUED, cs_Replayed = False\<rparr>" .
  have "store_inv db1" using judge_step_inv [OF judge_step.create [OF first] inv] .
  then obtain news where "idempotency_requests db2 = idempotency_requests db1 @ news"
    using judge_steps_idem [OF later] by blast
  then have f: "find (same_idem (ir_ActorID (cc_Idempotency c2)) (ir_Operation (cc_Idempotency c2))
       (ir_Key (cc_Idempotency c2))) (idempotency_requests db2) = Some i"
    using i(1) by (simp add: same find_append_Some)
  have d: "dec_CreateSubmissionResult (enc_CreateSubmissionResult res) = Some res"
    using dec_enc_CreateSubmissionResult [of "next_submission_id db" False] i(4) small inv
    by (simp add: store_inv_def)
  note tx = create_tx_replays [OF f, of "enc_CreateSubmissionResult res" res env2]
  have "create_tx env2 c2 db2 = Inl storageError \<or> create_tx env2 c2 db2 = Inr (res\<lparr>cs_Replayed := True\<rparr>, db2)"
    and "(\<forall>l. \<not> fails env2 l) \<Longrightarrow> create_tx env2 c2 db2 = Inr (res\<lparr>cs_Replayed := True\<rparr>, db2)"
    using tx i(2,3) same(4) d by auto
  then show ?thesis
    using second by (auto simp: CreateWithOutboxAndIdempotency_def run_tx_def
        simp del: ValidateIdempotency_None ValidateEventID_None split: option.splits if_splits sum.splits)
qed

theorem create_is_idempotent_witness:
  "snd (CreateWithOutboxAndIdempotency (\<lambda>s. Some (to_lower s)) (\<lambda>_. True) (calm 1600000000000)
     (demo_create 5) (demo_db (Some 5))) = demo_db (Some 5)"
  using create_is_idempotent [OF empty_db_inv demo_run _ _ judge_steps.start refl refl refl refl
      prod.collapse [symmetric]]
  by (simp add: max_int64_def)

text \<open>
  C8. Rejudging replaces a submission: a rejudge that succeeds (and is not a replay) turns exactly the
  named submission to INVALIDATED, keeping its other columns but the two times, and leaves every other
  row alone; it adds one QUEUED submission with the same user, problem, contest, language and source, a
  contest submission keeping its creation time; and it adds one \<open>submission.invalidated\<close> event for the
  old and one \<open>judge.requested\<close> event for the new submission, in this order.
\<close>

theorem rejudge_replaces_submission:
  assumes inv: "store_inv db"
    and r: "InvalidateAndRequeueWithOutboxAndIdempotency uuid_parse ulid_ok env c db = (Inr res, db')"
    and new: "\<not> rr_Replayed res"
  shows "\<exists>old row inval req.
      find_submission (rc_SubmissionID c) db = Some old
    \<and> r_status old \<in> {''QUEUED'', ''RETRY_WAIT'', ''DONE''}
    \<and> submissions db' = map (\<lambda>x. if r_id x = rc_SubmissionID c then invalidated_row env x else x)
          (submissions db) @ [row]
    \<and> fresh_row row \<and> replaces old row \<and> r_judge_revision row = rc_JudgeRevision c
    \<and> outbox_events db' = outbox_events db @ [inval, req]
    \<and> o_event_type inval = EventTypeSubmissionInvalidated \<and> o_aggregate_id inval = rc_SubmissionID c
    \<and> requests row req
    \<and> rr_InvalidatedSubmissionID res = rc_SubmissionID c \<and> sub_ID (rr_Submission res) = r_id row"
  using r
proof (cases rule: rejudge_result_cases)
  case (committed res')
  have ac: "all_complete db" using inv by (simp add: store_inv_def)
  have res: "res' = res" using committed(2) by blast
  from committed(1) ac show ?thesis
  proof (cases rule: rejudge_tx_cases)
    case (new old st row inval req irow)
    have old: "old \<in> set (submissions db)" "r_id old = rc_SubmissionID c"
      using find_submission_id [OF new(1)] by auto
    have hit: "db_eq (r_status old) (statusToDB st)" using statusFromDB_sound [OF new(2)] by blast
    have "row_inv db old" using inv old(1) by (simp add: store_inv_def)
    then have "r_status old \<in> {''QUEUED'', ''RETRY_WAIT'', ''DONE'', ''INVALIDATED''}"
      unfolding row_inv_def by blast
    moreover have "r_status old \<noteq> ''INVALIDATED''"
      using new(2,3) by (auto simp: statusFromDB_DB CanInvalidate_def CanTransition_def)
    ultimately have st: "r_status old \<in> {''QUEUED'', ''RETRY_WAIT'', ''DONE''}" by blast
    have only: "x = old" if "x \<in> set (submissions db)" "r_id x = r_id old" for x
      using that old(1) inv by (auto simp: store_inv_def distinct_map inj_on_def)
    have "map (\<lambda>x. if r_id x = r_id old \<and> db_eq (r_status x) (statusToDB st) then invalidated_row env x else x)
          (submissions db)
        = map (\<lambda>x. if r_id x = rc_SubmissionID c then invalidated_row env x else x) (submissions db)"
      using only hit old(2) by (intro map_cong) auto
    then show ?thesis
      using new(1,5,7,14-17,20,21,28,29) st old(2) res by (intro exI [of _ old] exI [of _ row]
          exI [of _ inval] exI [of _ req]) simp
  qed (use new res in simp)
qed simp

theorem rejudge_replaces_submission_witness:
  "\<exists>res db' row. InvalidateAndRequeueWithOutboxAndIdempotency (\<lambda>s. Some (to_lower s)) (\<lambda>_. True)
      (calm 2500000000000) demo_rejudge (demo_db (Some 5)) = (Inr res, db') \<and> rr_InvalidatedSubmissionID res = 1
    \<and> row \<in> set (submissions db') \<and> fresh_row row \<and> length (outbox_events db') = 3"
proof -
  let ?r = "InvalidateAndRequeueWithOutboxAndIdempotency (\<lambda>s. Some (to_lower s)) (\<lambda>_. True)
      (calm 2500000000000) demo_rejudge (demo_db (Some 5))"
  have e: "(case fst ?r of Inr x \<Rightarrow> rr_InvalidatedSubmissionID x = 1 \<and> \<not> rr_Replayed x | Inl _ \<Rightarrow> False)"
    by code_simp
  then obtain x where x: "fst ?r = Inr x" "rr_InvalidatedSubmissionID x = 1" "\<not> rr_Replayed x"
    by (auto split: sum.splits)
  then have run: "?r = (Inr x, snd ?r)" by (metis prod.collapse)
  have "length (outbox_events (demo_db (Some 5))) = 1" by simp
  moreover obtain rows row inval req where "submissions (snd ?r) = rows @ [row]" "fresh_row row"
    "outbox_events (snd ?r) = outbox_events (demo_db (Some 5)) @ [inval, req]"
    using rejudge_replaces_submission [OF demo_inv run x(3)] by blast
  ultimately have "row \<in> set (submissions (snd ?r))" "fresh_row row" "length (outbox_events (snd ?r)) = 3"
    by simp_all
  then show ?thesis using x run by (intro exI [of _ x] exI [of _ "snd ?r"] exI [of _ row]) simp
qed

end
