(* ===== verification/Judge_Usecase.thy ===== *)
theory Judge_Usecase
  imports Judge_Store_Props
begin

text \<open>
  The use cases of the judge service, \<open>SubmissionUsecase\<close> of
  \<open>src/services/judge/internal/biz/submission.go\<close>, with the two adapters they call: the source store
  (\<open>data/source_store.go\<close>) and the client of the problem service (\<open>data/problem_client.go\<close>).

  The MinIO client and the gRPC stub are parameters, fields of \<open>judge_deps\<close>: \<open>d_put_object\<close> and
  \<open>d_get_object\<close> act on an abstract object storage \<open>'o\<close>, \<open>d_profile_rpc\<close> is the call
  \<open>ProblemServiceClient.GetJudgeProfile\<close>. So are the identifier generators, the clock of the use case
  and the parsers. The read-only checks of a use case see the tables \<open>db0\<close> of an earlier moment than the
  transaction that follows: other requests may run in between.
\<close>

section \<open>Definitions\<close>

datatype grpc_code = GrpcNotFound | GrpcFailedPrecondition | GrpcInvalidArgument
  | GrpcDeadlineExceeded | GrpcUnavailable | GrpcResourceExhausted | GrpcOther

record rpc_profile =
  rp_ProblemId :: int64
  rp_StatusNormal :: bool
  rp_TimeLimitMs :: int32
  rp_MemoryLimitKb :: int32
  rp_ActiveJudgeRevision :: string

record 'o judge_deps =
  d_uuid_parse :: "string \<Rightarrow> string option"
  d_ulid_ok :: "string \<Rightarrow> bool"
  d_sha256 :: "bytes \<Rightarrow> bytes"
  d_now :: time
  d_source_id :: string
  d_event_id1 :: string
  d_event_id2 :: string
  d_put_object :: "string \<Rightarrow> bytes \<Rightarrow> 'o \<Rightarrow> bool \<times> 'o"
  d_get_object :: "string \<Rightarrow> 'o \<Rightarrow> bytes option"
  d_profile_rpc :: "int64 \<Rightarrow> grpc_code + rpc_profile option"

subsection \<open>Source store\<close>

definition source_Put ::
  "'o judge_deps \<Rightarrow> string \<Rightarrow> bytes \<Rightarrow> 'o \<Rightarrow> (judge_error + SourceObject) \<times> 'o" where
  "source_Put deps language source objects =
     (case LanguageExtension language of
        None \<Rightarrow> (Inl (InvalidArgument ''unsupported submission language''), objects)
      | Some extension \<Rightarrow>
          if source = [] \<or> int (length source) > MaxSourceSizeBytes
          then (Inl (InvalidArgument ''source size must be between 1 and 1048576 bytes''), objects)
          else if \<not> d_ulid_ok deps (d_source_id deps)
          then (Inl (Internal ''generated source object id is invalid''), objects)
          else
            (let key = ''sources/'' @ d_source_id deps @ ''/source.'' @ extension
             in if int (length key) > MaxObjectKeyLength
                then (Inl (Internal ''generated source object key is too long''), objects)
                else
                  (let (ok, objects') = d_put_object deps key source objects
                   in if \<not> ok then (Inl (DependencyUnavailable ''source storage is unavailable''), objects')
                      else (Inr \<lparr>so_Key = key, so_SHA256 = hex_encode (d_sha256 deps source),
                                 so_Size = int (length source)\<rparr>, objects'))))"

definition source_Get :: "'o judge_deps \<Rightarrow> string \<Rightarrow> 'o \<Rightarrow> judge_error + bytes" where
  "source_Get deps key objects =
     (if trim_space key = [] then Inl (Internal ''source store is not configured'')
      else case d_get_object deps key objects of
             None \<Rightarrow> Inl (DependencyUnavailable ''source storage is unavailable'')
           | Some object \<Rightarrow>
               (let content = take (nat (MaxSourceSizeBytes + 1)) object
                in guardE (content = [] \<or> int (length content) > MaxSourceSizeBytes)
                     (Internal ''stored source exceeds maximum size'') (Inr content)))"

subsection \<open>Problem client\<close>

fun mapProblemError :: "grpc_code \<Rightarrow> judge_error" where
  "mapProblemError GrpcNotFound = ProblemUnavailable ''problem is not available for judging''"
| "mapProblemError GrpcFailedPrecondition = ProblemUnavailable ''problem is not available for judging''"
| "mapProblemError GrpcInvalidArgument = InvalidArgument ''invalid problem id''"
| "mapProblemError GrpcDeadlineExceeded = DependencyUnavailable ''problem service is unavailable''"
| "mapProblemError GrpcUnavailable = DependencyUnavailable ''problem service is unavailable''"
| "mapProblemError GrpcResourceExhausted = DependencyUnavailable ''problem service is unavailable''"
| "mapProblemError GrpcOther = DependencyUnavailable ''problem service request failed''"

definition GetJudgeProfile :: "'o judge_deps \<Rightarrow> int64 \<Rightarrow> judge_error + JudgeProfile" where
  "GetJudgeProfile deps problemID =
     guardE (problemID \<le> 0) (InvalidArgument ''invalid problem id'')
     (case d_profile_rpc deps problemID of
        Inl code \<Rightarrow> Inl (mapProblemError code)
      | Inr None \<Rightarrow> Inl (DependencyUnavailable ''problem service returned an invalid judge profile'')
      | Inr (Some profile) \<Rightarrow>
          guardE (rp_ProblemId profile \<noteq> problemID)
            (DependencyUnavailable ''problem service returned an invalid judge profile'')
          (guardE (\<not> rp_StatusNormal profile)
            (ProblemUnavailable ''problem is not available for judging'')
          (guardE (rp_TimeLimitMs profile \<le> 0 \<or> rp_MemoryLimitKb profile \<le> 0)
            (DependencyUnavailable ''problem service returned invalid judge limits'')
          (guardE (length (rp_ActiveJudgeRevision profile) \<noteq> 26)
            (ProblemUnavailable ''problem has no published judge revision'')
          (guardE (\<not> d_ulid_ok deps (rp_ActiveJudgeRevision profile))
            (DependencyUnavailable ''problem service returned an invalid judge revision'')
          (Inr \<lparr>jp_ProblemID = problemID, jp_TimeLimitMS = rp_TimeLimitMs profile,
                jp_MemoryLimitKB = rp_MemoryLimitKb profile,
                jp_JudgeRevision = rp_ActiveJudgeRevision profile\<rparr>))))))"

subsection \<open>Use cases\<close>

definition findCreateReplay ::
  "judge_env \<Rightarrow> IdempotencyRequest \<Rightarrow> string \<Rightarrow> CreateSubmissionInput \<Rightarrow> judge_db
     \<Rightarrow> judge_error + CreateSubmissionResult option" where
  \<comment> \<open>\<open>Inr None\<close>: not found, the creation goes on\<close>
  "findCreateReplay env request legacyHash input db =
     bindE (FindIdempotency env (ir_ActorID request) (ir_Operation request) (ir_Key request) db) (\<lambda>found.
       case found of None \<Rightarrow> Inr None
       | Some record \<Rightarrow>
           guardE (ir_RequestHash record \<noteq> ir_RequestHash request
                     \<and> (legacyHash = [] \<or> ir_RequestHash record \<noteq> legacyHash)) IdempotencyConflict
           (case ir_Response record of None \<Rightarrow> Inl IdempotencyInProgress
            | Some response \<Rightarrow>
                (case dec_CreateSubmissionResult response of
                   None \<Rightarrow> Inl (Internal ''stored idempotency response is invalid'')
                 | Some result \<Rightarrow>
                     guardE (cs_SubmissionID result \<le> 0 \<or> cs_Status result \<noteq> ST_QUEUED)
                       (Internal ''stored idempotency response is invalid'')
                     (bindE (if ci_ContestID input = 0 \<or> ir_RequestHash record \<noteq> ir_RequestHash request
                             then bindE (FindByID env (cs_SubmissionID result) db) (\<lambda>s.
                                    guardE (sub_UserID s \<noteq> ir_ActorID request
                                              \<or> sub_ProblemID s \<noteq> ci_ProblemID input
                                              \<or> sub_ContestID s \<noteq> ci_ContestID input)
                                      IdempotencyConflict (Inr ()))
                             else Inr ()) (\<lambda>_.
                        Inr (Some (result\<lparr>cs_Replayed := True\<rparr>)))))))"

definition create_command ::
  "'o judge_deps \<Rightarrow> CreateSubmissionInput \<Rightarrow> string \<Rightarrow> IdempotencyRequest \<Rightarrow> JudgeProfile \<Rightarrow> SourceObject
     \<Rightarrow> CreateSubmissionCommand" where
  "create_command deps input language idempotency profile source =
     \<lparr>cc_ContestStartAt = ci_ContestStartAt input, cc_ContestEndAt = ci_ContestEndAt input,
      cc_Submission = empty_submission\<lparr>sub_UserID := ac_ID (ci_Actor input),
        sub_ProblemID := ci_ProblemID input, sub_ContestID := ci_ContestID input,
        sub_Language := language, sub_SourceObjectKey := so_Key source,
        sub_SourceSHA256 := so_SHA256 source, sub_SourceSizeBytes := so_Size source,
        sub_JudgeRevision := jp_JudgeRevision profile, sub_Status := ST_QUEUED,
        sub_JudgeDeadlineAt := d_now deps + JudgeQueueDeadline\<rparr>,
      cc_Idempotency = idempotency, cc_OutboxEventID = d_event_id1 deps\<rparr>"

definition create_idempotency :: "'o judge_deps \<Rightarrow> CreateSubmissionInput \<Rightarrow> string \<Rightarrow> IdempotencyRequest" where
  "create_idempotency deps input language =
     (let h = createRequestHash (d_sha256 deps) (ci_ProblemID input) language (ci_SourceCode input)
      in \<lparr>ir_ActorID = ac_ID (ci_Actor input), ir_Operation = OperationCreateSubmission,
          ir_Key = ci_IdempotencyKey input,
          ir_RequestHash = (if ci_ContestID input > 0
             then contestRequestHash (d_sha256 deps) h (ci_ContestID input) else h),
          ir_ExpiresAt = d_now deps + IdempotencyTTL\<rparr>)"

definition Create ::
  "'o judge_deps \<Rightarrow> judge_env \<Rightarrow> CreateSubmissionInput \<Rightarrow> judge_db \<Rightarrow> judge_db \<times> 'o
     \<Rightarrow> (judge_error + CreateSubmissionResult) \<times> (judge_db \<times> 'o)" where
  "Create deps env input db0 st =
     (case requireActor (ci_Actor input) of Some e \<Rightarrow> (Inl e, st)
      | None \<Rightarrow>
      if ci_ContestID input > 0
         \<and> (ci_ContestStartAt input = zero_time \<or> \<not> ci_ContestStartAt input < ci_ContestEndAt input)
      then (Inl (InvalidArgument ''contest interval is required''), st)
      else
        (let language = to_lower (trim_space (ci_Language input))
         in if ci_ProblemID input \<le> 0 \<or> \<not> biz_SupportedLanguage language
            then (Inl (InvalidArgument ''invalid submission problem or language''), st)
            else if ci_SourceCode input = [] \<or> int (length (ci_SourceCode input)) > MaxSourceSizeBytes
            then (Inl (InvalidArgument ''source size must be between 1 and 1048576 bytes''), st)
            else
              (let idempotency = create_idempotency deps input language;
                   legacyHash = (if ci_ContestID input > 0
                      then createRequestHash (d_sha256 deps) (ci_ProblemID input) language
                             (ci_SourceCode input)
                      else [])
               in case ValidateIdempotency (d_uuid_parse deps) idempotency OperationCreateSubmission
                         (d_now deps) of Some e \<Rightarrow> (Inl e, st)
                  | None \<Rightarrow>
                  (case findCreateReplay env idempotency legacyHash input db0 of
                     Inl e \<Rightarrow> (Inl e, st)
                   | Inr (Some result) \<Rightarrow> (Inr result, st)
                   | Inr None \<Rightarrow>
                  (case GetJudgeProfile deps (ci_ProblemID input) of Inl e \<Rightarrow> (Inl e, st)
                   | Inr profile \<Rightarrow>
                  (case validateJudgeProfile (d_ulid_ok deps) profile (ci_ProblemID input) of
                     Some e \<Rightarrow> (Inl e, st)
                   | None \<Rightarrow>
                  (case source_Put deps language (ci_SourceCode input) (snd st) of
                     (Inl e, objects) \<Rightarrow> (Inl e, (fst st, objects))
                   | (Inr source, objects) \<Rightarrow>
                       (let (r, db') = CreateWithOutboxAndIdempotency (d_uuid_parse deps)
                              (d_ulid_ok deps) env
                              (create_command deps input language idempotency profile source) (fst st)
                        in (r, (db', objects))))))))))"

definition Get :: "judge_env \<Rightarrow> Actor \<Rightarrow> int64 \<Rightarrow> judge_db \<Rightarrow> judge_error + Submission" where
  "Get env actor submissionID db =
     errE (requireActor actor)
     (guardE (submissionID \<le> 0) (InvalidArgument ''invalid submission id'')
     (bindE (FindByID env submissionID db) (\<lambda>s.
        guardE (sub_UserID s \<noteq> ac_ID actor \<and> \<not> actorIsAdmin actor) SubmissionNotFound (Inr s))))"

definition GetSource ::
  "'o judge_deps \<Rightarrow> judge_env \<Rightarrow> Actor \<Rightarrow> int64 \<Rightarrow> judge_db \<times> 'o \<Rightarrow> judge_error + Submission \<times> bytes" where
  "GetSource deps env actor submissionID st =
     errE (requireActor actor)
     (guardE (submissionID \<le> 0) (InvalidArgument ''invalid submission id'')
     (bindE (FindByID env submissionID (fst st)) (\<lambda>s.
        guardE (sub_UserID s \<noteq> ac_ID actor \<and> \<not> actorIsAdmin actor) SubmissionNotFound
        (bindE (source_Get deps (sub_SourceObjectKey s) (snd st)) (\<lambda>source. Inr (s, source))))))"

definition ListUsecase :: "judge_env \<Rightarrow> Actor \<Rightarrow> ListFilter \<Rightarrow> judge_db \<Rightarrow> judge_error + SubmissionPage" where
  "ListUsecase env actor filter0 db =
     errE (requireActor actor)
     (guardE (lf_UserID filter0 < 0 \<or> lf_ProblemID filter0 < 0 \<or> lf_Page filter0 < 0
                \<or> lf_PageSize filter0 < 0) (InvalidArgument ''invalid submission filter'')
     (guardE (lf_Status filter0 \<notin> set named_statuses) (InvalidArgument ''invalid submission status'')
     (let f = filter0\<lparr>lf_Language := to_lower (trim_space (lf_Language filter0))\<rparr>
      in guardE (lf_Language f \<noteq> [] \<and> \<not> biz_SupportedLanguage (lf_Language f))
           (InvalidArgument ''unsupported submission language'')
         (if actorIsAdmin actor then ListSubmissions env (Normalized f) db
          else guardE (lf_UserID f \<noteq> 0 \<and> lf_UserID f \<noteq> ac_ID actor)
                 (PermissionDenied ''cannot list another user's submissions'')
               (ListSubmissions env (Normalized (f\<lparr>lf_UserID := ac_ID actor\<rparr>)) db)))))"

definition GetJudgeResult :: "judge_env \<Rightarrow> Actor \<Rightarrow> int64 \<Rightarrow> judge_db \<Rightarrow> judge_error + JudgeResult" where
  "GetJudgeResult env actor submissionID db =
     errE (requireActor actor)
     (guardE (submissionID \<le> 0) (InvalidArgument ''invalid submission id'')
     (bindE (store_GetJudgeResult env submissionID db) (\<lambda>result.
        guardE (sub_UserID (jr_Submission result) \<noteq> ac_ID actor \<and> \<not> actorIsAdmin actor)
          SubmissionNotFound (Inr result))))"

definition findRejudgeReplay ::
  "judge_env \<Rightarrow> IdempotencyRequest \<Rightarrow> judge_db \<Rightarrow> judge_error + RejudgeSubmissionResult option" where
  "findRejudgeReplay env request db =
     bindE (FindIdempotency env (ir_ActorID request) (ir_Operation request) (ir_Key request) db) (\<lambda>found.
       case found of None \<Rightarrow> Inr None
       | Some record \<Rightarrow>
           guardE (ir_RequestHash record \<noteq> ir_RequestHash request) IdempotencyConflict
           (case ir_Response record of None \<Rightarrow> Inl IdempotencyInProgress
            | Some response \<Rightarrow>
                (case dec_rejudge_response response of
                   None \<Rightarrow> Inl (Internal ''stored rejudge response is invalid'')
                 | Some (old_id, new_id) \<Rightarrow>
                     guardE (old_id \<le> 0 \<or> new_id \<le> 0) (Internal ''stored rejudge response is invalid'')
                     (bindE (FindByID env new_id db) (\<lambda>s.
                        Inr (Some \<lparr>rr_InvalidatedSubmissionID = old_id, rr_Submission = s,
                                   rr_Replayed = True\<rparr>))))))"

definition Rejudge ::
  "'o judge_deps \<Rightarrow> judge_env \<Rightarrow> RejudgeSubmissionInput \<Rightarrow> judge_db \<Rightarrow> judge_db
     \<Rightarrow> (judge_error + RejudgeSubmissionResult) \<times> judge_db" where
  "Rejudge deps env input db0 db =
     (case requireActor (ri_Actor input) of Some e \<Rightarrow> (Inl e, db)
      | None \<Rightarrow>
      if \<not> actorIsAdmin (ri_Actor input) then (Inl (PermissionDenied ''admin role required''), db)
      else if ri_SubmissionID input \<le> 0 then (Inl (InvalidArgument ''invalid submission id''), db)
      else
        (let idempotency = \<lparr>ir_ActorID = ac_ID (ri_Actor input),
               ir_Operation = OperationRejudgeSubmission, ir_Key = ri_IdempotencyKey input,
               ir_RequestHash = rejudgeRequestHash (d_sha256 deps) (ri_SubmissionID input),
               ir_ExpiresAt = d_now deps + IdempotencyTTL\<rparr>
         in case ValidateIdempotency (d_uuid_parse deps) idempotency OperationRejudgeSubmission
                   (d_now deps) of Some e \<Rightarrow> (Inl e, db)
            | None \<Rightarrow>
            (case findRejudgeReplay env idempotency db0 of Inl e \<Rightarrow> (Inl e, db)
             | Inr (Some result) \<Rightarrow> (Inr result, db)
             | Inr None \<Rightarrow>
            (case FindByID env (ri_SubmissionID input) db0 of Inl e \<Rightarrow> (Inl e, db)
             | Inr old \<Rightarrow>
            if \<not> CanInvalidate (sub_Status old) then
              (Inl (if sub_Status old = ST_INVALIDATED then ConcurrentRejudge
                    else InvalidTransition (''submission in '' @ status_String (sub_Status old)
                           @ '' cannot be rejudged'')), db)
            else case GetJudgeProfile deps (sub_ProblemID old) of Inl e \<Rightarrow> (Inl e, db)
             | Inr profile \<Rightarrow>
            (case validateJudgeProfile (d_ulid_ok deps) profile (sub_ProblemID old) of Some e \<Rightarrow> (Inl e, db)
             | None \<Rightarrow>
               InvalidateAndRequeueWithOutboxAndIdempotency (d_uuid_parse deps) (d_ulid_ok deps) env
                 \<lparr>rc_SubmissionID = ri_SubmissionID input, rc_JudgeRevision = jp_JudgeRevision profile,
                  rc_JudgeDeadlineAt = d_now deps + JudgeQueueDeadline, rc_Idempotency = idempotency,
                  rc_InvalidatedOutboxEventID = d_event_id1 deps,
                  rc_RequestedOutboxEventID = d_event_id2 deps\<rparr> db)))))"

subsection \<open>A concrete environment\<close>

definition demo_deps :: "(string \<times> bytes) list judge_deps" where
  \<comment> \<open>object storage as an association list; identity for the digest\<close>
  "demo_deps = \<lparr>d_uuid_parse = (\<lambda>s. Some (to_lower s)), d_ulid_ok = (\<lambda>_. True),
     d_sha256 = (\<lambda>b. replicate 32 (CHR 0x0A)), d_now = 1500000000000,
     d_source_id = ''s'', d_event_id1 = ''00000000-0000-4000-8000-000000000002'',
     d_event_id2 = ''00000000-0000-4000-8000-000000000003'',
     d_put_object = (\<lambda>k b o1. (True, (k, b) # o1)), d_get_object = (\<lambda>k o1. map_of o1 k),
     d_profile_rpc = (\<lambda>p. Inr (Some \<lparr>rp_ProblemId = p, rp_StatusNormal = True, rp_TimeLimitMs = 1000,
        rp_MemoryLimitKb = 65536, rp_ActiveJudgeRevision = demo_revision\<rparr>))\<rparr>"

definition demo_actor :: "int64 \<Rightarrow> string list \<Rightarrow> Actor" where
  "demo_actor uid roles = \<lparr>ac_ID = uid, ac_Roles = roles, ac_RequestID = [], ac_TraceID = []\<rparr>"

definition demo_input :: CreateSubmissionInput where
  "demo_input = \<lparr>ci_ContestStartAt = 0, ci_ContestEndAt = 0, ci_Actor = demo_actor 7 [],
     ci_ProblemID = 3, ci_ContestID = 0, ci_Language = '' Go '', ci_SourceCode = ''package main'',
     ci_IdempotencyKey = ''00000000-0000-4000-8000-000000000001''\<rparr>"

section \<open>Lemmas\<close>

lemma requireActor_pos [simp]: "0 < ac_ID a \<Longrightarrow> requireActor a = None"
  by simp

lemma scan_all_users:
  "scan_all rs = Inr ss \<Longrightarrow> map sub_UserID ss = map r_user_id rs"
proof (induction rs arbitrary: ss)
  case (Cons r rs)
  then obtain s ss' where s: "scanSubmission (Some r) = Inr s" "scan_all rs = Inr ss'" "ss = s # ss'"
    by auto
  from s(1) have "sub_UserID s = r_user_id r" by (rule scanSubmission_Inr) simp
  with Cons.IH s show ?case by simp
qed simp

lemma set_newest_first [simp]: "set (newest_first rs) = set rs"
  by (simp add: newest_first_def)

lemma Normalized_bounds:
  "1 \<le> lf_Page (Normalized f) \<and> 1 \<le> lf_PageSize (Normalized f) \<and> lf_PageSize (Normalized f) \<le> MaxPageSize
   \<and> lf_UserID (Normalized f) = lf_UserID f"
  by (simp add: Normalized_def Let_def DefaultPageSize_def MaxPageSize_def)

lemma ListSubmissions_Inr:
  assumes "ListSubmissions env f db = Inr page"
  shows "set (map sub_UserID (sp_Items page))
      \<subseteq> r_user_id ` set (filter (listPredicate (Normalized f)) (submissions db))
    \<and> int (length (sp_Items page)) \<le> sp_PageSize page \<and> sp_PageSize page \<le> MaxPageSize
    \<and> sp_Total page = int (length (filter (listPredicate (Normalized f)) (submissions db)))"
proof -
  let ?f = "Normalized f"
  let ?hits = "filter (listPredicate ?f) (submissions db)"
  obtain n items where it: "scan_all (take (nat (lf_PageSize ?f)) (drop n (newest_first ?hits))) = Inr items"
    and page: "page = \<lparr>sp_Items = items, sp_Page = lf_Page ?f, sp_PageSize = lf_PageSize ?f,
                   sp_Total = int (length ?hits)\<rparr>"
    using assms by (auto simp: ListSubmissions_def Let_def)
  have m: "map sub_UserID items = map r_user_id (take (nat (lf_PageSize ?f)) (drop n (newest_first ?hits)))"
    by (rule scan_all_users [OF it])
  have "set (take (nat (lf_PageSize ?f)) (drop n (newest_first ?hits))) \<subseteq> set ?hits"
    using set_newest_first [of ?hits] by (auto simp del: set_newest_first dest!: in_set_takeD in_set_dropD)
  then have "set (map sub_UserID items) \<subseteq> r_user_id ` set ?hits"
    unfolding m set_map by (rule image_mono)
  moreover have "length items \<le> nat (lf_PageSize ?f)"
    using arg_cong [OF m, of length] by simp
  ultimately show ?thesis
    using page Normalized_bounds [of f] by auto
qed

lemma GetJudgeProfile_revision:
  "GetJudgeProfile deps p = Inr profile \<Longrightarrow> jp_ProblemID profile = p \<and> length (jp_JudgeRevision profile) = 26"
  by (auto simp: GetJudgeProfile_def split: sum.splits option.splits)

lemma source_Put_Inr:
  assumes "source_Put deps language source objects = (Inr so, objects')"
  shows "d_put_object deps (so_Key so) source objects = (True, objects')
    \<and> so_SHA256 so = hex_encode (d_sha256 deps source) \<and> so_Size so = int (length source)
    \<and> source \<noteq> [] \<and> int (length source) \<le> MaxSourceSizeBytes
    \<and> has_prefix (so_Key so) ''sources/''"
  using assms
  by (auto simp: source_Put_def Let_def has_prefix_def split: option.splits if_splits prod.splits)

lemma trim_space_prefix:
  assumes "has_prefix k (c # p)" and "\<not> is_space c"
  shows "trim_space k \<noteq> []"
proof -
  obtain t where "k = c # t" using assms(1) by (cases k) (auto simp: has_prefix_def)
  then show ?thesis
    using assms(2) trim_right_of_hd [of k is_space] by (simp add: trim_space_def)
qed

lemma source_Get_Put:
  assumes put: "source_Put deps language source objects = (Inr so, objects')"
    and law: "\<And>k b o1 o2. d_put_object deps k b o1 = (True, o2) \<Longrightarrow> d_get_object deps k o2 = Some b"
  shows "source_Get deps (so_Key so) objects' = Inr source"
proof -
  note p = source_Put_Inr [OF put]
  have "trim_space (so_Key so) \<noteq> []"
    using p by (intro trim_space_prefix [of _ "CHR ''s''"]) (auto simp: is_space_def)
  moreover have "d_get_object deps (so_Key so) objects' = Some source" using law p by blast
  moreover have "take (nat (MaxSourceSizeBytes + 1)) source = source"
    using p by (simp add: MaxSourceSizeBytes_def)
  ultimately show ?thesis using p by (simp add: source_Get_def Let_def)
qed

lemma findCreateReplay_replayed:
  assumes "findCreateReplay env request legacyHash input db = Inr (Some res)"
  shows "cs_Replayed res"
proof (cases "FindIdempotency env (ir_ActorID request) (ir_Operation request) (ir_Key request) db")
  case (Inr found)
  with assms show ?thesis by (cases found) (auto simp: findCreateReplay_def split: option.split_asm)
qed (use assms in \<open>simp add: findCreateReplay_def\<close>)

lemma Create_committed:
  assumes "Create deps env input db0 (db, objects) = (Inr res, (db', objects'))"
  obtains (replay) "db' = db" "objects' = objects" "cs_Replayed res"
  | (created) idem profile source where
      "source_Put deps (to_lower (trim_space (ci_Language input))) (ci_SourceCode input) objects
         = (Inr source, objects')"
      "CreateWithOutboxAndIdempotency (d_uuid_parse deps) (d_ulid_ok deps) env
         (create_command deps input (to_lower (trim_space (ci_Language input))) idem profile source) db
         = (Inr res, db')"
  using assms findCreateReplay_replayed
  by (fastforce simp: Create_def Let_def split: option.splits if_splits sum.splits prod.splits)

section \<open>Properties\<close>



text \<open>
  A list of submissions shown to someone who is not an administrator holds only that person's
  submissions, whatever filter was asked for; a page never exceeds its page size, nor 100 entries, and
  the total counts the stored submissions that match.
\<close>

theorem list_shows_own_submissions:
  assumes "ListUsecase env actor f db = Inr page"
  shows "(\<not> actorIsAdmin actor \<longrightarrow> (\<forall>s \<in> set (sp_Items page). sub_UserID s = ac_ID actor))
    \<and> int (length (sp_Items page)) \<le> sp_PageSize page \<and> sp_PageSize page \<le> 100
    \<and> sp_Total page \<le> int (length (submissions db))"
proof -
  obtain g where g: "ListSubmissions env (Normalized g) db = Inr page"
    and own: "actorIsAdmin actor \<or> lf_UserID g = ac_ID actor \<and> 0 < ac_ID actor"
    using assms by (auto simp: ListUsecase_def Let_def split: if_splits)
  note page = ListSubmissions_Inr [OF g]
  have "r_user_id r = ac_ID actor"
    if "\<not> actorIsAdmin actor" "listPredicate (Normalized (Normalized g)) r" for r
    using that own Normalized_bounds [of g] Normalized_bounds [of "Normalized g"]
    by (auto simp: listPredicate_def)
  then have "\<not> actorIsAdmin actor \<longrightarrow> (\<forall>s \<in> set (sp_Items page). sub_UserID s = ac_ID actor)"
    using page by fastforce
  then show ?thesis using page by (simp add: MaxPageSize_def)
qed

theorem list_shows_own_submissions_witness:
  "\<exists>page. ListUsecase (calm 0) (demo_actor 7 []) \<lparr>lf_UserID = 0, lf_ProblemID = 0,
      lf_Status = ST_UNSPECIFIED, lf_Language = [], lf_Page = 0, lf_PageSize = 0\<rparr> (demo_db None) = Inr page
    \<and> sp_Total page \<le> 1"
proof -
  let ?l = "ListUsecase (calm 0) (demo_actor 7 []) \<lparr>lf_UserID = 0, lf_ProblemID = 0,
      lf_Status = ST_UNSPECIFIED, lf_Language = [], lf_Page = 0, lf_PageSize = 0\<rparr> (demo_db None)"
  have "(case ?l of Inr p \<Rightarrow> True | Inl _ \<Rightarrow> False)" by code_simp
  then obtain page where p: "?l = Inr page" by (auto split: sum.splits)
  from list_shows_own_submissions [OF p] p show ?thesis by simp
qed

text \<open>
  Only an administrator rejudges: a call of \<open>Rejudge\<close> by anyone else neither succeeds nor changes
  the tables.
\<close>

theorem only_admin_rejudges:
  assumes "\<not> actorIsAdmin (ri_Actor input)"
  shows "\<exists>e. Rejudge deps env input db0 db = (Inl e, db)"
  using assms by (auto simp: Rejudge_def split: option.splits)

theorem only_admin_rejudges_witness:
  "\<exists>e. Rejudge demo_deps (calm 0) \<lparr>ri_Actor = demo_actor 7 [], ri_SubmissionID = 1, ri_IdempotencyKey = []\<rparr>
     (demo_db None) (demo_db None) = (Inl e, demo_db None)"
  by (rule only_admin_rejudges) (simp add: actorIsAdmin_def demo_actor_def)

text \<open>
  Creation end to end: when \<open>Create\<close> answers with a new submission, the row it names belongs to
  the actor, carries the requested problem, the normalised language and the digest and size of the
  submitted source, and \<open>GetSource\<close>'s read of its object key gives back exactly the submitted bytes
  (under MinIO's contract that an object can be read after it was written).
\<close>

theorem create_stores_the_request:
  assumes inv: "store_inv db"
    and c: "Create deps env input db0 (db, objects) = (Inr res, (db', objects'))"
    and new: "\<not> cs_Replayed res"
    and law: "\<And>k b o1 o2. d_put_object deps k b o1 = (True, o2) \<Longrightarrow> d_get_object deps k o2 = Some b"
  shows "\<exists>row. find_submission (cs_SubmissionID res) db' = Some row
    \<and> r_user_id row = ac_ID (ci_Actor input) \<and> r_problem_id row = ci_ProblemID input
    \<and> r_contest_id row = nullableContestID (ci_ContestID input)
    \<and> r_language row = to_lower (trim_space (ci_Language input)) \<and> r_status row = ''QUEUED''
    \<and> r_source_sha256 row = hex_encode (d_sha256 deps (ci_SourceCode input))
    \<and> r_source_size_bytes row = int (length (ci_SourceCode input))
    \<and> source_Get deps (r_source_object_key row) objects' = Inr (ci_SourceCode input)"
  using c
proof (cases rule: Create_committed)
  case (created idem profile source)
  note put = source_Put_Inr [OF created(1)] and get = source_Get_Put [OF created(1) law]
  from created(2) show ?thesis
  proof (cases rule: create_result_cases)
    case (committed res')
    have ac: "all_complete db" using inv by (simp add: store_inv_def)
    have res: "res' = res" using committed(3) by blast
    from committed(1) ac committed(2) show ?thesis
    proof (cases rule: create_tx_cases)
      case (new row orow irow)
      have "find (\<lambda>r. r_id r = r_id row) (submissions db) = None"
        using new_id_unused [OF inv] new(8) by (force simp: find_None_iff)
      then have "find_submission (cs_SubmissionID res) db' = Some row"
        using new(22) res by (simp add: find_submission_def new(1) find_append_None)
      then show ?thesis
        using new(9,12,13,14,23) put get
        by (auto simp: same_source_def fresh_row_def create_command_def)
    qed (use new res in simp)
  qed simp
qed (use new in simp)

theorem create_stores_the_request_witness:
  "\<exists>db' objects' row. Create demo_deps (calm 1500000000000) demo_input empty_db (empty_db, [])
      = (Inr \<lparr>cs_SubmissionID = 1, cs_Status = ST_QUEUED, cs_Replayed = False\<rparr>, (db', objects'))
    \<and> find_submission 1 db' = Some row \<and> r_language row = ''go''
    \<and> source_Get demo_deps (r_source_object_key row) objects' = Inr ''package main''"
proof -
  let ?c = "Create demo_deps (calm 1500000000000) demo_input empty_db (empty_db, [])"
  have e: "fst ?c = Inr \<lparr>cs_SubmissionID = 1, cs_Status = ST_QUEUED, cs_Replayed = False\<rparr>" by code_simp
  obtain db' objects' where run: "?c = (Inr \<lparr>cs_SubmissionID = 1, cs_Status = ST_QUEUED, cs_Replayed = False\<rparr>, (db', objects'))"
    using e by (cases ?c) auto
  have lang: "to_lower (trim_space (ci_Language demo_input)) = ''go''" by code_simp
  from create_stores_the_request [OF empty_db_inv run] run show ?thesis
    unfolding lang by (auto simp: demo_deps_def demo_input_def)
qed



end
