(* ===== verification/Judge_Outbox.thy ===== *)
theory Judge_Outbox
  imports Judge_Store_Props
begin

text \<open>
  The outbox relay of the judge service, \<open>src/services/judge/internal/biz/outbox.go\<close>, with the queue
  topology and the acknowledgement rule of \<open>internal/message/rabbitmq.go\<close>.

  \<open>RunOnce\<close> is written, as in the source, against the interfaces \<open>OutboxRepository\<close> and
  \<open>MessagePublisher\<close>: its first arguments are the operations. The publisher is a function from the
  message to the error it reports (\<open>None\<close>: the broker confirmed); the relay's log lists the messages
  handed to it, in order, with that answer. The trace context of a publication
  (\<open>mq.TraceContextValues\<close> of the span) is the function \<open>tr\<close> of the event.
\<close>

section \<open>Definitions\<close>

record PublishedMessage =
  pm_EventID :: string
  pm_EventType :: string
  pm_EventVersion :: int32
  pm_RoutingKey :: string
  pm_TraceParent :: string
  pm_TraceState :: string
  pm_Body :: json

record OutboxRelayConfig =
  oc_Owner :: string
  oc_BatchSize :: int
  oc_LeaseDuration :: duration
  oc_MaxRetries :: int
  oc_RetryDelay :: duration
  oc_PollInterval :: duration

definition DefaultOutboxBatch :: int where "DefaultOutboxBatch = 32"
definition DefaultOutboxLease :: duration where "DefaultOutboxLease = 30 * Second"
definition DefaultOutboxRetries :: int where "DefaultOutboxRetries = 3"
definition DefaultOutboxRetry :: duration where "DefaultOutboxRetry = 5 * Second"
definition DefaultOutboxPoll :: duration where "DefaultOutboxPoll = 1 * Second"

definition relay_normalized :: "OutboxRelayConfig \<Rightarrow> OutboxRelayConfig" where
  "relay_normalized c =
     \<lparr>oc_Owner = (if trim_space (oc_Owner c) = [] then ''judge-relay'' else oc_Owner c),
      oc_BatchSize = (if oc_BatchSize c \<le> 0 then DefaultOutboxBatch else oc_BatchSize c),
      oc_LeaseDuration = (if oc_LeaseDuration c \<le> 0 then DefaultOutboxLease else oc_LeaseDuration c),
      oc_MaxRetries = (if oc_MaxRetries c \<le> 0 then DefaultOutboxRetries else oc_MaxRetries c),
      oc_RetryDelay = (if oc_RetryDelay c \<le> 0 then DefaultOutboxRetry else oc_RetryDelay c),
      oc_PollInterval = (if oc_PollInterval c \<le> 0 then DefaultOutboxPoll else oc_PollInterval c)\<rparr>"

fun backoff_loop :: "nat \<Rightarrow> duration \<Rightarrow> duration" where
  "backoff_loop 0 base = (if base > Hour then Hour else base)"
| "backoff_loop (Suc n) base =
     (if base > go_div Hour 2 then Hour else backoff_loop n (wrap64 (base * 2)))"

definition backoff :: "duration \<Rightarrow> int \<Rightarrow> duration" where
  "backoff base retryCount =
     (let r0 = (if retryCount < 0 then 0 else retryCount);
          r1 = (if r0 > 10 then 10 else r0)
      in backoff_loop (nat r1) base)"

definition outbox_payload :: "OutboxEvent \<Rightarrow> string + (json option \<times> string \<times> string)" where
  \<comment> \<open>the switch on the event type: the re-encoded payload, the published type and the routing key\<close>
  "outbox_payload event =
     (if oe_EventType event = EventTypeJudgeRequested then
        (case dec_JudgeTask (oe_Payload event) of
           None \<Rightarrow> Inl ''invalid judge requested payload''
         | Some value \<Rightarrow>
             guardE (JudgeTask_Validate value \<noteq> None) ''invalid judge requested source metadata''
               (bindE (JudgeTaskRoutingKey (jt_Language value)) (\<lambda>routingKey.
                  Inr (enc_JudgeTask value, EventTypeJudgeTask, routingKey))))
      else if oe_EventType event = EventTypeSubmissionInvalidated then
        (case dec_SubmissionInvalidated (oe_Payload event) of
           None \<Rightarrow> Inl ''invalid submission invalidated payload''
         | Some value \<Rightarrow>
             guardE (SubmissionInvalidated_Validate value \<noteq> None)
               ''invalid submission invalidated payload''
               (Inr (enc_SubmissionInvalidated value, oe_EventType event,
                     EventTypeSubmissionInvalidated)))
      else if oe_EventType event = EventTypeSubmissionJudged then
        (case dec_SubmissionJudged (oe_Payload event) of
           None \<Rightarrow> Inl ''invalid submission judged payload''
         | Some value \<Rightarrow>
             guardE (SubmissionJudged_Validate value \<noteq> None) ''invalid submission judged payload''
               (Inr (enc_SubmissionJudged value, oe_EventType event, EventTypeSubmissionJudged)))
      else Inl (''unsupported outbox event type '' @ oe_EventType event))"

definition buildPublishedMessage :: "(string \<Rightarrow> bool) \<Rightarrow> OutboxEvent \<Rightarrow> string + PublishedMessage" where
  "buildPublishedMessage uuid_ok event =
     guardE (trim_space (oe_EventID event) = [] \<or> oe_ID event \<le> 0 \<or> oe_AggregateID event \<le> 0)
       ''invalid outbox identity''
     (bindE (outbox_payload event) (\<lambda>(payload, publishedType, routingKey).
        case MarshalEnvelope uuid_ok
               \<lparr>em_EventID = oe_EventID event, em_EventType = publishedType,
                em_EventVersion = oe_EventVersion event, em_OccurredAt = oe_CreatedAt event,
                em_TraceID = [], em_TraceParent = oe_TraceParent event,
                em_TraceState = oe_TraceState event, em_CausationID = []\<rparr> payload of
          Inl e \<Rightarrow> Inl (''encode outbox message: '' @ e)
        | Inr body \<Rightarrow>
            Inr \<lparr>pm_EventID = oe_EventID event, pm_EventType = publishedType,
                 pm_EventVersion = oe_EventVersion event, pm_RoutingKey = routingKey,
                 pm_TraceParent = oe_TraceParent event, pm_TraceState = oe_TraceState event,
                 pm_Body = body\<rparr>))"

definition stableFailure :: "string \<Rightarrow> string" where
  "stableFailure err = (let message = trim_space err in take 255 message)"

type_synonym 's mark_published = "int64 \<Rightarrow> string \<Rightarrow> time \<Rightarrow> 's \<Rightarrow> (judge_error + unit) \<times> 's"
type_synonym 's mark_failure =
  "int64 \<Rightarrow> string \<Rightarrow> time \<Rightarrow> bool \<Rightarrow> string \<Rightarrow> 's \<Rightarrow> (judge_error + unit) \<times> 's"
type_synonym 's claim_outbox =
  "string \<Rightarrow> time \<Rightarrow> time \<Rightarrow> int \<Rightarrow> 's \<Rightarrow> (judge_error + OutboxEvent list) \<times> 's"
type_synonym publisher = "PublishedMessage \<Rightarrow> string option"

definition traced_message ::
  "(string \<Rightarrow> bool) \<Rightarrow> (OutboxEvent \<Rightarrow> string \<times> string) \<Rightarrow> OutboxEvent \<Rightarrow> string + PublishedMessage" where
  \<comment> \<open>building the message and writing the span's trace context into it\<close>
  "traced_message uuid_ok tr event =
     bindE (buildPublishedMessage uuid_ok event) (\<lambda>message.
       let (traceparent, tracestate) = tr event
       in if traceparent \<noteq> [] then
            bindE (WithTraceContext (Some (pm_Body message)) traceparent tracestate) (\<lambda>body.
              Inr (message\<lparr>pm_TraceParent := traceparent, pm_TraceState := tracestate, pm_Body := body\<rparr>))
          else Inr message)"

definition relay_event ::
  "(string \<Rightarrow> bool) \<Rightarrow> (OutboxEvent \<Rightarrow> string \<times> string) \<Rightarrow> 's mark_published \<Rightarrow> 's mark_failure
     \<Rightarrow> publisher \<Rightarrow> OutboxRelayConfig \<Rightarrow> time \<Rightarrow> OutboxEvent \<Rightarrow> 's
     \<Rightarrow> (judge_error + unit) \<times> 's \<times> (PublishedMessage \<times> bool) list" where
  \<comment> \<open>the body of the loop for one event\<close>
  "relay_event uuid_ok tr mpub mfail publish config now event s =
     (case traced_message uuid_ok tr event of
        Inl buildErr \<Rightarrow>
          (let (r, s1) = mfail (oe_ID event) (oc_Owner config) now True (stableFailure buildErr) s
           in (r, s1, []))
      | Inr message \<Rightarrow>
          (case publish message of
             Some publishErr \<Rightarrow>
               (let attempt = oe_RetryCount event + 1;
                    dead = (attempt \<ge> oc_MaxRetries config);
                    next1 = now + backoff (oc_RetryDelay config) (oe_RetryCount event);
                    (r, s1) = mfail (oe_ID event) (oc_Owner config) next1 dead
                                (stableFailure publishErr) s
                in (r, s1, [(message, False)]))
           | None \<Rightarrow>
               (let (r, s1) = mpub (oe_ID event) (oc_Owner config) now s
                in (r, s1, [(message, True)]))))"

fun relay_events ::
  "(string \<Rightarrow> bool) \<Rightarrow> (OutboxEvent \<Rightarrow> string \<times> string) \<Rightarrow> 's mark_published \<Rightarrow> 's mark_failure
     \<Rightarrow> publisher \<Rightarrow> OutboxRelayConfig \<Rightarrow> time \<Rightarrow> int \<Rightarrow> OutboxEvent list \<Rightarrow> 's
     \<Rightarrow> (int \<times> judge_error option) \<times> 's \<times> (PublishedMessage \<times> bool) list" where
  "relay_events uuid_ok tr mpub mfail publish config now processed [] s = ((processed, None), s, [])"
| "relay_events uuid_ok tr mpub mfail publish config now processed (event # events) s =
     (case relay_event uuid_ok tr mpub mfail publish config now event s of
        (Inl err, s1, sent) \<Rightarrow> ((processed, Some err), s1, sent)
      | (Inr _, s1, sent) \<Rightarrow>
          (let (r, s2, sent2) =
                 relay_events uuid_ok tr mpub mfail publish config now (processed + 1) events s1
           in (r, s2, sent @ sent2)))"

definition RunOnce ::
  "(string \<Rightarrow> bool) \<Rightarrow> (OutboxEvent \<Rightarrow> string \<times> string) \<Rightarrow> 's claim_outbox \<Rightarrow> 's mark_published
     \<Rightarrow> 's mark_failure \<Rightarrow> publisher \<Rightarrow> OutboxRelayConfig \<Rightarrow> time \<Rightarrow> 's
     \<Rightarrow> (int \<times> judge_error option) \<times> 's \<times> (PublishedMessage \<times> bool) list" where
  "RunOnce uuid_ok tr claim mpub mfail publish config now s =
     (case claim (oc_Owner config) now (now + oc_LeaseDuration config) (oc_BatchSize config) s of
        (Inl err, s1) \<Rightarrow> ((0, Some err), s1, [])
      | (Inr events, s1) \<Rightarrow>
          relay_events uuid_ok tr mpub mfail publish config now 0 events s1)"

subsection \<open>Queues and acknowledgements\<close>

definition judgeEventRoutes :: "string list" where
  "judgeEventRoutes = JudgeTaskRoutingKeys @ [EventTypeSubmissionInvalidated, EventTypeSubmissionJudged]"

definition declareTopology ::
  "string \<Rightarrow> string \<Rightarrow> string \<Rightarrow> (string \<times> string \<times> (string \<times> string) list) list" where
  \<comment> \<open>the bindings declared on the exchange: queue, binding key, queue arguments\<close>
  "declareTopology exchange queue dlq =
     map (\<lambda>route. (route, route,
            if IsJudgeTaskRoutingKey route then JudgeTaskQueueArguments exchange dlq else []))
       judgeEventRoutes
     @ map (\<lambda>key. (queue, key, [])) [EventTypeJudgeCompleted, EventTypeJudgeFailed]"

datatype ack_action = Ack | RejectDrop | NackRequeue

fun result_ack :: "judge_error + unit \<Rightarrow> ack_action" where
  \<comment> \<open>what the delivery loop of \<open>RabbitResultConsumer.Start\<close> does with the handler's answer\<close>
  "result_ack (Inr _) = Ack"
| "result_ack (Inl (InvalidArgument _)) = RejectDrop"
| "result_ack (Inl _) = NackRequeue"

definition consume_delivery ::
  "(string \<Rightarrow> bool) \<Rightarrow> judge_env \<Rightarrow> string \<Rightarrow> json option \<Rightarrow> judge_db \<Rightarrow> ack_action \<times> judge_db" where
  "consume_delivery uuid_ok env type_header body db =
     (let (r, db') = ResultConsumer_Handle uuid_ok env type_header body db
      in (result_ack r, db'))"

definition demo_config :: OutboxRelayConfig where
  "demo_config = relay_normalized \<lparr>oc_Owner = ''r'', oc_BatchSize = 0, oc_LeaseDuration = 0,
     oc_MaxRetries = 0, oc_RetryDelay = 0, oc_PollInterval = 0\<rparr>"

section \<open>Lemmas\<close>

subsection \<open>Backoff\<close>

lemma backoff_loop_closed:
  "0 < base \<Longrightarrow> base \<le> max_int64 \<Longrightarrow> backoff_loop n base = min Hour (base * 2 ^ n)"
proof (induction n arbitrary: base)
  case 0
  then show ?case by (simp add: min_def)
next
  case (Suc n)
  have half: "go_div Hour 2 = 1800000000000" by (simp add: Hour_def go_div_def)
  show ?case
  proof (cases "base > 1800000000000")
    case True
    have "(1 :: int) \<le> 2 ^ n" by simp
    then have "base \<le> base * 2 ^ n" using Suc.prems(1) mult_left_mono [of 1 "2 ^ n" base] by simp
    with True have "1800000000000 \<le> base * 2 ^ n" by (rule order_trans [OF less_imp_le])
    then have "Hour \<le> base * 2 ^ Suc n" by (simp add: Hour_def)
    then show ?thesis using True half by (simp add: min_def)
  next
    case False
    then have w: "wrap64 (base * 2) = base * 2"
      using Suc.prems by (intro wrap64_id) (simp_all add: min_int64_def max_int64_def)
    have "backoff_loop n (base * 2) = min Hour (base * 2 * 2 ^ n)"
      using Suc.prems False by (intro Suc.IH) (simp_all add: max_int64_def)
    then show ?thesis using False by (simp add: half w mult.assoc)
  qed
qed

subsection \<open>The relay against any repository\<close>

text \<open>
  The contract the relay relies on: a claim hands out each event once and leases it; recording an
  outcome touches only the named event. \<open>settled s i\<close> says that event \<open>i\<close> is published or dead,
  \<open>tries s i\<close> is its retry counter.
\<close>

locale outbox_repository =
  fixes claim :: "'s claim_outbox" and mpub :: "'s mark_published" and mfail :: "'s mark_failure"
    and settled :: "'s \<Rightarrow> int64 \<Rightarrow> bool" and tries :: "'s \<Rightarrow> int64 \<Rightarrow> int" and good :: "'s \<Rightarrow> bool"
  assumes claim_good: "good s \<Longrightarrow> claim w t u n s = (c, s') \<Longrightarrow> good s'"
    and claim_events: "good s \<Longrightarrow> claim w t u n s = (Inr evs, s') \<Longrightarrow>
      distinct (map oe_ID evs) \<and> int (length evs) \<le> n
      \<and> (\<forall>e \<in> set evs. \<not> settled s (oe_ID e) \<and> tries s (oe_ID e) = oe_RetryCount e)"
    and claim_keeps: "good s \<Longrightarrow> claim w t u n s = (c, s') \<Longrightarrow> settled s' i = settled s i \<and> tries s' i = tries s i"
    and mpub_ok: "good s \<Longrightarrow> mpub i w t s = (Inr (), s') \<Longrightarrow> settled s' i \<and> tries s' i = tries s i"
    and mpub_other: "good s \<Longrightarrow> mpub i w t s = (r, s') \<Longrightarrow>
      good s' \<and> (\<forall>j. j \<noteq> i \<longrightarrow> settled s' j = settled s j \<and> tries s' j = tries s j)"
    and mfail_ok: "good s \<Longrightarrow> mfail i w t d m s = (Inr (), s') \<Longrightarrow>
      settled s' i = d \<and> tries s' i = tries s i + 1"
    and mfail_other: "good s \<Longrightarrow> mfail i w t d m s = (r, s') \<Longrightarrow>
      good s' \<and> (\<forall>j. j \<noteq> i \<longrightarrow> settled s' j = settled s j \<and> tries s' j = tries s j)"
begin

lemma relay_event_other:
  assumes "good s" and "relay_event uuid_ok tr mpub mfail publish config now e s = (r, s', sent)"
  shows "good s' \<and> (\<forall>j. j \<noteq> oe_ID e \<longrightarrow> settled s' j = settled s j \<and> tries s' j = tries s j)
    \<and> length sent \<le> 1"
  using assms mpub_other [OF assms(1)] mfail_other [OF assms(1)]
  by (auto simp: relay_event_def Let_def split: sum.splits option.splits prod.splits)

lemma relay_event_ok:
  assumes "good s" and "relay_event uuid_ok tr mpub mfail publish config now e s = (Inr u, s', sent)"
    and "tries s (oe_ID e) = oe_RetryCount e"
  shows "settled s' (oe_ID e)
    \<or> (oe_RetryCount e + 1 < oc_MaxRetries config \<and> tries s' (oe_ID e) = oe_RetryCount e + 1)"
  using assms mpub_ok [OF assms(1)] mfail_ok [OF assms(1)]
  by (auto simp: relay_event_def Let_def split: sum.splits option.splits prod.splits)

lemma relay_events_ok:
  assumes "good s" and "relay_events uuid_ok tr mpub mfail publish config now p evs s = ((k, err), s', sent)"
    and "distinct (map oe_ID evs)" and "\<forall>e \<in> set evs. tries s (oe_ID e) = oe_RetryCount e"
  shows "good s' \<and> (\<forall>j. j \<notin> oe_ID ` set evs \<longrightarrow> settled s' j = settled s j \<and> tries s' j = tries s j)
    \<and> length sent \<le> length evs \<and> p \<le> k \<and> k \<le> p + int (length evs)
    \<and> (err = None \<longrightarrow> k = p + int (length evs) \<and> (\<forall>e \<in> set evs. settled s' (oe_ID e)
         \<or> (oe_RetryCount e + 1 < oc_MaxRetries config \<and> tries s' (oe_ID e) = oe_RetryCount e + 1)))"
  using assms
proof (induction evs arbitrary: s p sent)
  case Nil
  then show ?case by simp
next
  case (Cons e evs)
  obtain r1 s1 sent1 where e: "relay_event uuid_ok tr mpub mfail publish config now e s = (r1, s1, sent1)"
    by (cases "relay_event uuid_ok tr mpub mfail publish config now e s") auto
  note other = relay_event_other [OF Cons.prems(1) e]
  show ?case
  proof (cases r1)
    case (Inl er)
    with e Cons.prems(2) other show ?thesis by auto
  next
    case (Inr u)
    with e Cons.prems(2) obtain sent2 where
      rest: "relay_events uuid_ok tr mpub mfail publish config now (p + 1) evs s1 = ((k, err), s', sent2)"
      and sent: "sent = sent1 @ sent2" by (auto simp: Let_def split: prod.splits)
    have ne: "\<forall>x \<in> set evs. oe_ID x \<noteq> oe_ID e"
      using Cons.prems(3) by (simp add: image_iff) metis
    have "\<forall>x \<in> set evs. tries s1 (oe_ID x) = oe_RetryCount x"
      using other ne Cons.prems(4) by auto
    note ih = Cons.IH [OF _ rest _ this]
    have ok: "settled s1 (oe_ID e) \<or> (oe_RetryCount e + 1 < oc_MaxRetries config
        \<and> tries s1 (oe_ID e) = oe_RetryCount e + 1)"
      using relay_event_ok [OF Cons.prems(1)] e Inr Cons.prems(4) by auto
    have "oe_ID e \<notin> oe_ID ` set evs" using Cons.prems(3) by simp
    with ih other ok Cons.prems(3) sent show ?thesis by auto
  qed
qed

lemma RunOnce_progress:
  assumes "good s" and "RunOnce uuid_ok tr claim mpub mfail publish config now s = ((k, None), s', sent)"
    and "claim (oc_Owner config) now (now + oc_LeaseDuration config) (oc_BatchSize config) s = (Inr evs, s1)"
  shows "good s' \<and> k = int (length evs) \<and> k \<le> oc_BatchSize config \<and> length sent \<le> length evs
    \<and> (\<forall>e \<in> set evs. settled s' (oe_ID e)
         \<or> (oe_RetryCount e + 1 < oc_MaxRetries config \<and> tries s' (oe_ID e) = tries s (oe_ID e) + 1))
    \<and> (\<forall>j. j \<notin> oe_ID ` set evs \<longrightarrow> settled s' j = settled s j \<and> tries s' j = tries s j)"
proof -
  note c = claim_events [OF assms(1,3)] and keep = claim_keeps [OF assms(1,3)]
  from assms(2,3) have run: "relay_events uuid_ok tr mpub mfail publish config now 0 evs s1 = ((k, None), s', sent)"
    by (simp add: RunOnce_def)
  have g1: "good s1" by (rule claim_good [OF assms(1,3)])
  have "\<forall>e \<in> set evs. tries s1 (oe_ID e) = oe_RetryCount e" using c keep by simp
  from relay_events_ok [OF g1 run _ this] c keep show ?thesis by auto
qed

end

subsection \<open>The judge store keeps the contract\<close>

definition event_settled :: "judge_db \<Rightarrow> int64 \<Rightarrow> bool" where
  "event_settled db i \<longleftrightarrow>
     (\<exists>r \<in> set (outbox_events db). o_id r = i \<and> o_status r \<in> {OutboxStatusPublished, OutboxStatusDead})"

definition event_tries :: "judge_db \<Rightarrow> int64 \<Rightarrow> int" where
  "event_tries db i =
     (case find (\<lambda>r. o_id r = i) (outbox_events db) of None \<Rightarrow> 0 | Some r \<Rightarrow> o_retry_count r)"

definition outbox_good :: "judge_db \<Rightarrow> bool" where
  "outbox_good db \<longleftrightarrow> distinct (map o_id (outbox_events db))
     \<and> (\<forall>r \<in> set (outbox_events db).
          o_status r \<in> {OutboxStatusPending, OutboxStatusPublished, OutboxStatusDead})"

lemma outbox_statuses [simp]:
  "OutboxStatusPublished \<noteq> OutboxStatusPending" "OutboxStatusDead \<noteq> OutboxStatusPending"
  "db_eq OutboxStatusPending OutboxStatusPending" "\<not> db_eq OutboxStatusPublished OutboxStatusPending"
  "\<not> db_eq OutboxStatusDead OutboxStatusPending"
  by (code_simp+)

lemma pending_status:
  "o_status r \<in> {OutboxStatusPending, OutboxStatusPublished, OutboxStatusDead} \<Longrightarrow>
    db_eq (o_status r) OutboxStatusPending \<longleftrightarrow> o_status r = OutboxStatusPending"
  by (elim insertE emptyE) simp_all

lemma find_map_id:
  "(\<And>r. o_id (f r) = o_id r) \<Longrightarrow> find (\<lambda>r. o_id r = i) (map f rs) = map_option f (find (\<lambda>r. o_id r = i) rs)"
  by (induction rs) auto

lemma find_unique:
  "distinct (map o_id rs) \<Longrightarrow> r \<in> set rs \<Longrightarrow> find (\<lambda>x. o_id x = o_id r) rs = Some r"
  by (induction rs) force+

lemma claim_tx_Inr:
  assumes "claim_tx env owner now until limit db = Inr (evs, db')"
  obtains rows where "rows = take limit (filter (claimable now) (outbox_events db))"
    "map oe_ID evs = map o_id rows" "map oe_RetryCount evs = map o_retry_count rows"
    "db' = db\<lparr>outbox_events := map (\<lambda>r. if o_id r \<in> set (map o_id rows) \<and> db_eq (o_status r) OutboxStatusPending
        then r\<lparr>o_lease_owner := Some owner, o_lease_until := Some (db_ms until)\<rparr> else r) (outbox_events db)\<rparr>"
  using assms by (auto simp: claim_tx_def Let_def scanOutbox_def)

lemma ClaimOutbox_cases:
  assumes "ClaimOutbox env owner now until limit db = (r, db')"
  obtains (same) "db' = db" "\<nexists>evs. r = Inr evs"
  | (claimed) evs where "claim_tx env owner now until (nat limit) db = Inr (evs, db')"
      "\<And>x. r = Inr x \<Longrightarrow> x = evs" "0 < limit" "now < until"
  using assms by (auto simp: ClaimOutbox_def run_tx_def split: if_splits sum.splits)

text \<open>An update of rows that keeps ids, and where it keeps status and counter, keeps the observations.\<close>

lemma outbox_map_obs:
  assumes id: "\<And>r. o_id (f r) = o_id r"
    and db': "db' = db\<lparr>outbox_events := map f (outbox_events db)\<rparr>"
    and keep: "\<And>r. o_id r = j \<Longrightarrow> o_status (f r) = o_status r \<and> o_retry_count (f r) = o_retry_count r"
  shows "event_settled db' j = event_settled db j \<and> event_tries db' j = event_tries db j"
proof -
  have "event_tries db' j = event_tries db j"
  proof (cases "find (\<lambda>r. o_id r = j) (outbox_events db)")
    case (Some r)
    then have "o_id r = j" by (auto simp: find_Some_iff)
    then show ?thesis using keep Some by (simp add: event_tries_def db' find_map_id [of f, OF id])
  qed (simp add: event_tries_def db' find_map_id [of f, OF id])
  moreover have "event_settled db' j = event_settled db j"
    using id keep by (auto simp: event_settled_def db')
  ultimately show ?thesis by blast
qed

lemma outbox_map_good:
  assumes "outbox_good db" and "\<And>r. o_id (f r) = o_id r"
    and "\<And>r. o_status (f r) \<in> {o_status r, OutboxStatusPending, OutboxStatusPublished, OutboxStatusDead}"
  shows "outbox_good (db\<lparr>outbox_events := map f (outbox_events db)\<rparr>)"
proof -
  have "o_status (f r) \<in> {OutboxStatusPending, OutboxStatusPublished, OutboxStatusDead}"
    if "r \<in> set (outbox_events db)" for r
    using assms(1) assms(3) [of r] that unfolding outbox_good_def by auto
  moreover have "map o_id (map f (outbox_events db)) = map o_id (outbox_events db)"
    using assms(2) by simp
  ultimately show ?thesis using assms(1) by (simp add: outbox_good_def del: map_map)
qed

lemma update_owned_other:
  assumes g: "outbox_good db" and u: "update_owned env i w f lost db = (r, db')"
    and f: "\<And>r. o_id (f r) = o_id r"
      "\<And>r. o_status (f r) \<in> {OutboxStatusPending, OutboxStatusPublished, OutboxStatusDead}"
  shows "outbox_good db' \<and> (\<forall>j. j \<noteq> i \<longrightarrow> event_settled db' j = event_settled db j
    \<and> event_tries db' j = event_tries db j)"
proof -
  let ?f = "\<lambda>r. if owned i w r then f r else r"
  from update_owned_shape [OF u] show ?thesis
  proof
    assume d: "db' = db\<lparr>outbox_events := map ?f (outbox_events db)\<rparr>"
    have "outbox_good db'" unfolding d by (rule outbox_map_good [OF g]) (use f in auto)
    moreover have "event_settled db' j = event_settled db j \<and> event_tries db' j = event_tries db j"
      if "j \<noteq> i" for j
      by (rule outbox_map_obs [OF _ d]) (use that f(1) in \<open>auto simp: owned_def\<close>)
    ultimately show ?thesis by blast
  qed (use g in simp)
qed

lemma update_owned_ok:
  assumes g: "outbox_good db" and u: "update_owned env i w f lost db = (Inr (), db')"
    and f: "\<And>r. o_id (f r) = o_id r"
  obtains r where "r \<in> set (outbox_events db)" "owned i w r"
    "f r \<in> set (outbox_events db')" "event_tries db i = o_retry_count r"
    "event_tries db' i = o_retry_count (f r)"
    "\<And>x. x \<in> set (outbox_events db') \<Longrightarrow> o_id x = i \<Longrightarrow> x = f r"
proof -
  let ?f = "\<lambda>r. if owned i w r then f r else r"
  from u have d: "outbox_events db' = map ?f (outbox_events db)"
    and one: "length (filter (owned i w) (outbox_events db)) = 1"
    by (auto simp: update_owned_def Let_def split: if_splits)
  from one obtain r where r: "r \<in> set (outbox_events db)" "owned i w r"
    by (metis filter_empty_conv length_0_conv zero_neq_one)
  have i: "o_id r = i" using r(2) by (simp add: owned_def)
  have dist: "distinct (map o_id (outbox_events db))" using g by (simp add: outbox_good_def)
  have fnd: "find (\<lambda>x. o_id x = i) (outbox_events db) = Some r"
    using find_unique [OF dist r(1)] i by simp
  then have "find (\<lambda>x. o_id x = i) (outbox_events db') = Some (f r)"
    using find_map_id [of ?f i "outbox_events db"] f r(2) d by simp
  moreover have "f r \<in> set (outbox_events db')" using r by (force simp: d)
  moreover have "x = f r" if "x \<in> set (outbox_events db')" "o_id x = i" for x
  proof -
    from that d obtain y where y: "y \<in> set (outbox_events db)" "x = ?f y" by auto
    then have "o_id y = i" using that(2) f by (simp split: if_splits)
    then have "y = r" using y(1) r(1) i dist by (auto simp: distinct_map inj_on_def)
    then show ?thesis using y(2) r(2) by simp
  qed
  ultimately show ?thesis using that [OF r] fnd by (simp add: event_tries_def)
qed

interpretation store_outbox: outbox_repository "ClaimOutbox env" "MarkOutboxPublished env"
  "MarkOutboxFailure env" event_settled event_tries outbox_good for env
proof unfold_locales
  fix db db' w t u n c
  assume g: "outbox_good db" and c: "ClaimOutbox env w t u n db = (c, db')"
  from c show "outbox_good db'"
  proof (cases rule: ClaimOutbox_cases)
    case (claimed evs)
    from claimed(1) show ?thesis
      by (rule claim_tx_Inr) (auto intro!: outbox_map_good [OF g])
  qed (use g in simp)
  fix i
  from c show "event_settled db' i = event_settled db i \<and> event_tries db' i = event_tries db i"
  proof (cases rule: ClaimOutbox_cases)
    case (claimed evs)
    from claimed(1) show ?thesis by (rule claim_tx_Inr) (erule outbox_map_obs [rotated], auto)
  qed simp
next
  fix db db' w t u n evs
  assume g: "outbox_good db" and c: "ClaimOutbox env w t u n db = (Inr evs, db')"
  from c show "distinct (map oe_ID evs) \<and> int (length evs) \<le> n
      \<and> (\<forall>e \<in> set evs. \<not> event_settled db (oe_ID e) \<and> event_tries db (oe_ID e) = oe_RetryCount e)"
  proof (cases rule: ClaimOutbox_cases)
    case (claimed evs')
    then have "claim_tx env w t u (nat n) db = Inr (evs, db')" by blast
    then show ?thesis
    proof (rule claim_tx_Inr)
      fix rows
      assume rows: "rows = take (nat n) (filter (claimable t) (outbox_events db))"
        and m: "map oe_ID evs = map o_id rows" "map oe_RetryCount evs = map o_retry_count rows"
      have dist: "distinct (map o_id (outbox_events db))" using g by (simp add: outbox_good_def)
      then have "distinct (map o_id rows)" unfolding rows
        by (metis distinct_map_filter distinct_take take_map)
      moreover have "length evs = length rows" using arg_cong [OF m(1), of length] by simp
      then have "int (length evs) \<le> n" using claimed(3) by (simp add: rows)
      moreover have "\<not> event_settled db (oe_ID e) \<and> event_tries db (oe_ID e) = oe_RetryCount e"
        if "e \<in> set evs" for e
      proof -
        from that obtain k where k: "k < length evs" "e = evs ! k" by (metis in_set_conv_nth)
        define r where "r = rows ! k"
        have len: "length evs = length rows" using arg_cong [OF m(1), of length] by simp
        have e: "oe_ID e = o_id r" "oe_RetryCount e = o_retry_count r"
          using arg_cong [OF m(1), of "\<lambda>xs. xs ! k"] arg_cong [OF m(2), of "\<lambda>xs. xs ! k"] k len
          by (simp_all add: r_def)
        have rin: "r \<in> set rows" using k len by (simp add: r_def)
        then have "r \<in> set (outbox_events db)" "claimable t r"
          unfolding rows by (auto dest: in_set_takeD)
        moreover from this have "o_status r = OutboxStatusPending"
          using g pending_status by (auto simp: outbox_good_def claimable_def)
        moreover have "x = r" if "x \<in> set (outbox_events db)" "o_id x = o_id r" for x
          using that dist \<open>r \<in> set (outbox_events db)\<close> by (auto simp: distinct_map inj_on_def)
        ultimately have "\<not> event_settled db (o_id r)" "event_tries db (o_id r) = o_retry_count r"
          using find_unique [OF dist] by (fastforce simp: event_settled_def event_tries_def)+
        then show ?thesis using e by simp
      qed
      ultimately show ?thesis using m(1) by simp
    qed
  qed simp
next
  fix db db' i w t
  assume g: "outbox_good db" and m: "MarkOutboxPublished env i w t db = (Inr (), db')"
  from m [unfolded MarkOutboxPublished_def] show "event_settled db' i \<and> event_tries db' i = event_tries db i"
  proof (rule update_owned_ok [OF g])
    fix r
    let ?f = "\<lambda>r. r\<lparr>o_status := OutboxStatusPublished, o_published_at := Some (db_ms t),
                    o_lease_owner := None, o_lease_until := None\<rparr>"
    assume r: "owned i w r" "?f r \<in> set (outbox_events db')"
      "event_tries db i = o_retry_count r" "event_tries db' i = o_retry_count (?f r)"
    have "o_id (?f r) = i \<and> o_status (?f r) = OutboxStatusPublished" using r(1) by (simp add: owned_def)
    then have "event_settled db' i" using r(2) unfolding event_settled_def by blast
    then show ?thesis using r(3,4) by simp
  qed simp
next
  fix db db' i w t r
  assume g: "outbox_good db" and m: "MarkOutboxPublished env i w t db = (r, db')"
  from m [unfolded MarkOutboxPublished_def]
  show "outbox_good db' \<and> (\<forall>j. j \<noteq> i \<longrightarrow> event_settled db' j = event_settled db j
      \<and> event_tries db' j = event_tries db j)"
    by (rule update_owned_other [OF g]) simp_all
next
  fix db db' i w t d msg
  assume g: "outbox_good db" and m: "MarkOutboxFailure env i w t d msg db = (Inr (), db')"
  from m [unfolded MarkOutboxFailure_def] show "event_settled db' i = d \<and> event_tries db' i = event_tries db i + 1"
  proof (rule update_owned_ok [OF g])
    fix r
    let ?f = "\<lambda>r. r\<lparr>o_status := if d then OutboxStatusDead else OutboxStatusPending,
                    o_retry_count := o_retry_count r + 1,
                    o_next_retry_at := if d then None else Some (db_ms t), o_lease_owner := None,
                    o_lease_until := None, o_last_error := Some msg\<rparr>"
    assume r: "r \<in> set (outbox_events db)" "owned i w r" "?f r \<in> set (outbox_events db')"
      "event_tries db i = o_retry_count r" "event_tries db' i = o_retry_count (?f r)"
      and only: "\<And>x. x \<in> set (outbox_events db') \<Longrightarrow> o_id x = i \<Longrightarrow> x = ?f r"
    define y where "y = ?f r"
    have y: "o_id y = i" "o_status y = (if d then OutboxStatusDead else OutboxStatusPending)"
      using r(2) by (simp_all add: owned_def y_def)
    have "event_settled db' i \<longleftrightarrow> o_status y \<in> {OutboxStatusPublished, OutboxStatusDead}"
      unfolding event_settled_def using r(3) only y(1) unfolding y_def [symmetric] by blast
    moreover have "OutboxStatusPending \<notin> {OutboxStatusPublished, OutboxStatusDead}"
      by (simp add: OutboxStatusPending_def OutboxStatusPublished_def OutboxStatusDead_def)
    ultimately have "event_settled db' i = d" by (simp add: y(2))
    then show ?thesis using r(4,5) by simp
  qed simp
next
  fix db db' i w t d msg r
  assume g: "outbox_good db" and m: "MarkOutboxFailure env i w t d msg db = (r, db')"
  from m [unfolded MarkOutboxFailure_def]
  show "outbox_good db' \<and> (\<forall>j. j \<noteq> i \<longrightarrow> event_settled db' j = event_settled db j
      \<and> event_tries db' j = event_tries db j)"
    by (rule update_owned_other [OF g]) simp_all
qed

subsection \<open>Messages\<close>

lemma routing_key_bound:
  "JudgeTaskRoutingKey l = Inr k \<Longrightarrow> k \<in> set judgeEventRoutes"
  by (auto simp: JudgeTaskRoutingKey_def judgeEventRoutes_def JudgeTaskRoutingKeys_def Let_def split: if_splits)

lemma outbox_payload_route:
  "outbox_payload e = Inr (p, ty, k) \<Longrightarrow> k \<in> set judgeEventRoutes"
  using routing_key_bound
  by (auto simp: outbox_payload_def judgeEventRoutes_def split: if_splits option.splits)

lemma buildPublishedMessage_Inr:
  assumes "buildPublishedMessage uuid_ok e = Inr m"
  obtains payload where "outbox_payload e = Inr (payload, pm_EventType m, pm_RoutingKey m)"
    "MarshalEnvelope uuid_ok
       \<lparr>em_EventID = oe_EventID e, em_EventType = pm_EventType m, em_EventVersion = oe_EventVersion e,
        em_OccurredAt = oe_CreatedAt e, em_TraceID = [], em_TraceParent = oe_TraceParent e,
        em_TraceState = oe_TraceState e, em_CausationID = []\<rparr> payload = Inr (pm_Body m)"
    "pm_EventID m = oe_EventID e"
proof -
  from assms obtain payload ty k where p: "outbox_payload e = Inr (payload, ty, k)"
    by (auto simp: buildPublishedMessage_def)
  define meta where "meta = \<lparr>em_EventID = oe_EventID e, em_EventType = ty,
    em_EventVersion = oe_EventVersion e, em_OccurredAt = oe_CreatedAt e, em_TraceID = [],
    em_TraceParent = oe_TraceParent e, em_TraceState = oe_TraceState e, em_CausationID = []\<rparr>"
  obtain body where "MarshalEnvelope uuid_ok meta payload = Inr body"
    using assms p by (cases "MarshalEnvelope uuid_ok meta payload")
      (auto simp: buildPublishedMessage_def meta_def)
  then show ?thesis
    using that [of payload] assms p by (auto simp: buildPublishedMessage_def meta_def)
qed

lemma demo_message_built: "\<exists>m. buildPublishedMessage (\<lambda>_. True) (scanOutbox demo_outbox) = Inr m"
proof -
  have "(case buildPublishedMessage (\<lambda>_. True) (scanOutbox demo_outbox) of Inr m \<Rightarrow> True | Inl _ \<Rightarrow> False)"
    by code_simp
  then show ?thesis by (auto split: sum.splits)
qed

section \<open>Properties\<close>



text \<open>
  Leases exclude each other: while the lease of a claim has not run out (as the rounded time in
  the table), a second claim, by any relay, returns none of the events the first one returned.
\<close>

theorem leases_exclude:
  assumes "outbox_good db"
    and "ClaimOutbox env1 w1 now1 until1 n1 db = (Inr evs1, db1)"
    and "ClaimOutbox env2 w2 now2 until2 n2 db1 = (Inr evs2, db2)"
    and "now2 < db_ms until1"
  shows "set (map oe_ID evs1) \<inter> set (map oe_ID evs2) = {}"
proof -
  from assms(2) obtain rows where rows: "rows = take (nat n1) (filter (claimable now1) (outbox_events db))"
    "map oe_ID evs1 = map o_id rows"
    "db1 = db\<lparr>outbox_events := map (\<lambda>r. if o_id r \<in> set (map o_id rows) \<and> db_eq (o_status r) OutboxStatusPending
        then r\<lparr>o_lease_owner := Some w1, o_lease_until := Some (db_ms until1)\<rparr> else r) (outbox_events db)\<rparr>"
    by (cases rule: ClaimOutbox_cases) (auto elim: claim_tx_Inr)
  from assms(3) obtain rows2 where rows2: "rows2 = take (nat n2) (filter (claimable now2) (outbox_events db1))"
    "map oe_ID evs2 = map o_id rows2"
    by (cases rule: ClaimOutbox_cases) (auto elim: claim_tx_Inr)
  have fresh: "o_id r \<notin> set (map o_id rows)" if "r \<in> set rows2" for r
  proof
    assume i: "o_id r \<in> set (map o_id rows)"
    from that rows2(1) have r: "r \<in> set (outbox_events db1)" "claimable now2 r"
      by (auto dest: in_set_takeD)
    from r(1) rows(3) obtain y where y: "y \<in> set (outbox_events db)"
      "r = (if o_id y \<in> set (map o_id rows) \<and> db_eq (o_status y) OutboxStatusPending
        then y\<lparr>o_lease_owner := Some w1, o_lease_until := Some (db_ms until1)\<rparr> else y)" by auto
    have "o_id y = o_id r" unfolding y(2) by simp
    then have "o_id y \<in> set (map o_id rows)" using i by metis
    moreover have "o_status y = o_status r" unfolding y(2) by simp
    then have "db_eq (o_status y) OutboxStatusPending" using r(2) by (simp add: claimable_def)
    ultimately have "o_lease_until r = Some (db_ms until1)" unfolding y(2) by simp
    then show False using r(2) assms(4) by (simp add: claimable_def)
  qed
  show ?thesis
  proof (rule ccontr)
    assume "set (map oe_ID evs1) \<inter> set (map oe_ID evs2) \<noteq> {}"
    then obtain i where "i \<in> set (map o_id rows)" "i \<in> set (map o_id rows2)"
      unfolding rows(2) rows2(2) by blast
    moreover from this(2) obtain r where "r \<in> set rows2" "i = o_id r" by auto
    ultimately show False using fresh [of r] by simp
  qed
qed

theorem leases_exclude_witness:
  "\<exists>evs1 db1 evs2 db2. ClaimOutbox (calm 0) ''a'' 1600000000000 1700000000000 5 (demo_db None) = (Inr evs1, db1)
    \<and> map oe_ID evs1 = [1] \<and> ClaimOutbox (calm 0) ''b'' 1650000000000 1800000000000 5 db1 = (Inr evs2, db2)
    \<and> 1 \<notin> set (map oe_ID evs2)"
proof -
  let ?c1 = "ClaimOutbox (calm 0) ''a'' 1600000000000 1700000000000 5 (demo_db None)"
  let ?c2 = "ClaimOutbox (calm 0) ''b'' 1650000000000 1800000000000 5 (snd ?c1)"
  have "(case fst ?c1 of Inr es \<Rightarrow> map oe_ID es = [1] | Inl _ \<Rightarrow> False)" by code_simp
  then obtain evs1 where c1: "fst ?c1 = Inr evs1" "map oe_ID evs1 = [1]" by (auto split: sum.splits)
  have "(case fst ?c2 of Inr es \<Rightarrow> True | Inl _ \<Rightarrow> False)" by code_simp
  then obtain evs2 where c2: "fst ?c2 = Inr evs2" by (auto split: sum.splits)
  have g: "outbox_good (demo_db None)"
    by (simp add: outbox_good_def demo_outbox_def OutboxStatusPending_def)
  have e1: "?c1 = (Inr evs1, snd ?c1)" and e2: "?c2 = (Inr evs2, snd ?c2)"
    using c1 c2 by (metis prod.collapse)+
  from leases_exclude [OF g e1 e2] have "set (map oe_ID evs1) \<inter> set (map oe_ID evs2) = {}"
    by (simp add: db_ms_def)
  then show ?thesis using e1 e2 c1(2) by (intro exI [of _ evs1] exI [of _ "snd ?c1"] exI [of _ evs2]
      exI [of _ "snd ?c2"]) (simp add: c1(2))
qed

text \<open>
  The retry delay is the exponential backoff it is meant to be: for a positive base,
  \<open>backoff\<close> is \<open>base\<close> doubled once per earlier failure, ten times at most, and capped at one hour; no
  multiplication overflows on the way. It never decreases with the number of failures.
\<close>

theorem backoff_is_capped_doubling:
  assumes "0 < base" and "base \<le> max_int64"
  shows "backoff base n = min Hour (base * 2 ^ nat (min 10 (max 0 n)))
    \<and> 0 < backoff base n \<and> backoff base n \<le> backoff base (n + 1)"
proof -
  have closed: "backoff base m = min Hour (base * 2 ^ nat (min 10 (max 0 m)))" for m
    using backoff_loop_closed [OF assms] by (simp add: backoff_def Let_def min_def max_def)
  have "(2 :: int) ^ nat (min 10 (max 0 n)) \<le> 2 ^ nat (min 10 (max 0 (n + 1)))"
    by (rule power_increasing) auto
  then have "base * 2 ^ nat (min 10 (max 0 n)) \<le> base * 2 ^ nat (min 10 (max 0 (n + 1)))"
    using assms(1) by (intro mult_left_mono) simp_all
  then have "backoff base n \<le> backoff base (n + 1)" unfolding closed by (intro min.mono) simp_all
  moreover have "0 < backoff base n" unfolding closed using assms(1) by (simp add: Hour_def)
  ultimately show ?thesis using closed by blast
qed

theorem backoff_is_capped_doubling_witness:
  "backoff (5 * Second) 3 = 40 * Second \<and> backoff (5 * Second) 20 = Hour"
  using backoff_is_capped_doubling [of "5 * Second" 3] backoff_is_capped_doubling [of "5 * Second" 20]
  by (simp add: Second_def Hour_def max_int64_def)

text \<open>
  No published message is unroutable: whatever row the relay turns into a message, its routing key
  is bound to a queue that \<open>declareTopology\<close> declares, and when it is a judging task that queue
  dead-letters into the configured queue.
\<close>

theorem published_messages_are_routable:
  assumes "buildPublishedMessage uuid_ok e = Inr m"
  shows "\<exists>q args. (q, pm_RoutingKey m, args) \<in> set (declareTopology exchange queue dlq)
    \<and> (pm_EventType m = EventTypeJudgeTask \<longrightarrow> args = JudgeTaskQueueArguments exchange dlq)"
proof -
  from assms obtain payload where p: "outbox_payload e = Inr (payload, pm_EventType m, pm_RoutingKey m)"
    by (rule buildPublishedMessage_Inr)
  have "pm_RoutingKey m \<in> set judgeEventRoutes" by (rule outbox_payload_route [OF p])
  moreover have "IsJudgeTaskRoutingKey (pm_RoutingKey m)" if "pm_EventType m = EventTypeJudgeTask"
  proof -
    have "EventTypeJudgeTask \<noteq> EventTypeSubmissionInvalidated" "EventTypeJudgeTask \<noteq> EventTypeSubmissionJudged"
      by (simp_all add: EventTypeJudgeTask_def event_types)
    with p that obtain l where "JudgeTaskRoutingKey l = Inr (pm_RoutingKey m)"
      by (auto simp: outbox_payload_def split: if_splits option.splits)
    then show ?thesis
      by (auto simp: JudgeTaskRoutingKey_def IsJudgeTaskRoutingKey_def Let_def split: if_splits)
  qed
  ultimately show ?thesis
    by (intro exI [of _ "pm_RoutingKey m"] exI [of _ "if IsJudgeTaskRoutingKey (pm_RoutingKey m)
      then JudgeTaskQueueArguments exchange dlq else []"]) (auto simp: declareTopology_def)
qed

theorem published_messages_are_routable_witness:
  "\<exists>m q args. buildPublishedMessage (\<lambda>_. True) (scanOutbox demo_outbox) = Inr m
    \<and> (q, pm_RoutingKey m, args) \<in> set (declareTopology ''oj'' ''results'' ''dlq'')"
proof -
  obtain m where m: "buildPublishedMessage (\<lambda>_. True) (scanOutbox demo_outbox) = Inr m"
    using demo_message_built by blast
  from published_messages_are_routable [OF m] m show ?thesis by blast
qed

end
