(* ===== verification/Worker_Base.thy ===== *)
theory Worker_Base
  imports Mq
begin

text \<open>
  Data and errors of the judge worker: \<open>src/services/judge-worker/internal/biz/types.go\<close> and
  \<open>errors.go\<close>, and the outside world its components act on.

  Everything the worker does to its surroundings is a call recorded in a \<open>history\<close>: reading the clock,
  an RPC to the go-judge sandbox, a publication, an acknowledgement. What the surroundings answer is a
  function of the calls made so far, a field of \<open>worker_env\<close>; nothing is assumed about these functions
  unless a theorem says so. Logging, metrics and spans are not modelled. A task context that expires
  shows as an error of the call that notices it.

  No error of the worker wraps a \<open>SystemError\<close> inside another error, so \<open>errors.As\<close> only looks at the
  outermost one.
\<close>

section \<open>Definitions\<close>

subsection \<open>Types\<close>

definition VerdictAC :: string where "VerdictAC = ''AC''"
definition VerdictWA :: string where "VerdictWA = ''WA''"
definition VerdictTLE :: string where "VerdictTLE = ''TLE''"
definition VerdictMLE :: string where "VerdictMLE = ''MLE''"
definition VerdictRE :: string where "VerdictRE = ''RE''"
definition VerdictCE :: string where "VerdictCE = ''CE''"

record LoadedCase =
  lc_CaseNo :: int32
  lc_Input :: bytes
  lc_Expected :: bytes

record LoadedTask =
  lt_Task :: JudgeTask
  lt_Source :: bytes
  lt_Manifest :: Manifest
  lt_Cases :: "LoadedCase list"

record Artifact =
  art_ID :: string

record ResourceLimits =
  rl_TimeLimit :: duration
  rl_MemoryBytes :: int

record ExecutionResult =
  er_Verdict :: string
  er_Time :: duration
  er_Memory :: int
  er_Output :: bytes
  er_Message :: string

record CompileResult =
  co_Artifact :: Artifact
  co_Verdict :: string
  co_Message :: string

record Outcome =
  ou_Completed :: "JudgeCompleted option"
  ou_Failed :: "JudgeFailed option"

subsection \<open>Errors\<close>

datatype werror = SystemError string bool "werror option" | PlainError string

fun error_text :: "werror \<Rightarrow> string" where
  "error_text (SystemError reason retryable None) = reason"
| "error_text (SystemError reason retryable (Some err)) = reason @ '': '' @ error_text err"
| "error_text (PlainError message) = message"

definition NewSystemError :: "string \<Rightarrow> bool \<Rightarrow> werror option \<Rightarrow> werror" where
  "NewSystemError reason retryable err =
     (let r = trim_space reason
      in SystemError (if r = [] then ''WORKER_INTERNAL_ERROR'' else r) retryable err)"

fun ClassifySystemError :: "werror \<Rightarrow> string \<times> bool" where
  "ClassifySystemError (SystemError reason retryable err) = (reason, retryable)"
| "ClassifySystemError (PlainError message) = (''WORKER_INTERNAL_ERROR'', True)"

definition failureCodeForReason :: "string \<Rightarrow> string" where
  "failureCodeForReason reason =
     (if contains_sub reason ''SOURCE'' \<or> contains_sub reason ''INPUT_STORE'' then
        (if contains_sub reason ''UNAVAILABLE'' \<or> contains_sub reason ''STORE''
         then FailureSourceUnavailable else FailureSourceCorrupted)
      else if contains_sub reason ''REVISION'' \<or> contains_sub reason ''MANIFEST''
           \<or> contains_sub reason ''SNAPSHOT'' \<or> contains_sub reason ''TESTCASE''
           \<or> contains_sub reason ''INCOMPLETE'' then FailureRevisionCorrupted
      else if contains_sub reason ''DEADLINE'' \<or> contains_sub reason ''EXPIRED'' then FailureTaskExpired
      else if contains_sub reason ''SANDBOX'' \<or> contains_sub reason ''COMPILE_ARTIFACT'' then
        (if contains_sub reason ''UNAVAILABLE'' then FailureSandboxUnavailable else FailureSandboxInternal)
      else FailureWorkerInternal)"

fun diagnostic_text :: "string \<Rightarrow> werror \<Rightarrow> string" where
  \<comment> \<open>the message of \<open>ClassifyFailure\<close>: the full text when the system error carries a cause\<close>
  "diagnostic_text reason (SystemError r b (Some err)) = error_text (SystemError r b (Some err))"
| "diagnostic_text reason _ = reason"

definition ClassifyFailure :: "werror \<Rightarrow> string \<times> string \<times> bool" where
  "ClassifyFailure err =
     (let (reason, retryable) = ClassifySystemError err
      in (failureCodeForReason reason, diagnostic_text reason err, retryable))"

subsection \<open>The world outside the worker\<close>

datatype sandbox_file = MemoryFile bytes | CachedFile string | CollectorFile string int

record sandbox_cmd =
  cmd_RequestID :: string
  cmd_Args :: "string list"
  cmd_Env :: "string list"
  cmd_Files :: "sandbox_file list"
  cmd_CPULimit :: int
  cmd_ClockLimit :: int
  cmd_MemoryLimit :: int
  cmd_ProcLimit :: int
  cmd_CopyIn :: "(string \<times> sandbox_file) list"
  cmd_CopyOutCached :: "string list"
  cmd_CopyOutMax :: int

datatype pb_status = PbInvalid | PbAccepted | PbWrongAnswer | PbPartiallyCorrect
  | PbMemoryLimitExceeded | PbTimeLimitExceeded | PbOutputLimitExceeded | PbFileError
  | PbNonZeroExitStatus | PbSignalled | PbDangerousSyscall | PbJudgementFailed
  | PbInvalidInteraction | PbInternalError | PbOther int

record pb_result =
  pb_Status :: pb_status
  pb_ExitStatus :: int32
  pb_Error :: string
  pb_Time :: int
  pb_RunTime :: int
  pb_Memory :: int
  pb_Files :: "(string \<times> bytes) list"
  pb_FileIDs :: "(string \<times> string) list"

record pb_response =
  pb_ResponseError :: string
  pb_Results :: "pb_result list"

datatype worker_call = CallNow | CallExec sandbox_cmd | CallFileDelete string
  | CallPublish string string json | CallAck | CallNack bool | CallReject bool | CallUUID | CallTrace

type_synonym history = "worker_call list"

record worker_env =
  we_now :: "history \<Rightarrow> time"
  we_exec :: "history \<Rightarrow> sandbox_cmd \<Rightarrow> string + pb_response"
  we_delete :: "history \<Rightarrow> string \<Rightarrow> string option"
  we_publish :: "history \<Rightarrow> string \<Rightarrow> json \<Rightarrow> string option"
  we_ack :: "history \<Rightarrow> string option"
  we_uuid :: "history \<Rightarrow> string"
  we_trace :: "history \<Rightarrow> string \<times> string"

definition read_clock :: "worker_env \<Rightarrow> history \<Rightarrow> time \<times> history" where
  "read_clock env h = (we_now env h, h @ [CallNow])"

section \<open>Lemmas\<close>

lemmas verdict_defs = VerdictAC_def VerdictWA_def VerdictTLE_def VerdictMLE_def VerdictRE_def VerdictCE_def

lemma worker_verdicts_valid [simp]:
  "validVerdict VerdictAC" "validVerdict VerdictWA" "validVerdict VerdictTLE"
  "validVerdict VerdictMLE" "validVerdict VerdictRE" "validVerdict VerdictCE"
  unfolding verdict_defs by code_simp+

lemma worker_verdicts_distinct [simp]:
  "VerdictAC \<noteq> VerdictWA" "VerdictWA \<noteq> VerdictAC" "VerdictAC \<noteq> VerdictTLE" "VerdictAC \<noteq> VerdictMLE"
  "VerdictAC \<noteq> VerdictRE" "VerdictAC \<noteq> VerdictCE" "VerdictCE \<noteq> VerdictAC"
  "VerdictTLE \<noteq> VerdictAC" "VerdictMLE \<noteq> VerdictAC" "VerdictRE \<noteq> VerdictAC"
  by (simp_all add: verdict_defs)

lemma failureCodeForReason_cases:
  "failureCodeForReason r \<in> {FailureSourceUnavailable, FailureSourceCorrupted, FailureRevisionCorrupted,
     FailureTaskExpired, FailureSandboxUnavailable, FailureSandboxInternal, FailureWorkerInternal}"
  by (simp add: failureCodeForReason_def)

lemma failure_codes_ok:
  "c \<in> {FailureSourceUnavailable, FailureSourceCorrupted, FailureRevisionCorrupted, FailureTaskExpired,
        FailureSandboxUnavailable, FailureSandboxInternal, FailureWorkerInternal}
   \<Longrightarrow> validFailureCode c \<and> length c \<le> 64 \<and> trim_space c \<noteq> []"
proof -
  have "validFailureCode FailureSourceUnavailable" "validFailureCode FailureSourceCorrupted"
    "validFailureCode FailureRevisionCorrupted" "validFailureCode FailureTaskExpired"
    "validFailureCode FailureSandboxUnavailable" "validFailureCode FailureSandboxInternal"
    "validFailureCode FailureWorkerInternal"
    unfolding failure_codes by code_simp+
  moreover have "validFailureCode c \<Longrightarrow> trim_space c \<noteq> []" for c
    by (simp add: validFailureCode_def Let_def split: if_splits)
  moreover assume "c \<in> {FailureSourceUnavailable, FailureSourceCorrupted, FailureRevisionCorrupted,
    FailureTaskExpired, FailureSandboxUnavailable, FailureSandboxInternal, FailureWorkerInternal}"
  ultimately show ?thesis
    by (elim insertE emptyE) (simp_all add: failure_codes)
qed

end
