(* ===== verification/Worker_Sandbox.thy ===== *)
theory Worker_Sandbox
  imports Worker_Base
begin

text \<open>
  The sandbox client and the language runners of the judge worker:
  \<open>src/services/judge-worker/internal/sandbox\<close> (\<open>types.go\<close>, \<open>gojudge.go\<close>) and
  \<open>internal/language\<close> (\<open>go_runner.go\<close>, \<open>command_runner.go\<close>, \<open>providers.go\<close>).

  go-judge itself is the parameter \<open>we_exec\<close>, \<open>we_delete\<close> of the environment. A protobuf or Go map is an
  association list with distinct keys, an absent key reads as the zero value. Receivers and their
  clients are non-nil, as the constructors build them; the token and the timeout of the RPC context have
  no counterpart. \<open>uint64\<close> values are integers from 0 to \<open>2 ^ 64 - 1\<close>; conversions between signed and
  unsigned wrap as in Go.

  The interface \<open>LanguageRunner\<close> of \<open>biz/types.go\<close> is a record of operations; the locale
  \<open>language_runner\<close> states what the engine relies on, and both runners are interpreted in it.
\<close>

section \<open>Definitions\<close>

subsection \<open>Sandbox types\<close>

datatype Status = StatusInvalid | StatusAccepted | StatusMemoryLimitExceeded
  | StatusTimeLimitExceeded | StatusOutputLimitExceeded | StatusFileError | StatusNonZeroExit
  | StatusSignalled | StatusDangerousSyscall | StatusInternalError

record File =
  fi_Content :: bytes
  fi_CachedFileID :: string

record Request =
  rq_RequestID :: string
  rq_Args :: "string list"
  rq_Env :: "string list"
  rq_Stdin :: bytes
  rq_CopyIn :: "(string \<times> File) list"
  rq_CacheOut :: "string list"
  rq_CPULimit :: duration
  rq_ClockLimit :: duration
  rq_MemoryLimit :: int
  rq_ProcessLimit :: int
  rq_OutputLimit :: int

record Result =
  rs_Status :: Status
  rs_ExitStatus :: int32
  rs_Time :: duration
  rs_RunTime :: duration
  rs_Memory :: int
  rs_Files :: "(string \<times> bytes) list"
  rs_FileIDs :: "(string \<times> string) list"
  rs_Error :: string

definition map_get :: "(string \<times> string) list \<Rightarrow> string \<Rightarrow> string" where
  "map_get m k = (case map_of m k of None \<Rightarrow> [] | Some v \<Rightarrow> v)"

definition to_uint64 :: "int \<Rightarrow> int" where
  "to_uint64 x = x mod 18446744073709551616"

subsection \<open>go-judge client\<close>

fun mapStatus :: "pb_status \<Rightarrow> Status" where
  "mapStatus PbAccepted = StatusAccepted"
| "mapStatus PbMemoryLimitExceeded = StatusMemoryLimitExceeded"
| "mapStatus PbTimeLimitExceeded = StatusTimeLimitExceeded"
| "mapStatus PbOutputLimitExceeded = StatusOutputLimitExceeded"
| "mapStatus PbFileError = StatusFileError"
| "mapStatus PbNonZeroExitStatus = StatusNonZeroExit"
| "mapStatus PbSignalled = StatusSignalled"
| "mapStatus PbDangerousSyscall = StatusDangerousSyscall"
| "mapStatus PbInternalError = StatusInternalError"
| "mapStatus _ = StatusInvalid"

definition stableMessage :: "string \<Rightarrow> string" where
  "stableMessage value = (let v = trim_space value in if length v > 256 then take 256 v else v)"

definition copy_in_file :: "File \<Rightarrow> sandbox_file" where
  "copy_in_file file =
     (if fi_CachedFileID file \<noteq> [] then CachedFile (fi_CachedFileID file) else MemoryFile (fi_Content file))"

definition buildRequest :: "Request \<Rightarrow> werror + sandbox_cmd" where
  "buildRequest request =
     guardE (list_ex (\<lambda>(name, file). trim_space name = []
                 \<or> (fi_Content file = []) = (fi_CachedFileID file = [])) (rq_CopyIn request))
       (PlainError ''invalid go-judge copy-in file'')
     (guardE (list_ex (\<lambda>name. trim_space name = []) (rq_CacheOut request))
       (PlainError ''invalid go-judge cached output'')
     (Inr \<lparr>cmd_RequestID = rq_RequestID request, cmd_Args = rq_Args request, cmd_Env = rq_Env request,
           cmd_Files = [MemoryFile (rq_Stdin request),
                        CollectorFile ''stdout'' (wrap64 (rq_OutputLimit request)),
                        CollectorFile ''stderr'' (wrap64 (rq_OutputLimit request))],
           cmd_CPULimit = to_uint64 (rq_CPULimit request),
           cmd_ClockLimit = to_uint64 (rq_ClockLimit request),
           cmd_MemoryLimit = rq_MemoryLimit request, cmd_ProcLimit = rq_ProcessLimit request,
           cmd_CopyIn = map (\<lambda>(name, file). (name, copy_in_file file)) (rq_CopyIn request),
           cmd_CopyOutCached = rq_CacheOut request, cmd_CopyOutMax = rq_OutputLimit request\<rparr>))"

definition result_of_pb :: "pb_result \<Rightarrow> Result" where
  "result_of_pb value =
     \<lparr>rs_Status = mapStatus (pb_Status value), rs_ExitStatus = pb_ExitStatus value,
      rs_Time = wrap64 (pb_Time value), rs_RunTime = wrap64 (pb_RunTime value),
      rs_Memory = pb_Memory value, rs_Files = pb_Files value, rs_FileIDs = pb_FileIDs value,
      rs_Error = stableMessage (pb_Error value)\<rparr>"

definition GoJudge_Execute ::
  "worker_env \<Rightarrow> Request \<Rightarrow> history \<Rightarrow> (werror + Result) \<times> history" where
  "GoJudge_Execute env request h =
     (if rq_Args request = [] \<or> rq_OutputLimit request = 0 \<or> rq_ProcessLimit request = 0
      then (Inl (PlainError ''invalid go-judge request''), h)
      else case buildRequest request of
             Inl e \<Rightarrow> (Inl e, h)
           | Inr payload \<Rightarrow>
               (let h1 = h @ [CallExec payload]
                in case we_exec env h payload of
                     Inl err \<Rightarrow> (Inl (PlainError (''execute go-judge request: '' @ err)), h1)
                   | Inr response \<Rightarrow>
                       if pb_ResponseError response \<noteq> [] \<or> length (pb_Results response) \<noteq> 1
                       then (Inl (PlainError ''invalid go-judge response''), h1)
                       else (Inr (result_of_pb (hd (pb_Results response))), h1)))"

definition GoJudge_DeleteFile :: "worker_env \<Rightarrow> string \<Rightarrow> history \<Rightarrow> werror option \<times> history" where
  "GoJudge_DeleteFile env fileID h =
     (if trim_space fileID = [] then (Some (PlainError ''invalid go-judge file delete request''), h)
      else (map_option (\<lambda>e. PlainError (''delete go-judge cached file: '' @ e)) (we_delete env h fileID),
            h @ [CallFileDelete fileID]))"

subsection \<open>Shared by the runners\<close>

record 'w LanguageRunner =
  lr_Compile :: "bytes \<Rightarrow> 'w \<Rightarrow> (werror + CompileResult) \<times> 'w"
  lr_Run :: "Artifact \<Rightarrow> bytes \<Rightarrow> ResourceLimits \<Rightarrow> 'w \<Rightarrow> (werror + ExecutionResult) \<times> 'w"
  lr_DeleteArtifact :: "Artifact \<Rightarrow> 'w \<Rightarrow> werror option \<times> 'w"

definition clockLimit :: "duration \<Rightarrow> duration" where
  "clockLimit cpu =
     (let doubled = wrap64 (cpu * 2); buffered = wrap64 (cpu + 500 * Millisecond)
      in if doubled > buffered then doubled else buffered)"

definition boundedDiagnostic :: "Result \<Rightarrow> string" where
  "boundedDiagnostic result =
     (let v0 = trim_space (map_get (rs_Files result) ''stderr'');
          v1 = (if v0 = [] then trim_space (rs_Error result) else v0)
      in if length v1 > 4096 then take 4096 v1 else v1)"

subsection \<open>Go runner\<close>

record GoConfig =
  gc_CompilerPath :: string
  gc_CompileTimeLimit :: duration
  gc_CompileMemoryBytes :: int
  gc_CompileOutputBytes :: int
  gc_ProcessLimit :: int
  gc_OutputLimitBytes :: int

definition GoConfig_normalized :: "GoConfig \<Rightarrow> GoConfig" where
  "GoConfig_normalized c =
     \<lparr>gc_CompilerPath = (if gc_CompilerPath c = [] then ''/usr/local/go/bin/go'' else gc_CompilerPath c),
      gc_CompileTimeLimit = (if gc_CompileTimeLimit c \<le> 0 then 30 * Second else gc_CompileTimeLimit c),
      gc_CompileMemoryBytes = (if gc_CompileMemoryBytes c = 0 then 536870912 else gc_CompileMemoryBytes c),
      gc_CompileOutputBytes =
        (if gc_CompileOutputBytes c = 0
         then (if gc_OutputLimitBytes c = 0 then 67108864 else gc_OutputLimitBytes c)
         else gc_CompileOutputBytes c),
      gc_ProcessLimit = (if gc_ProcessLimit c = 0 then 64 else gc_ProcessLimit c),
      gc_OutputLimitBytes = (if gc_OutputLimitBytes c = 0 then 1048576 else gc_OutputLimitBytes c)\<rparr>"

definition go_compile_request :: "GoConfig \<Rightarrow> bytes \<Rightarrow> Request" where
  "go_compile_request config source =
     \<lparr>rq_RequestID = ''compile'',
      rq_Args = [gc_CompilerPath config, ''build'', ''-trimpath'', ''-o'', ''main'', ''main.go''],
      rq_Env = [''PATH=/usr/local/go/bin:/usr/bin:/bin'', ''HOME=/tmp'', ''GOCACHE=/tmp/go-cache'',
                ''GOMODCACHE=/tmp/go-mod-cache'', ''CGO_ENABLED=0'', ''GOMAXPROCS=2'', ''GOFLAGS=-p=2''],
      rq_Stdin = [], rq_CopyIn = [(''main.go'', \<lparr>fi_Content = source, fi_CachedFileID = []\<rparr>)],
      rq_CacheOut = [''main''], rq_CPULimit = gc_CompileTimeLimit config,
      rq_ClockLimit = clockLimit (gc_CompileTimeLimit config),
      rq_MemoryLimit = gc_CompileMemoryBytes config, rq_ProcessLimit = gc_ProcessLimit config,
      rq_OutputLimit = gc_CompileOutputBytes config\<rparr>"

fun compile_failure_reason :: "Status \<Rightarrow> string" where
  "compile_failure_reason StatusTimeLimitExceeded = ''SANDBOX_COMPILE_TIMEOUT''"
| "compile_failure_reason StatusMemoryLimitExceeded = ''SANDBOX_COMPILE_MEMORY_LIMIT''"
| "compile_failure_reason StatusOutputLimitExceeded = ''SANDBOX_COMPILE_OUTPUT_LIMIT''"
| "compile_failure_reason StatusFileError = ''SANDBOX_COMPILE_FILE_ERROR''"
| "compile_failure_reason StatusSignalled = ''SANDBOX_COMPILE_TERMINATED''"
| "compile_failure_reason StatusDangerousSyscall = ''SANDBOX_COMPILE_TERMINATED''"
| "compile_failure_reason StatusInternalError = ''SANDBOX_INTERNAL_ERROR''"
| "compile_failure_reason StatusInvalid = ''SANDBOX_INTERNAL_ERROR''"
| "compile_failure_reason _ = ''SANDBOX_COMPILE_FAILURE''"

definition compileSystemError :: "Result \<Rightarrow> werror" where
  "compileSystemError result =
     NewSystemError (compile_failure_reason (rs_Status result)) True
       (Some (PlainError (boundedDiagnostic result)))"

definition no_artifact :: Artifact where
  "no_artifact = \<lparr>art_ID = []\<rparr>"

definition GoRunner_Compile ::
  "worker_env \<Rightarrow> GoConfig \<Rightarrow> bytes \<Rightarrow> history \<Rightarrow> (werror + CompileResult) \<times> history" where
  "GoRunner_Compile env config0 source h =
     (if source = [] then (Inl (NewSystemError ''INVALID_SOURCE'' False None), h)
      else case GoJudge_Execute env (go_compile_request (GoConfig_normalized config0) source) h of
             (Inl err, h1) \<Rightarrow> (Inl (NewSystemError ''SANDBOX_UNAVAILABLE'' True (Some err)), h1)
           | (Inr result, h1) \<Rightarrow>
               (if rs_Status result \<in> {StatusInternalError, StatusInvalid, StatusFileError}
                then Inl (compileSystemError result)
                else if rs_Status result = StatusAccepted then
                  (let fileID = map_get (rs_FileIDs result) ''main''
                   in if fileID = [] then Inl (NewSystemError ''COMPILE_ARTIFACT_MISSING'' True None)
                      else Inr \<lparr>co_Artifact = \<lparr>art_ID = fileID\<rparr>, co_Verdict = VerdictAC, co_Message = []\<rparr>)
                else if rs_Status result \<noteq> StatusNonZeroExit then Inl (compileSystemError result)
                else Inr \<lparr>co_Artifact = no_artifact, co_Verdict = VerdictCE,
                          co_Message = boundedDiagnostic result\<rparr>, h1))"

fun mapRunStatus :: "Status \<Rightarrow> string \<times> string \<times> bool" where
  "mapRunStatus StatusAccepted = (VerdictAC, [], False)"
| "mapRunStatus StatusTimeLimitExceeded = (VerdictTLE, ''TIME_LIMIT_EXCEEDED'', False)"
| "mapRunStatus StatusMemoryLimitExceeded = (VerdictMLE, ''MEMORY_LIMIT_EXCEEDED'', False)"
| "mapRunStatus StatusOutputLimitExceeded = (VerdictRE, ''OUTPUT_LIMIT_EXCEEDED'', False)"
| "mapRunStatus StatusNonZeroExit = (VerdictRE, ''NON_ZERO_EXIT'', False)"
| "mapRunStatus StatusSignalled = (VerdictRE, ''PROCESS_SIGNALLED'', False)"
| "mapRunStatus StatusDangerousSyscall = (VerdictRE, ''DANGEROUS_SYSCALL'', False)"
| "mapRunStatus StatusFileError = ([], ''SANDBOX_INTERNAL_ERROR'', True)"
| "mapRunStatus StatusInternalError = ([], ''SANDBOX_INTERNAL_ERROR'', True)"
| "mapRunStatus StatusInvalid = ([], ''SANDBOX_INTERNAL_ERROR'', True)"

definition go_run_request :: "GoConfig \<Rightarrow> Artifact \<Rightarrow> bytes \<Rightarrow> ResourceLimits \<Rightarrow> Request" where
  "go_run_request config artifact input limits =
     \<lparr>rq_RequestID = ''run'', rq_Args = [''./main''], rq_Env = [], rq_Stdin = input,
      rq_CopyIn = [(''main'', \<lparr>fi_Content = [], fi_CachedFileID = art_ID artifact\<rparr>)],
      rq_CacheOut = [], rq_CPULimit = rl_TimeLimit limits, rq_ClockLimit = clockLimit (rl_TimeLimit limits),
      rq_MemoryLimit = rl_MemoryBytes limits, rq_ProcessLimit = gc_ProcessLimit config,
      rq_OutputLimit = gc_OutputLimitBytes config\<rparr>"

definition execution_result :: "(Status \<Rightarrow> string \<times> string \<times> bool) \<Rightarrow> Result \<Rightarrow> werror + ExecutionResult" where
  \<comment> \<open>what both runners make of the result of a run\<close>
  "execution_result map_status result =
     (let (verdict, message, systemFailure) = map_status (rs_Status result)
      in if systemFailure then Inl (NewSystemError message True None)
         else Inr \<lparr>er_Verdict = verdict, er_Time = rs_Time result, er_Memory = rs_Memory result,
                   er_Output = map_get (rs_Files result) ''stdout'', er_Message = message\<rparr>)"

definition GoRunner_Run ::
  "worker_env \<Rightarrow> GoConfig \<Rightarrow> Artifact \<Rightarrow> bytes \<Rightarrow> ResourceLimits \<Rightarrow> history
     \<Rightarrow> (werror + ExecutionResult) \<times> history" where
  "GoRunner_Run env config0 artifact input limits h =
     (if art_ID artifact = [] \<or> rl_TimeLimit limits \<le> 0 \<or> rl_MemoryBytes limits = 0
      then (Inl (NewSystemError ''INVALID_RUN_REQUEST'' False None), h)
      else case GoJudge_Execute env (go_run_request (GoConfig_normalized config0) artifact input limits) h of
             (Inl err, h1) \<Rightarrow> (Inl (NewSystemError ''SANDBOX_UNAVAILABLE'' True (Some err)), h1)
           | (Inr result, h1) \<Rightarrow> (execution_result mapRunStatus result, h1))"

definition runner_DeleteArtifact :: "worker_env \<Rightarrow> Artifact \<Rightarrow> history \<Rightarrow> werror option \<times> history" where
  "runner_DeleteArtifact env artifact h =
     (if art_ID artifact = [] then (Some (PlainError ''invalid compile artifact''), h)
      else GoJudge_DeleteFile env (art_ID artifact) h)"

definition GoRunner :: "worker_env \<Rightarrow> GoConfig \<Rightarrow> history LanguageRunner" where
  "GoRunner env config =
     \<lparr>lr_Compile = GoRunner_Compile env (GoConfig_normalized config),
      lr_Run = GoRunner_Run env (GoConfig_normalized config),
      lr_DeleteArtifact = runner_DeleteArtifact env\<rparr>"

subsection \<open>Command runner\<close>

record CommandRunner =
  cm_language :: string
  cm_compiler :: string
  cm_sourceName :: string
  cm_artifactName :: string
  cm_compileArgs :: "string \<Rightarrow> string list"
  cm_compileTime :: duration
  cm_compileMemory :: int
  cm_processLimit :: int
  cm_compileOutput :: int
  cm_outputLimit :: int

definition NewCommandRunner ::
  "string \<Rightarrow> string \<Rightarrow> string \<Rightarrow> string \<Rightarrow> (string \<Rightarrow> string list) \<Rightarrow> CommandRunner" where
  "NewCommandRunner language compiler sourceName artifactName compileArgs =
     \<lparr>cm_language = language, cm_compiler = compiler, cm_sourceName = sourceName,
      cm_artifactName = artifactName, cm_compileArgs = compileArgs, cm_compileTime = 30 * Second,
      cm_compileMemory = 536870912, cm_processLimit = 64, cm_compileOutput = 67108864,
      cm_outputLimit = 1048576\<rparr>"

definition command_compile_request :: "CommandRunner \<Rightarrow> bytes \<Rightarrow> Request" where
  "command_compile_request r source =
     \<lparr>rq_RequestID = ''compile-'' @ cm_language r,
      rq_Args = cm_compiler r # cm_compileArgs r (cm_sourceName r),
      rq_Env = [''PATH=/usr/local/go/bin:/usr/bin:/bin'', ''HOME=/tmp'', ''TMPDIR=/tmp'', ''GOMAXPROCS=2'',
                ''GOFLAGS=-p=2'', ''LANG=C.UTF-8''],
      rq_Stdin = [], rq_CopyIn = [(cm_sourceName r, \<lparr>fi_Content = source, fi_CachedFileID = []\<rparr>)],
      rq_CacheOut = [cm_artifactName r], rq_CPULimit = cm_compileTime r,
      rq_ClockLimit = clockLimit (cm_compileTime r), rq_MemoryLimit = cm_compileMemory r,
      rq_ProcessLimit = cm_processLimit r, rq_OutputLimit = cm_compileOutput r\<rparr>"

fun command_failure_reason :: "Status \<Rightarrow> string" where
  "command_failure_reason StatusTimeLimitExceeded = ''SANDBOX_COMPILE_TIMEOUT''"
| "command_failure_reason StatusMemoryLimitExceeded = ''SANDBOX_COMPILE_MEMORY_LIMIT''"
| "command_failure_reason StatusOutputLimitExceeded = ''SANDBOX_COMPILE_OUTPUT_LIMIT''"
| "command_failure_reason StatusInternalError = ''SANDBOX_INTERNAL_ERROR''"
| "command_failure_reason StatusInvalid = ''SANDBOX_INTERNAL_ERROR''"
| "command_failure_reason _ = ''SANDBOX_COMPILE_FAILURE''"

definition commandDiagnostic :: "Result \<Rightarrow> string" where
  "commandDiagnostic result =
     (let v0 = trim_space (map_get (rs_Files result) ''stderr'');
          v1 = (if v0 = [] then trim_space (rs_Error result) else v0)
      in if length v1 > 4096 then take 4096 v1 else v1)"

definition commandCompileSystemError :: "Result \<Rightarrow> werror" where
  "commandCompileSystemError result =
     NewSystemError (command_failure_reason (rs_Status result)) True
       (Some (PlainError (commandDiagnostic result)))"

definition CommandRunner_Compile ::
  "worker_env \<Rightarrow> CommandRunner \<Rightarrow> bytes \<Rightarrow> history \<Rightarrow> (werror + CompileResult) \<times> history" where
  "CommandRunner_Compile env r source h =
     (if source = [] \<or> cm_compiler r = [] \<or> cm_sourceName r = []
      then (Inl (NewSystemError ''INVALID_SOURCE'' False None), h)
      else case GoJudge_Execute env (command_compile_request r source) h of
             (Inl err, h1) \<Rightarrow> (Inl (NewSystemError ''SANDBOX_UNAVAILABLE'' True (Some err)), h1)
           | (Inr result, h1) \<Rightarrow>
               (if rs_Status result = StatusAccepted then
                  (let fileID = map_get (rs_FileIDs result) (cm_artifactName r)
                   in if fileID = [] then Inl (NewSystemError ''COMPILE_ARTIFACT_MISSING'' True None)
                      else Inr \<lparr>co_Artifact = \<lparr>art_ID = fileID\<rparr>, co_Verdict = VerdictAC, co_Message = []\<rparr>)
                else if rs_Status result = StatusNonZeroExit then
                  Inr \<lparr>co_Artifact = no_artifact, co_Verdict = VerdictCE, co_Message = commandDiagnostic result\<rparr>
                else Inl (commandCompileSystemError result), h1))"

definition runArgs :: "CommandRunner \<Rightarrow> string list" where
  "runArgs r =
     (if cm_language r = ''c'' \<or> cm_language r = ''cpp'' then [''./main'']
      else if cm_language r = ''java'' then [''java'', ''Main'']
      else [''python3'', cm_artifactName r])"

fun commandMapRunStatus :: "Status \<Rightarrow> string \<times> string \<times> bool" where
  "commandMapRunStatus StatusAccepted = (VerdictAC, [], False)"
| "commandMapRunStatus StatusTimeLimitExceeded = (VerdictTLE, ''TIME_LIMIT_EXCEEDED'', False)"
| "commandMapRunStatus StatusMemoryLimitExceeded = (VerdictMLE, ''MEMORY_LIMIT_EXCEEDED'', False)"
| "commandMapRunStatus StatusOutputLimitExceeded = (VerdictRE, ''OUTPUT_LIMIT_EXCEEDED'', False)"
| "commandMapRunStatus StatusNonZeroExit = (VerdictRE, ''NON_ZERO_EXIT'', False)"
| "commandMapRunStatus StatusSignalled = (VerdictRE, ''PROCESS_SIGNALLED'', False)"
| "commandMapRunStatus StatusDangerousSyscall = (VerdictRE, ''DANGEROUS_SYSCALL'', False)"
| "commandMapRunStatus _ = ([], ''SANDBOX_INTERNAL_ERROR'', True)"

definition command_run_request :: "CommandRunner \<Rightarrow> Artifact \<Rightarrow> bytes \<Rightarrow> ResourceLimits \<Rightarrow> Request" where
  "command_run_request r artifact input limits =
     \<lparr>rq_RequestID = ''run-'' @ cm_language r, rq_Args = runArgs r,
      rq_Env = [''PATH=/usr/local/go/bin:/usr/bin:/bin'', ''HOME=/tmp'', ''TMPDIR=/tmp'', ''LANG=C.UTF-8''],
      rq_Stdin = input,
      rq_CopyIn = [(cm_artifactName r, \<lparr>fi_Content = [], fi_CachedFileID = art_ID artifact\<rparr>)],
      rq_CacheOut = [], rq_CPULimit = rl_TimeLimit limits, rq_ClockLimit = clockLimit (rl_TimeLimit limits),
      rq_MemoryLimit = rl_MemoryBytes limits, rq_ProcessLimit = cm_processLimit r,
      rq_OutputLimit = cm_outputLimit r\<rparr>"

definition CommandRunner_Run ::
  "worker_env \<Rightarrow> CommandRunner \<Rightarrow> Artifact \<Rightarrow> bytes \<Rightarrow> ResourceLimits \<Rightarrow> history
     \<Rightarrow> (werror + ExecutionResult) \<times> history" where
  "CommandRunner_Run env r artifact input limits h =
     (if art_ID artifact = [] \<or> rl_TimeLimit limits \<le> 0 \<or> rl_MemoryBytes limits = 0
      then (Inl (NewSystemError ''INVALID_RUN_REQUEST'' False None), h)
      else case GoJudge_Execute env (command_run_request r artifact input limits) h of
             (Inl err, h1) \<Rightarrow> (Inl (NewSystemError ''SANDBOX_UNAVAILABLE'' True (Some err)), h1)
           | (Inr result, h1) \<Rightarrow> (execution_result commandMapRunStatus result, h1))"

definition command_runner :: "worker_env \<Rightarrow> CommandRunner \<Rightarrow> history LanguageRunner" where
  "command_runner env r =
     \<lparr>lr_Compile = CommandRunner_Compile env r, lr_Run = CommandRunner_Run env r,
      lr_DeleteArtifact = runner_DeleteArtifact env\<rparr>"

definition NewLanguageRunnersFromConfig ::
  "worker_env \<Rightarrow> GoConfig \<Rightarrow> string \<Rightarrow> history LanguageRunner option" where
  "NewLanguageRunnersFromConfig env config language =
     (if language = ''go'' then Some (GoRunner env (config\<lparr>gc_CompileOutputBytes := 67108864\<rparr>))
      else if language = ''c'' then
        Some (command_runner env (NewCommandRunner ''c'' ''/usr/bin/gcc'' ''main.c'' ''main''
          (\<lambda>source. [''-std=c17'', ''-O2'', ''-pipe'', ''-o'', ''main'', source])))
      else if language = ''cpp'' then
        Some (command_runner env (NewCommandRunner ''cpp'' ''/usr/bin/g++'' ''main.cpp'' ''main''
          (\<lambda>source. [''-std=c++17'', ''-O2'', ''-pipe'', ''-o'', ''main'', source])))
      else if language = ''java'' then
        Some (command_runner env (NewCommandRunner ''java'' ''/usr/bin/javac'' ''Main.java'' ''Main.class''
          (\<lambda>source. [''-encoding'', ''UTF-8'', source])))
      else if language = ''python'' then
        Some (command_runner env (NewCommandRunner ''python'' ''/usr/bin/python3'' ''main.py'' ''main.py''
          (\<lambda>source. [''-m'', ''py_compile'', source])))
      else None)"

text \<open>
  Two observations of a history: the files the worker asked go-judge to delete, and the files go-judge
  reported as cached in accepted answers, both in order. A blank file id names no file.
\<close>

definition file_ids :: "string list \<Rightarrow> string list" where
  "file_ids ids = filter (\<lambda>f. trim_space f \<noteq> []) ids"

fun deletions :: "history \<Rightarrow> string list" where
  "deletions [] = []"
| "deletions (CallFileDelete f # h) = f # deletions h"
| "deletions (_ # h) = deletions h"

definition reported_files :: "sandbox_cmd \<Rightarrow> string + pb_response \<Rightarrow> string list" where
  "reported_files cmd answer =
     (case answer of Inl e \<Rightarrow> []
      | Inr response \<Rightarrow>
          (if pb_ResponseError response = [] \<and> length (pb_Results response) = 1
              \<and> pb_Status (hd (pb_Results response)) = PbAccepted
           then file_ids (map (map_get (pb_FileIDs (hd (pb_Results response)))) (cmd_CopyOutCached cmd))
           else []))"

fun cached_from :: "worker_env \<Rightarrow> history \<Rightarrow> history \<Rightarrow> string list" where
  "cached_from env p [] = []"
| "cached_from env p (CallExec cmd # h) =
     reported_files cmd (we_exec env p cmd) @ cached_from env (p @ [CallExec cmd]) h"
| "cached_from env p (c # h) = cached_from env (p @ [c]) h"

definition cached_files :: "worker_env \<Rightarrow> history \<Rightarrow> string list" where
  "cached_files env h = cached_from env [] h"

definition short_reason :: "werror \<Rightarrow> bool" where
  \<comment> \<open>the reason fits the failure event\<close>
  "short_reason err \<longleftrightarrow> length (fst (ClassifySystemError err)) \<le> 128"

section \<open>The interface of a language runner\<close>

text \<open>
  The contract the engine relies on, over the two observations. A compilation without error is accepted
  with an artifact, the file it cached, or rejected (CE) without one; a compilation with an error caches
  nothing. A run caches nothing and, without error, ends in AC, TLE, MLE or RE. Only \<open>DeleteArtifact\<close>
  deletes, and only the artifact it is given.
\<close>

locale language_runner =
  fixes runner :: "'w LanguageRunner" and cached deleted :: "'w \<Rightarrow> string list"
  assumes compile_deletes: "lr_Compile runner source w = (r, w') \<Longrightarrow> deleted w' = deleted w"
    and compile_error: "lr_Compile runner source w = (Inl err, w') \<Longrightarrow>
      cached w' = cached w \<and> short_reason err"
    and compile_caches: "lr_Compile runner source w = (Inr c, w') \<Longrightarrow>
      cached w' = cached w @ file_ids [art_ID (co_Artifact c)]"
    and compile_result: "lr_Compile runner source w = (Inr c, w') \<Longrightarrow>
      co_Verdict c = VerdictAC \<and> art_ID (co_Artifact c) \<noteq> []
      \<or> co_Verdict c = VerdictCE \<and> art_ID (co_Artifact c) = []"
    and run_keeps: "lr_Run runner a input limits w = (x, w') \<Longrightarrow>
      deleted w' = deleted w \<and> cached w' = cached w"
    and run_error: "lr_Run runner a input limits w = (Inl err, w') \<Longrightarrow> short_reason err"
    and run_result: "lr_Run runner a input limits w = (Inr e, w') \<Longrightarrow>
      er_Verdict e \<in> {VerdictAC, VerdictTLE, VerdictMLE, VerdictRE}"
    and delete_deletes: "art_ID a \<noteq> [] \<Longrightarrow> lr_DeleteArtifact runner a w = (d, w') \<Longrightarrow>
      deleted w' = deleted w @ file_ids [art_ID a] \<and> cached w' = cached w"

section \<open>Lemmas\<close>

lemma deletions_append [simp]: "deletions (h @ h') = deletions h @ deletions h'"
  by (induction h rule: deletions.induct) auto

lemma cached_from_append: "cached_from env p (h @ h') = cached_from env p h @ cached_from env (p @ h) h'"
  by (induction env p h rule: cached_from.induct) auto

lemma cached_files_snoc [simp]:
  "cached_files env (h @ [CallExec cmd]) = cached_files env h @ reported_files cmd (we_exec env h cmd)"
  "cached_files env (h @ [CallNow]) = cached_files env h"
  "cached_files env (h @ [CallFileDelete f]) = cached_files env h"
  by (simp_all add: cached_files_def cached_from_append)

lemma file_ids_simps [simp]: "file_ids [] = []" "file_ids [[]] = []"
  by (simp_all add: file_ids_def trim_space_def trim_right_of_def)

lemma reported_nothing: "cmd_CopyOutCached cmd = [] \<Longrightarrow> reported_files cmd answer = []"
  by (simp add: reported_files_def split: sum.splits)

lemma mapStatus_accepted [simp]: "mapStatus s = StatusAccepted \<longleftrightarrow> s = PbAccepted"
  by (cases s) simp_all

lemma buildRequest_Inr: "buildRequest rq = Inr cmd \<Longrightarrow> cmd_CopyOutCached cmd = rq_CacheOut rq"
  by (auto simp: buildRequest_def)

lemma GoJudge_Execute_deletions: "GoJudge_Execute env rq h = (r, h') \<Longrightarrow> deletions h' = deletions h"
  by (auto simp: GoJudge_Execute_def Let_def split: if_splits sum.splits)

lemma GoJudge_Execute_Inl: "GoJudge_Execute env rq h = (Inl e, h') \<Longrightarrow> cached_files env h' = cached_files env h"
  by (auto simp: GoJudge_Execute_def reported_files_def Let_def split: if_splits sum.splits)

lemma GoJudge_Execute_Inr:
  assumes "GoJudge_Execute env rq h = (Inr result, h')"
  shows "cached_files env h' = cached_files env h @ (if rs_Status result = StatusAccepted
           then file_ids (map (map_get (rs_FileIDs result)) (rq_CacheOut rq)) else [])"
  using assms
  by (auto simp: GoJudge_Execute_def reported_files_def result_of_pb_def Let_def dest!: buildRequest_Inr
      split: if_splits sum.splits)

lemma GoJudge_Execute_uncached:
  "GoJudge_Execute env rq h = (x, h') \<Longrightarrow> rq_CacheOut rq = [] \<Longrightarrow> cached_files env h' = cached_files env h"
  by (cases x) (auto dest: GoJudge_Execute_Inl GoJudge_Execute_Inr)

lemma run_status_verdicts:
  "mapRunStatus s = (v, m, False) \<Longrightarrow> v \<in> {VerdictAC, VerdictTLE, VerdictMLE, VerdictRE}"
  "commandMapRunStatus s = (v, m, False) \<Longrightarrow> v \<in> {VerdictAC, VerdictTLE, VerdictMLE, VerdictRE}"
  by (cases s; simp)+

lemma length_trim_space: "length (trim_space m) \<le> length m"
  unfolding trim_space_def trim_right_of_def
  by (metis length_dropWhile_le length_rev le_trans)

lemma short_reason_new: "length reason \<le> 128 \<Longrightarrow> short_reason (NewSystemError reason b err)"
  using length_trim_space [of reason] by (simp add: short_reason_def NewSystemError_def Let_def)

lemma execution_result_Inr:
  "execution_result f result = Inr e \<Longrightarrow> \<exists>m. f (rs_Status result) = (er_Verdict e, m, False)
     \<and> er_Time e = rs_Time result \<and> er_Memory e = rs_Memory result
     \<and> er_Output e = map_get (rs_Files result) ''stdout''"
  by (auto simp: execution_result_def split: prod.splits if_splits)

lemma execution_result_Inl:
  assumes "execution_result f result = Inl err" and "length (fst (snd (f (rs_Status result)))) \<le> 128"
  shows "short_reason err"
  using assms by (auto simp: execution_result_def short_reason_new split: prod.splits if_splits)

lemma failure_reasons_short:
  "length (compile_failure_reason s) \<le> 128" "length (command_failure_reason s) \<le> 128"
  "length (fst (snd (mapRunStatus s))) \<le> 128" "length (fst (snd (commandMapRunStatus s))) \<le> 128"
  by (cases s; simp)+

lemma delete_history:
  "art_ID a \<noteq> [] \<Longrightarrow> runner_DeleteArtifact env a h = (d, h') \<Longrightarrow>
    deletions h' = deletions h @ file_ids [art_ID a] \<and> cached_files env h' = cached_files env h"
  by (auto simp: runner_DeleteArtifact_def GoJudge_DeleteFile_def file_ids_def split: if_splits)

interpretation go_runner: language_runner "GoRunner env config" "cached_files env" deletions for env config
proof unfold_locales
  fix source h x h'
  assume "lr_Compile (GoRunner env config) source h = (x, h')"
  then show "deletions h' = deletions h"
    by (auto simp: GoRunner_def GoRunner_Compile_def split: if_splits prod.splits sum.splits dest: GoJudge_Execute_deletions)
next
  fix source h err h'
  assume "lr_Compile (GoRunner env config) source h = (Inl err, h')"
  then show "cached_files env h' = cached_files env h \<and> short_reason err"
    by (auto simp: GoRunner_def GoRunner_Compile_def compileSystemError_def go_compile_request_def Let_def short_reason_new failure_reasons_short
        split: if_splits prod.splits sum.splits dest!: GoJudge_Execute_Inl GoJudge_Execute_Inr)
next
  fix source h c h'
  assume "lr_Compile (GoRunner env config) source h = (Inr c, h')"
  then show "cached_files env h' = cached_files env h @ file_ids [art_ID (co_Artifact c)]"
    by (auto simp: GoRunner_def GoRunner_Compile_def go_compile_request_def no_artifact_def Let_def
        split: if_splits prod.splits sum.splits dest!: GoJudge_Execute_Inr)
next
  fix source h c h'
  assume "lr_Compile (GoRunner env config) source h = (Inr c, h')"
  then show "co_Verdict c = VerdictAC \<and> art_ID (co_Artifact c) \<noteq> []
      \<or> co_Verdict c = VerdictCE \<and> art_ID (co_Artifact c) = []"
    by (auto simp: GoRunner_def GoRunner_Compile_def no_artifact_def Let_def split: if_splits prod.splits sum.splits)
next
  fix a input limits h x h'
  assume "lr_Run (GoRunner env config) a input limits h = (x, h')"
  then show "deletions h' = deletions h \<and> cached_files env h' = cached_files env h"
    by (auto simp: GoRunner_def GoRunner_Run_def go_run_request_def split: if_splits prod.splits sum.splits
        dest: GoJudge_Execute_deletions GoJudge_Execute_uncached)
next
  fix a input limits h err h'
  assume "lr_Run (GoRunner env config) a input limits h = (Inl err, h')"
  then show "short_reason err"
    by (auto simp: GoRunner_def GoRunner_Run_def go_run_request_def short_reason_new failure_reasons_short intro: execution_result_Inl
        split: if_splits prod.splits sum.splits)
next
  fix a input limits h e h'
  assume "lr_Run (GoRunner env config) a input limits h = (Inr e, h')"
  then obtain result where "execution_result mapRunStatus result = Inr e"
    by (auto simp: GoRunner_def GoRunner_Run_def go_run_request_def split: if_splits prod.splits sum.splits)
  then show "er_Verdict e \<in> {VerdictAC, VerdictTLE, VerdictMLE, VerdictRE}"
    using run_status_verdicts(1) execution_result_Inr by metis
next
  fix a h d h'
  assume "art_ID a \<noteq> []" "lr_DeleteArtifact (GoRunner env config) a h = (d, h')"
  then show "deletions h' = deletions h @ file_ids [art_ID a] \<and> cached_files env h' = cached_files env h"
    by (simp add: GoRunner_def delete_history)
qed

interpretation cmd_runner: language_runner "command_runner env r" "cached_files env" deletions for env r
proof unfold_locales
  fix source h x h'
  assume "lr_Compile (command_runner env r) source h = (x, h')"
  then show "deletions h' = deletions h"
    by (auto simp: command_runner_def CommandRunner_Compile_def split: if_splits prod.splits sum.splits dest: GoJudge_Execute_deletions)
next
  fix source h err h'
  assume "lr_Compile (command_runner env r) source h = (Inl err, h')"
  then show "cached_files env h' = cached_files env h \<and> short_reason err"
    by (auto simp: command_runner_def CommandRunner_Compile_def commandCompileSystemError_def command_compile_request_def Let_def short_reason_new failure_reasons_short
        split: if_splits prod.splits sum.splits dest!: GoJudge_Execute_Inl GoJudge_Execute_Inr)
next
  fix source h c h'
  assume "lr_Compile (command_runner env r) source h = (Inr c, h')"
  then show "cached_files env h' = cached_files env h @ file_ids [art_ID (co_Artifact c)]"
    by (auto simp: command_runner_def CommandRunner_Compile_def command_compile_request_def no_artifact_def Let_def
        split: if_splits prod.splits sum.splits dest!: GoJudge_Execute_Inr)
next
  fix source h c h'
  assume "lr_Compile (command_runner env r) source h = (Inr c, h')"
  then show "co_Verdict c = VerdictAC \<and> art_ID (co_Artifact c) \<noteq> []
      \<or> co_Verdict c = VerdictCE \<and> art_ID (co_Artifact c) = []"
    by (auto simp: command_runner_def CommandRunner_Compile_def no_artifact_def Let_def split: if_splits prod.splits sum.splits)
next
  fix a input limits h x h'
  assume "lr_Run (command_runner env r) a input limits h = (x, h')"
  then show "deletions h' = deletions h \<and> cached_files env h' = cached_files env h"
    by (auto simp: command_runner_def CommandRunner_Run_def command_run_request_def split: if_splits prod.splits sum.splits
        dest: GoJudge_Execute_deletions GoJudge_Execute_uncached)
next
  fix a input limits h err h'
  assume "lr_Run (command_runner env r) a input limits h = (Inl err, h')"
  then show "short_reason err"
    by (auto simp: command_runner_def CommandRunner_Run_def command_run_request_def short_reason_new failure_reasons_short intro: execution_result_Inl
        split: if_splits prod.splits sum.splits)
next
  fix a input limits h e h'
  assume "lr_Run (command_runner env r) a input limits h = (Inr e, h')"
  then obtain result where "execution_result commandMapRunStatus result = Inr e"
    by (auto simp: command_runner_def CommandRunner_Run_def command_run_request_def split: if_splits prod.splits sum.splits)
  then show "er_Verdict e \<in> {VerdictAC, VerdictTLE, VerdictMLE, VerdictRE}"
    using run_status_verdicts(2) execution_result_Inr by metis
next
  fix a h d h'
  assume "art_ID a \<noteq> []" "lr_DeleteArtifact (command_runner env r) a h = (d, h')"
  then show "deletions h' = deletions h @ file_ids [art_ID a] \<and> cached_files env h' = cached_files env h"
    by (simp add: command_runner_def delete_history)
qed

lemma language_runners_ok:
  "NewLanguageRunnersFromConfig env config language = Some runner \<Longrightarrow>
    language_runner runner (cached_files env) deletions"
  using go_runner.language_runner_axioms cmd_runner.language_runner_axioms
  by (auto simp: NewLanguageRunnersFromConfig_def split: if_splits)

lemma language_runners_total:
  "language \<in> {''c'', ''cpp'', ''go'', ''python'', ''java''} \<Longrightarrow>
    NewLanguageRunnersFromConfig env config language \<noteq> None"
  by (elim insertE emptyE) (simp_all add: NewLanguageRunnersFromConfig_def)

lemma clockLimit_bounds:
  assumes "0 \<le> cpu" "cpu \<le> max_int64 div 2 - 500 * Millisecond"
  shows "clockLimit cpu = max (2 * cpu) (cpu + 500 * Millisecond)"
proof -
  have "wrap64 (cpu * 2) = cpu * 2" "wrap64 (cpu + 500 * Millisecond) = cpu + 500 * Millisecond"
    using assms by (simp_all add: wrap64_id max_int64_def min_int64_def Millisecond_def)
  then show ?thesis by (simp add: clockLimit_def Let_def max_def)
qed

end
