(* ===== verification/Comparator.thy ===== *)
theory Comparator
  imports Go_Prelude
begin

text \<open>
  The output comparator of the judge worker, \<open>src/services/judge-worker/internal/comparator/text.go\<close>:
  two outputs are equal when their normal forms are. \<open>strings.TrimRight\<close> with an ASCII cutset and
  \<open>strings.Split\<close> at a byte act on bytes.
\<close>

section \<open>Definitions\<close>

definition CR :: char where "CR = CHR 0x0D"
definition LF :: char where "LF = CHR 0x0A"

fun replace_crlf :: "bytes \<Rightarrow> bytes" where
  "replace_crlf (a # b # s) =
     (if a = CR \<and> b = LF then LF # replace_crlf s else a # replace_crlf (b # s))"
| "replace_crlf s = s"

definition replace_cr :: "bytes \<Rightarrow> bytes" where
  "replace_cr s = map (\<lambda>c. if c = CR then LF else c) s"

definition is_blank :: "char \<Rightarrow> bool" where
  "is_blank c \<longleftrightarrow> c \<in> {CHR '' '', CHR 0x09}"

definition drop_empty_tail :: "string list \<Rightarrow> string list" where
  "drop_empty_tail ls = rev (dropWhile (\<lambda>l. l = []) (rev ls))"

definition normalize :: "bytes \<Rightarrow> bytes" where
  "normalize value =
     (let lines = split_on LF (replace_cr (replace_crlf value));
          lines1 = map (trim_right_of is_blank) lines;
          lines2 = drop_empty_tail lines1
      in join_with LF lines2)"

definition Equal :: "bytes \<Rightarrow> bytes \<Rightarrow> bool" where
  "Equal expected actual \<longleftrightarrow> normalize expected = normalize actual"

text \<open>The lines of a text after line ends and trailing blanks are removed.\<close>

definition clean_lines :: "bytes \<Rightarrow> string list" where
  "clean_lines s = map (trim_right_of is_blank) (split_on LF (replace_cr (replace_crlf s)))"

section \<open>Lemmas\<close>

lemma not_blank [simp]: "\<not> is_blank CR" "\<not> is_blank LF"
  by (simp_all add: is_blank_def CR_def LF_def)

lemma replace_cr_no_CR: "CR \<notin> set (replace_cr s)"
  by (auto simp: replace_cr_def CR_def LF_def)

lemma replace_no_CR: "CR \<notin> set s \<Longrightarrow> replace_cr (replace_crlf s) = s"
proof (induction s rule: replace_crlf.induct)
  case (1 a b s)
  then show ?case by (auto simp: replace_cr_def)
qed (auto simp: replace_cr_def)

lemma split_on_append: "split_on d (a @ d # b) = split_on d a @ split_on d b"
proof (induction a)
  case (Cons c a)
  obtain x xs where s: "split_on d a = x # xs" by (cases "split_on d a") auto
  from Cons show ?case by (simp add: s)
qed simp

lemma split_on_no_sep: "d \<notin> set s \<Longrightarrow> split_on d s = [s]"
  by (induction s) auto

lemma split_on_lines: "l \<in> set (split_on d s) \<Longrightarrow> d \<notin> set l \<and> set l \<subseteq> set s"
proof (induction s arbitrary: l)
  case (Cons c s)
  obtain x xs where s: "split_on d s = x # xs" by (cases "split_on d s") auto
  from Cons.prems s have "l = [] \<or> l \<in> set (split_on d s) \<or> (c \<noteq> d \<and> l = c # x)"
    by (auto split: if_splits)
  then show ?case using Cons.IH [of l] Cons.IH [of x] s by auto
qed simp

lemma split_join: "ls \<noteq> [] \<Longrightarrow> (\<forall>l \<in> set ls. d \<notin> set l) \<Longrightarrow> split_on d (join_with d ls) = ls"
proof (induction ls rule: induct_list012)
  case (3 x y zs)
  then show ?case by (simp add: split_on_append split_on_no_sep)
qed (simp_all add: split_on_no_sep)

lemma set_join_with: "set (join_with d ls) \<subseteq> insert d (\<Union> (set ` set ls))"
  by (induction ls rule: induct_list012) auto

lemma set_trim_right_of: "set (trim_right_of p s) \<subseteq> set s"
  by (auto simp: trim_right_of_def dest: set_dropWhileD)

lemma set_drop_empty_tail: "set (drop_empty_tail ls) \<subseteq> set ls"
  by (auto simp: drop_empty_tail_def dest: set_dropWhileD)

lemma drop_empty_tail_idem [simp]: "drop_empty_tail (drop_empty_tail ls) = drop_empty_tail ls"
  by (simp add: drop_empty_tail_def dropWhile_idem)

lemma drop_empty_tail_last: "drop_empty_tail ls \<noteq> [] \<Longrightarrow> last (drop_empty_tail ls) \<noteq> []"
  using dropWhile_hd_not [of "\<lambda>l. l = []" "rev ls"] by (auto simp: drop_empty_tail_def last_rev)

lemma drop_empty_tail_Nil [simp]: "drop_empty_tail [[]] = []" "drop_empty_tail [] = []"
  by (simp_all add: drop_empty_tail_def)

lemma drop_empty_tail_snoc_Nil [simp]: "drop_empty_tail (ls @ [[]]) = drop_empty_tail ls"
  by (simp add: drop_empty_tail_def)

lemma normalize_clean: "normalize s = join_with LF (drop_empty_tail (clean_lines s))"
  by (simp add: normalize_def clean_lines_def Let_def)

lemma clean_lines_chars: "l \<in> set (clean_lines s) \<Longrightarrow> LF \<notin> set l \<and> CR \<notin> set l"
proof -
  assume "l \<in> set (clean_lines s)"
  then obtain k where k: "k \<in> set (split_on LF (replace_cr (replace_crlf s)))"
    "l = trim_right_of is_blank k" by (auto simp: clean_lines_def)
  then show ?thesis
    using split_on_lines [OF k(1)] set_trim_right_of [of is_blank k] replace_cr_no_CR by blast
qed

lemma clean_lines_trimmed: "l \<in> set (clean_lines s) \<Longrightarrow> trim_right_of is_blank l = l"
  by (auto simp: clean_lines_def)

lemma normalize_chars: "CR \<notin> set (normalize s)"
proof -
  have "set (normalize s) \<subseteq> insert LF (\<Union> (set ` set (drop_empty_tail (clean_lines s))))"
    unfolding normalize_clean by (rule set_join_with)
  moreover have "\<forall>l \<in> set (drop_empty_tail (clean_lines s)). CR \<notin> set l"
    using set_drop_empty_tail clean_lines_chars by blast
  moreover have "CR \<noteq> LF" by (simp add: CR_def LF_def)
  ultimately show ?thesis by auto
qed

lemma clean_lines_normalize:
  "clean_lines (normalize s) = (if drop_empty_tail (clean_lines s) = [] then [[]]
     else drop_empty_tail (clean_lines s))"
proof -
  let ?d = "drop_empty_tail (clean_lines s)"
  have c: "\<forall>l \<in> set ?d. LF \<notin> set l \<and> trim_right_of is_blank l = l"
    using set_drop_empty_tail clean_lines_chars clean_lines_trimmed by blast
  have "clean_lines (normalize s) = map (trim_right_of is_blank) (split_on LF (normalize s))"
    by (simp add: clean_lines_def replace_no_CR normalize_chars)
  also have "\<dots> = (if ?d = [] then [[]] else ?d)"
    using c by (auto simp: normalize_clean split_join trim_right_of_def intro: map_idI)
  finally show ?thesis .
qed

lemma normalize_idem [simp]: "normalize (normalize s) = normalize s"
  unfolding normalize_clean [of "normalize s"] clean_lines_normalize by (simp add: normalize_clean)

lemma normalize_eq_clean:
  "drop_empty_tail (clean_lines s) = drop_empty_tail (clean_lines t) \<Longrightarrow> normalize s = normalize t"
  by (simp add: normalize_clean)

lemma replace_append:
  "CR \<notin> set a \<Longrightarrow> replace_cr (replace_crlf (a @ b)) = a @ replace_cr (replace_crlf b)"
proof (induction a)
  case (Cons c a)
  then have "replace_crlf ((c # a) @ b) = c # replace_crlf (a @ b)" by (cases "a @ b") auto
  with Cons show ?case by (auto simp: replace_cr_def)
qed simp

lemma replace_LF: "replace_crlf (LF # b) = LF # replace_crlf b" "replace_cr (LF # b) = LF # replace_cr b"
  by (cases b; simp add: CR_def LF_def replace_cr_def)+

lemma replace_newlines:
  "replace_cr (replace_crlf (CR # LF # b)) = LF # replace_cr (replace_crlf b)"
  by (simp add: replace_cr_def LF_def CR_def)

lemma clean_lines_append:
  "CR \<notin> set a \<Longrightarrow> clean_lines (a @ LF # b) = clean_lines a @ clean_lines b"
  "CR \<notin> set a \<Longrightarrow> clean_lines (a @ CR # LF # b) = clean_lines a @ clean_lines b"
  by (simp_all add: clean_lines_def replace_append replace_LF replace_newlines split_on_append replace_no_CR)

lemma trim_right_of_blanks: "\<forall>c \<in> set u. p c \<Longrightarrow> trim_right_of p (s @ u) = trim_right_of p s"
  by (induction u rule: rev_induct) (simp_all add: trim_right_of_def)

lemma split_on_append_last:
  "d \<notin> set u \<Longrightarrow> split_on d (a @ u) = butlast (split_on d a) @ [last (split_on d a) @ u]"
proof (induction a)
  case (Cons c a)
  obtain x xs where s: "split_on d a = x # xs" by (cases "split_on d a") auto
  from Cons show ?case by (cases xs) (auto simp: s split: if_splits)
qed (simp add: split_on_no_sep)

lemma map_snoc: "xs \<noteq> [] \<Longrightarrow> map f xs = map f (butlast xs) @ [f (last xs)]"
  by (cases xs rule: rev_cases) simp_all

lemma clean_lines_blanks:
  assumes "CR \<notin> set a" "\<forall>c \<in> set u. is_blank c"
  shows "clean_lines (a @ u) = clean_lines a"
proof -
  have u: "CR \<notin> set u" "LF \<notin> set u" using assms(2) not_blank by blast+
  let ?f = "trim_right_of is_blank"
  have "map ?f (split_on LF a) = map ?f (butlast (split_on LF a)) @ [?f (last (split_on LF a))]"
    by (rule map_snoc) simp
  then show ?thesis
    using assms u
    by (simp add: clean_lines_def replace_no_CR split_on_append_last trim_right_of_blanks)
qed

lemma join_with_last: "ls \<noteq> [] \<Longrightarrow> \<exists>u. join_with d ls = u @ last ls"
proof (induction ls rule: induct_list012)
  case (3 x y zs)
  then obtain u where "join_with d (y # zs) = u @ last (y # zs)" by auto
  then show ?case by (intro exI [of _ "x @ d # u"]) simp
qed simp_all

lemma trimmed_last: "trim_right_of p l = l \<Longrightarrow> l \<noteq> [] \<Longrightarrow> \<not> p (last l)"
  using dropWhile_hd_not [of p "rev l"] by (auto simp: trim_right_of_def hd_rev rev_swap)

section \<open>Properties\<close>



text \<open>
  Layout does not matter: a line may end in LF or CRLF, with any blanks and tabs before it, the text
  may end in blanks and in any number of line ends, and the comparator answers as for the plain text.
\<close>

theorem equal_ignores_layout:
  assumes "CR \<notin> set a" and "\<forall>c \<in> set u. c = CHR '' '' \<or> c = CHR 0x09"
  shows "Equal (a @ u @ LF # b) (a @ LF # b) \<and> Equal (a @ u @ CR # LF # b) (a @ LF # b)
    \<and> Equal (a @ u) a \<and> Equal (a @ u @ replicate n LF) a"
proof -
  have blank: "\<forall>c \<in> set u. is_blank c" using assms(2) unfolding is_blank_def by blast
  then have u: "CR \<notin> set (a @ u)" "\<forall>c \<in> set u. is_blank c" using assms(1) not_blank by auto
  note blanks = clean_lines_blanks [OF assms(1) u(2)]
  have empty: "clean_lines [] = [[]]" by (simp add: clean_lines_def trim_right_of_def replace_cr_def)
  have "drop_empty_tail (clean_lines (a @ u @ replicate n LF)) = drop_empty_tail (clean_lines a)"
  proof (induction n)
    case (Suc n)
    have "CR \<noteq> LF" by (simp add: CR_def LF_def)
    then have "CR \<notin> set (a @ u @ replicate n LF)" using u(1) by simp
    from clean_lines_append(1) [OF this, of "[]"] empty
    have "clean_lines (a @ u @ replicate n LF @ [LF]) = clean_lines (a @ u @ replicate n LF) @ [[]]"
      by simp
    with Suc show ?case by (simp add: replicate_append_same)
  qed (simp add: blanks)
  then have "Equal (a @ u @ replicate n LF) a" by (simp add: Equal_def normalize_clean)
  moreover have "Equal (a @ u @ LF # b) (a @ LF # b)" "Equal (a @ u @ CR # LF # b) (a @ LF # b)"
    using clean_lines_append [of "a @ u" b] u(1) clean_lines_append(1) [OF assms(1), of b] blanks
    by (simp_all add: Equal_def normalize_clean)
  moreover have "Equal (a @ u) a" by (simp add: Equal_def normalize_clean blanks)
  ultimately show ?thesis by blast
qed

theorem equal_ignores_layout_witness:
  "Equal (''1'' @ '' '' @ CR # LF # ''2'') (''1'' @ LF # ''2'') \<and> \<not> Equal (''1 2'') (''12'')"
proof -
  have "\<not> Equal (''1 2'') (''12'')" by code_simp
  moreover have "CR \<notin> set ''1''" by (simp add: CR_def)
  ultimately show ?thesis using equal_ignores_layout [of "''1''" "'' ''" "''2''" 0] by simp
qed

end
