(* ===== verification/Worker_Engine.thy ===== *)
theory Worker_Engine
  imports Worker_Sandbox Comparator
begin

text \<open>
  The execution engine of the judge worker, \<open>src/services/judge-worker/internal/biz/engine.go\<close>: it loads
  the inputs of a task, compiles, runs the test cases in order until one fails, compares the outputs
  and turns everything else into a failure with a stable code.

  The engine is written against its interfaces: \<open>engine\<close> holds the loader, the runners, the comparator
  and the clock, all acting on an abstract world \<open>'w\<close>. \<open>sort.Slice\<close> is the stable \<open>sort_key\<close>: where the
  engine goes on, the case numbers are distinct, so that the order of equal elements does not matter.
  The deferred deletion of the artifact is the last step of \<open>Execute\<close>.
\<close>

section \<open>Definitions\<close>

record 'w engine =
  eg_loader :: "(JudgeTask \<Rightarrow> 'w \<Rightarrow> (werror + LoadedTask) \<times> 'w) option"
  eg_runner :: "'w LanguageRunner option"
  eg_runners :: "string \<Rightarrow> 'w LanguageRunner option"
  eg_comparator :: "(bytes \<Rightarrow> bytes \<Rightarrow> bool) option"
  eg_now :: "'w \<Rightarrow> time \<times> 'w"

definition failedCode :: "JudgeTask \<Rightarrow> string \<Rightarrow> string \<Rightarrow> string \<Rightarrow> bool \<Rightarrow> Outcome" where
  "failedCode task code reason message retryable =
     \<lparr>ou_Completed = None,
      ou_Failed = Some \<lparr>jf_SubmissionID = jt_SubmissionID task, jf_JudgeRevision = jt_JudgeRevision task,
        jf_Code = code, jf_Message = message, jf_Retryable = retryable, jf_Reason = reason\<rparr>\<rparr>"

definition outcomeFromError :: "JudgeTask \<Rightarrow> werror \<Rightarrow> Outcome" where
  "outcomeFromError task err =
     (let (code, message, retryable) = ClassifyFailure err; (reason, _) = ClassifySystemError err
      in failedCode task code reason message retryable)"

definition failed :: "JudgeTask \<Rightarrow> string \<Rightarrow> bool \<Rightarrow> Outcome" where
  "failed task reason retryable =
     (let (code, _, _) = ClassifyFailure (NewSystemError reason retryable None)
      in failedCode task code reason reason retryable)"

definition completed :: "JudgeTask \<Rightarrow> string \<Rightarrow> int32 \<Rightarrow> int32 \<Rightarrow> JudgeCaseResult list \<Rightarrow> Outcome" where
  "completed task verdict timeMS memoryKB cases =
     \<lparr>ou_Completed = Some \<lparr>jc_SubmissionID = jt_SubmissionID task, jc_JudgeRevision = jt_JudgeRevision task,
        jc_Verdict = verdict, jc_TimeMS = timeMS, jc_MemoryKB = memoryKB, jc_CaseResults = cases\<rparr>,
      ou_Failed = None\<rparr>"

definition validExecutionVerdict :: "string \<Rightarrow> bool" where
  "validExecutionVerdict verdict \<longleftrightarrow>
     verdict \<in> {VerdictAC, VerdictWA, VerdictTLE, VerdictMLE, VerdictRE}"

definition durationMilliseconds :: "duration \<Rightarrow> int32" where
  "durationMilliseconds value =
     (if value \<le> 0 then 0
      else let v = go_div (wrap64 (value + Millisecond - 1)) Millisecond
           in if v > max_int32 then max_int32 else wrap32 v)"

definition bytesKilobytes :: "int \<Rightarrow> int32" where
  "bytesKilobytes value =
     (if value = 0 then 0
      else let v = to_uint64 (value + 1023) div 1024
           in if v > max_int32 then max_int32 else wrap32 v)"

definition Outcome_Validate :: "Outcome \<Rightarrow> string option" where
  "Outcome_Validate o1 =
     (case (ou_Completed o1, ou_Failed o1) of
        (Some c, None) \<Rightarrow> JudgeCompleted_Validate c
      | (None, Some f) \<Rightarrow> JudgeFailed_Validate f
      | _ \<Rightarrow> Some ''outcome must contain exactly one result'')"

definition validateLoadedTask :: "JudgeTask \<Rightarrow> LoadedTask \<Rightarrow> werror + LoadedTask" where
  \<comment> \<open>sorts the cases in place: the sorted task is returned\<close>
  "validateLoadedTask task loaded =
     guardE (lt_Task loaded \<noteq> task) (NewSystemError ''TASK_SNAPSHOT_MISMATCH'' False None)
     (case Manifest_Validate (lt_Manifest loaded) of
        Some e \<Rightarrow> Inl (NewSystemError ''INVALID_JUDGE_MANIFEST'' False (Some (PlainError e)))
      | None \<Rightarrow>
          guardE (mf_ProblemID (lt_Manifest loaded) \<noteq> jt_ProblemID task
                  \<or> mf_JudgeRevision (lt_Manifest loaded) \<noteq> jt_JudgeRevision task)
            (NewSystemError ''JUDGE_REVISION_MISMATCH'' False None)
          (guardE (lt_Source loaded = []
                   \<or> length (lt_Cases loaded) \<noteq> length (mf_Testcases (lt_Manifest loaded)))
            (NewSystemError ''INCOMPLETE_TASK_INPUT'' False None)
          (let cases = sort_key lc_CaseNo (lt_Cases loaded)
           in guardE (map lc_CaseNo cases \<noteq> map mt_CaseNo (mf_Testcases (lt_Manifest loaded)))
                (NewSystemError ''TESTCASE_SNAPSHOT_MISMATCH'' False None)
                (Inr (loaded\<lparr>lt_Cases := cases\<rparr>)))))"

definition case_verdict :: "(bytes \<Rightarrow> bytes \<Rightarrow> bool) \<Rightarrow> LoadedCase \<Rightarrow> ExecutionResult \<Rightarrow> string" where
  "case_verdict equal testcase run =
     (if er_Verdict run = VerdictAC \<and> \<not> equal (lc_Expected testcase) (er_Output run)
      then VerdictWA else er_Verdict run)"

definition case_result :: "LoadedCase \<Rightarrow> string \<Rightarrow> ExecutionResult \<Rightarrow> JudgeCaseResult" where
  "case_result testcase verdict run =
     \<lparr>cr_CaseNo = lc_CaseNo testcase, cr_Verdict = verdict, cr_TimeMS = durationMilliseconds (er_Time run),
      cr_MemoryKB = bytesKilobytes (er_Memory run), cr_Message = er_Message run\<rparr>"

fun run_cases ::
  "('w \<Rightarrow> time \<times> 'w) \<Rightarrow> (bytes \<Rightarrow> bytes \<Rightarrow> bool) \<Rightarrow> 'w LanguageRunner \<Rightarrow> JudgeTask \<Rightarrow> Artifact \<Rightarrow> ResourceLimits
     \<Rightarrow> int32 \<Rightarrow> int32 \<Rightarrow> JudgeCaseResult list \<Rightarrow> LoadedCase list \<Rightarrow> 'w \<Rightarrow> Outcome \<times> 'w" where
  \<comment> \<open>the loop of \<open>executeCases\<close>; \<open>overall\<close> is AC as long as the loop goes on\<close>
  "run_cases now equal runner task artifact limits maxTimeMS maxMemoryKB results [] w =
     (completed task VerdictAC maxTimeMS maxMemoryKB results, w)"
| "run_cases now equal runner task artifact limits maxTimeMS maxMemoryKB results (testcase # cases) w =
     (let (t, w1) = now w
      in if \<not> t < jt_JudgeDeadlineAt task then (failed task ''JUDGE_DEADLINE_EXCEEDED'' False, w1)
         else case lr_Run runner artifact (lc_Input testcase) limits w1 of
                (Inl err, w2) \<Rightarrow> (outcomeFromError task err, w2)
              | (Inr run, w2) \<Rightarrow>
                  (let verdict = case_verdict equal testcase run
                   in if \<not> validExecutionVerdict verdict then (failed task ''INVALID_RUN_RESULT'' True, w2)
                      else
                        (let r = case_result testcase verdict run;
                             maxTimeMS1 = (if cr_TimeMS r > maxTimeMS then cr_TimeMS r else maxTimeMS);
                             maxMemoryKB1 = (if cr_MemoryKB r > maxMemoryKB then cr_MemoryKB r else maxMemoryKB);
                             results1 = results @ [r]
                         in if verdict \<noteq> VerdictAC
                            then (completed task verdict maxTimeMS1 maxMemoryKB1 results1, w2)
                            else run_cases now equal runner task artifact limits maxTimeMS1 maxMemoryKB1
                                   results1 cases w2)))"

definition case_limits :: "Manifest \<Rightarrow> ResourceLimits" where
  \<comment> \<open>\<open>int32\<close> limits, positive once the manifest is validated: the products stay in range\<close>
  "case_limits m =
     \<lparr>rl_TimeLimit = mf_TimeLimitMS m * Millisecond, rl_MemoryBytes = to_uint64 (mf_MemoryLimitKB m) * 1024\<rparr>"

definition executeCases ::
  "'w engine \<Rightarrow> (bytes \<Rightarrow> bytes \<Rightarrow> bool) \<Rightarrow> JudgeTask \<Rightarrow> Artifact \<Rightarrow> LoadedTask \<Rightarrow> 'w LanguageRunner \<Rightarrow> 'w
     \<Rightarrow> Outcome \<times> 'w" where
  "executeCases e equal task artifact loaded runner w =
     run_cases (eg_now e) equal runner task artifact (case_limits (lt_Manifest loaded)) 0 0 []
       (lt_Cases loaded) w"

definition cleanup ::
  "JudgeTask \<Rightarrow> 'w LanguageRunner \<Rightarrow> Artifact \<Rightarrow> Outcome \<Rightarrow> 'w \<Rightarrow> Outcome \<times> 'w" where
  \<comment> \<open>the deferred function\<close>
  "cleanup task runner artifact outcome w =
     (if art_ID artifact = [] then (outcome, w)
      else let (cleanupErr, w1) = lr_DeleteArtifact runner artifact w
           in (case cleanupErr of
                 Some err \<Rightarrow>
                   if ou_Failed outcome = None
                   then outcomeFromError task (NewSystemError ''ARTIFACT_CLEANUP_FAILED'' True (Some err))
                   else outcome
               | None \<Rightarrow> outcome, w1))"

definition select_runner :: "'w engine \<Rightarrow> string \<Rightarrow> 'w LanguageRunner option" where
  "select_runner e language =
     (case eg_runners e language of Some r \<Rightarrow> Some r | None \<Rightarrow> eg_runner e)"

definition judge_compiled ::
  "'w engine \<Rightarrow> (bytes \<Rightarrow> bytes \<Rightarrow> bool) \<Rightarrow> JudgeTask \<Rightarrow> LoadedTask \<Rightarrow> 'w LanguageRunner \<Rightarrow> CompileResult \<Rightarrow> 'w
     \<Rightarrow> Outcome \<times> 'w" where
  "judge_compiled e equal task loaded runner compile w =
     (let (outcome, w1) =
        (if co_Verdict compile = VerdictCE then (completed task VerdictCE 0 0 [], w)
         else if co_Verdict compile \<noteq> VerdictAC \<or> art_ID (co_Artifact compile) = []
         then (failed task ''INVALID_COMPILE_RESULT'' True, w)
         else executeCases e equal task (co_Artifact compile) loaded runner w)
      in cleanup task runner (co_Artifact compile) outcome w1)"

definition Execute :: "'w engine \<Rightarrow> JudgeTask \<Rightarrow> 'w \<Rightarrow> Outcome \<times> 'w" where
  "Execute e task w =
     (if JudgeTask_Validate task \<noteq> None then (failed task ''INVALID_TASK'' False, w)
      else case (eg_loader e, eg_comparator e) of
        (Some load, Some equal) \<Rightarrow>
          (case select_runner e (jt_Language task) of
             None \<Rightarrow> (failed task ''UNSUPPORTED_LANGUAGE'' False, w)
           | Some runner \<Rightarrow>
               (let (t, w1) = eg_now e w
                in if \<not> t < jt_JudgeDeadlineAt task
                   then (failed task ''JUDGE_DEADLINE_EXCEEDED'' False, w1)
                   else case load task w1 of
                     (Inl err, w2) \<Rightarrow> (outcomeFromError task err, w2)
                   | (Inr loaded0, w2) \<Rightarrow>
                       (case validateLoadedTask task loaded0 of
                          Inl err \<Rightarrow> (outcomeFromError task err, w2)
                        | Inr loaded \<Rightarrow>
                            (case lr_Compile runner (lt_Source loaded) w2 of
                               (Inl err, w3) \<Rightarrow> (outcomeFromError task err, w3)
                             | (Inr compile, w3) \<Rightarrow>
                                 judge_compiled e equal task loaded runner compile w3))))
      | _ \<Rightarrow> (failed task ''WORKER_NOT_CONFIGURED'' True, w))"

definition NewEngineWithRunners ::
  "(JudgeTask \<Rightarrow> 'w \<Rightarrow> (werror + LoadedTask) \<times> 'w) \<Rightarrow> (string \<Rightarrow> 'w LanguageRunner option) \<Rightarrow> ('w \<Rightarrow> time \<times> 'w)
     \<Rightarrow> 'w engine" where
  "NewEngineWithRunners load runners now =
     \<lparr>eg_loader = Some load, eg_runner = None, eg_runners = runners, eg_comparator = Some Equal, eg_now = now\<rparr>"

text \<open>
  How a recorded case result comes about: the runner ran the case's input, and the verdict is the
  runner's, turned into WA when the comparator refuses the output.
\<close>

definition case_judged ::
  "(bytes \<Rightarrow> bytes \<Rightarrow> bool) \<Rightarrow> 'w LanguageRunner \<Rightarrow> Artifact \<Rightarrow> ResourceLimits \<Rightarrow> LoadedCase \<Rightarrow> JudgeCaseResult
     \<Rightarrow> bool" where
  "case_judged equal runner artifact limits testcase r \<longleftrightarrow>
     (\<exists>run w w'. lr_Run runner artifact (lc_Input testcase) limits w = (Inr run, w')
        \<and> r = case_result testcase (case_verdict equal testcase run) run)"

text \<open>
  The shape of an outcome: exactly one of the two results, for the submission and the revision of the
  task; a failure has a code of the protocol and a reason that fits the event.
\<close>

definition outcome_shape :: "JudgeTask \<Rightarrow> Outcome \<Rightarrow> bool" where
  "outcome_shape task o1 =
     (case (ou_Completed o1, ou_Failed o1) of
        (Some c, None) \<Rightarrow>
          jc_SubmissionID c = jt_SubmissionID task \<and> jc_JudgeRevision c = jt_JudgeRevision task
      | (None, Some f) \<Rightarrow>
          jf_SubmissionID f = jt_SubmissionID task \<and> jf_JudgeRevision f = jt_JudgeRevision task
          \<and> (\<exists>reason. jf_Code f = failureCodeForReason reason) \<and> length (jf_Reason f) \<le> 128
      | _ \<Rightarrow> False)"

section \<open>Lemmas\<close>

lemmas outcome_defs = failedCode_def failed_def outcomeFromError_def completed_def Let_def

lemma failed_outcome [simp]:
  "ou_Completed (failed task reason b) = None" "ou_Completed (outcomeFromError task err) = None"
  "ou_Failed (failed task reason b) \<noteq> None" "ou_Failed (outcomeFromError task err) \<noteq> None"
  "ou_Failed (completed task v t m cs) = None"
  by (simp_all add: outcome_defs split: prod.splits)

lemma case_result_simps [simp]:
  "cr_CaseNo (case_result tc v run) = lc_CaseNo tc" "cr_Verdict (case_result tc v run) = v"
  by (simp_all add: case_result_def)

lemma run_cases_completed:
  assumes "run_cases now equal runner task a limits mt mm rs cases w = (o1, w')"
    and "ou_Completed o1 = Some c"
  shows "\<exists>rs'. jc_CaseResults c = rs @ rs'
    \<and> list_all2 (case_judged equal runner a limits) (take (length rs') cases) rs'
    \<and> (\<forall>r \<in> set (butlast rs'). cr_Verdict r = VerdictAC)
    \<and> (if jc_Verdict c = VerdictAC
        then length rs' = length cases \<and> (\<forall>r \<in> set rs'. cr_Verdict r = VerdictAC)
        else rs' \<noteq> [] \<and> cr_Verdict (last rs') = jc_Verdict c)
    \<and> jc_TimeMS c = fold max (map cr_TimeMS rs') mt \<and> jc_MemoryKB c = fold max (map cr_MemoryKB rs') mm
    \<and> (\<forall>r \<in> set rs'. validExecutionVerdict (cr_Verdict r)) \<and> validExecutionVerdict (jc_Verdict c)
    \<and> jc_SubmissionID c = jt_SubmissionID task \<and> jc_JudgeRevision c = jt_JudgeRevision task"
  using assms
proof (induction cases arbitrary: mt mm rs w)
  case Nil
  then show ?case
    by (intro exI [of _ "[]"]) (auto simp: completed_def validExecutionVerdict_def)
next
  case (Cons tc cases)
  obtain t w1 where t: "now w = (t, w1)" by (cases "now w")
  obtain x w2 where x: "lr_Run runner a (lc_Input tc) limits w1 = (x, w2)"
    by (cases "lr_Run runner a (lc_Input tc) limits w1")
  from Cons.prems t x obtain run where run: "x = Inr run"
    by (cases x) (auto split: if_splits)
  let ?v = "case_verdict equal tc run"
  let ?r = "case_result tc ?v run"
  have judged: "case_judged equal runner a limits tc ?r"
    using x run by (auto simp: case_judged_def)
  from Cons.prems t x run have valid: "validExecutionVerdict ?v"
    by (auto simp: Let_def split: if_splits)
  show ?case
  proof (cases "?v = VerdictAC")
    case False
    with Cons.prems t x run valid show ?thesis
      by (intro exI [of _ "[?r]"]) (auto simp: Let_def completed_def judged max_def split: if_splits)
  next
    case True
    with Cons.prems t x run valid
    have "run_cases now equal runner task a limits (max (cr_TimeMS ?r) mt) (max (cr_MemoryKB ?r) mm)
        (rs @ [?r]) cases w2 = (o1, w')"
      by (auto simp: Let_def max_def split: if_splits)
    from Cons.IH [OF this Cons.prems(2)] obtain rs' where rs':
      "jc_CaseResults c = (rs @ [?r]) @ rs'"
      "list_all2 (case_judged equal runner a limits) (take (length rs') cases) rs'"
      "\<forall>r \<in> set (butlast rs'). cr_Verdict r = VerdictAC"
      "if jc_Verdict c = VerdictAC then length rs' = length cases \<and> (\<forall>r \<in> set rs'. cr_Verdict r = VerdictAC)
        else rs' \<noteq> [] \<and> cr_Verdict (last rs') = jc_Verdict c"
      "jc_TimeMS c = fold max (map cr_TimeMS rs') (max (cr_TimeMS ?r) mt)"
      "jc_MemoryKB c = fold max (map cr_MemoryKB rs') (max (cr_MemoryKB ?r) mm)"
      "\<forall>r \<in> set rs'. validExecutionVerdict (cr_Verdict r)" "validExecutionVerdict (jc_Verdict c)"
      "jc_SubmissionID c = jt_SubmissionID task" "jc_JudgeRevision c = jt_JudgeRevision task"
      by blast
    with True judged valid show ?thesis by (intro exI [of _ "?r # rs'"]) auto
  qed
qed

lemma validateLoadedTask_Inr:
  assumes "validateLoadedTask task loaded0 = Inr loaded"
  shows "lt_Cases loaded \<noteq> [] \<and> distinct (map lc_CaseNo (lt_Cases loaded))
    \<and> map lc_CaseNo (lt_Cases loaded) = map mt_CaseNo (mf_Testcases (lt_Manifest loaded))
    \<and> (\<forall>tc \<in> set (lt_Cases loaded). 0 < lc_CaseNo tc) \<and> lt_Manifest loaded = lt_Manifest loaded0
    \<and> mset (lt_Cases loaded) = mset (lt_Cases loaded0) \<and> lt_Task loaded = task
    \<and> lt_Source loaded = lt_Source loaded0"
proof -
  let ?m = "lt_Manifest loaded0"
  have v: "Manifest_Validate ?m = None" and c: "lt_Cases loaded = sort_key lc_CaseNo (lt_Cases loaded0)"
    and same: "map lc_CaseNo (lt_Cases loaded) = map mt_CaseNo (mf_Testcases ?m)"
    and fields: "lt_Manifest loaded = ?m" "lt_Task loaded = task" "lt_Source loaded = lt_Source loaded0"
    using assms by (auto simp: validateLoadedTask_def Let_def split: option.splits)
  have ts: "validate_testcases seen ts = None \<Longrightarrow> distinct (map mt_CaseNo ts)
      \<and> (\<forall>n \<in> set (map mt_CaseNo ts). 0 < n \<and> n \<notin> set seen)" for seen ts
    by (induction seen ts rule: validate_testcases.induct) (auto split: if_splits option.splits)
  have nums: "distinct (map mt_CaseNo (mf_Testcases ?m)) \<and> (\<forall>n \<in> set (map mt_CaseNo (mf_Testcases ?m)). 0 < n)"
    using ts [of "[]"] v by (simp add: Manifest_Validate_def split: if_splits)
  moreover have "mf_Testcases ?m \<noteq> []" using v by (auto simp: Manifest_Validate_def split: if_splits)
  moreover have "0 < lc_CaseNo tc" if "tc \<in> set (lt_Cases loaded)" for tc
  proof -
    have "lc_CaseNo tc \<in> set (map lc_CaseNo (lt_Cases loaded))" using that by simp
    then show ?thesis using nums unfolding same by blast
  qed
  ultimately show ?thesis using same fields c by (metis map_is_Nil_conv mset_sort)
qed

lemma outcome_shapes [simp]:
  "outcome_shape task (completed task v t m cs)"
  "length reason \<le> 128 \<Longrightarrow> outcome_shape task (failed task reason b)"
  "short_reason err \<Longrightarrow> outcome_shape task (outcomeFromError task err)"
  by (auto simp: outcome_shape_def outcome_defs ClassifyFailure_def short_reason_def split: prod.splits)

lemma validateLoadedTask_Inl: "validateLoadedTask task loaded = Inl err \<Longrightarrow> short_reason err"
  by (auto simp: validateLoadedTask_def guardE_def Let_def short_reason_new split: if_splits option.splits)

lemma validate_case_results_ok:
  "distinct (map cr_CaseNo rs) \<Longrightarrow> set seen \<inter> set (map cr_CaseNo rs) = {} \<Longrightarrow>
    \<forall>r \<in> set rs. 0 < cr_CaseNo r \<and> validVerdict (cr_Verdict r) \<and> 0 \<le> cr_TimeMS r \<and> 0 \<le> cr_MemoryKB r \<Longrightarrow>
    validate_case_results seen rs = None"
  by (induction rs arbitrary: seen) auto

lemma validExecutionVerdict_valid: "validExecutionVerdict v \<Longrightarrow> validVerdict v"
  unfolding validExecutionVerdict_def by (elim insertE emptyE) simp_all

lemma durationMilliseconds_exact:
  assumes "value \<le> max_int64 - 999999"
  shows "durationMilliseconds value = (if value \<le> 0 then 0 else min max_int32 ((value + 999999) div 1000000))"
proof (cases "value \<le> 0")
  case False
  then have "wrap64 (value + Millisecond - 1) = value + 999999"
    using assms by (simp add: wrap64_id max_int64_def min_int64_def Millisecond_def)
  moreover have "wrap32 v = v" if "0 \<le> v" "v \<le> max_int32" for v
    using that by (simp add: wrap32_id)
  ultimately show ?thesis
    using False by (simp add: durationMilliseconds_def Let_def go_div_nonneg Millisecond_def min_def)
qed (simp add: durationMilliseconds_def)

lemma bytesKilobytes_exact:
  assumes "0 \<le> value" "value < 18446744073709551616 - 1023"
  shows "bytesKilobytes value = min max_int32 ((value + 1023) div 1024)"
proof -
  have "to_uint64 (value + 1023) = value + 1023" using assms by (simp add: to_uint64_def)
  moreover have "wrap32 v = v" if "0 \<le> v" "v \<le> max_int32" for v
    using that by (simp add: wrap32_id)
  ultimately show ?thesis
    using assms by (auto simp: bytesKilobytes_def Let_def min_def max_int32_def)
qed

lemma fold_max_ge: "(a :: int) \<le> fold max xs a"
proof (induction xs arbitrary: a)
  case (Cons x xs)
  from Cons.IH [of "max x a"] show ?case by simp
qed simp

lemma Execute_cases:
  assumes "Execute e task w = (o1, w')"
  obtains (early) reason b where "o1 = failed task reason b" "w' = w" "length reason \<le> 128"
  | (expired) t where "eg_now e w = (t, w')" "o1 = failed task ''JUDGE_DEADLINE_EXCEEDED'' False"
  | (not_loaded) load t w1 err where "eg_loader e = Some load" "eg_now e w = (t, w1)"
      "load task w1 = (Inl err, w')" "o1 = outcomeFromError task err"
  | (invalid) load t w1 loaded0 err where "eg_loader e = Some load" "eg_now e w = (t, w1)"
      "load task w1 = (Inr loaded0, w')" "validateLoadedTask task loaded0 = Inl err"
      "o1 = outcomeFromError task err"
  | (not_compiled) load runner t w1 loaded0 w2 loaded err where "eg_loader e = Some load"
      "select_runner e (jt_Language task) = Some runner" "eg_now e w = (t, w1)"
      "load task w1 = (Inr loaded0, w2)" "validateLoadedTask task loaded0 = Inr loaded"
      "lr_Compile runner (lt_Source loaded) w2 = (Inl err, w')" "o1 = outcomeFromError task err"
  | (compiled) load equal runner t w1 loaded0 w2 loaded c w3 where "eg_loader e = Some load"
      "eg_comparator e = Some equal" "select_runner e (jt_Language task) = Some runner" "eg_now e w = (t, w1)"
      "t < jt_JudgeDeadlineAt task" "JudgeTask_Validate task = None"
      "load task w1 = (Inr loaded0, w2)" "validateLoadedTask task loaded0 = Inr loaded"
      "lr_Compile runner (lt_Source loaded) w2 = (Inr c, w3)"
      "judge_compiled e equal task loaded runner c w3 = (o1, w')"
  using assms
  by (auto simp: Execute_def split: if_splits option.splits prod.splits sum.splits)

context language_runner
begin

lemma run_cases_observes:
  assumes "\<And>w t w'. now w = (t, w') \<Longrightarrow> cached w' = cached w \<and> deleted w' = deleted w"
    and "run_cases now equal runner task a limits mt mm rs cases w = (o1, w')"
  shows "cached w' = cached w \<and> deleted w' = deleted w"
  using assms(2)
proof (induction cases arbitrary: mt mm rs w)
  case (Cons tc cases)
  obtain t w1 where t: "now w = (t, w1)" by (cases "now w")
  obtain x w2 where x: "lr_Run runner a (lc_Input tc) limits w1 = (x, w2)"
    by (cases "lr_Run runner a (lc_Input tc) limits w1")
  note keep = assms(1) [OF t] run_keeps [OF x]
  show ?case
    using Cons.prems t x keep by (auto simp: Let_def split: if_splits sum.splits dest!: Cons.IH)
qed simp

lemma run_cases_shape:
  "run_cases now equal runner task a limits mt mm rs cases w = (o1, w') \<Longrightarrow> outcome_shape task o1"
proof (induction cases arbitrary: mt mm rs w)
  case (Cons tc cases)
  obtain t w1 where t: "now w = (t, w1)" by (cases "now w")
  obtain x w2 where x: "lr_Run runner a (lc_Input tc) limits w1 = (x, w2)"
    by (cases "lr_Run runner a (lc_Input tc) limits w1")
  have "short_reason err" if "x = Inl err" for err using run_error x that by blast
  then show ?case
    using Cons.prems t x by (auto simp: Let_def split: if_splits sum.splits dest!: Cons.IH)
qed auto

lemma judge_compiled_observes:
  assumes "\<And>w t w'. eg_now e w = (t, w') \<Longrightarrow> cached w' = cached w \<and> deleted w' = deleted w"
    and "judge_compiled e equal task loaded runner c w = (o1, w')"
  shows "cached w' = cached w \<and> deleted w' = deleted w @ file_ids [art_ID (co_Artifact c)]"
proof -
  obtain o0 w1 where o0: "cleanup task runner (co_Artifact c) o0 w1 = (o1, w')"
    and w1: "cached w1 = cached w \<and> deleted w1 = deleted w"
    using assms(2) run_cases_observes [OF assms(1)]
    by (auto simp: judge_compiled_def executeCases_def split: prod.splits if_splits)
  from o0 w1 show ?thesis
    by (cases "art_ID (co_Artifact c) = []") (auto simp: cleanup_def split: prod.splits dest: delete_deletes)
qed

lemma judge_compiled_shape:
  assumes "judge_compiled e equal task loaded runner c w = (o1, w')"
  shows "outcome_shape task o1"
proof -
  obtain o0 w1 where o0: "cleanup task runner (co_Artifact c) o0 w1 = (o1, w')" "outcome_shape task o0"
    using assms run_cases_shape
    by (fastforce simp: judge_compiled_def executeCases_def split: prod.splits if_splits)
  then show ?thesis
    by (auto simp: cleanup_def short_reason_new split: prod.splits if_splits option.splits)
qed

end

end
