(* ===== verification/Manifest_Json.thy ===== *)
theory Manifest_Json
  imports Mq
begin

text \<open>
  The JSON form of the judge manifest of \<open>src/pkg/judge/manifest.go\<close>: the problem service writes it
  when it publishes test data, the judge worker reads it.
\<close>

section \<open>Definitions\<close>

definition enc_Object :: "ManifestObject \<Rightarrow> json" where
  "enc_Object o1 =
     JObj [(''object_key'', JStr (ob_ObjectKey o1)), (''sha256'', JStr (ob_SHA256 o1)),
           (''size_bytes'', JNum (ob_SizeBytes o1))]"

definition dec_Object_fields :: "jfields \<Rightarrow> ManifestObject option" where
  "dec_Object_fields kvs =
     (case (dec_field dec_str [] ''object_key'' kvs, dec_field dec_str [] ''sha256'' kvs,
            dec_field dec_int64 0 ''size_bytes'' kvs)
      of (Some k, Some h, Some n) \<Rightarrow> Some \<lparr>ob_ObjectKey = k, ob_SHA256 = h, ob_SizeBytes = n\<rparr>
       | _ \<Rightarrow> None)"

definition zero_object :: ManifestObject where
  "zero_object = \<lparr>ob_ObjectKey = [], ob_SHA256 = [], ob_SizeBytes = 0\<rparr>"

definition enc_Testcase :: "ManifestTestcase \<Rightarrow> json" where
  "enc_Testcase t =
     JObj [(''case_no'', JNum (mt_CaseNo t)), (''input'', enc_Object (mt_Input t)),
           (''output'', enc_Object (mt_Output t))]"

definition dec_Testcase_fields :: "jfields \<Rightarrow> ManifestTestcase option" where
  "dec_Testcase_fields kvs =
     (case (dec_field dec_int32 0 ''case_no'' kvs,
            dec_field (dec_struct dec_Object_fields) zero_object ''input'' kvs,
            dec_field (dec_struct dec_Object_fields) zero_object ''output'' kvs)
      of (Some n, Some i, Some o1) \<Rightarrow> Some \<lparr>mt_CaseNo = n, mt_Input = i, mt_Output = o1\<rparr>
       | _ \<Rightarrow> None)"

definition enc_Manifest :: "Manifest \<Rightarrow> json" where
  "enc_Manifest m =
     JObj [(''manifest_version'', JNum (mf_ManifestVersion m)), (''problem_id'', JNum (mf_ProblemID m)),
           (''judge_revision'', JStr (mf_JudgeRevision m)), (''time_limit_ms'', JNum (mf_TimeLimitMS m)),
           (''memory_limit_kb'', JNum (mf_MemoryLimitKB m)),
           (''testcases'', JArr (map enc_Testcase (mf_Testcases m)))]"

definition dec_Manifest_fields :: "jfields \<Rightarrow> Manifest option" where
  "dec_Manifest_fields kvs =
     (case (dec_field dec_int32 0 ''manifest_version'' kvs, dec_field dec_int64 0 ''problem_id'' kvs,
            dec_field dec_str [] ''judge_revision'' kvs, dec_field dec_int32 0 ''time_limit_ms'' kvs,
            dec_field dec_int32 0 ''memory_limit_kb'' kvs,
            dec_field (dec_array (dec_struct dec_Testcase_fields)) [] ''testcases'' kvs)
      of (Some v, Some p, Some r, Some t, Some m, Some ts) \<Rightarrow>
           Some \<lparr>mf_ManifestVersion = v, mf_ProblemID = p, mf_JudgeRevision = r, mf_TimeLimitMS = t,
                 mf_MemoryLimitKB = m, mf_Testcases = ts\<rparr>
       | _ \<Rightarrow> None)"

definition dec_Manifest :: "json \<Rightarrow> Manifest option" where
  "dec_Manifest = dec_struct dec_Manifest_fields"

text \<open>The integer fields of a manifest are within their Go types.\<close>

definition testcase_ranges :: "ManifestTestcase \<Rightarrow> bool" where
  "testcase_ranges t \<longleftrightarrow> mt_CaseNo t \<in> {-2147483648..max_int32}
     \<and> ob_SizeBytes (mt_Input t) \<in> {min_int64..max_int64} \<and> ob_SizeBytes (mt_Output t) \<in> {min_int64..max_int64}"

definition manifest_ranges :: "Manifest \<Rightarrow> bool" where
  "manifest_ranges m \<longleftrightarrow> mf_ManifestVersion m \<in> {-2147483648..max_int32}
     \<and> mf_ProblemID m \<in> {min_int64..max_int64} \<and> mf_TimeLimitMS m \<in> {-2147483648..max_int32}
     \<and> mf_MemoryLimitKB m \<in> {-2147483648..max_int32} \<and> list_all testcase_ranges (mf_Testcases m)"

section \<open>Lemmas\<close>

lemma manifest_keys [simp]:
  "key_lower ''object_key''" "key_lower ''sha256''" "key_lower ''size_bytes''" "key_lower ''input''"
  "key_lower ''output''" "key_lower ''manifest_version''" "key_lower ''time_limit_ms''"
  "key_lower ''memory_limit_kb''" "key_lower ''testcases''"
  by code_simp+

lemma dec_enc_Object:
  "ob_SizeBytes o1 \<in> {min_int64..max_int64} \<Longrightarrow> dec_struct dec_Object_fields (enc_Object o1) = Some o1"
  by (auto simp: enc_Object_def dec_Object_fields_def dec_field_def field_eval Let_def)

lemma enc_Object_not_null [simp]: "enc_Object o1 \<noteq> JNull"
  by (simp add: enc_Object_def)

lemma dec_enc_Testcase:
  "testcase_ranges t \<Longrightarrow> dec_struct dec_Testcase_fields (enc_Testcase t) = Some t"
  by (auto simp: testcase_ranges_def enc_Testcase_def dec_Testcase_fields_def dec_field_def field_eval
      Let_def dec_enc_Object)

lemma dec_enc_Manifest:
  assumes "manifest_ranges m"
  shows "dec_Manifest (enc_Manifest m) = Some m"
proof -
  have "dec_list (dec_struct dec_Testcase_fields) (map enc_Testcase (mf_Testcases m)) = Some (mf_Testcases m)"
    using assms by (intro dec_list_map) (simp add: manifest_ranges_def list_all_iff dec_enc_Testcase)
  then show ?thesis
    using assms
    by (auto simp: manifest_ranges_def enc_Manifest_def dec_Manifest_def dec_Manifest_fields_def
        dec_field_def field_eval Let_def)
qed

end
