(* ===== verification/Worker_Loader.thy ===== *)
theory Worker_Loader
  imports Worker_Engine Manifest_Json
begin

text \<open>
  The input loader of the judge worker, \<open>src/services/judge-worker/internal/storage\<close> (\<open>loader.go\<close>,
  \<open>minio.go\<close>): source, manifest and test data of a task, each object checked against its digest and
  size.

  MinIO, SHA-256, \<open>ulid.ParseStrict\<close> and the JSON tokeniser are parameters, fields of \<open>loader_env\<close>. A load
  reads each object at most once (the keys are distinct), so the store is a function of bucket and key.
\<close>

section \<open>Definitions\<close>

record loader_env =
  le_get_object :: "string \<Rightarrow> string \<Rightarrow> string + bytes"
  le_sha256 :: "bytes \<Rightarrow> bytes"
  le_ulid_ok :: "string \<Rightarrow> bool"
  le_json :: "bytes \<Rightarrow> json option"

record Loader =
  ld_sourceBucket :: string
  ld_problemBucket :: string

definition maxSourceSize :: int where "maxSourceSize = 1048576"
definition maxObjectSize :: int where "maxObjectSize = 67108864"

definition limit_read :: "int \<Rightarrow> bytes \<Rightarrow> bytes" where
  \<comment> \<open>\<open>io.ReadAll(io.LimitReader(r, n))\<close>\<close>
  "limit_read n object = (if int (length object) \<le> n then object else take (nat n) object)"

definition MinIOReader_Get :: "loader_env \<Rightarrow> string \<Rightarrow> string \<Rightarrow> werror + bytes" where
  "MinIOReader_Get env bucket key =
     (case le_get_object env bucket key of
        Inl err \<Rightarrow> Inl (NewSystemError ''JUDGE_INPUT_STORE_UNAVAILABLE'' True (Some (PlainError err)))
      | Inr object \<Rightarrow>
          (let content = limit_read (maxObjectSize + 1) object
           in guardE (int (length content) > maxObjectSize)
                (NewSystemError ''JUDGE_INPUT_TOO_LARGE'' False
                   (Some (PlainError (''object exceeds '' @ format_int maxObjectSize @ '' bytes''))))
                (Inr content)))"

definition loader_read :: "loader_env \<Rightarrow> string \<Rightarrow> string \<Rightarrow> werror + bytes" where
  "loader_read env bucket key =
     (case MinIOReader_Get env bucket key of
        Inr content \<Rightarrow> Inr content
      | Inl (SystemError r b e) \<Rightarrow> Inl (SystemError r b e)
      | Inl (PlainError e) \<Rightarrow> Inl (NewSystemError ''JUDGE_INPUT_STORE_UNAVAILABLE'' True (Some (PlainError e))))"

definition verifyObject :: "loader_env \<Rightarrow> bytes \<Rightarrow> string \<Rightarrow> int64 \<Rightarrow> werror option" where
  "verifyObject env content expectedHash expectedSize =
     (if int (length content) \<noteq> expectedSize
      then Some (PlainError (''size mismatch: got '' @ format_int (int (length content)) @ '' want ''
                   @ format_int expectedSize))
      else if \<not> equal_fold (hex_encode (le_sha256 env content)) expectedHash
      then Some (PlainError ''sha256 mismatch'')
      else None)"

definition source_extensions :: "(string \<times> string) list" where
  "source_extensions = [(''c'', ''c''), (''go'', ''go''), (''cpp'', ''cpp''), (''python'', ''py''), (''java'', ''java'')]"

definition validateSourceKey :: "loader_env \<Rightarrow> string \<Rightarrow> string \<Rightarrow> werror option" where
  "validateSourceKey env key language =
     (if length key > 512 \<or> has_prefix key ''/'' \<or> contains_sub key [CHR 0x5C] \<or> contains_sub key ''..''
      then Some (PlainError ''invalid source object key'')
      else
        (let parts = split_on (CHR ''/'') key
         in case map_of source_extensions (to_lower (trim_space language)) of
              None \<Rightarrow> Some (PlainError ''source object key extension mismatch'')
            | Some ext \<Rightarrow>
                if length parts \<noteq> 3 \<or> parts ! 0 \<noteq> ''sources'' \<or> parts ! 2 \<noteq> ''source.'' @ ext
                then Some (PlainError ''source object key extension mismatch'')
                else if \<not> le_ulid_ok env (parts ! 1) then Some (PlainError ''invalid source object id'')
                else None))"

definition testcase_prefix :: "JudgeTask \<Rightarrow> string" where
  "testcase_prefix task =
     ''problem-'' @ format_int (jt_ProblemID task) @ ''/judge-revisions/'' @ jt_JudgeRevision task @ ''/testcases/''"

definition load_object :: "loader_env \<Rightarrow> string \<Rightarrow> ManifestObject \<Rightarrow> werror + bytes" where
  \<comment> \<open>one test case object: read and verify\<close>
  "load_object env bucket object =
     bindE (loader_read env bucket (ob_ObjectKey object)) (\<lambda>content.
       case verifyObject env content (ob_SHA256 object) (ob_SizeBytes object) of
         Some e \<Rightarrow> Inl (NewSystemError ''TESTCASE_INTEGRITY_FAILED'' False (Some e))
       | None \<Rightarrow> Inr content)"

fun load_cases ::
  "loader_env \<Rightarrow> Loader \<Rightarrow> JudgeTask \<Rightarrow> int32 option \<Rightarrow> ManifestTestcase list \<Rightarrow> werror + LoadedCase list" where
  \<comment> \<open>the loop over the test cases; the option is the previous case number\<close>
  "load_cases env l task prev [] = Inr []"
| "load_cases env l task prev (testcase # rest) =
     (let no = format_int (mt_CaseNo testcase)
      in guardE (case prev of None \<Rightarrow> False | Some p \<Rightarrow> p \<ge> mt_CaseNo testcase)
           (NewSystemError ''INVALID_JUDGE_MANIFEST'' False
              (Some (PlainError ''testcases must be ordered by case number'')))
         (guardE (ob_ObjectKey (mt_Input testcase) \<noteq> testcase_prefix task @ no @ ''.in''
                  \<or> ob_ObjectKey (mt_Output testcase) \<noteq> testcase_prefix task @ no @ ''.out'')
           (NewSystemError ''INVALID_JUDGE_MANIFEST'' False
              (Some (PlainError (''testcase '' @ no @ '' object key mismatch''))))
         (bindE (load_object env (ld_problemBucket l) (mt_Input testcase)) (\<lambda>input.
          bindE (load_object env (ld_problemBucket l) (mt_Output testcase)) (\<lambda>output.
          bindE (load_cases env l task (Some (mt_CaseNo testcase)) rest) (\<lambda>cases.
            Inr (\<lparr>lc_CaseNo = mt_CaseNo testcase, lc_Input = input, lc_Expected = output\<rparr> # cases)))))))"

definition load_manifest :: "loader_env \<Rightarrow> Loader \<Rightarrow> JudgeTask \<Rightarrow> werror + Manifest" where
  "load_manifest env l task =
     (case ManifestObjectKey (jt_ProblemID task) (jt_JudgeRevision task) of
        Inl e \<Rightarrow> Inl (NewSystemError ''INVALID_JUDGE_MANIFEST'' False (Some (PlainError e)))
      | Inr manifestKey \<Rightarrow>
          bindE (loader_read env (ld_problemBucket l) manifestKey) (\<lambda>manifestBytes.
            case Option.bind (le_json env manifestBytes) dec_Manifest of
              None \<Rightarrow> Inl (NewSystemError ''INVALID_JUDGE_MANIFEST'' False
                             (Some (PlainError ''invalid manifest document'')))
            | Some manifest \<Rightarrow>
                (case Manifest_Validate manifest of
                   Some e \<Rightarrow> Inl (NewSystemError ''INVALID_JUDGE_MANIFEST'' False (Some (PlainError e)))
                 | None \<Rightarrow>
                     guardE (mf_ProblemID manifest \<noteq> jt_ProblemID task
                             \<or> mf_JudgeRevision manifest \<noteq> jt_JudgeRevision task)
                       (NewSystemError ''INVALID_JUDGE_MANIFEST'' False None) (Inr manifest))))"

definition Loader_Load :: "loader_env \<Rightarrow> Loader \<Rightarrow> JudgeTask \<Rightarrow> werror + LoadedTask" where
  "Loader_Load env l task =
     (case JudgeTask_Validate task of
        Some e \<Rightarrow> Inl (NewSystemError ''INVALID_TASK_INPUT'' False (Some (PlainError e)))
      | None \<Rightarrow>
     (case validateSourceKey env (jt_SourceObjectKey task) (jt_Language task) of
        Some e \<Rightarrow> Inl (NewSystemError ''SOURCE_INTEGRITY_FAILED'' False (Some e))
      | None \<Rightarrow>
     guardE (jt_SourceSizeBytes task > maxSourceSize)
       (NewSystemError ''SOURCE_INTEGRITY_FAILED'' False
          (Some (PlainError (''source exceeds '' @ format_int maxSourceSize @ '' bytes''))))
     (bindE (loader_read env (ld_sourceBucket l) (jt_SourceObjectKey task)) (\<lambda>source.
      case verifyObject env source (jt_SourceSHA256 task) (jt_SourceSizeBytes task) of
        Some e \<Rightarrow> Inl (NewSystemError ''SOURCE_INTEGRITY_FAILED'' False (Some e))
      | None \<Rightarrow>
      bindE (load_manifest env l task) (\<lambda>manifest.
      bindE (load_cases env l task None (mf_Testcases manifest)) (\<lambda>cases.
        Inr \<lparr>lt_Task = task, lt_Source = source, lt_Manifest = manifest, lt_Cases = cases\<rparr>))))))"

definition worker_engine :: "worker_env \<Rightarrow> loader_env \<Rightarrow> Loader \<Rightarrow> GoConfig \<Rightarrow> history engine" where
  \<comment> \<open>the engine as \<open>cmd/judge-worker/wire_gen.go\<close> puts it together\<close>
  "worker_engine env lenv l config =
     NewEngineWithRunners (\<lambda>task h. (Loader_Load lenv l task, h)) (NewLanguageRunnersFromConfig env config)
       (read_clock env)"

section \<open>Lemmas\<close>

lemma loader_read_short:
  assumes "loader_read env b k = Inl err"
  shows "short_reason err"
proof -
  have "short_reason e" if "MinIOReader_Get env b k = Inl e" for e
    using that by (auto simp: MinIOReader_Get_def Let_def guardE_def short_reason_new
        split: sum.splits if_splits)
  with assms show ?thesis
    by (auto simp: loader_read_def short_reason_new split: sum.splits werror.splits)
qed

lemma load_object_Inl: "load_object env b ob = Inl err \<Longrightarrow> short_reason err"
  by (auto simp: load_object_def bindE_def short_reason_new dest: loader_read_short
      split: sum.splits option.splits)

lemma load_cases_Inl: "load_cases env l task prev ts = Inl err \<Longrightarrow> short_reason err"
  by (induction env l task prev ts rule: load_cases.induct)
    (auto simp: Let_def guardE_def bindE_def short_reason_new dest: load_object_Inl
      split: sum.splits option.splits if_splits)

lemma load_manifest_Inl: "load_manifest env l task = Inl err \<Longrightarrow> short_reason err"
  by (auto simp: load_manifest_def bindE_def guardE_def short_reason_new dest: loader_read_short
      split: sum.splits option.splits if_splits)

lemma Loader_Load_Inl: "Loader_Load env l task = Inl err \<Longrightarrow> short_reason err"
  by (auto simp: Loader_Load_def bindE_def guardE_def short_reason_new
      dest: loader_read_short load_manifest_Inl load_cases_Inl split: sum.splits option.splits if_splits)

lemma verifyObject_None:
  "verifyObject env content h n = None \<longleftrightarrow>
     int (length content) = n \<and> equal_fold (hex_encode (le_sha256 env content)) h"
  by (simp add: verifyObject_def)

lemma loader_read_Inr:
  "loader_read env b k = Inr content \<Longrightarrow> \<exists>object. le_get_object env b k = Inr object \<and> content = object"
  by (auto simp: loader_read_def MinIOReader_Get_def maxObjectSize_def limit_read_def Let_def
      split: sum.splits werror.splits)

end
