(* ===== verification/Worker_Examples.thy ===== *)
theory Worker_Examples
  imports Worker_Loader
begin

text \<open>
  A small world for the judge worker, used by the witnesses: a store that holds the objects of one task
  in C with two test cases, and a sandbox with fixed answers.
\<close>

section \<open>Definitions\<close>

definition demo_revision26 :: string where
  "demo_revision26 = replicate 26 (CHR ''A'')"

definition demo_digest :: string where
  "demo_digest = replicate 64 (CHR ''0'')"

definition demo_work :: JudgeTask where
  "demo_work = \<lparr>jt_SubmissionID = 7, jt_ProblemID = 3, jt_Language = ''c'', jt_JudgeRevision = demo_revision26,
     jt_SourceObjectKey = ''sources/X/source.c'', jt_SourceSHA256 = demo_digest, jt_SourceSizeBytes = 4,
     jt_JudgeDeadlineAt = 1000, jt_Attempt = 0\<rparr>"

definition demo_object :: "string \<Rightarrow> int \<Rightarrow> ManifestObject" where
  "demo_object name n = \<lparr>ob_ObjectKey = testcase_prefix demo_work @ name, ob_SHA256 = demo_digest,
     ob_SizeBytes = n\<rparr>"

definition demo_testcase :: "int \<Rightarrow> ManifestTestcase" where
  "demo_testcase n = \<lparr>mt_CaseNo = n, mt_Input = demo_object (format_int n @ ''.in'') 1,
     mt_Output = demo_object (format_int n @ ''.out'') 2\<rparr>"

definition demo_manifest :: Manifest where
  "demo_manifest = \<lparr>mf_ManifestVersion = 1, mf_ProblemID = 3, mf_JudgeRevision = demo_revision26,
     mf_TimeLimitMS = 1000, mf_MemoryLimitKB = 65536, mf_Testcases = [demo_testcase 1, demo_testcase 2]\<rparr>"

definition demo_store :: loader_env where
  "demo_store = \<lparr>le_get_object = (\<lambda>b k. if b = ''src'' then Inr ''main'' else if has_prefix (rev k) (rev ''.in'')
       then Inr ''i'' else if has_prefix (rev k) (rev ''.out'') then Inr ''42'' else Inr ''m''),
     le_sha256 = (\<lambda>b. replicate 32 (CHR 0x00)), le_ulid_ok = (\<lambda>s. True),
     le_json = (\<lambda>b. Some (enc_Manifest demo_manifest))\<rparr>"

definition demo_buckets :: Loader where
  "demo_buckets = \<lparr>ld_sourceBucket = ''src'', ld_problemBucket = ''prob''\<rparr>"

definition demo_answer :: "pb_status \<Rightarrow> bytes \<Rightarrow> bytes \<Rightarrow> pb_response" where
  "demo_answer status out err = \<lparr>pb_ResponseError = [], pb_Results = [\<lparr>pb_Status = status, pb_ExitStatus = 0,
     pb_Error = [], pb_Time = 1500000, pb_RunTime = 0, pb_Memory = 2048, pb_Files = [(''stdout'', out), (''stderr'', err)],
     pb_FileIDs = [(''main'', ''F1'')]\<rparr>]\<rparr>"

definition demo_world :: "pb_response \<Rightarrow> pb_response \<Rightarrow> worker_env" where
  \<comment> \<open>the answers to a compilation and to a run\<close>
  "demo_world compile run = \<lparr>we_now = (\<lambda>h. 5),
     we_exec = (\<lambda>h cmd. Inr (if cmd_CopyOutCached cmd \<noteq> [] then compile else run)),
     we_delete = (\<lambda>h f. None), we_publish = (\<lambda>h r b. None), we_ack = (\<lambda>h. None),
     we_uuid = (\<lambda>h. ''u''), we_trace = (\<lambda>h. ([], []))\<rparr>"

definition demo_go :: GoConfig where
  "demo_go = \<lparr>gc_CompilerPath = [], gc_CompileTimeLimit = 0, gc_CompileMemoryBytes = 0,
     gc_CompileOutputBytes = 0, gc_ProcessLimit = 0, gc_OutputLimitBytes = 0\<rparr>"

definition demo_engine :: "pb_response \<Rightarrow> pb_response \<Rightarrow> history engine" where
  "demo_engine compile run = worker_engine (demo_world compile run) demo_store demo_buckets demo_go"

definition demo_cases :: "LoadedCase list" where
  "demo_cases = [\<lparr>lc_CaseNo = 1, lc_Input = ''i'', lc_Expected = ''42''\<rparr>,
     \<lparr>lc_CaseNo = 2, lc_Input = ''i'', lc_Expected = ''42''\<rparr>]"

definition demo_loaded :: LoadedTask where
  "demo_loaded = \<lparr>lt_Task = demo_work, lt_Source = ''main'', lt_Manifest = demo_manifest, lt_Cases = demo_cases\<rparr>"

definition demo_gcc :: CommandRunner where
  "demo_gcc = NewCommandRunner ''c'' ''/usr/bin/gcc'' ''main.c'' ''main''
     (\<lambda>source. [''-std=c17'', ''-O2'', ''-pipe'', ''-o'', ''main'', source])"

abbreviation demo_env :: "pb_status \<Rightarrow> bytes \<Rightarrow> bytes \<Rightarrow> worker_env" where
  "demo_env s err out \<equiv> demo_world (demo_answer s [] err) (demo_answer PbAccepted out [])"

section \<open>Lemmas\<close>

lemma demo_digest_ok: "equal_fold (hex_encode (le_sha256 demo_store c)) demo_digest"
proof -
  have "hex_encode (replicate 32 (CHR 0x00)) = demo_digest" unfolding demo_digest_def by code_simp
  then show ?thesis by (simp add: demo_store_def)
qed

lemma demo_hex: "hex_decoded_length demo_digest = Some 32"
  unfolding demo_digest_def by code_simp

lemma demo_key_ok: "validateSourceKey demo_store ''sources/X/source.c'' ''c'' = None"
  by code_simp

lemma demo_work_valid: "JudgeTask_Validate demo_work = None"
  by code_simp

lemma demo_work_simps [simp]:
  "jt_SourceObjectKey demo_work = ''sources/X/source.c''" "jt_Language demo_work = ''c''"
  "jt_SourceSHA256 demo_work = demo_digest" "jt_SourceSizeBytes demo_work = 4" "jt_ProblemID demo_work = 3"
  "jt_JudgeRevision demo_work = demo_revision26" "jt_JudgeDeadlineAt demo_work = 1000" "jt_Attempt demo_work = 0"
  "jt_SubmissionID demo_work = 7"
  "ld_sourceBucket demo_buckets = ''src''" "ld_problemBucket demo_buckets = ''prob''"
  by (simp_all add: demo_work_def demo_buckets_def)

lemma demo_manifest_valid: "Manifest_Validate demo_manifest = None"
  by (simp add: Manifest_Validate_def demo_manifest_def ManifestVersion_def demo_revision26_def
      demo_testcase_def demo_object_def Object_validate_def demo_hex testcase_prefix_def)

lemma demo_manifest_ranges: "manifest_ranges demo_manifest"
  by (simp add: manifest_ranges_def demo_manifest_def testcase_ranges_def demo_testcase_def
      demo_object_def max_int32_def max_int64_def min_int64_def)

lemma demo_read:
  "loader_read demo_store ''prob'' (testcase_prefix demo_work @ n @ ''.in'') = Inr ''i''"
  "loader_read demo_store ''prob'' (testcase_prefix demo_work @ n @ ''.out'') = Inr ''42''"
  "loader_read demo_store ''src'' k = Inr ''main''"
  "\<exists>b. loader_read demo_store ''prob'' k = Inr b"
  by (simp_all add: loader_read_def MinIOReader_Get_def demo_store_def limit_read_def has_prefix_def
      maxObjectSize_def Let_def)

lemma demo_load_cases:
  "load_cases demo_store demo_buckets demo_work None [demo_testcase 1, demo_testcase 2] = Inr demo_cases"
  by (simp add: demo_testcase_def demo_object_def load_object_def demo_read verifyObject_def
      demo_digest_ok demo_cases_def)

lemma demo_load_manifest: "load_manifest demo_store demo_buckets demo_work = Inr demo_manifest"
proof -
  obtain k where k: "ManifestObjectKey (jt_ProblemID demo_work) (jt_JudgeRevision demo_work) = Inr k"
    by (simp add: ManifestObjectKey_def demo_revision26_def)
  obtain b where b: "loader_read demo_store ''prob'' k = Inr b" using demo_read(4) by blast
  have "mf_ProblemID demo_manifest = 3" "mf_JudgeRevision demo_manifest = demo_revision26"
    "le_json demo_store b = Some (enc_Manifest demo_manifest)"
    by (simp_all add: demo_manifest_def demo_store_def)
  with k b show ?thesis
    by (simp add: load_manifest_def dec_enc_Manifest demo_manifest_ranges demo_manifest_valid)
qed

lemma demo_load: "Loader_Load demo_store demo_buckets demo_work = Inr demo_loaded"
proof -
  have "mf_Testcases demo_manifest = [demo_testcase 1, demo_testcase 2]" by (simp add: demo_manifest_def)
  then show ?thesis
    by (simp add: Loader_Load_def demo_work_valid demo_load_manifest demo_load_cases demo_key_ok demo_read
        verifyObject_def demo_digest_ok maxSourceSize_def demo_loaded_def del: load_cases.simps)
qed

lemma demo_loaded_valid: "validateLoadedTask demo_work demo_loaded = Inr demo_loaded"
  by (simp add: validateLoadedTask_def demo_manifest_valid demo_loaded_def)
    (simp add: demo_manifest_def demo_testcase_def demo_cases_def)

lemma demo_answer_simps [simp]:
  "length (pb_Results (demo_answer s out err)) = 1" "pb_ResponseError (demo_answer s out err) = []"
  by (simp_all add: demo_answer_def)

lemma demo_execute_request:
  assumes "buildRequest rq = Inr cmd" and "rq_Args rq \<noteq> []" "rq_OutputLimit rq \<noteq> 0" "rq_ProcessLimit rq \<noteq> 0"
  shows "GoJudge_Execute (demo_world (demo_answer s out err) (demo_answer s' out' err')) rq h
    = (Inr (result_of_pb (hd (pb_Results (if rq_CacheOut rq \<noteq> [] then demo_answer s out err
         else demo_answer s' out' err')))), h @ [CallExec cmd])"
  using assms buildRequest_Inr [OF assms(1)] by (simp add: GoJudge_Execute_def demo_world_def)

lemma demo_gcc_compile_request:
  "\<exists>cmd. buildRequest (command_compile_request demo_gcc ''main'') = Inr cmd"
  by (simp add: buildRequest_def guardE_def command_compile_request_def demo_gcc_def NewCommandRunner_def
      trim_space_def trim_right_of_def is_space_def)

lemma demo_gcc_run_request:
  "\<exists>cmd. buildRequest (command_run_request demo_gcc \<lparr>art_ID = ''F1''\<rparr> input limits) = Inr cmd"
  by (simp add: buildRequest_def guardE_def command_run_request_def demo_gcc_def NewCommandRunner_def
      trim_space_def trim_right_of_def is_space_def)

lemma demo_compile:
  "\<exists>cmd. GoJudge_Execute (demo_env s err out) (command_compile_request demo_gcc ''main'') h
    = (Inr (result_of_pb (hd (pb_Results (demo_answer s [] err)))), h @ [CallExec cmd])"
proof -
  obtain cmd where "buildRequest (command_compile_request demo_gcc ''main'') = Inr cmd"
    using demo_gcc_compile_request by blast
  from demo_execute_request [OF this, of s "[]" err PbAccepted out "[]"] show ?thesis
    by (simp add: command_compile_request_def demo_gcc_def NewCommandRunner_def)
qed

lemma demo_compiled:
  "\<exists>cmd. lr_Compile (command_runner (demo_env PbAccepted err out) demo_gcc) ''main'' h
    = (Inr \<lparr>co_Artifact = \<lparr>art_ID = ''F1''\<rparr>, co_Verdict = VerdictAC, co_Message = []\<rparr>, h @ [CallExec cmd])"
proof -
  obtain cmd where c: "GoJudge_Execute (demo_env PbAccepted err out) (command_compile_request demo_gcc ''main'') h
    = (Inr (result_of_pb (hd (pb_Results (demo_answer PbAccepted [] err)))), h @ [CallExec cmd])"
    using demo_compile by blast
  have "cm_compiler demo_gcc \<noteq> []" "cm_sourceName demo_gcc \<noteq> []" "cm_artifactName demo_gcc = ''main''"
    by (simp_all add: demo_gcc_def NewCommandRunner_def)
  with c show ?thesis
    by (simp add: command_runner_def CommandRunner_Compile_def)
      (simp add: result_of_pb_def demo_answer_def map_get_def)
qed

lemma demo_program_run:
  assumes "0 < rl_TimeLimit limits" "rl_MemoryBytes limits \<noteq> 0"
  shows "\<exists>cmd. lr_Run (command_runner (demo_env s err out) demo_gcc) \<lparr>art_ID = ''F1''\<rparr> input limits h
    = (Inr \<lparr>er_Verdict = VerdictAC, er_Time = 1500000, er_Memory = 2048, er_Output = out, er_Message = []\<rparr>,
       h @ [CallExec cmd])"
proof -
  let ?rq = "command_run_request demo_gcc \<lparr>art_ID = ''F1''\<rparr> input limits"
  obtain cmd where "buildRequest ?rq = Inr cmd" using demo_gcc_run_request by blast
  from demo_execute_request [OF this, of s "[]" err PbAccepted out "[]"]
  have "GoJudge_Execute (demo_env s err out) ?rq h
    = (Inr (result_of_pb (hd (pb_Results (demo_answer PbAccepted out [])))), h @ [CallExec cmd])"
    by (simp add: command_run_request_def demo_gcc_def NewCommandRunner_def runArgs_def)
  moreover have "wrap64 1500000 = 1500000" by (simp add: wrap64_def)
  ultimately show ?thesis
    using assms by (simp add: command_runner_def CommandRunner_Run_def)
      (simp add: result_of_pb_def demo_answer_def map_get_def execution_result_def)
qed

lemma demo_limits: "0 < rl_TimeLimit (case_limits demo_manifest)" "rl_MemoryBytes (case_limits demo_manifest) \<noteq> 0"
  by (simp_all add: case_limits_def demo_manifest_def to_uint64_def Millisecond_def)

lemma demo_engine_simps [simp]:
  "eg_loader (demo_engine c r) = Some (\<lambda>task h. (Loader_Load demo_store demo_buckets task, h))"
  "eg_comparator (demo_engine c r) = Some Equal" "eg_now (demo_engine c r) h = (5, h @ [CallNow])"
  "select_runner (demo_engine c r) ''c'' = Some (command_runner (demo_world c r) demo_gcc)"
  by (simp_all add: demo_engine_def worker_engine_def NewEngineWithRunners_def read_clock_def demo_world_def
      select_runner_def NewLanguageRunnersFromConfig_def demo_gcc_def)

lemma demo_wrong_answer:
  "\<exists>c1 c2. Execute (demo_engine (demo_answer PbAccepted [] []) (demo_answer PbAccepted ''7'' [])) demo_work []
    = (completed demo_work VerdictWA 2 2
         [\<lparr>cr_CaseNo = 1, cr_Verdict = VerdictWA, cr_TimeMS = 2, cr_MemoryKB = 2, cr_Message = []\<rparr>],
       [CallNow, CallExec c1, CallNow, CallExec c2, CallFileDelete ''F1''])"
proof -
  let ?env = "demo_env PbAccepted [] ''7''"
  let ?e = "demo_engine (demo_answer PbAccepted [] []) (demo_answer PbAccepted ''7'' [])"
  obtain c1 where c1: "lr_Compile (command_runner ?env demo_gcc) ''main'' [CallNow]
    = (Inr \<lparr>co_Artifact = \<lparr>art_ID = ''F1''\<rparr>, co_Verdict = VerdictAC, co_Message = []\<rparr>, [CallNow] @ [CallExec c1])"
    using demo_compiled by blast
  obtain c2 where c2: "lr_Run (command_runner ?env demo_gcc) \<lparr>art_ID = ''F1''\<rparr> ''i'' (case_limits demo_manifest)
      [CallNow, CallExec c1, CallNow]
    = (Inr \<lparr>er_Verdict = VerdictAC, er_Time = 1500000, er_Memory = 2048, er_Output = ''7'', er_Message = []\<rparr>,
       [CallNow, CallExec c1, CallNow] @ [CallExec c2])"
    using demo_program_run [OF demo_limits] by blast
  have d: "lr_DeleteArtifact (command_runner ?env demo_gcc) \<lparr>art_ID = ''F1''\<rparr> h = (None, h @ [CallFileDelete ''F1''])"
    for h
    by (simp add: command_runner_def runner_DeleteArtifact_def GoJudge_DeleteFile_def demo_world_def
        trim_space_def trim_right_of_def is_space_def)
  have v: "\<not> Equal ''42'' ''7''" by code_simp
  have t: "durationMilliseconds 1500000 = 2" "bytesKilobytes 2048 = 2" by code_simp+
  have l: "lt_Source demo_loaded = ''main''" "lt_Cases demo_loaded = demo_cases"
    "lt_Manifest demo_loaded = demo_manifest"
    by (simp_all add: demo_loaded_def)
  show ?thesis
    by (intro exI [of _ c1] exI [of _ c2])
      (simp add: Execute_def demo_work_valid demo_load demo_loaded_valid l c1 judge_compiled_def
        executeCases_def demo_cases_def c2 case_verdict_def v case_result_def t cleanup_def d
        validExecutionVerdict_def completed_def)
qed

end
