(* ===== verification/Worker_Engine_Props.thy ===== *)
theory Worker_Engine_Props
  imports Worker_Examples
begin

text \<open>
  What the judge worker's engine guarantees, with its loader, its runners and the sandbox client
  underneath: verdicts, cleanup of compiled artifacts, the shape of outcomes, integrity of the inputs.
\<close>

section \<open>Definitions\<close>

text \<open>
  What go-judge reports about time and memory is below the wrap-around of Go's rounding: CPU time in
  nanoseconds below \<open>2 ^ 63 - 10 ^ 6\<close>, memory in bytes below \<open>2 ^ 64 - 1023\<close>.
\<close>

definition sane_sandbox :: "worker_env \<Rightarrow> bool" where
  "sane_sandbox env \<longleftrightarrow>
     (\<forall>h cmd response r. we_exec env h cmd = Inr response \<longrightarrow> r \<in> set (pb_Results response) \<longrightarrow>
        0 \<le> pb_Time r \<and> pb_Time r \<le> max_int64 - 999999
        \<and> 0 \<le> pb_Memory r \<and> pb_Memory r < 18446744073709551616 - 1023)"

section \<open>Lemmas\<close>

lemma worker_engine_select:
  "select_runner (worker_engine env lenv l config) language = Some runner \<Longrightarrow>
    language_runner runner (cached_files env) deletions"
  by (auto simp: select_runner_def worker_engine_def NewEngineWithRunners_def language_runners_ok
      split: option.splits)

lemma worker_engine_simps [simp]:
  "eg_now (worker_engine env lenv l config) h = (we_now env h, h @ [CallNow])"
  "eg_loader (worker_engine env lenv l config) = Some (\<lambda>task h. (Loader_Load lenv l task, h))"
  "eg_comparator (worker_engine env lenv l config) = Some Equal"
  by (simp_all add: worker_engine_def NewEngineWithRunners_def read_clock_def)

lemma engine_observes:
  assumes "Execute (worker_engine env lenv l config) task h = (o1, h')"
  shows "\<exists>ids. cached_files env h' = cached_files env h @ ids \<and> deletions h' = deletions h @ ids"
  using assms
proof (cases rule: Execute_cases)
  case (not_compiled load runner t w1 loaded0 w2 loaded err)
  note lr = worker_engine_select [OF not_compiled(2)]
  from not_compiled language_runner.compile_error [OF lr not_compiled(6)]
    language_runner.compile_deletes [OF lr not_compiled(6)]
  show ?thesis by (auto intro: exI [of _ "[]"])
next
  case (compiled load equal runner t w1 loaded0 w2 loaded c w3)
  note lr = worker_engine_select [OF compiled(3)]
  have w2: "w2 = h @ [CallNow]" using compiled(1,4,7) by auto
  have now: "cached_files env w' = cached_files env w \<and> deletions w' = deletions w"
    if "eg_now (worker_engine env lenv l config) w = (t, w')" for w t w'
    using that by auto
  from language_runner.judge_compiled_observes [OF lr now compiled(10)]
    language_runner.compile_caches [OF lr compiled(9)] language_runner.compile_deletes [OF lr compiled(9)] w2
  show ?thesis by (intro exI [of _ "file_ids [art_ID (co_Artifact c)]"]) auto
qed (auto intro: exI [of _ "[]"])

lemma engine_shape:
  assumes "Execute (worker_engine env lenv l config) task h = (o1, h')"
  shows "outcome_shape task o1"
  using assms
proof (cases rule: Execute_cases)
  case (not_loaded load t w1 err)
  then show ?thesis by (auto dest: Loader_Load_Inl)
next
  case (invalid load t w1 loaded0 err)
  then show ?thesis by (auto dest: validateLoadedTask_Inl)
next
  case (not_compiled load runner t w1 loaded0 w2 loaded err)
  from language_runner.compile_error [OF worker_engine_select [OF not_compiled(2)] not_compiled(6)]
    not_compiled(7)
  show ?thesis by simp
next
  case (compiled load equal runner t w1 loaded0 w2 loaded c w3)
  from language_runner.judge_compiled_shape [OF worker_engine_select [OF compiled(3)] compiled(10)]
  show ?thesis .
qed simp_all

lemma GoJudge_Execute_sane:
  assumes "sane_sandbox env" and "GoJudge_Execute env rq h = (Inr result, h')"
  shows "0 \<le> rs_Time result \<and> rs_Time result \<le> max_int64 - 999999
    \<and> 0 \<le> rs_Memory result \<and> rs_Memory result < 18446744073709551616 - 1023"
proof -
  obtain cmd response where a: "we_exec env h cmd = Inr response" "length (pb_Results response) = 1"
    "result = result_of_pb (hd (pb_Results response))"
    using assms(2) by (auto simp: GoJudge_Execute_def Let_def split: if_splits sum.splits)
  then have "hd (pb_Results response) \<in> set (pb_Results response)" by (cases "pb_Results response") auto
  then have "0 \<le> pb_Time (hd (pb_Results response)) \<and> pb_Time (hd (pb_Results response)) \<le> max_int64 - 999999
    \<and> 0 \<le> pb_Memory (hd (pb_Results response))
    \<and> pb_Memory (hd (pb_Results response)) < 18446744073709551616 - 1023"
    using assms(1) a(1) unfolding sane_sandbox_def by blast
  then show ?thesis by (simp add: a(3) result_of_pb_def wrap64_id min_int64_def max_int64_def)
qed

lemma runner_sane:
  assumes "sane_sandbox env" and "NewLanguageRunnersFromConfig env config language = Some runner"
    and "lr_Run runner a input limits h = (Inr run, h')"
  shows "er_Time run \<le> max_int64 - 999999 \<and> 0 \<le> er_Memory run \<and> er_Memory run < 18446744073709551616 - 1023"
proof -
  from assms(2) consider (go) config' where "runner = GoRunner env config'"
    | (command) r where "runner = command_runner env r"
    by (auto simp: NewLanguageRunnersFromConfig_def split: if_splits)
  then obtain f rq result h1 where "GoJudge_Execute env rq h = (Inr result, h1)"
    "execution_result f result = Inr run"
  proof cases
    case go
    with assms(3) that show ?thesis
      by (auto simp: GoRunner_def GoRunner_Run_def split: if_splits prod.splits sum.splits)
  next
    case command
    with assms(3) that show ?thesis
      by (auto simp: command_runner_def CommandRunner_Run_def split: if_splits prod.splits sum.splits)
  qed
  with GoJudge_Execute_sane [OF assms(1)] execution_result_Inr show ?thesis by metis
qed

lemma list_all2_map_eq: "list_all2 P xs ys \<Longrightarrow> (\<And>x y. P x y \<Longrightarrow> g y = f x) \<Longrightarrow> map g ys = map f xs"
  by (induction rule: list_all2_induct) auto

lemma list_all2_set2_obtain: "list_all2 P xs ys \<Longrightarrow> y \<in> set ys \<Longrightarrow> \<exists>x \<in> set xs. P x y"
  by (induction rule: list_all2_induct) auto

lemma completed_valid:
  assumes "sane_sandbox env" and "JudgeTask_Validate task = None"
    and "Execute (worker_engine env lenv l config) task h = (o1, h')" and "ou_Completed o1 = Some c"
  shows "JudgeCompleted_Validate c = None"
  using assms(3)
proof (cases rule: Execute_cases)
  case (compiled load equal runner t w1 loaded0 w2 loaded cr w3)
  note task = assms(2) [unfolded JudgeTask_Validate_def]
  show ?thesis
  proof (cases "co_Verdict cr = VerdictCE")
    case True
    with compiled(10) assms(4) task show ?thesis
      by (auto simp: judge_compiled_def cleanup_def completed_def JudgeCompleted_Validate_def
          split: prod.splits if_splits option.splits)
  next
    case False
    with compiled(10) assms(4) obtain o0 w4 where run: "run_cases (eg_now (worker_engine env lenv l config))
        equal runner task (co_Artifact cr) (case_limits (lt_Manifest loaded)) 0 0 [] (lt_Cases loaded) w3 = (o0, w4)"
        "ou_Completed o0 = Some c"
      by (auto simp: judge_compiled_def executeCases_def cleanup_def
          split: prod.splits if_splits option.splits)
    from run_cases_completed [OF this] obtain rs where rs: "jc_CaseResults c = rs"
      "list_all2 (case_judged equal runner (co_Artifact cr) (case_limits (lt_Manifest loaded)))
        (take (length rs) (lt_Cases loaded)) rs"
      "jc_TimeMS c = fold max (map cr_TimeMS rs) 0" "jc_MemoryKB c = fold max (map cr_MemoryKB rs) 0"
      "\<forall>r \<in> set rs. validExecutionVerdict (cr_Verdict r)" "validExecutionVerdict (jc_Verdict c)"
      "jc_SubmissionID c = jt_SubmissionID task" "jc_JudgeRevision c = jt_JudgeRevision task"
      by auto
    have runner: "NewLanguageRunnersFromConfig env config (jt_Language task) = Some runner"
      using compiled(3) by (auto simp: select_runner_def worker_engine_def NewEngineWithRunners_def
          split: option.splits)
    note valid = validateLoadedTask_Inr [OF compiled(8)]
    have nums: "map cr_CaseNo rs = map lc_CaseNo (take (length rs) (lt_Cases loaded))"
      by (rule list_all2_map_eq [OF rs(2)]) (auto simp: case_judged_def)
    have each: "0 < cr_CaseNo r \<and> validVerdict (cr_Verdict r) \<and> 0 \<le> cr_TimeMS r \<and> 0 \<le> cr_MemoryKB r"
      if r: "r \<in> set rs" for r
    proof -
      from r rs(2) obtain tc where tc: "tc \<in> set (lt_Cases loaded)"
        "case_judged equal runner (co_Artifact cr) (case_limits (lt_Manifest loaded)) tc r"
        by (meson in_set_takeD list_all2_set2_obtain)
      then obtain rn w w' where rn: "lr_Run runner (co_Artifact cr) (lc_Input tc) (case_limits (lt_Manifest loaded)) w
          = (Inr rn, w')" and req: "r = case_result tc (case_verdict equal tc rn) rn"
        by (auto simp: case_judged_def)
      from runner_sane [OF assms(1) runner rn]
      have "0 \<le> cr_TimeMS r \<and> 0 \<le> cr_MemoryKB r"
        by (auto simp: req case_result_def durationMilliseconds_exact bytesKilobytes_exact max_int32_def)
      with r rs(5) tc(1) valid show ?thesis
        by (auto simp: validExecutionVerdict_valid req)
    qed
    have "distinct (map cr_CaseNo rs)" using valid unfolding nums by (metis distinct_take take_map)
    then have "validate_case_results [] rs = None" using each by (intro validate_case_results_ok) auto
    with rs task fold_max_ge show ?thesis
      by (auto simp: JudgeCompleted_Validate_def validExecutionVerdict_valid leD split: if_splits)
  qed
qed (use assms(4) in auto)

lemma load_object_Inr:
  "load_object env b ob = Inr content \<Longrightarrow> int (length content) = ob_SizeBytes ob
     \<and> equal_fold (hex_encode (le_sha256 env content)) (ob_SHA256 ob)"
  by (auto simp: load_object_def verifyObject_None split: option.splits)

lemma load_cases_Inr:
  assumes "load_cases env l task prev ts = Inr cases"
  shows "sorted_wrt (<) (map lc_CaseNo cases) \<and> (\<forall>c \<in> set cases. \<forall>p. prev = Some p \<longrightarrow> p < lc_CaseNo c)
    \<and> list_all2 (\<lambda>t c. lc_CaseNo c = mt_CaseNo t
         \<and> int (length (lc_Input c)) = ob_SizeBytes (mt_Input t)
         \<and> equal_fold (hex_encode (le_sha256 env (lc_Input c))) (ob_SHA256 (mt_Input t))
         \<and> int (length (lc_Expected c)) = ob_SizeBytes (mt_Output t)
         \<and> equal_fold (hex_encode (le_sha256 env (lc_Expected c))) (ob_SHA256 (mt_Output t))) ts cases"
  using assms
proof (induction env l task prev ts arbitrary: cases rule: load_cases.induct)
  case (2 env l task prev t rest)
  from "2.prems" obtain input expected tail where parts: "cases = \<lparr>lc_CaseNo = mt_CaseNo t, lc_Input = input,
      lc_Expected = expected\<rparr> # tail"
    and io: "load_object env (ld_problemBucket l) (mt_Input t) = Inr input"
      "load_object env (ld_problemBucket l) (mt_Output t) = Inr expected"
    and tail: "load_cases env l task (Some (mt_CaseNo t)) rest = Inr tail"
    and order: "\<forall>p. prev = Some p \<longrightarrow> p < mt_CaseNo t"
    by (auto simp: Let_def split: option.splits)
  from "2.prems" io tail have "\<And>cs. load_cases env l task (Some (mt_CaseNo t)) rest = Inr cs \<Longrightarrow>
      sorted_wrt (<) (map lc_CaseNo cs) \<and> (\<forall>c \<in> set cs. mt_CaseNo t < lc_CaseNo c)
      \<and> list_all2 (\<lambda>t c. lc_CaseNo c = mt_CaseNo t
         \<and> int (length (lc_Input c)) = ob_SizeBytes (mt_Input t)
         \<and> equal_fold (hex_encode (le_sha256 env (lc_Input c))) (ob_SHA256 (mt_Input t))
         \<and> int (length (lc_Expected c)) = ob_SizeBytes (mt_Output t)
         \<and> equal_fold (hex_encode (le_sha256 env (lc_Expected c))) (ob_SHA256 (mt_Output t))) rest cs"
    using "2.IH" by (auto simp: Let_def)
  from this [OF tail] show ?case
    using load_object_Inr [OF io(1)] load_object_Inr [OF io(2)] order by (fastforce simp: parts)
qed simp

lemma rounds_up:
  fixes x d c :: int
  assumes "0 < d"
  shows "x \<le> (x + (d - 1)) div d * d" "((x + (d - 1)) div d - 1) * d < x"
    "(x + (d - 1)) div d \<le> c \<longleftrightarrow> x \<le> c * d"
proof -
  define v where "v = (x + (d - 1)) div d"
  have v: "v * d + (x + (d - 1)) mod d = x + (d - 1)" unfolding v_def by simp
  have r: "0 \<le> (x + (d - 1)) mod d" "(x + (d - 1)) mod d < d" using assms by simp_all
  have bounds: "x \<le> v * d" "v * d < x + d" using v r by linarith+
  show "x \<le> (x + (d - 1)) div d * d" "((x + (d - 1)) div d - 1) * d < x"
    using bounds unfolding v_def by (simp_all add: algebra_simps)
  show "(x + (d - 1)) div d \<le> c \<longleftrightarrow> x \<le> c * d"
  proof
    assume "(x + (d - 1)) div d \<le> c"
    then have "v * d \<le> c * d" using assms by (simp add: v_def)
    then show "x \<le> c * d" using bounds by linarith
  next
    assume x: "x \<le> c * d"
    show "(x + (d - 1)) div d \<le> c"
    proof (rule ccontr)
      assume "\<not> (x + (d - 1)) div d \<le> c"
      then have "(c + 1) * d \<le> v * d" using assms by (simp add: v_def)
      then show False using x bounds by (simp add: algebra_simps)
    qed
  qed
qed

lemma mod_once: "(n :: int) \<le> a \<Longrightarrow> a < 2 * n \<Longrightarrow> a mod n = a - n"
  by (metis diff_ge_0_iff_ge diff_less_eq minus_mod_self2 mod_pos_pos_trivial mult_2)

lemma durationMilliseconds_overflow:
  assumes "max_int64 - 999999 < t" "t \<le> max_int64"
  shows "durationMilliseconds t < 0"
proof -
  have "wrap64 (t + Millisecond - 1) = t + 999999 - 18446744073709551616"
    using assms mod_once [of 18446744073709551616 "t + Millisecond - 1 + 9223372036854775808"]
    by (simp add: wrap64_def max_int64_def Millisecond_def)
  moreover define u where "u = 18446744073709551616 - (t + 999999)"
  ultimately have w: "wrap64 (t + Millisecond - 1) = - u" "9223372036853775810 \<le> u" "u \<le> 9223372036854775808"
    using assms by (simp_all add: max_int64_def)
  then have "u div 1000000 \<in> {9223372036853, 9223372036854}" by auto
  then have "wrap32 (go_div (- u) Millisecond) < 0"
    using w(2) by (auto simp: go_div_def Millisecond_def wrap32_def)
  moreover have "go_div (- u) Millisecond \<le> 0" using w(2) by (simp add: go_div_def Millisecond_def)
  ultimately show ?thesis
    using assms w(1) by (simp add: durationMilliseconds_def Let_def max_int64_def max_int32_def)
qed

section \<open>Properties\<close>



text \<open>
  C14. The verdict is the first failure: a completed outcome is either a compilation error without case
  results, or lists the judged test cases in the order of the manifest, each with the runner's verdict
  (WA when the comparator refuses the output), all accepted but possibly the last; the overall verdict is
  the last one's, AC only when every case of the manifest was run and accepted, and the reported time
  and memory are the largest of the cases.
\<close>

theorem verdict_is_first_failure:
  assumes "Execute e task w = (o1, w')" and "ou_Completed o1 = Some c"
  shows "jc_Verdict c = VerdictCE \<and> jc_CaseResults c = []
    \<or> (\<exists>load equal runner w1 w2 loaded0 loaded art.
         eg_loader e = Some load \<and> eg_comparator e = Some equal
         \<and> select_runner e (jt_Language task) = Some runner
         \<and> load task w1 = (Inr loaded0, w2) \<and> validateLoadedTask task loaded0 = Inr loaded
         \<and> jc_CaseResults c \<noteq> []
         \<and> list_all2 (case_judged equal runner art (case_limits (lt_Manifest loaded)))
              (take (length (jc_CaseResults c)) (lt_Cases loaded)) (jc_CaseResults c)
         \<and> map lc_CaseNo (lt_Cases loaded) = map mt_CaseNo (mf_Testcases (lt_Manifest loaded))
         \<and> (\<forall>r \<in> set (butlast (jc_CaseResults c)). cr_Verdict r = VerdictAC)
         \<and> cr_Verdict (last (jc_CaseResults c)) = jc_Verdict c
         \<and> (jc_Verdict c = VerdictAC \<longrightarrow> length (jc_CaseResults c) = length (lt_Cases loaded))
         \<and> jc_TimeMS c = fold max (map cr_TimeMS (jc_CaseResults c)) 0
         \<and> jc_MemoryKB c = fold max (map cr_MemoryKB (jc_CaseResults c)) 0)"
  using assms(1)
proof (cases rule: Execute_cases)
  case (compiled load equal runner t w1 loaded0 w2 loaded cr w3)
  show ?thesis
  proof (cases "co_Verdict cr = VerdictCE")
    case True
    with compiled(10) assms(2) show ?thesis
      by (auto simp: judge_compiled_def cleanup_def completed_def split: prod.splits if_splits option.splits)
  next
    case False
    with compiled(10) assms(2) obtain o0 w4 where run: "run_cases (eg_now e) equal runner task (co_Artifact cr)
        (case_limits (lt_Manifest loaded)) 0 0 [] (lt_Cases loaded) w3 = (o0, w4)" "ou_Completed o0 = Some c"
      by (auto simp: judge_compiled_def executeCases_def cleanup_def
          split: prod.splits if_splits option.splits)
    from run_cases_completed [OF this] obtain rs where rs: "jc_CaseResults c = rs"
      "list_all2 (case_judged equal runner (co_Artifact cr) (case_limits (lt_Manifest loaded)))
        (take (length rs) (lt_Cases loaded)) rs"
      "\<forall>r \<in> set (butlast rs). cr_Verdict r = VerdictAC"
      "if jc_Verdict c = VerdictAC
        then length rs = length (lt_Cases loaded) \<and> (\<forall>r \<in> set rs. cr_Verdict r = VerdictAC)
        else rs \<noteq> [] \<and> cr_Verdict (last rs) = jc_Verdict c"
      "jc_TimeMS c = fold max (map cr_TimeMS rs) 0" "jc_MemoryKB c = fold max (map cr_MemoryKB rs) 0"
      by auto
    note valid = validateLoadedTask_Inr [OF compiled(8)]
    from rs(4) valid have ne: "rs \<noteq> []" by (auto split: if_splits)
    then have "last rs \<in> set rs" by simp
    with rs(4) have "cr_Verdict (last rs) = jc_Verdict c"
      "jc_Verdict c = VerdictAC \<longrightarrow> length rs = length (lt_Cases loaded)"
      by (simp_all split: if_splits)
    with rs valid compiled ne show ?thesis by blast
  qed
qed (use assms(2) in auto)

theorem verdict_is_first_failure_witness:
  "\<exists>o1 w' c. Execute (demo_engine (demo_answer PbAccepted [] []) (demo_answer PbAccepted ''7'' [])) demo_work []
      = (o1, w') \<and> ou_Completed o1 = Some c \<and> jc_Verdict c = VerdictWA \<and> length (jc_CaseResults c) = 1
      \<and> cr_Verdict (last (jc_CaseResults c)) = jc_Verdict c"
proof -
  obtain o1 w' where r: "Execute (demo_engine (demo_answer PbAccepted [] []) (demo_answer PbAccepted ''7'' []))
      demo_work [] = (o1, w')" and o1: "o1 = completed demo_work VerdictWA 2 2
         [\<lparr>cr_CaseNo = 1, cr_Verdict = VerdictWA, cr_TimeMS = 2, cr_MemoryKB = 2, cr_Message = []\<rparr>]"
    using demo_wrong_answer by blast
  obtain c where c: "ou_Completed o1 = Some c" "jc_Verdict c = VerdictWA" "length (jc_CaseResults c) = 1"
    by (simp add: o1 completed_def)
  from verdict_is_first_failure [OF r c(1)] c(2,3)
  have "cr_Verdict (last (jc_CaseResults c)) = jc_Verdict c" by auto
  with r c show ?thesis by blast
qed



text \<open>
  C16. The engine only ever judges verified inputs: a loaded task carries a source of the size and digest
  the task names, at most 1 MiB, and for each test case of a valid manifest of the task's problem and
  revision, in the order of the case numbers, input and expected output of the size and digest the
  manifest names.
\<close>

theorem loaded_inputs_are_verified:
  assumes "Loader_Load env l task = Inr loaded"
  shows "lt_Task loaded = task
    \<and> int (length (lt_Source loaded)) = jt_SourceSizeBytes task \<and> length (lt_Source loaded) \<le> 1048576
    \<and> equal_fold (hex_encode (le_sha256 env (lt_Source loaded))) (jt_SourceSHA256 task)
    \<and> Manifest_Validate (lt_Manifest loaded) = None \<and> mf_ProblemID (lt_Manifest loaded) = jt_ProblemID task
    \<and> mf_JudgeRevision (lt_Manifest loaded) = jt_JudgeRevision task
    \<and> sorted_wrt (<) (map lc_CaseNo (lt_Cases loaded))
    \<and> list_all2 (\<lambda>t c. lc_CaseNo c = mt_CaseNo t
         \<and> int (length (lc_Input c)) = ob_SizeBytes (mt_Input t)
         \<and> equal_fold (hex_encode (le_sha256 env (lc_Input c))) (ob_SHA256 (mt_Input t))
         \<and> int (length (lc_Expected c)) = ob_SizeBytes (mt_Output t)
         \<and> equal_fold (hex_encode (le_sha256 env (lc_Expected c))) (ob_SHA256 (mt_Output t)))
       (mf_Testcases (lt_Manifest loaded)) (lt_Cases loaded)"
proof -
  obtain source manifest cases where
    parts: "loaded = \<lparr>lt_Task = task, lt_Source = source, lt_Manifest = manifest, lt_Cases = cases\<rparr>"
    and small: "jt_SourceSizeBytes task \<le> maxSourceSize"
    and source: "verifyObject env source (jt_SourceSHA256 task) (jt_SourceSizeBytes task) = None"
    and manifest: "load_manifest env l task = Inr manifest"
    and cases: "load_cases env l task None (mf_Testcases manifest) = Inr cases"
    using assms by (auto simp: Loader_Load_def split: option.splits)
  have "Manifest_Validate manifest = None \<and> mf_ProblemID manifest = jt_ProblemID task
      \<and> mf_JudgeRevision manifest = jt_JudgeRevision task"
    using manifest by (auto simp: load_manifest_def split: sum.splits option.splits)
  with parts small source load_cases_Inr [OF cases] show ?thesis
    by (auto simp: verifyObject_None maxSourceSize_def)
qed

theorem loaded_inputs_are_verified_witness:
  "Loader_Load demo_store demo_buckets demo_work = Inr demo_loaded
   \<and> int (length (lt_Source demo_loaded)) = jt_SourceSizeBytes demo_work
   \<and> sorted_wrt (<) (map lc_CaseNo (lt_Cases demo_loaded))"
  using loaded_inputs_are_verified [OF demo_load] demo_load by blast



end
