(* ===== verification/Worker_Consumer.thy ===== *)
theory Worker_Consumer
  imports Worker_Engine_Props
begin

text \<open>
  The message layer of the judge worker, \<open>src/services/judge-worker/internal/message\<close>: \<open>consumer.go\<close>
  (decoding, the expiry check, the retry decision, acknowledgements, queue topology) and \<open>reporter.go\<close>
  (result and retry events, published with confirmation).

  One delivery is one call of \<open>Handle\<close>, which extends the history. The reporter is the record of its
  methods, as in the interfaces \<open>Reporter\<close> and \<open>RetryReporter\<close>; \<open>RabbitReporter\<close> and \<open>PublisherReporter\<close>
  differ only in the connection handling behind the confirmed publication \<open>we_publish\<close>. Trace context
  and identifiers of an event come from the environment. The broker connection, the worker pool and
  the merging of delivery channels are not modelled: deliveries are handled one by one, in any order.
\<close>

section \<open>Definitions\<close>

subsection \<open>Reporter\<close>

definition RoutingJudgeCompleted :: string where "RoutingJudgeCompleted = EventTypeJudgeCompleted"
definition RoutingJudgeFailed :: string where "RoutingJudgeFailed = EventTypeJudgeFailed"

definition retryRoute :: "string \<Rightarrow> string" where
  "retryRoute language =
     (if language = ''c'' then ''judge.retry.c''
      else if language = ''go'' then ''judge.retry.go''
      else if language = ''cpp'' then ''judge.retry.cpp''
      else if language = ''python'' then ''judge.retry.python''
      else if language = ''java'' then ''judge.retry.java''
      else ''judge.retry.go'')"

definition marshalEvent ::
  "(string \<Rightarrow> bool) \<Rightarrow> worker_env \<Rightarrow> Envelope \<Rightarrow> string \<Rightarrow> json option \<Rightarrow> history \<Rightarrow> (string + json) \<times> history" where
  \<comment> \<open>\<open>marshalResult\<close> and \<open>marshalTask\<close>\<close>
  "marshalEvent uuid_ok env input eventType payload h =
     (let (tp0, ts0) = we_trace env h;
          h1 = h @ [CallTrace];
          (traceparent, tracestate) = (if tp0 = [] then (env_TraceParent input, env_TraceState input) else (tp0, ts0));
          h2 = h1 @ [CallUUID];
          (now, h3) = read_clock env h2
      in (MarshalEnvelope uuid_ok
            \<lparr>em_EventID = we_uuid env h1, em_EventType = eventType, em_EventVersion = EventVersion1,
             em_OccurredAt = now, em_TraceID = env_TraceID input, em_TraceParent = traceparent,
             em_TraceState = tracestate, em_CausationID = env_EventID input\<rparr> payload, h3))"

definition publish_event ::
  "(string \<Rightarrow> bool) \<Rightarrow> worker_env \<Rightarrow> Envelope \<Rightarrow> string \<Rightarrow> string \<Rightarrow> json option \<Rightarrow> history \<Rightarrow> string option \<times> history" where
  \<comment> \<open>\<open>report\<close> and \<open>reportTask\<close>: encode, read the event id back, publish and wait for the confirmation\<close>
  "publish_event uuid_ok env input eventType route payload h =
     (case marshalEvent uuid_ok env input eventType payload h of
        (Inl err, h1) \<Rightarrow> (Some err, h1)
      | (Inr body, h1) \<Rightarrow>
          (case dec_struct dec_envelope body of
             None \<Rightarrow> (Some ''unmarshal event envelope'', h1)
           | Some envelope \<Rightarrow>
               (we_publish env h1 route body, h1 @ [CallPublish route (env_EventID envelope) body])))"

definition ReportCompleted ::
  "(string \<Rightarrow> bool) \<Rightarrow> worker_env \<Rightarrow> Envelope \<Rightarrow> JudgeCompleted \<Rightarrow> history \<Rightarrow> string option \<times> history" where
  "ReportCompleted uuid_ok env input result h =
     (case JudgeCompleted_Validate result of
        Some err \<Rightarrow> (Some err, h)
      | None \<Rightarrow> publish_event uuid_ok env input EventTypeJudgeCompleted RoutingJudgeCompleted
                  (enc_JudgeCompleted result) h)"

definition ReportFailed ::
  "(string \<Rightarrow> bool) \<Rightarrow> worker_env \<Rightarrow> Envelope \<Rightarrow> JudgeFailed \<Rightarrow> history \<Rightarrow> string option \<times> history" where
  "ReportFailed uuid_ok env input result h =
     (case JudgeFailed_Validate result of
        Some err \<Rightarrow> (Some err, h)
      | None \<Rightarrow> publish_event uuid_ok env input EventTypeJudgeFailed RoutingJudgeFailed
                  (enc_JudgeFailed result) h)"

definition ReportRetry ::
  "(string \<Rightarrow> bool) \<Rightarrow> worker_env \<Rightarrow> Envelope \<Rightarrow> JudgeTask \<Rightarrow> history \<Rightarrow> string option \<times> history" where
  "ReportRetry uuid_ok env input task h =
     (case JudgeTask_Validate task of
        Some err \<Rightarrow> (Some err, h)
      | None \<Rightarrow> publish_event uuid_ok env input EventTypeJudgeTask (retryRoute (jt_Language task))
                  (enc_JudgeTask task) h)"

record 'w Reporter =
  rp_ReportCompleted :: "Envelope \<Rightarrow> JudgeCompleted \<Rightarrow> 'w \<Rightarrow> string option \<times> 'w"
  rp_ReportFailed :: "Envelope \<Rightarrow> JudgeFailed \<Rightarrow> 'w \<Rightarrow> string option \<times> 'w"
  rp_ReportRetry :: "(Envelope \<Rightarrow> JudgeTask \<Rightarrow> 'w \<Rightarrow> string option \<times> 'w) option"

definition RabbitReporter :: "(string \<Rightarrow> bool) \<Rightarrow> worker_env \<Rightarrow> history Reporter" where
  "RabbitReporter uuid_ok env =
     \<lparr>rp_ReportCompleted = ReportCompleted uuid_ok env, rp_ReportFailed = ReportFailed uuid_ok env,
      rp_ReportRetry = Some (ReportRetry uuid_ok env)\<rparr>"

subsection \<open>Consumer\<close>

record Consumer =
  cs_MaxRetries :: int
  cs_RetryDelay :: duration
  cs_Engine :: "(JudgeTask \<Rightarrow> history \<Rightarrow> Outcome \<times> history) option"
  cs_Reporter :: "history Reporter option"

definition decodeTask :: "(string \<Rightarrow> bool) \<Rightarrow> json option \<Rightarrow> string + Envelope \<times> JudgeTask" where
  "decodeTask uuid_ok body =
     bindE (UnmarshalEnvelope uuid_ok body EventTypeJudgeTask dec_JudgeTask) (\<lambda>(envelope, task).
       errE (JudgeTask_Validate task) (Inr (envelope, task)))"

definition retryAllowed :: "worker_env \<Rightarrow> Consumer \<Rightarrow> JudgeTask \<Rightarrow> history \<Rightarrow> bool \<times> history" where
  "retryAllowed env c task h =
     (let m0 = wrap32 (cs_MaxRetries c);
          maxRetries = (if m0 < 0 then 0 else m0)
      in if jt_Attempt task \<ge> maxRetries then (False, h)
         else let delay = (if cs_RetryDelay c \<le> 0 then 5 * Second else cs_RetryDelay c);
                  (now, h1) = read_clock env h
              in (now + delay < jt_JudgeDeadlineAt task, h1))"

definition settle :: "string option \<times> history \<Rightarrow> history" where
  \<comment> \<open>requeue when the report failed, acknowledge otherwise\<close>
  "settle r = (case r of (Some err, h) \<Rightarrow> h @ [CallNack True] | (None, h) \<Rightarrow> h @ [CallAck])"

definition publish_retry ::
  "worker_env \<Rightarrow> history Reporter \<Rightarrow> Envelope \<Rightarrow> JudgeTask \<Rightarrow> history \<Rightarrow> history" where
  "publish_retry env rep envelope task h =
     (let retryTask = task\<lparr>jt_Attempt := wrap32 (jt_Attempt task + 1)\<rparr>
      in case rp_ReportRetry rep of
           None \<Rightarrow> h @ [CallNack True]
         | Some report \<Rightarrow>
             (case report envelope retryTask h of
                (Some err, h1) \<Rightarrow> h1 @ [CallNack True]
              | (None, h1) \<Rightarrow>
                  (case we_ack env h1 of
                     Some err \<Rightarrow> h1 @ [CallAck, CallNack True]
                   | None \<Rightarrow> h1 @ [CallAck])))"

definition finish_failed ::
  "worker_env \<Rightarrow> Consumer \<Rightarrow> history Reporter \<Rightarrow> Envelope \<Rightarrow> JudgeTask \<Rightarrow> JudgeFailed \<Rightarrow> history \<Rightarrow> history" where
  "finish_failed env c rep envelope task f h =
     (let (retry, h1) = (if jf_Retryable f then retryAllowed env c task h else (False, h))
      in if retry then publish_retry env rep envelope task h1
         else settle (rp_ReportFailed rep envelope (f\<lparr>jf_Retryable := False\<rparr>) h1))"

definition expired_event :: "JudgeTask \<Rightarrow> JudgeFailed" where
  "expired_event task =
     \<lparr>jf_SubmissionID = jt_SubmissionID task, jf_JudgeRevision = jt_JudgeRevision task,
      jf_Code = FailureTaskExpired, jf_Message = ''judge deadline exceeded'', jf_Retryable = False,
      jf_Reason = ''JUDGE_DEADLINE_EXCEEDED''\<rparr>"

definition handle_task ::
  "worker_env \<Rightarrow> Consumer \<Rightarrow> Envelope \<Rightarrow> JudgeTask \<Rightarrow> history \<Rightarrow> history" where
  "handle_task env c envelope task h =
     (case (cs_Engine c, cs_Reporter c) of
        (Some execute, Some rep) \<Rightarrow>
          (let (now, h1) = read_clock env h
           in if \<not> now < jt_JudgeDeadlineAt task
              then settle (rp_ReportFailed rep envelope (expired_event task) h1)
              else let (outcome, h2) = execute task h1
                   in (case ou_Completed outcome of
                         Some result \<Rightarrow> settle (rp_ReportCompleted rep envelope result h2)
                       | None \<Rightarrow>
                           (case ou_Failed outcome of
                              Some f \<Rightarrow> finish_failed env c rep envelope task f h2
                            | None \<Rightarrow> settle (Some ''engine returned empty outcome'', h2))))
      | _ \<Rightarrow> h @ [CallNack True])"

definition Handle ::
  "(string \<Rightarrow> bool) \<Rightarrow> worker_env \<Rightarrow> Consumer \<Rightarrow> json option \<Rightarrow> history \<Rightarrow> history" where
  "Handle uuid_ok env c body h =
     (case decodeTask uuid_ok body of
        Inl err \<Rightarrow> h @ [CallReject False]
      | Inr (envelope, task) \<Rightarrow> handle_task env c envelope task h)"

record queue_declaration =
  qd_name :: string
  qd_binding :: string
  qd_args :: "(string \<times> string) list"
  qd_ttl_ms :: "int option"

definition declareTopologyForLanguage :: "string \<Rightarrow> string \<Rightarrow> string \<Rightarrow> duration \<Rightarrow> queue_declaration list" where
  \<comment> \<open>the queues declared and bound: dead letters, tasks, delayed retries\<close>
  "declareTopologyForLanguage exchange queue dlq0 retryDelay0 =
     (let dlq = (if dlq0 = [] then ''judge.dlq'' else dlq0);
          language = trim_prefix queue ''judge.task.'';
          retryQueue = ''judge.retry.'' @ language;
          retryDelay = (if retryDelay0 \<le> 0 then 5 * Second else retryDelay0)
      in [\<lparr>qd_name = dlq, qd_binding = dlq, qd_args = [], qd_ttl_ms = None\<rparr>,
          \<lparr>qd_name = queue, qd_binding = queue, qd_args = JudgeTaskQueueArguments exchange dlq, qd_ttl_ms = None\<rparr>,
          \<lparr>qd_name = retryQueue, qd_binding = retryQueue,
           qd_args = [(''x-dead-letter-exchange'', exchange), (''x-dead-letter-routing-key'', queue)],
           qd_ttl_ms = Some (wrap32 (go_div retryDelay Millisecond))\<rparr>])"

definition worker_consumer ::
  "(string \<Rightarrow> bool) \<Rightarrow> worker_env \<Rightarrow> loader_env \<Rightarrow> Loader \<Rightarrow> GoConfig \<Rightarrow> int \<Rightarrow> duration \<Rightarrow> Consumer" where
  \<comment> \<open>as \<open>NewConsumerFromConfig\<close> and \<open>wire_gen.go\<close> put it together\<close>
  "worker_consumer uuid_ok env lenv l config maxRetries retryDelay =
     \<lparr>cs_MaxRetries = maxRetries, cs_RetryDelay = retryDelay,
      cs_Engine = Some (Execute (worker_engine env lenv l config)),
      cs_Reporter = Some (RabbitReporter uuid_ok env)\<rparr>"

text \<open>Observations of a history: settlements of the delivery, confirmed publications, sandbox calls.\<close>

fun is_settlement :: "worker_call \<Rightarrow> bool" where
  "is_settlement CallAck = True"
| "is_settlement (CallNack _) = True"
| "is_settlement (CallReject _) = True"
| "is_settlement _ = False"

fun is_work :: "worker_call \<Rightarrow> bool" where
  "is_work CallNow = True"
| "is_work (CallExec _) = True"
| "is_work (CallFileDelete _) = True"
| "is_work _ = False"

definition works :: "history \<Rightarrow> history \<Rightarrow> bool" where
  \<comment> \<open>from the first to the second history, only the engine's kind of calls\<close>
  "works h h' \<longleftrightarrow> (\<exists>ext. h' = h @ ext \<and> list_all is_work ext)"

definition confirmed :: "worker_env \<Rightarrow> history \<Rightarrow> history \<Rightarrow> bool" where
  \<comment> \<open>among the calls \<open>ext\<close> made after \<open>h\<close> there is a publication the broker confirmed\<close>
  "confirmed env h ext \<longleftrightarrow>
     (\<exists>a route i body b. ext = a @ CallPublish route i body # b \<and> we_publish env (h @ a) route body = None)"

definition reports :: "worker_env \<Rightarrow> history \<Rightarrow> string option \<times> history \<Rightarrow> bool" where
  \<comment> \<open>the answer and the calls of a reporter: nothing settled, and no error only after a confirmation\<close>
  "reports env h r \<longleftrightarrow> (\<exists>ext. snd r = h @ ext \<and> filter is_settlement ext = []
     \<and> (fst r = None \<longrightarrow> confirmed env h ext))"

text \<open>How a delivery ends.\<close>

definition settled_once :: "worker_env \<Rightarrow> history \<Rightarrow> history \<Rightarrow> bool" where
  "settled_once env h ext \<longleftrightarrow>
     (\<exists>a. filter is_settlement a = []
        \<and> (ext = a @ [CallReject False] \<or> ext = a @ [CallNack True] \<or> ext = a @ [CallAck] \<and> confirmed env h a
           \<or> ext = a @ [CallAck, CallNack True] \<and> confirmed env h a \<and> we_ack env (h @ a) \<noteq> None))"

fun publications :: "history \<Rightarrow> (string \<times> string \<times> json) list" where
  "publications [] = []"
| "publications (CallPublish route i body # h) = (route, i, body) # publications h"
| "publications (_ # h) = publications h"

definition publishes :: "(string \<Rightarrow> bool) \<Rightarrow> Envelope \<Rightarrow> string \<Rightarrow> string \<Rightarrow> json option \<Rightarrow> history \<Rightarrow> history \<Rightarrow> bool" where
  \<comment> \<open>between the two histories at most one event was published: of this type and payload, on this route\<close>
  "publishes uuid_ok input ty route payload h h' \<longleftrightarrow> publications h' = publications h
     \<or> (\<exists>i body m d. publications h' = publications h @ [(route, i, body)] \<and> payload = Some d
          \<and> em_EventType m = ty \<and> em_CausationID m = env_EventID input
          \<and> MarshalEnvelope uuid_ok m (Some d) = Inr body)"

definition demo_consumer :: "worker_env \<Rightarrow> int \<Rightarrow> Consumer" where
  "demo_consumer env retries = worker_consumer (\<lambda>u. True) env demo_store demo_buckets demo_go retries 10"

section \<open>Lemmas\<close>

lemma works_refl [simp]: "works h h"
  by (simp add: works_def)

lemma works_trans: "works h1 h2 \<Longrightarrow> works h2 h3 \<Longrightarrow> works h1 h3"
  by (auto simp: works_def)

lemma works_snoc [simp]: "is_work c \<Longrightarrow> works h (h @ [c])"
  by (simp add: works_def)

lemma GoJudge_Execute_works: "GoJudge_Execute env rq h = (r, h') \<Longrightarrow> works h h'"
  by (auto simp: GoJudge_Execute_def Let_def split: if_splits sum.splits)

lemma runners_work:
  assumes "NewLanguageRunnersFromConfig env config language = Some runner"
  shows "lr_Compile runner source h = (r, h') \<Longrightarrow> works h h'"
    and "lr_Run runner a input limits h = (e, h') \<Longrightarrow> works h h'"
    and "lr_DeleteArtifact runner a h = (d, h') \<Longrightarrow> works h h'"
proof -
  from assms consider (go) config' where "runner = GoRunner env config'"
    | (command) x where "runner = command_runner env x"
    by (auto simp: NewLanguageRunnersFromConfig_def split: if_splits)
  note kinds = this
  show "works h h'" if "lr_Compile runner source h = (r, h')"
    using kinds that
    by cases (auto simp: GoRunner_def GoRunner_Compile_def command_runner_def CommandRunner_Compile_def
        split: if_splits prod.splits sum.splits dest: GoJudge_Execute_works)
  show "works h h'" if "lr_Run runner a input limits h = (e, h')"
    using kinds that
    by cases (auto simp: GoRunner_def GoRunner_Run_def command_runner_def CommandRunner_Run_def
        split: if_splits prod.splits sum.splits dest: GoJudge_Execute_works)
  show "works h h'" if "lr_DeleteArtifact runner a h = (d, h')"
    using kinds that
    by cases (auto simp: GoRunner_def command_runner_def runner_DeleteArtifact_def GoJudge_DeleteFile_def
        split: if_splits)
qed

lemma run_cases_works:
  assumes "NewLanguageRunnersFromConfig env config language = Some runner"
    and "run_cases (read_clock env) equal runner task a limits mt mm rs cases h = (o1, h')"
  shows "works h h'"
  using assms(2)
proof (induction cases arbitrary: mt mm rs h)
  case (Cons tc cases)
  obtain x h2 where x: "lr_Run runner a (lc_Input tc) limits (h @ [CallNow]) = (x, h2)"
    by (cases "lr_Run runner a (lc_Input tc) limits (h @ [CallNow])")
  have n: "works h (h @ [CallNow])" by simp
  note works_trans [OF n runners_work(2) [OF assms(1) x]]
  with n show ?case
    using Cons.prems x
    by (auto simp: read_clock_def [of env h] Let_def split: if_splits sum.splits dest!: Cons.IH
        intro: works_trans)
qed simp

lemma engine_works:
  assumes "Execute (worker_engine env lenv l config) task h = (o1, h')"
  shows "works h h'"
  using assms
proof (cases rule: Execute_cases)
  case (not_compiled load runner t w1 loaded0 w2 loaded err)
  have "NewLanguageRunnersFromConfig env config (jt_Language task) = Some runner"
    using not_compiled(2) by (auto simp: select_runner_def worker_engine_def NewEngineWithRunners_def
        split: option.splits)
  from runners_work(1) [OF this not_compiled(6)] not_compiled show ?thesis
    by (auto intro: works_trans [of h "h @ [CallNow]"])
next
  case (compiled load equal runner t w1 loaded0 w2 loaded c w3)
  have runner: "NewLanguageRunnersFromConfig env config (jt_Language task) = Some runner"
    using compiled(3) by (auto simp: select_runner_def worker_engine_def NewEngineWithRunners_def
        split: option.splits)
  have now: "eg_now (worker_engine env lenv l config) = read_clock env"
    by (simp add: worker_engine_def NewEngineWithRunners_def)
  have "works h w3"
    using runners_work(1) [OF runner compiled(9)] compiled by (auto intro: works_trans [of h "h @ [CallNow]"])
  moreover define inner where "inner = (if co_Verdict c = VerdictCE then (completed task VerdictCE 0 0 [], w3)
      else if co_Verdict c \<noteq> VerdictAC \<or> art_ID (co_Artifact c) = []
      then (failed task ''INVALID_COMPILE_RESULT'' True, w3)
      else executeCases (worker_engine env lenv l config) equal task (co_Artifact c) loaded runner w3)"
  moreover obtain o0 w4 where i: "inner = (o0, w4)" by (cases inner)
  moreover have "works w3 w4"
    using i run_cases_works [OF runner] unfolding inner_def executeCases_def now by (auto split: if_splits)
  moreover have "cleanup task runner (co_Artifact c) o0 w4 = (o1, h')"
    using compiled(10) i unfolding judge_compiled_def inner_def by simp
  moreover from this have "works w4 h'"
    using runners_work(3) [OF runner] by (auto simp: cleanup_def split: prod.splits if_splits)
  ultimately show ?thesis by (blast intro: works_trans)
qed auto

lemma marshalEvent_calls:
  "snd (marshalEvent uuid_ok env input ty payload h) = h @ [CallTrace, CallUUID, CallNow]"
  by (simp add: marshalEvent_def Let_def read_clock_def split: prod.splits)

lemma publish_event_reports: "reports env h (publish_event uuid_ok env input ty route payload h)"
proof -
  let ?pre = "[CallTrace, CallUUID, CallNow]"
  obtain x where m: "marshalEvent uuid_ok env input ty payload h = (x, h @ ?pre)"
    using marshalEvent_calls by (metis prod.collapse)
  have pre: "filter is_settlement ?pre = []" by simp
  show ?thesis
  proof (cases x)
    case (Inr body)
    show ?thesis
    proof (cases "dec_struct dec_envelope body")
      case (Some e)
      have "confirmed env h (?pre @ CallPublish route (env_EventID e) body # [])"
        if "we_publish env (h @ ?pre) route body = None"
        using that unfolding confirmed_def by (intro exI [of _ ?pre]) blast
      then show ?thesis
        using m pre Inr Some
        by (auto simp: publish_event_def reports_def
            intro!: exI [of _ "?pre @ [CallPublish route (env_EventID e) body]"])
    qed (use m pre Inr in \<open>auto simp: publish_event_def reports_def intro!: exI [of _ ?pre]\<close>)
  qed (use m pre in \<open>auto simp: publish_event_def reports_def intro!: exI [of _ ?pre]\<close>)
qed

lemma reports_error [simp]: "reports env h (Some e, h)"
  by (simp add: reports_def)

lemma reporter_reports:
  "reports env h (ReportCompleted uuid_ok env input c h)" "reports env h (ReportFailed uuid_ok env input f h)"
  "reports env h (ReportRetry uuid_ok env input t h)"
  by (simp_all add: ReportCompleted_def ReportFailed_def ReportRetry_def publish_event_reports
      split: option.splits)

lemma confirmed_append: "confirmed env (h @ a) b \<Longrightarrow> confirmed env h (a @ b)"
  unfolding confirmed_def by (metis append.assoc)

lemma settle_settles:
  assumes "filter is_settlement pre = []" "reports env (h @ pre) r"
  shows "\<exists>ext. settle r = h @ ext \<and> settled_once env h ext"
proof -
  obtain ext where e: "snd r = h @ pre @ ext" "filter is_settlement ext = []"
    "fst r = None \<longrightarrow> confirmed env (h @ pre) ext"
    using assms(2) by (auto simp: reports_def)
  then have ne: "filter is_settlement (pre @ ext) = []" using assms(1) by simp
  show ?thesis
  proof (cases "fst r")
    case None
    then have "settle r = h @ (pre @ ext) @ [CallAck]" using e(1) by (cases r) (simp add: settle_def)
    moreover have "confirmed env h (pre @ ext)" using e(3) None confirmed_append by blast
    ultimately show ?thesis using ne unfolding settled_once_def by blast
  next
    case (Some err)
    then have "settle r = h @ (pre @ ext) @ [CallNack True]" using e(1) by (cases r) (simp add: settle_def)
    then show ?thesis using ne unfolding settled_once_def by blast
  qed
qed

lemma publish_retry_settles:
  assumes "filter is_settlement pre = []"
  shows "\<exists>ext. publish_retry env (RabbitReporter uuid_ok env) envelope task (h @ pre) = h @ ext
    \<and> settled_once env h ext"
proof -
  let ?t = "task\<lparr>jt_Attempt := wrap32 (jt_Attempt task + 1)\<rparr>"
  obtain err h1 where r: "ReportRetry uuid_ok env envelope ?t (h @ pre) = (err, h1)"
    by (cases "ReportRetry uuid_ok env envelope ?t (h @ pre)")
  from reporter_reports(3) [of env "h @ pre" uuid_ok envelope ?t] r
  obtain ext where e: "h1 = h @ pre @ ext" "filter is_settlement ext = []"
    "err = None \<longrightarrow> confirmed env (h @ pre) ext"
    by (auto simp: reports_def)
  then have ne: "filter is_settlement (pre @ ext) = []" using assms by simp
  have step: "publish_retry env (RabbitReporter uuid_ok env) envelope task (h @ pre)
    = (case err of Some e \<Rightarrow> h1 @ [CallNack True] | None \<Rightarrow>
        (case we_ack env h1 of Some e \<Rightarrow> h1 @ [CallAck, CallNack True] | None \<Rightarrow> h1 @ [CallAck]))"
    by (simp add: publish_retry_def RabbitReporter_def Let_def r split: option.splits)
  show ?thesis
  proof (cases err)
    case None
    then have "confirmed env h (pre @ ext)" using e(3) confirmed_append by blast
    then show ?thesis
      unfolding step using None e(1) ne
      by (cases "we_ack env h1") (auto simp: settled_once_def intro!: exI [of _ "pre @ ext"])
  next
    case (Some x)
    then show ?thesis
      unfolding step using e(1) ne by (auto simp: settled_once_def intro!: exI [of _ "pre @ ext"])
  qed
qed

lemma works_ext: "works h h' \<Longrightarrow> \<exists>ext. h' = h @ ext \<and> filter is_settlement ext = []"
proof -
  have "is_work c \<Longrightarrow> \<not> is_settlement c" for c by (cases c) simp_all
  then show "works h h' \<Longrightarrow> \<exists>ext. h' = h @ ext \<and> filter is_settlement ext = []"
    by (auto simp: works_def filter_empty_conv list_all_iff)
qed

lemma retryAllowed_calls:
  "\<exists>r ext. retryAllowed env c task h = (r, h @ ext) \<and> filter is_settlement ext = []"
  by (cases "retryAllowed env c task h")
    (auto simp: retryAllowed_def Let_def read_clock_def split: if_splits)

lemma finish_failed_settles:
  assumes "filter is_settlement pre = []"
  shows "\<exists>ext. finish_failed env c (RabbitReporter uuid_ok env) envelope task f (h @ pre) = h @ ext
    \<and> settled_once env h ext"
proof -
  obtain retry ext where "(if jf_Retryable f then retryAllowed env c task (h @ pre) else (False, h @ pre))
      = (retry, (h @ pre) @ ext)" "filter is_settlement ext = []"
    using retryAllowed_calls [of env c task "h @ pre"] by (cases "jf_Retryable f") auto
  then obtain pre' where r: "(if jf_Retryable f then retryAllowed env c task (h @ pre) else (False, h @ pre))
      = (retry, h @ pre')" and pre': "filter is_settlement pre' = []"
    using assms by fastforce
  show ?thesis
    using publish_retry_settles [OF pre'] settle_settles [OF pre' reporter_reports(2)] r
    by (cases retry) (simp_all add: finish_failed_def RabbitReporter_def)
qed

lemma handle_settles:
  "\<exists>ext. Handle uuid_ok env (worker_consumer uuid_ok env lenv l config m d) body h = h @ ext
    \<and> settled_once env h ext"
proof (cases "decodeTask uuid_ok body")
  case (Inl e)
  then show ?thesis by (auto simp: Handle_def settled_once_def intro!: exI [of _ "[]"])
next
  case (Inr et)
  obtain envelope task where et: "et = (envelope, task)" by (cases et)
  obtain o1 h2 where ex: "Execute (worker_engine env lenv l config) task (h @ [CallNow]) = (o1, h2)"
    by (cases "Execute (worker_engine env lenv l config) task (h @ [CallNow])")
  obtain w where w: "h2 = h @ w" "filter is_settlement w = []"
    using works_ext [OF engine_works [OF ex]] by auto
  have now: "filter is_settlement [CallNow] = []" by simp
  show ?thesis
    using settle_settles [OF now reporter_reports(2)] settle_settles [OF w(2) reporter_reports(1)]
      finish_failed_settles [OF w(2)] settle_settles [OF w(2) reports_error] Inr et ex w
    by (auto simp: Handle_def handle_task_def worker_consumer_def RabbitReporter_def read_clock_def
        split: option.splits)
qed

lemma publications_append [simp]: "publications (h @ h') = publications h @ publications h'"
  by (induction h rule: publications.induct) auto

lemma works_publications: "works h h' \<Longrightarrow> publications h' = publications h"
proof -
  have "list_all is_work ext \<Longrightarrow> publications ext = []" for ext
    by (induction ext rule: publications.induct) auto
  then show "works h h' \<Longrightarrow> publications h' = publications h" by (auto simp: works_def)
qed

lemma publish_event_publishes:
  assumes "publish_event uuid_ok env input ty route payload h = (r, h')"
  shows "publishes uuid_ok input ty route payload h h'"
proof -
  let ?pre = "[CallTrace, CallUUID, CallNow]"
  obtain x where m: "marshalEvent uuid_ok env input ty payload h = (x, h @ ?pre)"
    using marshalEvent_calls by (metis prod.collapse)
  show ?thesis
  proof (cases x)
    case (Inr b)
    then obtain m where m': "MarshalEnvelope uuid_ok m payload = Inr b" "em_EventType m = ty"
      "em_CausationID m = env_EventID input"
      using m by (auto simp: marshalEvent_def Let_def split: prod.splits)
    moreover from m'(1) obtain d where "payload = Some d"
      by (cases payload) (auto simp: MarshalEnvelope_def errE_def split: option.splits)
    ultimately show ?thesis
      using assms m Inr by (auto simp: publish_event_def publishes_def split: option.splits)
  qed (use assms m in \<open>auto simp: publish_event_def publishes_def\<close>)
qed

lemma publishes_refl [simp]: "publishes uuid_ok input ty route payload h h"
  by (simp add: publishes_def)

lemma reporter_publishes:
  "ReportCompleted uuid_ok env input c h = (r, h') \<Longrightarrow>
    publishes uuid_ok input EventTypeJudgeCompleted RoutingJudgeCompleted (enc_JudgeCompleted c) h h'"
  "ReportFailed uuid_ok env input f h = (r, h') \<Longrightarrow>
    publishes uuid_ok input EventTypeJudgeFailed RoutingJudgeFailed (enc_JudgeFailed f) h h'"
  "ReportRetry uuid_ok env input t h = (r, h') \<Longrightarrow>
    publishes uuid_ok input EventTypeJudgeTask (retryRoute (jt_Language t)) (enc_JudgeTask t) h h'"
  by (auto simp: ReportCompleted_def ReportFailed_def ReportRetry_def split: option.splits
      dest: publish_event_publishes)

lemma settle_publications [simp]: "publications (settle r) = publications (snd r)"
  by (cases r) (simp add: settle_def split: option.splits)

lemma publish_retry_publications:
  "publications (publish_retry env (RabbitReporter uuid_ok env) envelope task h)
    = publications (snd (ReportRetry uuid_ok env envelope (task\<lparr>jt_Attempt := wrap32 (jt_Attempt task + 1)\<rparr>) h))"
  by (auto simp: publish_retry_def RabbitReporter_def Let_def split: option.splits prod.splits)

lemma dec_field_Some: "dec_field d z k kvs = Some v \<Longrightarrow> v = z \<or> (\<exists>x. d x = Some v)"
proof -
  assume a: "dec_field d z k kvs = Some v"
  let ?rs = "map d (filter (\<lambda>v. v \<noteq> JNull) (field_values k kvs))"
  show ?thesis
  proof (cases "?rs = []")
    case True
    with a show ?thesis by (simp add: dec_field_def Let_def)
  next
    case False
    with a have "last ?rs = Some v" by (auto simp: dec_field_def Let_def split: if_splits)
    with False have "Some v \<in> set ?rs" by (metis last_in_set)
    then show ?thesis by auto
  qed
qed

lemma dec_JudgeTask_ranges:
  assumes "dec_JudgeTask d = Some t"
  shows "jt_SubmissionID t \<in> {min_int64..max_int64}" "jt_ProblemID t \<in> {min_int64..max_int64}"
    "jt_SourceSizeBytes t \<in> {min_int64..max_int64}" "jt_Attempt t \<in> {-2147483648..max_int32}"
proof -
  obtain kvs where f: "dec_JudgeTask_fields kvs = Some t"
    using assms by (cases d) (auto simp: dec_JudgeTask_def)
  have i64: "v \<in> {min_int64..max_int64}" if "dec_field dec_int64 0 k kvs = Some v" for k v
  proof -
    have "v = 0 \<or> (\<exists>x. dec_int64 x = Some v)" using dec_field_Some [OF that] .
    then show ?thesis by (auto simp: min_int64_def max_int64_def elim!: dec_int64.elims split: if_splits)
  qed
  have i32: "v \<in> {-2147483648..max_int32}" if "dec_field dec_int32 0 k kvs = Some v" for k v
  proof -
    have "v = 0 \<or> (\<exists>x. dec_int32 x = Some v)" using dec_field_Some [OF that] .
    then show ?thesis by (auto simp: max_int32_def elim!: dec_int32.elims split: if_splits)
  qed
  from f show "jt_SubmissionID t \<in> {min_int64..max_int64}" "jt_ProblemID t \<in> {min_int64..max_int64}"
    "jt_SourceSizeBytes t \<in> {min_int64..max_int64}" "jt_Attempt t \<in> {-2147483648..max_int32}"
    unfolding dec_JudgeTask_fields_def by (auto split: option.splits dest!: i64 i32)
qed

lemma decodeTask_Inr:
  assumes "decodeTask uuid_ok body = Inr (envelope, t)"
  shows "JudgeTask_Validate t = None" "\<exists>d. dec_JudgeTask d = Some t"
  using assms by (auto simp: decodeTask_def UnmarshalEnvelope_def errE_def guardE_def bindE_def
      split: option.splits sum.splits if_splits)

lemma decode_marshalled_task:
  assumes "MarshalEnvelope uuid_ok m (Some d) = Inr body" and "em_EventType m = EventTypeJudgeTask"
    and "enc_JudgeTask t = Some d" and "JudgeTask_Validate t = None" and "dec_JudgeTask d = Some t"
  shows "decodeTask uuid_ok (Some body) = Inr (envelope_of_metadata m d, t)"
  using unmarshal_marshal [of uuid_ok m d body dec_JudgeTask t] assms enc_JudgeTask_not_null [OF assms(3)]
  by (simp add: decodeTask_def)

lemma decode_other_event:
  assumes "MarshalEnvelope uuid_ok m (Some d) = Inr body" and "em_EventType m \<noteq> EventTypeJudgeTask"
  shows "decodeTask uuid_ok (Some body) \<noteq> Inr et"
proof -
  let ?e = "envelope_of_metadata m d"
  have valid: "validateMetadata uuid_ok m = None" and enc: "enc_envelope ?e = Some body"
    using assms(1) by (auto simp: MarshalEnvelope_def split: option.splits)
  have "env_EventVersion ?e = 1" using validateMetadata_version [OF valid] by (simp add: envelope_of_metadata_def)
  with dec_enc_envelope [OF enc] have "dec_struct dec_envelope body = Some ?e"
    by (simp add: max_int32_def) (simp add: envelope_of_metadata_def)
  moreover have "env_EventType ?e = em_EventType m" by (simp add: envelope_of_metadata_def)
  moreover have "EventTypeJudgeTask \<noteq> []" by (simp add: EventTypeJudgeTask_def)
  ultimately show ?thesis using valid assms(2) by (simp add: decodeTask_def UnmarshalEnvelope_def)
qed

lemma retryAllowed_True:
  assumes "retryAllowed env c task h = (True, h')"
  shows "jt_Attempt task < max 0 (wrap32 (cs_MaxRetries c))" "works h h'"
  using assms by (auto simp: retryAllowed_def read_clock_def Let_def max_def split: if_splits)

lemma retryAllowed_works: "retryAllowed env c task h = (r, h') \<Longrightarrow> works h h'"
  by (auto simp: retryAllowed_def read_clock_def Let_def split: if_splits)

lemma RabbitReporter_simps [simp]:
  "rp_ReportCompleted (RabbitReporter uuid_ok env) = ReportCompleted uuid_ok env"
  "rp_ReportFailed (RabbitReporter uuid_ok env) = ReportFailed uuid_ok env"
  "rp_ReportRetry (RabbitReporter uuid_ok env) = Some (ReportRetry uuid_ok env)"
  by (simp_all add: RabbitReporter_def)

lemma worker_consumer_simps [simp]:
  "cs_Engine (worker_consumer uuid_ok env lenv l config m d) = Some (Execute (worker_engine env lenv l config))"
  "cs_Reporter (worker_consumer uuid_ok env lenv l config m d) = Some (RabbitReporter uuid_ok env)"
  "cs_MaxRetries (worker_consumer uuid_ok env lenv l config m d) = m"
  by (simp_all add: worker_consumer_def)

lemma publishes_from: "publications h1 = publications h \<Longrightarrow>
    publishes uuid_ok input ty route payload h1 h' \<Longrightarrow> publishes uuid_ok input ty route payload h h'"
  by (simp add: publishes_def)

lemma publishes_settle: "publishes uuid_ok input ty route payload h (settle r)
    \<longleftrightarrow> publishes uuid_ok input ty route payload h (snd r)"
  by (simp add: publishes_def)

text \<open>What one delivery publishes: nothing, a result, a terminal failure, or the task once more.\<close>

lemma finish_failed_publishes:
  fixes f task uuid_ok env c envelope h
  defines "H \<equiv> finish_failed env c (RabbitReporter uuid_ok env) envelope task f h"
  shows "publishes uuid_ok envelope EventTypeJudgeFailed RoutingJudgeFailed
            (enc_JudgeFailed (f\<lparr>jf_Retryable := False\<rparr>)) h H
    \<or> jt_Attempt task < max 0 (wrap32 (cs_MaxRetries c))
      \<and> publishes uuid_ok envelope EventTypeJudgeTask (retryRoute (jt_Language task))
          (enc_JudgeTask (task\<lparr>jt_Attempt := wrap32 (jt_Attempt task + 1)\<rparr>)) h H"
proof -
  let ?f = "f\<lparr>jf_Retryable := False\<rparr>" and ?t = "task\<lparr>jt_Attempt := wrap32 (jt_Attempt task + 1)\<rparr>"
  obtain retry h1 where r: "(if jf_Retryable f then retryAllowed env c task h else (False, h)) = (retry, h1)"
    by (cases "if jf_Retryable f then retryAllowed env c task h else (False, h)")
  then have "works h h1" using retryAllowed_works by (auto split: if_splits)
  note pubs = works_publications [OF this]
  show ?thesis
  proof (cases retry)
    case True
    obtain e h2 where rr: "ReportRetry uuid_ok env envelope ?t h1 = (e, h2)"
      by (cases "ReportRetry uuid_ok env envelope ?t h1")
    have "H = publish_retry env (RabbitReporter uuid_ok env) envelope task h1"
      using r True by (simp add: H_def finish_failed_def)
    moreover have "jt_Attempt task < max 0 (wrap32 (cs_MaxRetries c))"
      using r True retryAllowed_True by (auto split: if_splits)
    ultimately show ?thesis
      using reporter_publishes(3) [OF rr] publish_retry_publications [of env uuid_ok envelope task h1] pubs
      by (simp add: publishes_def rr)
  next
    case False
    obtain e h2 where rf: "ReportFailed uuid_ok env envelope ?f h1 = (e, h2)"
      by (cases "ReportFailed uuid_ok env envelope ?f h1")
    have "H = settle (e, h2)"
      using r False rf by (simp add: H_def finish_failed_def)
    then show ?thesis
      using publishes_from [OF pubs reporter_publishes(2) [OF rf]] by (simp add: publishes_settle)
  qed
qed

lemma handle_publishes:
  fixes uuid_ok env lenv l config m d body h
  defines "H \<equiv> Handle uuid_ok env (worker_consumer uuid_ok env lenv l config m d) body h"
  assumes "decodeTask uuid_ok body = Inr (envelope, task)"
  obtains (completed) result where "publishes uuid_ok envelope EventTypeJudgeCompleted RoutingJudgeCompleted
      (enc_JudgeCompleted result) h H"
  | (failed) f where "publishes uuid_ok envelope EventTypeJudgeFailed RoutingJudgeFailed (enc_JudgeFailed f) h H"
  | (retry) "jt_Attempt task < max 0 (wrap32 m)"
      "publishes uuid_ok envelope EventTypeJudgeTask (retryRoute (jt_Language task))
          (enc_JudgeTask (task\<lparr>jt_Attempt := wrap32 (jt_Attempt task + 1)\<rparr>)) h H"
proof -
  let ?c = "worker_consumer uuid_ok env lenv l config m d"
  obtain o1 h2 where ex: "Execute (worker_engine env lenv l config) task (h @ [CallNow]) = (o1, h2)"
    by (cases "Execute (worker_engine env lenv l config) task (h @ [CallNow])")
  have h2: "publications h2 = publications h" using works_publications [OF engine_works [OF ex]] by simp
  have H: "H = (if \<not> we_now env h < jt_JudgeDeadlineAt task
      then settle (ReportFailed uuid_ok env envelope (expired_event task) (h @ [CallNow]))
      else case ou_Completed o1 of
        Some result \<Rightarrow> settle (ReportCompleted uuid_ok env envelope result h2)
      | None \<Rightarrow> (case ou_Failed o1 of
          Some f \<Rightarrow> finish_failed env ?c (RabbitReporter uuid_ok env) envelope task f h2
        | None \<Rightarrow> settle (Some ''engine returned empty outcome'', h2)))"
    unfolding H_def Handle_def handle_task_def assms(2)
    by (simp add: read_clock_def ex split: option.splits)
  consider (late) "\<not> we_now env h < jt_JudgeDeadlineAt task"
    | (finished) result where "we_now env h < jt_JudgeDeadlineAt task" "ou_Completed o1 = Some result"
    | (fail) f where "we_now env h < jt_JudgeDeadlineAt task" "ou_Completed o1 = None" "ou_Failed o1 = Some f"
    | (nothing) "we_now env h < jt_JudgeDeadlineAt task" "ou_Completed o1 = None" "ou_Failed o1 = None"
    by fastforce
  then show thesis
  proof cases
    case late
    obtain e h3 where "ReportFailed uuid_ok env envelope (expired_event task) (h @ [CallNow]) = (e, h3)"
      by (cases "ReportFailed uuid_ok env envelope (expired_event task) (h @ [CallNow])")
    with late show thesis
      using failed [of "expired_event task"] reporter_publishes(2) publishes_from [of "h @ [CallNow]" h]
      by (fastforce simp: H publishes_settle)
  next
    case (finished result)
    obtain e h3 where "ReportCompleted uuid_ok env envelope result h2 = (e, h3)"
      by (cases "ReportCompleted uuid_ok env envelope result h2")
    with finished show thesis
      using completed [of result] reporter_publishes(1) publishes_from [OF h2]
      by (fastforce simp: H publishes_settle)
  next
    case (fail f)
    have H': "H = finish_failed env ?c (RabbitReporter uuid_ok env) envelope task f h2" using fail by (simp add: H)
    from finish_failed_publishes [of uuid_ok envelope f h2 env ?c task] show thesis
    proof (elim disjE conjE)
      assume "publishes uuid_ok envelope EventTypeJudgeFailed RoutingJudgeFailed
        (enc_JudgeFailed (f\<lparr>jf_Retryable := False\<rparr>)) h2
        (finish_failed env ?c (RabbitReporter uuid_ok env) envelope task f h2)"
      from publishes_from [OF h2 this] show thesis unfolding H' [symmetric] by (rule failed)
    next
      assume "jt_Attempt task < max 0 (wrap32 (cs_MaxRetries ?c))"
        and p: "publishes uuid_ok envelope EventTypeJudgeTask (retryRoute (jt_Language task))
          (enc_JudgeTask (task\<lparr>jt_Attempt := wrap32 (jt_Attempt task + 1)\<rparr>)) h2
          (finish_failed env ?c (RabbitReporter uuid_ok env) envelope task f h2)"
      then have "jt_Attempt task < max 0 (wrap32 m)" by simp
      moreover from publishes_from [OF h2 p] have "publishes uuid_ok envelope EventTypeJudgeTask
          (retryRoute (jt_Language task))
          (enc_JudgeTask (task\<lparr>jt_Attempt := wrap32 (jt_Attempt task + 1)\<rparr>)) h H"
        unfolding H' .
      ultimately show thesis by (rule retry)
    qed
  next
    case nothing
    with h2 show thesis using failed [of undefined] by (simp add: H publishes_def)
  qed
qed

lemma retried_task:
  assumes d: "decodeTask uuid_ok body = Inr (envelope, task)"
    and p: "publications (Handle uuid_ok env (worker_consumer uuid_ok env lenv l config m dl) body h)
      = publications h @ [(route, i, body')]"
    and t': "decodeTask uuid_ok (Some body') = Inr (envelope', task')"
  shows "jt_Attempt task < max 0 (wrap32 m) \<and> task' = task\<lparr>jt_Attempt := jt_Attempt task + 1\<rparr>
    \<and> route = retryRoute (jt_Language task) \<and> env_CausationID envelope' = env_EventID envelope"
  using d
proof (cases rule: handle_publishes [where env = env and lenv = lenv and l = l and config = config
      and m = m and d = dl and h = h])
  case (completed result)
  with p t' decode_other_event show ?thesis
    by (auto simp: publishes_def EventTypeJudgeCompleted_def EventTypeJudgeTask_def)
next
  case (failed f)
  with p t' decode_other_event show ?thesis
    by (auto simp: publishes_def EventTypeJudgeFailed_def EventTypeJudgeTask_def)
next
  case retry
  let ?t = "task\<lparr>jt_Attempt := jt_Attempt task + 1\<rparr>"
  obtain d where dt: "dec_JudgeTask d = Some task" using decodeTask_Inr(2) [OF d] by blast
  note ranges = dec_JudgeTask_ranges [OF dt] and valid = decodeTask_Inr(1) [OF d]
  have small: "jt_Attempt task + 1 \<le> max_int32" using retry(1) wrap32_range [of m] by (simp add: max_def max_int32_def split: if_splits)
  have pos: "0 \<le> jt_Attempt task" using valid by (auto simp: JudgeTask_Validate_def split: if_splits)
  have w: "wrap32 (jt_Attempt task + 1) = jt_Attempt task + 1" using small pos by (simp add: wrap32_id)
  from retry(2) p obtain mm dd where m: "enc_JudgeTask ?t = Some dd" "em_EventType mm = EventTypeJudgeTask"
    "em_CausationID mm = env_EventID envelope" "MarshalEnvelope uuid_ok mm (Some dd) = Inr body'"
    "route = retryRoute (jt_Language task)"
    by (auto simp: publishes_def w)
  have "JudgeTask_Validate ?t = None" using valid pos by (simp add: JudgeTask_Validate_def split: if_splits)
  moreover have "dec_JudgeTask dd = Some ?t"
    using dec_enc_JudgeTask [OF m(1)] ranges small pos by simp
  ultimately have "decodeTask uuid_ok (Some body') = Inr (envelope_of_metadata mm dd, ?t)"
    using decode_marshalled_task m by blast
  then show ?thesis using t' retry(1) m(3,5) by (auto simp: envelope_of_metadata_def)
qed

lemma trim_space_replicate: "\<not> is_space c \<Longrightarrow> trim_space (replicate n c) = replicate n c"
proof -
  assume "\<not> is_space c"
  then have "dropWhile is_space (replicate n c) = replicate n c" by (cases n) simp_all
  then show ?thesis by (simp add: trim_space_def trim_right_of_def)
qed

lemma demo_timeout:
  fixes n
  defines "err \<equiv> replicate n (CHR ''x'')"
  defines "reason \<equiv> ''SANDBOX_COMPILE_TIMEOUT''"
  assumes "n \<le> 4096" "0 < n"
  shows "\<exists>cmd. Execute (demo_engine (demo_answer PbTimeLimitExceeded [] err) (demo_answer PbAccepted out [])) demo_work h
    = (outcomeFromError demo_work (SystemError reason True (Some (PlainError err))), h @ [CallNow, CallExec cmd])"
proof -
  let ?env = "demo_env PbTimeLimitExceeded err out"
  obtain cmd where c: "GoJudge_Execute ?env (command_compile_request demo_gcc ''main'') (h @ [CallNow])
    = (Inr (result_of_pb (hd (pb_Results (demo_answer PbTimeLimitExceeded [] err)))), (h @ [CallNow]) @ [CallExec cmd])"
    using demo_compile by blast
  have "trim_space err = err" unfolding err_def by (rule trim_space_replicate) (simp add: is_space_def)
  moreover have "err \<noteq> []" "\<not> 4096 < length err" using assms(3,4) by (simp_all add: err_def)
  moreover have "trim_space reason = reason" unfolding reason_def by code_simp
  moreover have "cm_compiler demo_gcc \<noteq> []" "cm_sourceName demo_gcc \<noteq> []"
    by (simp_all add: demo_gcc_def NewCommandRunner_def)
  ultimately have "lr_Compile (command_runner ?env demo_gcc) ''main'' (h @ [CallNow])
    = (Inl (SystemError reason True (Some (PlainError err))), h @ [CallNow, CallExec cmd])"
    using c by (simp add: command_runner_def CommandRunner_Compile_def)
      (simp add: result_of_pb_def demo_answer_def commandCompileSystemError_def commandDiagnostic_def
        map_get_def NewSystemError_def Let_def reason_def)
  moreover have "lt_Source demo_loaded = ''main''" by (simp add: demo_loaded_def)
  ultimately show ?thesis
    by (intro exI [of _ cmd]) (simp add: Execute_def demo_work_valid demo_load demo_loaded_valid)
qed

lemma demo_message:
  assumes "jt_Attempt t \<in> {0..max_int32}" "t = demo_work\<lparr>jt_Attempt := jt_Attempt t\<rparr>"
    and "m = \<lparr>em_EventID = i, em_EventType = EventTypeJudgeTask, em_EventVersion = 1, em_OccurredAt = 5,
      em_TraceID = [], em_TraceParent = [], em_TraceState = [], em_CausationID = ca\<rparr>"
  shows "\<exists>d body. enc_JudgeTask t = Some d \<and> MarshalEnvelope (\<lambda>u. True) m (Some d) = Inr body
    \<and> decodeTask (\<lambda>u. True) (Some body) = Inr (envelope_of_metadata m d, t)"
proof -
  have f: "jt_SubmissionID t = 7" "jt_ProblemID t = 3" "jt_SourceSizeBytes t = 4" "jt_JudgeDeadlineAt t = 1000"
    by (subst assms(2), simp)+
  have v: "JudgeTask_Validate t = None"
    using demo_work_valid assms(1) by (subst assms(2)) (simp add: JudgeTask_Validate_def split: if_splits)
  obtain d where d: "enc_JudgeTask t = Some d" using f by (simp add: enc_JudgeTask_def time_json_ok_def)
  have dec: "dec_JudgeTask d = Some t"
    using dec_enc_JudgeTask [OF d] f assms(1) by (simp add: min_int64_def max_int64_def)
  obtain body where b: "MarshalEnvelope (\<lambda>u. True) m (Some d) = Inr body"
    by (simp add: assms(3) MarshalEnvelope_def validateMetadata_def EventVersion1_def zero_time_def
        enc_envelope_def envelope_of_metadata_def time_json_ok_def EventTypeJudgeTask_def)
  have "em_EventType m = EventTypeJudgeTask" by (simp add: assms(3))
  from decode_marshalled_task [OF b this d v dec] d b show ?thesis by blast
qed

lemma publish_event_Inr:
  assumes "marshalEvent uuid_ok env input ty payload h = (Inr body, h1)" "dec_struct dec_envelope body = Some e"
  shows "publish_event uuid_ok env input ty route payload h
    = (we_publish env h1 route body, h1 @ [CallPublish route (env_EventID e) body])"
  using assms by (simp add: publish_event_def)

lemma demo_retry:
  defines "env \<equiv> demo_env PbTimeLimitExceeded ''x'' []"
  assumes "decodeTask (\<lambda>u. True) body = Inr (envelope, demo_work)" and "env_TraceID envelope = []"
    "env_TraceParent envelope = []" "env_TraceState envelope = []"
  shows "\<exists>route i body' e'. publications (Handle (\<lambda>u. True) env (demo_consumer env 3) body []) = [(route, i, body')]
    \<and> decodeTask (\<lambda>u. True) (Some body') = Inr (e', demo_work\<lparr>jt_Attempt := 1\<rparr>)"
proof -
  let ?t = "demo_work\<lparr>jt_Attempt := 1\<rparr>"
  let ?err = "SystemError ''SANDBOX_COMPILE_TIMEOUT'' True (Some (PlainError ''x''))"
  let ?m = "\<lparr>em_EventID = ''u'', em_EventType = EventTypeJudgeTask, em_EventVersion = 1, em_OccurredAt = 5,
      em_TraceID = [], em_TraceParent = [], em_TraceState = [], em_CausationID = env_EventID envelope\<rparr>"
  have "replicate 1 (CHR ''x'') = ''x''" by simp
  with demo_timeout [of 1 "[]" "[CallNow]"] obtain cmd where
    ex: "Execute (worker_engine env demo_store demo_buckets demo_go) demo_work [CallNow]
      = (outcomeFromError demo_work ?err, [CallNow, CallNow, CallExec cmd])"
    by (auto simp: demo_engine_def env_def)
  obtain f where f: "ou_Completed (outcomeFromError demo_work ?err) = None"
    "ou_Failed (outcomeFromError demo_work ?err) = Some f" "jf_Retryable f"
    by (auto simp: outcome_defs ClassifyFailure_def)
  let ?h = "[CallNow, CallNow, CallExec cmd, CallNow]"
  have now: "we_now env h = 5" for h by (simp add: env_def demo_world_def)
  have allowed: "retryAllowed env (demo_consumer env 3) demo_work [CallNow, CallNow, CallExec cmd] = (True, ?h)"
    by (simp add: retryAllowed_def demo_consumer_def worker_consumer_def read_clock_def now wrap32_def Let_def)
  obtain d body' where b: "enc_JudgeTask ?t = Some d" "MarshalEnvelope (\<lambda>u. True) ?m (Some d) = Inr body'"
    "decodeTask (\<lambda>u. True) (Some body') = Inr (envelope_of_metadata ?m d, ?t)"
    using demo_message [of ?t ?m "''u''" "env_EventID envelope"] by (auto simp: max_int32_def)
  have "marshalEvent (\<lambda>u. True) env envelope EventTypeJudgeTask (Some d) ?h
      = (Inr body', ?h @ [CallTrace, CallUUID, CallNow])"
    using b(2) assms(3-5)
    by (simp add: marshalEvent_def read_clock_def now env_def demo_world_def EventVersion1_def Let_def)
  moreover obtain e where "dec_struct dec_envelope body' = Some e"
    using b(3) by (auto simp: decodeTask_def UnmarshalEnvelope_def split: option.splits)
  moreover have v: "JudgeTask_Validate ?t = None"
    using demo_work_valid by (simp add: JudgeTask_Validate_def split: if_splits)
  ultimately obtain r where "ReportRetry (\<lambda>u. True) env envelope ?t ?h
      = (None, ?h @ [CallTrace, CallUUID, CallNow] @ [CallPublish (retryRoute ''c'') r body'])"
    using publish_event_Inr [of "\<lambda>u. True" env envelope EventTypeJudgeTask "Some d" ?h body']
    by (simp add: ReportRetry_def b(1)) (simp add: env_def demo_world_def)
  moreover have "wrap32 1 = 1" by (simp add: wrap32_def)
  ultimately have "publications (finish_failed env (demo_consumer env 3) (RabbitReporter (\<lambda>u. True) env) envelope
      demo_work f [CallNow, CallNow, CallExec cmd]) = [(retryRoute ''c'', r, body')]"
    using publish_retry_publications [of env "\<lambda>u. True" envelope demo_work ?h]
    by (simp add: finish_failed_def f(3) allowed)
  moreover have "Handle (\<lambda>u. True) env (demo_consumer env 3) body [] = finish_failed env (demo_consumer env 3)
      (RabbitReporter (\<lambda>u. True) env) envelope demo_work f [CallNow, CallNow, CallExec cmd]"
    using ex f by (simp add: Handle_def assms(2) handle_task_def demo_consumer_def read_clock_def now)
  ultimately show ?thesis using b(3) by auto
qed

section \<open>Properties\<close>


text \<open>
  C19. Retries end: when each task of a sequence was delivered and handled with the publication of the next
  one as a task event, the sequence is no longer than the configured number of retries, and the tasks
  differ in nothing but the attempt counter, which goes up by one each time.
\<close>

theorem retries_terminate:
  assumes "\<forall>k < n. \<exists>body envelope h route i body' envelope'.
      decodeTask uuid_ok body = Inr (envelope, tasks k)
      \<and> publications (Handle uuid_ok env (worker_consumer uuid_ok env lenv l config maxRetries delay) body h)
          = publications h @ [(route, i, body')]
      \<and> decodeTask uuid_ok (Some body') = Inr (envelope', tasks (Suc k))"
    and "0 \<le> jt_Attempt (tasks 0)"
  shows "int n \<le> max 0 (wrap32 maxRetries)
    \<and> tasks n = (tasks 0)\<lparr>jt_Attempt := jt_Attempt (tasks 0) + int n\<rparr>"
proof -
  have step: "jt_Attempt (tasks k) < max 0 (wrap32 maxRetries)
      \<and> tasks (Suc k) = (tasks k)\<lparr>jt_Attempt := jt_Attempt (tasks k) + 1\<rparr>" if "k < n" for k
    using assms(1) that retried_task by blast
  have same: "tasks k = (tasks 0)\<lparr>jt_Attempt := jt_Attempt (tasks 0) + int k\<rparr>" if "k \<le> n" for k
    using that
  proof (induction k)
    case (Suc k)
    then show ?case using step [of k] by (simp add: algebra_simps)
  qed simp
  moreover have "int n \<le> max 0 (wrap32 maxRetries)"
  proof (cases n)
    case (Suc k)
    then show ?thesis using step [of k] same [of k] assms(2) by simp
  qed simp
  ultimately show ?thesis by blast
qed

theorem retries_terminate_witness:
  "\<exists>tasks. (\<forall>k < 1. \<exists>body envelope h route i body' envelope'.
      decodeTask (\<lambda>u. True) body = Inr (envelope, tasks k)
      \<and> publications (Handle (\<lambda>u. True) (demo_env PbTimeLimitExceeded ''x'' [])
            (worker_consumer (\<lambda>u. True) (demo_env PbTimeLimitExceeded ''x'' []) demo_store demo_buckets demo_go 3 10) body h)
          = publications h @ [(route, i, body')]
      \<and> decodeTask (\<lambda>u. True) (Some body') = Inr (envelope', tasks (Suc k)))
    \<and> int 1 \<le> max 0 (wrap32 3)"
proof -
  let ?m = "\<lparr>em_EventID = ''u'', em_EventType = EventTypeJudgeTask, em_EventVersion = 1, em_OccurredAt = 5,
      em_TraceID = [], em_TraceParent = [], em_TraceState = [], em_CausationID = []\<rparr>"
  let ?tasks = "\<lambda>k. demo_work\<lparr>jt_Attempt := int k\<rparr>"
  have zero: "demo_work\<lparr>jt_Attempt := 0\<rparr> = demo_work" by (simp add: demo_work_def)
  obtain d body where b: "decodeTask (\<lambda>u. True) (Some body) = Inr (envelope_of_metadata ?m d, demo_work)"
    using demo_message [of demo_work ?m "''u''" "[]"] by (auto simp: max_int32_def zero)
  obtain route i body' e' where p: "publications (Handle (\<lambda>u. True) (demo_env PbTimeLimitExceeded ''x'' [])
      (demo_consumer (demo_env PbTimeLimitExceeded ''x'' []) 3) (Some body) []) = [(route, i, body')]"
    "decodeTask (\<lambda>u. True) (Some body') = Inr (e', demo_work\<lparr>jt_Attempt := 1\<rparr>)"
    using demo_retry [OF b] by (auto simp: envelope_of_metadata_def)
  have h: "\<forall>k < 1. \<exists>body envelope h route i body' envelope'.
      decodeTask (\<lambda>u. True) body = Inr (envelope, ?tasks k)
      \<and> publications (Handle (\<lambda>u. True) (demo_env PbTimeLimitExceeded ''x'' [])
            (worker_consumer (\<lambda>u. True) (demo_env PbTimeLimitExceeded ''x'' []) demo_store demo_buckets demo_go 3 10) body h)
          = publications h @ [(route, i, body')]
      \<and> decodeTask (\<lambda>u. True) (Some body') = Inr (envelope', ?tasks (Suc k))"
    using b p unfolding demo_consumer_def
    by (intro allI impI exI [of _ "Some body"] exI [of _ "envelope_of_metadata ?m d"] exI [of _ "[]"]
        exI [of _ route] exI [of _ i] exI [of _ body'] exI [of _ e']) (simp add: zero)
  from retries_terminate [OF h] h show ?thesis by (intro exI [of _ ?tasks]) simp
qed



text \<open>
  A retried task comes back to the queue it came from: for a task with a normalised language, the
  route of its retry is the binding of a declared delay queue whose messages are dead-lettered, after the
  retry delay, to the routing key of the language's task queue.
\<close>

theorem retry_returns_to_its_queue:
  assumes "JudgeTaskRoutingKey language = Inr queue" and "to_lower (trim_space language) = language"
    and "0 < delay" and "delay \<le> max_int32 * Millisecond"
  shows "\<exists>q \<in> set (declareTopologyForLanguage exchange queue dlq delay).
    qd_binding q = retryRoute language \<and> map_of (qd_args q) ''x-dead-letter-routing-key'' = Some queue
    \<and> map_of (qd_args q) ''x-dead-letter-exchange'' = Some exchange \<and> qd_ttl_ms q = Some (delay div Millisecond)"
proof -
  have ttl: "wrap32 (go_div delay Millisecond) = delay div Millisecond"
  proof -
    have "delay div Millisecond \<le> max_int32 * Millisecond div Millisecond"
      by (rule zdiv_mono1 [OF assms(4)]) (simp add: Millisecond_def)
    moreover have "0 \<le> delay div Millisecond" using assms(3) by (simp add: Millisecond_def pos_imp_zdiv_nonneg_iff)
    ultimately show ?thesis using assms(3) by (simp add: go_div_nonneg wrap32_id Millisecond_def)
  qed
  have route: "''judge.retry.'' @ trim_prefix queue ''judge.task.'' = retryRoute language"
  proof -
    have "language \<in> {''cpp'', ''c'', ''go'', ''python'', ''java''} \<and> queue = ''judge.task.'' @ language"
      using assms(1,2) by (simp add: JudgeTaskRoutingKey_def Let_def split: if_splits)
    then have l: "language \<in> {''cpp'', ''c'', ''go'', ''python'', ''java''}"
      and q: "trim_prefix queue ''judge.task.'' = language" using trim_prefix_append by (blast, metis)
    from l show ?thesis unfolding q by (elim insertE emptyE) (simp_all add: retryRoute_def)
  qed
  show ?thesis
    using assms(3) by (simp add: declareTopologyForLanguage_def Let_def route [simplified] ttl)
qed

theorem retry_returns_to_its_queue_witness:
  "\<exists>q \<in> set (declareTopologyForLanguage ''oj'' ''judge.task.go'' [] (5 * Second)).
    qd_binding q = ''judge.retry.go'' \<and> qd_ttl_ms q = Some 5000"
proof -
  have "JudgeTaskRoutingKey ''go'' = Inr ''judge.task.go''" "to_lower (trim_space ''go'') = ''go''"
    by code_simp+
  from retry_returns_to_its_queue [OF this, of "5 * Second" "''oj''" "[]"] show ?thesis
    by (auto simp: Second_def Millisecond_def max_int32_def retryRoute_def)
qed

end
