(* ===== verification/Contest_Scoring.thy ===== *)
theory Contest_Scoring
  imports Mq
begin

text \<open>
  The scoring policy of the contest service and the events it consumes,
  \<open>src/services/contest/internal/biz/scoring.go\<close>. \<open>SubmissionFact\<close> embeds the judged event as the Go
  struct does. \<open>Rebuild\<close> is the ACM policy: it sorts the facts of one user on one problem and runs
  over them; \<open>acm_result\<close> is the rule it implements, stated without the sort and without the loop.
\<close>

section \<open>Definitions\<close>

subsection \<open>Facts and results\<close>

record SubmissionFact = SubmissionJudged +
  sf_Invalidated :: bool

record ProblemResult =
  pr_ProblemID :: int64
  pr_Solved :: bool
  pr_WrongAttempts :: int32
  pr_AcceptedSubmissionID :: "int64 option"
  pr_AcceptedAt :: "time option"
  pr_PenaltySeconds :: int64

definition zero_ProblemResult :: ProblemResult where
  "zero_ProblemResult = \<lparr>pr_ProblemID = 0, pr_Solved = False, pr_WrongAttempts = 0,
     pr_AcceptedSubmissionID = None, pr_AcceptedAt = None, pr_PenaltySeconds = 0\<rparr>"

subsection \<open>The ACM policy\<close>

definition fact_before :: "SubmissionFact \<Rightarrow> SubmissionFact \<Rightarrow> bool" where
  \<comment> \<open>the comparison passed to \<open>sort.Slice\<close>\<close>
  "fact_before f g =
     (if sj_SubmittedAt f = sj_SubmittedAt g then sj_SubmissionID f < sj_SubmissionID g
      else sj_SubmittedAt f < sj_SubmittedAt g)"

fun insert_fact :: "SubmissionFact \<Rightarrow> SubmissionFact list \<Rightarrow> SubmissionFact list" where
  "insert_fact f [] = [f]"
| "insert_fact f (g # gs) = (if fact_before g f then g # insert_fact f gs else f # g # gs)"

definition sort_facts :: "SubmissionFact list \<Rightarrow> SubmissionFact list" where
  "sort_facts facts = foldr insert_fact facts []"

definition counted_verdicts :: "string set" where
  "counted_verdicts = {''WA'', ''TLE'', ''MLE'', ''RE'', ''CE''}"

definition penalty_of :: "time \<Rightarrow> time \<Rightarrow> int32 \<Rightarrow> int64" where
  "penalty_of start at wrong = wrap64 (go_div (time_sub at start) Second + wrap64 (wrong * 1200))"

fun rebuild_loop :: "time \<Rightarrow> SubmissionFact list \<Rightarrow> ProblemResult \<Rightarrow> ProblemResult" where
  "rebuild_loop start [] result = result"
| "rebuild_loop start (fct # facts) result =
     (let result = result\<lparr>pr_ProblemID := sj_ProblemID fct\<rparr>
      in if sf_Invalidated fct then rebuild_loop start facts result
         else if sj_Verdict fct = ''AC'' then
           result\<lparr>pr_Solved := True, pr_AcceptedSubmissionID := Some (sj_SubmissionID fct),
             pr_AcceptedAt := Some (sj_SubmittedAt fct),
             pr_PenaltySeconds := penalty_of start (sj_SubmittedAt fct) (pr_WrongAttempts result)\<rparr>
         else if sj_Verdict fct \<in> counted_verdicts then
           rebuild_loop start facts (result\<lparr>pr_WrongAttempts := wrap32 (pr_WrongAttempts result + 1)\<rparr>)
         else rebuild_loop start facts result)"

definition Rebuild :: "time \<Rightarrow> SubmissionFact list \<Rightarrow> ProblemResult" where
  "Rebuild start facts = rebuild_loop start (sort_facts facts) zero_ProblemResult"

subsection \<open>The rule of the policy\<close>

definition accepting :: "SubmissionFact \<Rightarrow> bool" where
  "accepting f \<longleftrightarrow> \<not> sf_Invalidated f \<and> sj_Verdict f = ''AC''"

definition counted :: "SubmissionFact \<Rightarrow> bool" where
  "counted f \<longleftrightarrow> \<not> sf_Invalidated f \<and> sj_Verdict f \<in> counted_verdicts"

definition earliest :: "SubmissionFact \<Rightarrow> SubmissionFact list \<Rightarrow> SubmissionFact" where
  "earliest f fs = foldr (\<lambda>g a. if fact_before g a then g else a) fs f"

definition acm_result :: "time \<Rightarrow> int64 \<Rightarrow> SubmissionFact list \<Rightarrow> ProblemResult" where
  "acm_result start p facts =
     (case filter accepting facts of
        [] \<Rightarrow> \<lparr>pr_ProblemID = p, pr_Solved = False,
               pr_WrongAttempts = int (length (filter counted facts)),
               pr_AcceptedSubmissionID = None, pr_AcceptedAt = None, pr_PenaltySeconds = 0\<rparr>
      | f # fs \<Rightarrow>
          (let a = earliest f fs;
               wrong = int (length (filter (\<lambda>g. counted g \<and> fact_before g a) facts))
           in \<lparr>pr_ProblemID = p, pr_Solved = True, pr_WrongAttempts = wrong,
               pr_AcceptedSubmissionID = Some (sj_SubmissionID a),
               pr_AcceptedAt = Some (sj_SubmittedAt a),
               pr_PenaltySeconds = (sj_SubmittedAt a - start) div 1000000000 + wrong * 1200\<rparr>))"

subsection \<open>The events of the projection\<close>

record ProjectionEvent =
  pe_EventID :: string
  pe_CausationID :: string
  pe_TraceParent :: string
  pe_TraceState :: string
  pe_Fact :: SubmissionFact

definition judged_fact :: "SubmissionJudged \<Rightarrow> SubmissionFact" where
  "judged_fact v = SubmissionJudged.extend v (SubmissionFact.fields False)"

definition invalidated_fact :: "SubmissionInvalidated \<Rightarrow> SubmissionFact" where
  "invalidated_fact v = \<lparr>sj_SubmissionID = si_SubmissionID v, sj_ContestID = si_ContestID v,
     sj_UserID = si_UserID v, sj_ProblemID = si_ProblemID v, sj_Verdict = ''SYSTEM_ERROR'',
     sj_SubmittedAt = si_SubmittedAt v, sj_JudgedAt = si_InvalidatedAt v, sf_Invalidated = True\<rparr>"

definition projection_event :: "Envelope \<Rightarrow> SubmissionFact \<Rightarrow> ProjectionEvent" where
  "projection_event envelope fct = \<lparr>pe_EventID = env_EventID envelope,
     pe_CausationID = env_CausationID envelope, pe_TraceParent = env_TraceParent envelope,
     pe_TraceState = env_TraceState envelope, pe_Fact = fct\<rparr>"

definition ParseProjectionEvent :: "(string \<Rightarrow> bool) \<Rightarrow> json option \<Rightarrow> string + ProjectionEvent" where
  "ParseProjectionEvent uuid_ok body =
     bindE (UnmarshalEnvelope uuid_ok body [] dec_SubmissionJudged) (\<lambda>(envelope, v).
       if env_EventType envelope = EventSubmissionJudged then
         errE (SubmissionJudged_Validate v) (Inr (projection_event envelope (judged_fact v)))
       else if env_EventType envelope = EventSubmissionInvalidated then
         bindE (UnmarshalEnvelope uuid_ok body EventSubmissionInvalidated dec_SubmissionInvalidated)
           (\<lambda>(_, invalid). errE (SubmissionInvalidated_Validate invalid)
              (Inr (projection_event envelope (invalidated_fact invalid))))
       else Inl ''unsupported contest event'')"

section \<open>Lemmas\<close>

subsection \<open>The order and the sort\<close>

lemma fact_before_irrefl [simp]: "\<not> fact_before f f"
  by (simp add: fact_before_def)

lemma fact_before_trans: "fact_before f g \<Longrightarrow> fact_before g h \<Longrightarrow> fact_before f h"
  by (auto simp: fact_before_def split: if_splits)

lemma fact_before_asym: "fact_before f g \<Longrightarrow> \<not> fact_before g f"
  by (auto simp: fact_before_def split: if_splits)

lemma fact_before_total: "sj_SubmissionID f \<noteq> sj_SubmissionID g \<Longrightarrow> fact_before f g \<or> fact_before g f"
  by (auto simp: fact_before_def)

lemma mset_insert_fact [simp]: "mset (insert_fact f gs) = add_mset f (mset gs)"
  by (induction gs) auto

lemma mset_sort_facts [simp]: "mset (sort_facts fs) = mset fs"
  by (induction fs) (auto simp: sort_facts_def)

lemma set_sort_facts [simp]: "set (sort_facts fs) = set fs"
  by (metis mset_sort_facts set_mset_mset)

lemma length_sort_facts [simp]: "length (sort_facts fs) = length fs"
  by (metis mset_sort_facts size_mset)

lemma insert_fact_sorted:
  assumes "sorted_wrt fact_before gs" and "\<forall>g \<in> set gs. sj_SubmissionID g \<noteq> sj_SubmissionID f"
  shows "sorted_wrt fact_before (insert_fact f gs)"
  using assms
proof (induction gs)
  case (Cons g gs)
  have in_set: "h \<in> set (insert_fact f gs) \<Longrightarrow> h = f \<or> h \<in> set gs" for h
    by (metis insert_iff mset_insert_fact set_mset_add_mset_insert set_mset_mset)
  from Cons show ?case
    by (auto dest: in_set fact_before_trans fact_before_total)
qed simp

lemma sort_facts_sorted: "distinct (map sj_SubmissionID fs) \<Longrightarrow> sorted_wrt fact_before (sort_facts fs)"
proof (induction fs)
  case (Cons f fs)
  then have "sorted_wrt fact_before (insert_fact f (sort_facts fs))"
    by (intro insert_fact_sorted) (auto, metis imageI)
  then show ?case by (simp add: sort_facts_def)
qed (simp add: sort_facts_def)

lemma sorted_facts_unique:
  assumes "sorted_wrt fact_before fs" and "sorted_wrt fact_before gs" and "mset fs = mset gs"
  shows "fs = gs"
  using assms
proof (induction fs arbitrary: gs)
  case (Cons f fs)
  then obtain g gs' where gs: "gs = g # gs'" by (cases gs) auto
  have "f = g"
  proof (rule ccontr)
    assume "f \<noteq> g"
    moreover have "set (f # fs) = set (g # gs')" using Cons.prems(3) gs by (metis set_mset_mset)
    ultimately have "f \<in> set gs'" "g \<in> set fs" by auto
    then have "fact_before g f" "fact_before f g" using Cons.prems gs by auto
    then show False using fact_before_asym by blast
  qed
  with Cons gs show ?case by auto
qed auto

lemma earliest_in: "earliest f fs \<in> set (f # fs)"
  by (induction fs) (auto simp: earliest_def)

lemma earliest_le: "g \<in> set (f # fs) \<Longrightarrow> \<not> fact_before g (earliest f fs)"
proof (induction fs)
  case (Cons h fs)
  let ?e = "earliest f fs"
  have e: "earliest f (h # fs) = (if fact_before h ?e then h else ?e)" by (simp add: earliest_def)
  show ?case
  proof (cases "g = h")
    case True
    then show ?thesis using e by simp
  next
    case False
    then have "\<not> fact_before g ?e" using Cons by simp
    then show ?thesis using e fact_before_trans by auto
  qed
qed (simp add: earliest_def)

subsection \<open>The loop\<close>

lemma not_both: "accepting f \<Longrightarrow> \<not> counted f"
  by (simp add: accepting_def counted_def counted_verdicts_def)

lemma rebuild_step:
  "accepting f \<Longrightarrow> rebuild_loop start (f # fs) r =
     r\<lparr>pr_ProblemID := sj_ProblemID f, pr_Solved := True,
       pr_AcceptedSubmissionID := Some (sj_SubmissionID f), pr_AcceptedAt := Some (sj_SubmittedAt f),
       pr_PenaltySeconds := penalty_of start (sj_SubmittedAt f) (pr_WrongAttempts r)\<rparr>"
  "counted f \<Longrightarrow> rebuild_loop start (f # fs) r =
     rebuild_loop start fs (r\<lparr>pr_ProblemID := sj_ProblemID f,
       pr_WrongAttempts := wrap32 (pr_WrongAttempts r + 1)\<rparr>)"
  "\<not> accepting f \<Longrightarrow> \<not> counted f \<Longrightarrow> rebuild_loop start (f # fs) r =
     rebuild_loop start fs (r\<lparr>pr_ProblemID := sj_ProblemID f\<rparr>)"
  by (auto simp: accepting_def counted_def counted_verdicts_def Let_def)

declare rebuild_loop.simps(2) [simp del]

lemma rebuild_none:
  assumes "\<forall>f \<in> set fs. \<not> accepting f \<and> sj_ProblemID f = p" and "fs \<noteq> []"
    and "0 \<le> pr_WrongAttempts r" and "pr_WrongAttempts r + int (length fs) \<le> max_int32"
  shows "rebuild_loop start fs r =
    r\<lparr>pr_ProblemID := p, pr_WrongAttempts := pr_WrongAttempts r + int (length (filter counted fs))\<rparr>"
  using assms
proof (induction fs arbitrary: r)
  case (Cons f fs)
  show ?case
  proof (cases "counted f")
    case True
    then show ?thesis
      using Cons.prems Cons.IH [of "r\<lparr>pr_ProblemID := p, pr_WrongAttempts := pr_WrongAttempts r + 1\<rparr>"]
      by (cases "fs = []") (simp_all add: rebuild_step(2) wrap32_id)
  next
    case False
    then show ?thesis using Cons.prems Cons.IH [of "r\<lparr>pr_ProblemID := p\<rparr>"]
      by (cases "fs = []") (simp_all add: rebuild_step(3))
  qed
qed simp

lemma rebuild_prefix:
  assumes "\<forall>f \<in> set fs. \<not> accepting f" and "accepting a" and "sj_ProblemID a = p"
    and "0 \<le> pr_WrongAttempts r" and "pr_WrongAttempts r + int (length fs) \<le> max_int32"
  shows "rebuild_loop start (fs @ a # gs) r =
    r\<lparr>pr_ProblemID := p, pr_Solved := True,
      pr_WrongAttempts := pr_WrongAttempts r + int (length (filter counted fs)),
      pr_AcceptedSubmissionID := Some (sj_SubmissionID a), pr_AcceptedAt := Some (sj_SubmittedAt a),
      pr_PenaltySeconds :=
        penalty_of start (sj_SubmittedAt a) (pr_WrongAttempts r + int (length (filter counted fs)))\<rparr>"
  using assms
proof (induction fs arbitrary: r)
  case Nil
  then show ?case by (simp add: rebuild_step(1))
next
  case (Cons f fs)
  show ?case
  proof (cases "counted f")
    case True
    then show ?thesis
      using Cons.prems
        Cons.IH [of "r\<lparr>pr_ProblemID := sj_ProblemID f, pr_WrongAttempts := pr_WrongAttempts r + 1\<rparr>"]
      by (simp add: rebuild_step(2) wrap32_id ac_simps)
  next
    case False
    then show ?thesis using Cons.prems Cons.IH [of "r\<lparr>pr_ProblemID := sj_ProblemID f\<rparr>"]
      by (simp add: rebuild_step(3))
  qed
qed

lemma penalty_of_exact:
  assumes "start \<le> at" and "at - start \<le> max_int64" and "0 \<le> wrong" and "wrong \<le> max_int32"
  shows "penalty_of start at wrong = (at - start) div 1000000000 + wrong * 1200"
proof -
  have s: "time_sub at start = at - start"
    using assms by (simp add: time_sub_exact min_int64_def)
  have d: "go_div (at - start) Second = (at - start) div 1000000000"
    using assms by (simp add: go_div_nonneg Second_def)
  have b: "0 \<le> (at - start) div 1000000000" "(at - start) div 1000000000 \<le> 9223372036"
    using assms zdiv_mono1 [of "at - start" max_int64 1000000000] by (simp_all add: max_int64_def)
  have w: "wrong * 1200 \<le> max_int32 * 1200" using assms by simp
  show ?thesis
    using assms b w unfolding penalty_of_def s d
    by (simp add: wrap64_id min_int64_def max_int64_def max_int32_def)
qed

lemma sorted_split:
  assumes "sorted_wrt fact_before (fs @ a # gs)"
  shows "filter (\<lambda>g. counted g \<and> fact_before g a) (fs @ a # gs) = filter counted fs"
proof -
  have "filter (\<lambda>g. counted g \<and> fact_before g a) fs = filter counted fs"
    using assms by (intro filter_cong) (auto simp: sorted_wrt_append)
  moreover have "filter (\<lambda>g. counted g \<and> fact_before g a) gs = []"
    using assms by (auto simp: sorted_wrt_append filter_empty_conv dest: fact_before_asym)
  ultimately show ?thesis by simp
qed

lemma length_filter_mset: "mset xs = mset ys \<Longrightarrow> length (filter P xs) = length (filter P ys)"
  by (metis mset_filter size_mset)

lemma Rebuild_acm:
  assumes "distinct (map sj_SubmissionID facts)" and "facts \<noteq> []"
    and "int (length facts) \<le> max_int32"
    and "\<forall>f \<in> set facts. sj_ProblemID f = p \<and> start \<le> sj_SubmittedAt f
           \<and> sj_SubmittedAt f - start \<le> max_int64"
  shows "Rebuild start facts = acm_result start p facts"
proof -
  let ?s = "sort_facts facts"
  have srt: "sorted_wrt fact_before ?s" using sort_facts_sorted [OF assms(1)] .
  show ?thesis
  proof (cases "filter accepting facts")
    case Nil
    then have "\<forall>f \<in> set ?s. \<not> accepting f \<and> sj_ProblemID f = p"
      using assms(4) by (auto simp: filter_empty_conv)
    moreover have "?s \<noteq> []" using assms(2) length_sort_facts [of facts] by (metis length_0_conv)
    ultimately show ?thesis
      using rebuild_none [of ?s p zero_ProblemResult start] assms(3) Nil
        length_filter_mset [OF mset_sort_facts, of counted facts]
      by (simp add: Rebuild_def acm_result_def zero_ProblemResult_def)
  next
    case (Cons f fs)
    let ?a = "earliest f fs"
    have a: "?a \<in> set facts" "accepting ?a"
      using earliest_in [of f fs] arg_cong [OF Cons, of set] by auto
    then have "\<exists>g \<in> set ?s. accepting g" by auto
    then obtain us b vs where uv: "?s = us @ b # vs" "accepting b" "\<forall>u \<in> set us. \<not> accepting u"
      by (metis split_list_first_prop)
    have "b = ?a"
    proof (rule ccontr)
      assume "b \<noteq> ?a"
      moreover have "?a \<in> set ?s" using a by simp
      ultimately have "?a \<in> set vs" using uv a(2) by auto
      then have "fact_before b ?a" using srt uv(1) by (auto simp: sorted_wrt_append)
      moreover have "b \<in> set (f # fs)"
        using uv(1,2) set_sort_facts [of facts] arg_cong [OF Cons, of set] by auto
      ultimately show False using earliest_le by blast
    qed
    let ?w = "length (filter (\<lambda>g. counted g \<and> fact_before g ?a) facts)"
    have w: "?w = length (filter counted us)"
      using sorted_split [of us b vs] srt uv(1) length_filter_mset [OF mset_sort_facts] \<open>b = ?a\<close>
      by metis
    have len: "length us + Suc (length vs) = length facts"
      using arg_cong [OF uv(1), of length] by simp
    have wm: "int ?w \<le> max_int32" using w len assms(3) length_filter_le [of counted us] by linarith
    have "Rebuild start facts = \<lparr>pr_ProblemID = p, pr_Solved = True, pr_WrongAttempts = int ?w,
        pr_AcceptedSubmissionID = Some (sj_SubmissionID ?a), pr_AcceptedAt = Some (sj_SubmittedAt ?a),
        pr_PenaltySeconds = penalty_of start (sj_SubmittedAt ?a) (int ?w)\<rparr>"
      using rebuild_prefix [of us b p zero_ProblemResult start vs] uv a assms(3,4) len w \<open>b = ?a\<close>
      by (simp add: Rebuild_def zero_ProblemResult_def)
    then show ?thesis
      using penalty_of_exact [of start "sj_SubmittedAt ?a" "int ?w"] a assms(4) wm Cons
      by (simp add: acm_result_def Let_def)
  qed
qed

lemma sort_facts_perm:
  assumes "distinct (map sj_SubmissionID facts)" and "mset other = mset facts"
  shows "sort_facts other = sort_facts facts"
proof -
  have "distinct (map sj_SubmissionID other)" using assms by (metis mset_map mset_eq_imp_distinct_iff)
  then show ?thesis using sorted_facts_unique sort_facts_sorted assms by (metis mset_sort_facts)
qed

section \<open>Properties\<close>



end
