(* ===== verification/Contest_Snapshot.thy ===== *)
theory Contest_Snapshot
  imports Mq
begin

text \<open>
  The leaderboard snapshot that the contest service writes to its cache outbox and the cache reads
  back, \<open>src/services/contest/internal/biz/leaderboard_snapshot.go\<close>: the structs, their JSON form and
  \<open>Validate\<close>. Versions travel as decimal strings, so \<open>strconv.ParseInt\<close> and \<open>FormatInt\<close> are modelled
  on strings.
\<close>

section \<open>Definitions\<close>

subsection \<open>Decimal integers\<close>

definition digit_value :: "char \<Rightarrow> nat option" where
  "digit_value c = (let n = (of_char c :: nat) in if 48 \<le> n \<and> n \<le> 57 then Some (n - 48) else None)"

fun parse_digits :: "nat \<Rightarrow> string \<Rightarrow> nat option" where
  "parse_digits acc [] = Some acc"
| "parse_digits acc (c # cs) =
     (case digit_value c of None \<Rightarrow> None | Some d \<Rightarrow> parse_digits (acc * 10 + d) cs)"

definition parse_int64 :: "string \<Rightarrow> int option" where
  \<comment> \<open>\<open>strconv.ParseInt(s, 10, 64)\<close>\<close>
  "parse_int64 s =
     (case s of [] \<Rightarrow> None
      | c # cs \<Rightarrow>
          (let ds = (if c = CHR ''+'' \<or> c = CHR ''-'' then cs else s)
           in if ds = [] then None
              else case parse_digits 0 ds of None \<Rightarrow> None
                   | Some n \<Rightarrow>
                       (let v = (if c = CHR ''-'' then - int n else int n)
                        in if min_int64 \<le> v \<and> v \<le> max_int64 then Some v else None)))"

subsection \<open>The snapshot\<close>

record LeaderboardProblem =
  lp_ProblemID :: int64
  lp_Solved :: bool
  lp_WrongAttempts :: int32
  lp_AcceptedAt :: "time option"
  lp_PenaltySeconds :: int64

record LeaderboardSnapshot =
  ls_Schema :: int64
  ls_ContestID :: int64
  ls_UserID :: int64
  ls_Version :: string
  ls_SolvedCount :: int32
  ls_PenaltySeconds :: int64
  ls_Problems :: "LeaderboardProblem list"

definition bad_problem :: "int64 set \<Rightarrow> int64 \<Rightarrow> LeaderboardProblem \<Rightarrow> bool" where
  \<comment> \<open>the condition of the loop in \<open>Validate\<close>, with the problems seen and the penalty so far\<close>
  "bad_problem seen penalty p \<longleftrightarrow>
     lp_ProblemID p \<le> 0 \<or> lp_ProblemID p \<in> seen \<or> lp_WrongAttempts p < 0 \<or> lp_PenaltySeconds p < 0
     \<or> lp_PenaltySeconds p > max_int64 - penalty
     \<or> (lp_Solved p \<and> (lp_AcceptedAt p = None \<or> lp_AcceptedAt p = Some zero_time))
     \<or> (\<not> lp_Solved p \<and> (lp_AcceptedAt p \<noteq> None \<or> lp_PenaltySeconds p \<noteq> 0))"

fun snapshot_totals ::
  "int64 set \<Rightarrow> int32 \<Rightarrow> int64 \<Rightarrow> LeaderboardProblem list \<Rightarrow> (int32 \<times> int64) option" where
  "snapshot_totals seen solved penalty [] = Some (solved, penalty)"
| "snapshot_totals seen solved penalty (p # ps) =
     (if bad_problem seen penalty p then None
      else snapshot_totals (insert (lp_ProblemID p) seen)
             (if lp_Solved p then wrap32 (solved + 1) else solved)
             (wrap64 (penalty + lp_PenaltySeconds p)) ps)"

definition bad_identity :: "LeaderboardSnapshot \<Rightarrow> bool" where
  "bad_identity s \<longleftrightarrow>
     (case parse_int64 (ls_Version s) of None \<Rightarrow> True
      | Some version \<Rightarrow> version \<le> 0 \<or> format_int version \<noteq> ls_Version s)
     \<or> ls_Schema s \<noteq> 1 \<or> ls_ContestID s \<le> 0 \<or> ls_UserID s \<le> 0
     \<or> length (ls_Problems s) = 0 \<or> length (ls_Problems s) > 100
     \<or> ls_SolvedCount s < 0 \<or> ls_SolvedCount s > 100 \<or> ls_PenaltySeconds s < 0"

definition LeaderboardSnapshot_Validate :: "LeaderboardSnapshot \<Rightarrow> string option" where
  "LeaderboardSnapshot_Validate s =
     (if bad_identity s then Some ''invalid leaderboard snapshot identity or totals''
      else case snapshot_totals {} 0 0 (ls_Problems s) of
             None \<Rightarrow> Some ''invalid leaderboard problem result''
           | Some (solved, penalty) \<Rightarrow>
               (if solved \<noteq> ls_SolvedCount s \<or> penalty \<noteq> ls_PenaltySeconds s
                then Some ''snapshot totals disagree with problem results'' else None))"

subsection \<open>JSON\<close>

definition enc_LeaderboardProblem :: "LeaderboardProblem \<Rightarrow> json option" where
  "enc_LeaderboardProblem p =
     (if lp_AcceptedAt p = None \<or> time_json_ok (the (lp_AcceptedAt p))
      then Some (JObj ([(''problem_id'', JNum (lp_ProblemID p)), (''solved'', JBool (lp_Solved p)),
             (''wrong_attempts'', JNum (lp_WrongAttempts p))]
             @ (case lp_AcceptedAt p of None \<Rightarrow> [] | Some t \<Rightarrow> [(''accepted_at'', JTime t)])
             @ [(''penalty_seconds'', JNum (lp_PenaltySeconds p))]))
      else None)"

fun enc_all :: "('a \<Rightarrow> json option) \<Rightarrow> 'a list \<Rightarrow> json list option" where
  "enc_all e [] = Some []"
| "enc_all e (x # xs) = (case e x of None \<Rightarrow> None | Some j \<Rightarrow> map_option (Cons j) (enc_all e xs))"

definition enc_LeaderboardSnapshot :: "LeaderboardSnapshot \<Rightarrow> json option" where
  "enc_LeaderboardSnapshot s =
     map_option (\<lambda>ps. JObj [(''schema'', JNum (ls_Schema s)), (''contest_id'', JNum (ls_ContestID s)),
         (''user_id'', JNum (ls_UserID s)), (''version'', JStr (ls_Version s)),
         (''solved_count'', JNum (ls_SolvedCount s)),
         (''penalty_seconds'', JNum (ls_PenaltySeconds s)), (''problems'', JArr ps)])
       (enc_all enc_LeaderboardProblem (ls_Problems s))"

definition dec_LeaderboardProblem :: "json \<Rightarrow> LeaderboardProblem option" where
  "dec_LeaderboardProblem = dec_struct (\<lambda>kvs.
     case (dec_field dec_int64 0 ''problem_id'' kvs, dec_field dec_bool False ''solved'' kvs,
           dec_field dec_int32 0 ''wrong_attempts'' kvs,
           dec_field (\<lambda>v. map_option Some (dec_time v)) None ''accepted_at'' kvs,
           dec_field dec_int64 0 ''penalty_seconds'' kvs)
     of (Some p, Some s, Some w, Some a, Some q) \<Rightarrow>
          Some \<lparr>lp_ProblemID = p, lp_Solved = s, lp_WrongAttempts = w, lp_AcceptedAt = a,
                lp_PenaltySeconds = q\<rparr>
      | _ \<Rightarrow> None)"

definition dec_LeaderboardSnapshot :: "json \<Rightarrow> LeaderboardSnapshot option" where
  "dec_LeaderboardSnapshot = dec_struct (\<lambda>kvs.
     case (dec_field dec_int64 0 ''schema'' kvs, dec_field dec_int64 0 ''contest_id'' kvs,
           dec_field dec_int64 0 ''user_id'' kvs, dec_field dec_str [] ''version'' kvs,
           dec_field dec_int32 0 ''solved_count'' kvs, dec_field dec_int64 0 ''penalty_seconds'' kvs,
           dec_field (dec_array dec_LeaderboardProblem) [] ''problems'' kvs)
     of (Some h, Some c, Some u, Some v, Some n, Some q, Some ps) \<Rightarrow>
          Some \<lparr>ls_Schema = h, ls_ContestID = c, ls_UserID = u, ls_Version = v, ls_SolvedCount = n,
                ls_PenaltySeconds = q, ls_Problems = ps\<rparr>
      | _ \<Rightarrow> None)"

section \<open>Lemmas\<close>

lemma digit_value_char: "d < 10 \<Longrightarrow> digit_value (char_of (48 + d)) = Some d"
  by (simp add: digit_value_def Let_def)

lemma parse_decimal_append: "parse_digits 0 (decimal_digits n @ cs) = parse_digits n cs"
proof (induction n arbitrary: cs rule: decimal_digits.induct)
  case (1 n)
  show ?case
  proof (cases "n < 10")
    case True
    then show ?thesis by (simp add: decimal_digits.simps [of n] digit_value_char)
  next
    case False
    then have "parse_digits 0 (decimal_digits n @ cs) = parse_digits (n div 10) (char_of (48 + n mod 10) # cs)"
      using 1 by (simp add: decimal_digits.simps [of n])
    also have "\<dots> = parse_digits n cs" by (simp add: digit_value_char)
    finally show ?thesis .
  qed
qed

lemma parse_decimal: "parse_digits 0 (decimal_digits n) = Some n"
  using parse_decimal_append [of n "[]"] by simp

lemma decimal_digits_shape:
  "decimal_digits n \<noteq> [] \<and> hd (decimal_digits n) \<noteq> CHR ''+'' \<and> hd (decimal_digits n) \<noteq> CHR ''-''"
proof (cases "decimal_digits n")
  case Nil
  then show ?thesis by (simp add: decimal_digits.simps [of n] split: if_splits)
next
  case (Cons c cs)
  have "digit_value c \<noteq> None" using parse_decimal [of n] Cons by (auto split: option.splits)
  then show ?thesis using Cons by (auto simp: digit_value_def)
qed

lemma parse_format_int:
  assumes "min_int64 \<le> v" and "v \<le> max_int64"
  shows "parse_int64 (format_int v) = Some v"
proof (cases "v < 0")
  case True
  then show ?thesis
    using assms decimal_digits_shape [of "nat (- v)"] parse_decimal [of "nat (- v)"]
    by (simp add: parse_int64_def format_int_def)
next
  case False
  then obtain c cs where cs: "decimal_digits (nat v) = c # cs"
    using decimal_digits_shape [of "nat v"] by (cases "decimal_digits (nat v)") auto
  then show ?thesis
    using False assms decimal_digits_shape [of "nat v"] parse_decimal [of "nat v"]
    by (simp add: parse_int64_def format_int_def Let_def split del: if_split)
qed

lemma snapshot_totals_sum:
  assumes "snapshot_totals seen solved penalty ps = Some (n, q)"
    and "0 \<le> solved" and "solved + int (length ps) \<le> max_int32"
    and "0 \<le> penalty" and "penalty \<le> max_int64"
  shows "n = solved + int (length (filter lp_Solved ps))
    \<and> q = penalty + sum_list (map lp_PenaltySeconds ps) \<and> q \<le> max_int64
    \<and> distinct (map lp_ProblemID ps) \<and> lp_ProblemID ` set ps \<inter> seen = {}
    \<and> (\<forall>p \<in> set ps. lp_ProblemID p > 0 \<and> 0 \<le> lp_WrongAttempts p \<and> 0 \<le> lp_PenaltySeconds p
         \<and> lp_PenaltySeconds p \<le> max_int64 \<and> (lp_Solved p \<longleftrightarrow> lp_AcceptedAt p \<noteq> None))"
  using assms
proof (induction ps arbitrary: seen solved penalty)
  case (Cons p ps)
  let ?s = "if lp_Solved p then solved + 1 else solved"
  from Cons.prems(1) have ok: "\<not> bad_problem seen penalty p"
    and rest: "snapshot_totals (insert (lp_ProblemID p) seen)
      (if lp_Solved p then wrap32 (solved + 1) else solved) (wrap64 (penalty + lp_PenaltySeconds p)) ps
      = Some (n, q)"
    by (simp_all split: if_splits)
  from ok have p: "lp_ProblemID p > 0" "lp_ProblemID p \<notin> seen" "0 \<le> lp_WrongAttempts p"
    "0 \<le> lp_PenaltySeconds p" "penalty + lp_PenaltySeconds p \<le> max_int64"
    "lp_Solved p \<longleftrightarrow> lp_AcceptedAt p \<noteq> None"
    by (auto simp: bad_problem_def)
  then have w: "wrap64 (penalty + lp_PenaltySeconds p) = penalty + lp_PenaltySeconds p"
    "(if lp_Solved p then wrap32 (solved + 1) else solved) = ?s"
    using Cons.prems by (auto simp: wrap64_id min_int64_def wrap32_id)
  show ?case
    using Cons.IH [of "insert (lp_ProblemID p) seen" ?s "penalty + lp_PenaltySeconds p"]
      rest [unfolded w] p Cons.prems
    by auto
qed auto

lemma valid_snapshot:
  assumes "LeaderboardSnapshot_Validate s = None"
  shows "\<exists>v. 0 < v \<and> v \<le> max_int64 \<and> parse_int64 (ls_Version s) = Some v \<and> ls_Version s = format_int v"
    and "0 < ls_ContestID s" and "0 < ls_UserID s" and "0 \<le> ls_SolvedCount s" and "ls_SolvedCount s \<le> 100"
    and "0 \<le> ls_PenaltySeconds s" and "ls_PenaltySeconds s \<le> max_int64" and "ls_Schema s = 1"
    and "ls_SolvedCount s = int (length (filter lp_Solved (ls_Problems s)))"
    and "ls_PenaltySeconds s = sum_list (map lp_PenaltySeconds (ls_Problems s))"
    and "distinct (map lp_ProblemID (ls_Problems s))"
    and "\<forall>p \<in> set (ls_Problems s). 0 \<le> lp_PenaltySeconds p \<and> lp_PenaltySeconds p \<le> max_int64
           \<and> 0 \<le> lp_WrongAttempts p \<and> 0 < lp_ProblemID p"
proof -
  from assms have id: "\<not> bad_identity s"
    and tot: "snapshot_totals {} 0 0 (ls_Problems s) = Some (ls_SolvedCount s, ls_PenaltySeconds s)"
    by (auto simp: LeaderboardSnapshot_Validate_def split: if_splits option.splits)
  from id have b: "0 < ls_ContestID s" "0 < ls_UserID s" "0 \<le> ls_SolvedCount s" "ls_SolvedCount s \<le> 100"
    "0 \<le> ls_PenaltySeconds s" "length (ls_Problems s) \<le> 100" "ls_Schema s = 1"
    by (auto simp: bad_identity_def)
  obtain v where v: "parse_int64 (ls_Version s) = Some v" "0 < v" "format_int v = ls_Version s"
    using id by (auto simp: bad_identity_def split: option.splits)
  then have "v \<le> max_int64"
    by (auto simp: parse_int64_def Let_def split: list.splits option.splits if_splits)
  with v show "\<exists>v. 0 < v \<and> v \<le> max_int64 \<and> parse_int64 (ls_Version s) = Some v \<and> ls_Version s = format_int v"
    by auto
  note sums = snapshot_totals_sum [OF tot]
  show "0 < ls_ContestID s" "0 < ls_UserID s" "0 \<le> ls_SolvedCount s" "ls_SolvedCount s \<le> 100"
    "0 \<le> ls_PenaltySeconds s" "ls_Schema s = 1" using b by auto
  show "ls_PenaltySeconds s \<le> max_int64" "ls_SolvedCount s = int (length (filter lp_Solved (ls_Problems s)))"
    "ls_PenaltySeconds s = sum_list (map lp_PenaltySeconds (ls_Problems s))"
    "distinct (map lp_ProblemID (ls_Problems s))"
    "\<forall>p \<in> set (ls_Problems s). 0 \<le> lp_PenaltySeconds p \<and> lp_PenaltySeconds p \<le> max_int64
           \<and> 0 \<le> lp_WrongAttempts p \<and> 0 < lp_ProblemID p"
    using sums b(6) by (simp_all add: max_int32_def max_int64_def)
qed

lemma snapshot_keys [simp]:
  "key_lower ''solved''" "key_lower ''wrong_attempts''" "key_lower ''accepted_at''"
  "key_lower ''penalty_seconds''" "key_lower ''schema''" "key_lower ''version''"
  "key_lower ''solved_count''" "key_lower ''problems''"
  by code_simp+

lemma dec_enc_LeaderboardProblem:
  assumes "enc_LeaderboardProblem p = Some j" and "lp_ProblemID p \<in> {min_int64..max_int64}"
    and "lp_WrongAttempts p \<in> {-2147483648..max_int32}" and "lp_PenaltySeconds p \<in> {min_int64..max_int64}"
  shows "dec_LeaderboardProblem j = Some p"
  using assms
  by (cases "lp_AcceptedAt p")
    (auto simp: enc_LeaderboardProblem_def dec_LeaderboardProblem_def dec_field_def field_eval Let_def
      split: if_splits)

lemma dec_list_enc_all:
  "enc_all e xs = Some js \<Longrightarrow> (\<And>x j. x \<in> set xs \<Longrightarrow> e x = Some j \<Longrightarrow> d j = Some x) \<Longrightarrow> dec_list d js = Some xs"
proof (induction xs arbitrary: js)
  case (Cons x xs)
  then obtain j js' where j: "e x = Some j" "enc_all e xs = Some js'" "js = j # js'"
    by (auto split: option.splits)
  have "d j = Some x" by (rule Cons.prems(2)) (simp_all add: j)
  moreover have "dec_list d js' = Some xs" by (rule Cons.IH [OF j(2)]) (simp add: Cons.prems(2))
  ultimately show ?case using j by simp
qed simp

lemma dec_enc_LeaderboardSnapshot:
  assumes "enc_LeaderboardSnapshot s = Some j"
    and "ls_Schema s \<in> {min_int64..max_int64}" "ls_ContestID s \<in> {min_int64..max_int64}"
    and "ls_UserID s \<in> {min_int64..max_int64}" "ls_SolvedCount s \<in> {-2147483648..max_int32}"
    and "ls_PenaltySeconds s \<in> {min_int64..max_int64}"
    and ps: "\<forall>p \<in> set (ls_Problems s). lp_ProblemID p \<in> {min_int64..max_int64}
      \<and> lp_WrongAttempts p \<in> {-2147483648..max_int32} \<and> lp_PenaltySeconds p \<in> {min_int64..max_int64}"
  shows "dec_LeaderboardSnapshot j = Some s"
proof -
  obtain js where js: "enc_all enc_LeaderboardProblem (ls_Problems s) = Some js"
    using assms(1) by (auto simp: enc_LeaderboardSnapshot_def)
  have "dec_list dec_LeaderboardProblem js = Some (ls_Problems s)"
    by (rule dec_list_enc_all [OF js]) (use ps dec_enc_LeaderboardProblem in blast)
  then show ?thesis
    using assms(1-6) js
    by (auto simp: enc_LeaderboardSnapshot_def dec_LeaderboardSnapshot_def dec_field_def field_eval Let_def)
qed

end
