(* ===== verification/Contest_Db.thy ===== *)
theory Contest_Db
  imports Contest_Scoring Contest_Snapshot Sql_Tx
begin

text \<open>
  The tables of the contest service (the migrations under \<open>src/migrations/contest\<close>, with the keys and
  checks the repository relies on), the errors its operations return, and the retrying transaction of
  \<open>src/services/contest/internal/data/tx_retry.go\<close>. An \<open>attempt_env\<close> is what the outside world does
  during one attempt of a transaction: failing statements, which of them fail with a deadlock or a lock
  timeout, the end of the request's context, and the values the service draws (identifiers, trace
  context).
\<close>

section \<open>Definitions\<close>

subsection \<open>Errors\<close>

datatype contest_code = GC_InvalidArgument | GC_NotFound | GC_FailedPrecondition | GC_PermissionDenied
  | GC_Unauthenticated | GC_Aborted | GC_Internal | GC_Unimplemented

datatype contest_error =
    StatusErr contest_code string
  | SqlErr string bool \<comment> \<open>a failed statement; whether MySQL reports 1205 or 1213\<close>
  | NoRowsErr string
  | PlainErr string
  | CtxErr

subsection \<open>Tables\<close>

record contest_row =
  ct_id :: int64
  ct_title :: string
  ct_status :: string
  ct_start_at :: time
  ct_end_at :: time
  ct_created_by :: int64
  ct_created_at :: time
  ct_updated_at :: time

record contest_problem_row =
  cp_contest :: int64
  cp_problem :: int64
  cp_sort_order :: int32
  cp_score :: int32

record participant_row =
  pt_contest :: int64
  pt_user :: int64
  pt_joined_at :: time

record submission_result_row =
  sr_submission :: int64
  sr_contest :: int64
  sr_user :: int64
  sr_problem :: int64
  sr_verdict :: string
  sr_submitted_at :: time
  sr_judged_at :: time
  sr_invalidated :: bool
  sr_updated_at :: time

record problem_result_row =
  rr_contest :: int64
  rr_user :: int64
  rr_problem :: int64
  rr_solved :: bool
  rr_wrong_attempts :: int32
  rr_accepted_submission_id :: "int64 option"
  rr_accepted_at :: "time option"
  rr_penalty_seconds :: int64
  rr_updated_at :: time

record user_result_row =
  ur_contest :: int64
  ur_user :: int64
  ur_solved_count :: int32
  ur_penalty_seconds :: int64
  ur_version :: int64
  ur_updated_at :: time

record cache_outbox_row =
  co_id :: int64
  co_event_id :: string
  co_contest :: int64
  co_user :: int64
  co_version :: int64
  co_traceparent :: "string option"
  co_tracestate :: "string option"
  co_payload :: json
  co_status :: string
  co_retry_count :: int
  co_next_retry_at :: time
  co_lease_owner :: "string option"
  co_lease_until :: "time option"
  co_last_error :: "string option"
  co_created_at :: time
  co_applied_at :: "time option"

record contest_db =
  contests :: "contest_row list"
  contest_problems :: "contest_problem_row list"
  contest_participants :: "participant_row list"
  contest_processed_events :: "string list"
  contest_submission_results :: "submission_result_row list"
  contest_problem_results :: "problem_result_row list"
  contest_user_results :: "user_result_row list"
  contest_cache_outbox :: "cache_outbox_row list"
  next_contest_id :: int64
  next_cache_id :: int64

definition empty_contest_db :: contest_db where
  "empty_contest_db = \<lparr>contests = [], contest_problems = [], contest_participants = [],
     contest_processed_events = [], contest_submission_results = [], contest_problem_results = [],
     contest_user_results = [], contest_cache_outbox = [], next_contest_id = 1, next_cache_id = 1\<rparr>"

definition find_contest :: "int64 \<Rightarrow> contest_db \<Rightarrow> contest_row option" where
  "find_contest i db = find (\<lambda>c. ct_id c = i) (contests db)"

definition is_participant :: "int64 \<Rightarrow> int64 \<Rightarrow> contest_db \<Rightarrow> bool" where
  "is_participant c u db \<longleftrightarrow> (\<exists>p \<in> set (contest_participants db). pt_contest p = c \<and> pt_user p = u)"

definition has_problem :: "int64 \<Rightarrow> int64 \<Rightarrow> contest_db \<Rightarrow> bool" where
  "has_problem c p db \<longleftrightarrow> (\<exists>r \<in> set (contest_problems db). cp_contest r = c \<and> cp_problem r = p)"

definition upsert :: "('r \<Rightarrow> 'k) \<Rightarrow> 'r \<Rightarrow> ('r \<Rightarrow> 'r) \<Rightarrow> 'r list \<Rightarrow> 'r list" where
  \<comment> \<open>\<open>INSERT ... ON DUPLICATE KEY UPDATE\<close>: the new row, or the update of the row with its key\<close>
  "upsert key row upd rows =
     (if \<exists>r \<in> set rows. key r = key row
      then map (\<lambda>r. if key r = key row then upd r else r) rows
      else rows @ [row])"

subsection \<open>Transactions\<close>

record attempt_env = db_env +
  deadlock :: "string \<Rightarrow> bool"
  ctx_done :: bool
  wait_cancelled :: bool
  new_uuid :: string
  trace_values :: "string \<times> string"

definition utc_timestamp6 :: "'x db_env_scheme \<Rightarrow> time" where
  "utc_timestamp6 env = db_now env - db_now env mod 1000"

definition sql_err :: "attempt_env \<Rightarrow> string \<Rightarrow> contest_error" where
  "sql_err env label = SqlErr label (deadlock env label)"

definition stmt :: "attempt_env \<Rightarrow> string \<Rightarrow> contest_error + 'b \<Rightarrow> contest_error + 'b" where
  "stmt env label r = stmtE env (sql_err env label) label r"

definition constraint :: "bool \<Rightarrow> string \<Rightarrow> contest_error + 'b \<Rightarrow> contest_error + 'b" where
  \<comment> \<open>a statement that a key, a check or a column width refuses\<close>
  "constraint ok label r = guardE (\<not> ok) (SqlErr label False) r"

definition contest_tx ::
  "attempt_env \<Rightarrow> ('s \<Rightarrow> contest_error + 'a \<times> 's) \<Rightarrow> 's \<Rightarrow> (contest_error + 'a) \<times> 's" where
  "contest_tx env body s =
     run_tx env (if fails env ''begin'' then sql_err env ''begin'' else sql_err env ''commit'') body s"

definition maxTransactionAttempts :: nat where
  "maxTransactionAttempts = 3"

fun isRetryableTxError :: "contest_error \<Rightarrow> bool" where
  "isRetryableTxError (SqlErr _ retryable) = retryable"
| "isRetryableTxError _ = False"

fun tx_attempts ::
  "nat \<Rightarrow> nat \<Rightarrow> (nat \<Rightarrow> attempt_env) \<Rightarrow> contest_error \<Rightarrow> (attempt_env \<Rightarrow> 's \<Rightarrow> contest_error + 'a \<times> 's)
    \<Rightarrow> 's \<Rightarrow> (contest_error + 'a) \<times> 's" where
  \<comment> \<open>the loop of \<open>withContestTx\<close> with the attempts left, the attempt and \<open>lastErr\<close>\<close>
  "tx_attempts 0 attempt envs lastErr body s = (Inl lastErr, s)"
| "tx_attempts (Suc n) attempt envs lastErr body s =
     (let env = envs attempt
      in if ctx_done env then (Inl CtxErr, s)
         else case contest_tx env (body env) s of
                (Inr a, s') \<Rightarrow> (Inr a, s')
              | (Inl e, s') \<Rightarrow>
                  (if isRetryableTxError e \<and> attempt + 1 < maxTransactionAttempts
                   then if wait_cancelled env then (Inl CtxErr, s')
                        else tx_attempts n (attempt + 1) envs e body s'
                   else (Inl e, s')))"

definition withContestTx ::
  "(nat \<Rightarrow> attempt_env) \<Rightarrow> (attempt_env \<Rightarrow> 's \<Rightarrow> contest_error + 'a \<times> 's) \<Rightarrow> 's \<Rightarrow> (contest_error + 'a) \<times> 's" where
  "withContestTx envs body s =
     tx_attempts maxTransactionAttempts 0 envs (PlainErr ''no attempt'') body s"

definition calm_contest :: "time \<Rightarrow> nat \<Rightarrow> attempt_env" where
  \<comment> \<open>an environment in which nothing fails\<close>
  "calm_contest t n = \<lparr>fails = (\<lambda>_. False), commit_lost = False, app_now = t, db_now = t, deadlock = (\<lambda>_. False),
     ctx_done = False, wait_cancelled = False, new_uuid = ''u'', trace_values = ([], [])\<rparr>"

section \<open>Lemmas\<close>

lemma stmt_eq_Inr [simp]: "stmt env l r = Inr y \<longleftrightarrow> \<not> fails env l \<and> r = Inr y"
  by (simp add: stmt_def)

lemma stmt_runs [simp]: "\<not> fails env l \<Longrightarrow> stmt env l r = r"
  by (simp add: stmt_def)

lemma constraint_eq_Inr [simp]: "constraint ok l r = Inr y \<longleftrightarrow> ok \<and> r = Inr y"
  by (simp add: constraint_def)

lemma constraint_runs [simp]: "ok \<Longrightarrow> constraint ok l r = r"
  by (simp add: constraint_def)

lemma contest_tx_atomic:
  "contest_tx env body s = (r, s') \<Longrightarrow> s' = s \<or> (\<exists>a. body s = Inr (a, s'))"
  unfolding contest_tx_def by (rule run_tx_atomic)

lemma contest_tx_ok:
  "contest_tx env body s = (Inr a, s') \<longleftrightarrow>
     \<not> fails env ''begin'' \<and> \<not> fails env ''commit'' \<and> body s = Inr (a, s')"
  by (simp add: contest_tx_def run_tx_ok)

text \<open>
  What the retries keep: a transaction whose body, committed under any of the attempts' environments,
  keeps a reflexive and transitive relation between the states keeps it over all attempts; and a
  reported success is the success of one committed attempt.
\<close>

lemma tx_attempts_rel:
  assumes "tx_attempts n k envs e body s = (r, s')"
    and refl: "\<And>s. R s s" and trans: "\<And>a b c. R a b \<Longrightarrow> R b c \<Longrightarrow> R a c"
    and step: "\<And>i s a s'. R s0 s \<Longrightarrow> body (envs i) s = Inr (a, s') \<Longrightarrow> R s s'"
    and start: "R s0 s"
  shows "R s s'"
  using assms(1) start
proof (induction n arbitrary: k e s)
  case 0
  then show ?case using refl by simp
next
  case (Suc n)
  obtain r1 s1 where t: "contest_tx (envs k) (body (envs k)) s = (r1, s1)" by fastforce
  have s1: "R s s1" using contest_tx_atomic [OF t] refl step [OF Suc.prems(2)] by auto
  then have "R s0 s1" using Suc.prems(2) trans by blast
  with Suc.IH Suc.prems(1) t s1 show ?case
    by (auto simp: Let_def refl split: if_splits sum.splits intro: trans)
qed

lemma tx_attempts_ok:
  assumes "tx_attempts n k envs e body s = (Inr a, s')"
  shows "\<exists>i s1. body (envs i) s1 = Inr (a, s')"
  using assms
proof (induction n arbitrary: k e s)
  case (Suc n)
  then show ?case
    by (auto simp: Let_def contest_tx_ok split: if_splits sum.splits prod.splits)
qed simp

lemma withContestTx_rel:
  assumes "withContestTx envs body s = (r, s')"
    and "\<And>s. R s s" and "\<And>a b c. R a b \<Longrightarrow> R b c \<Longrightarrow> R a c"
    and "\<And>i s1 a s'. R s s1 \<Longrightarrow> body (envs i) s1 = Inr (a, s') \<Longrightarrow> R s1 s'"
  shows "R s s'"
  using tx_attempts_rel [OF assms(1) [unfolded withContestTx_def], of R s] assms(2-4) by blast

lemma withContestTx_preserves:
  assumes "withContestTx envs body s = (r, s')" and "P s"
    and "\<And>i s a s'. P s \<Longrightarrow> body (envs i) s = Inr (a, s') \<Longrightarrow> P s'"
  shows "P s'"
  using withContestTx_rel [OF assms(1), of "\<lambda>a b. P a \<longrightarrow> P b"] assms(2,3) by blast

lemma withContestTx_ok:
  assumes "withContestTx envs body s = (Inr a, s')"
  shows "\<exists>i s1. body (envs i) s1 = Inr (a, s')"
  using tx_attempts_ok [OF assms [unfolded withContestTx_def]] .

lemma withContestTx_first:
  assumes "\<not> ctx_done (envs 0)" and "\<not> fails (envs 0) ''begin''" and "\<not> fails (envs 0) ''commit''"
    and "body (envs 0) s = Inr (a, s')"
  shows "withContestTx envs body s = (Inr a, s')"
proof -
  have "contest_tx (envs 0) (body (envs 0)) s = (Inr a, s')"
    using assms by (simp add: contest_tx_ok)
  then show ?thesis
    using assms(1) by (simp add: withContestTx_def maxTransactionAttempts_def numeral_3_eq_3 Let_def)
qed

lemma calm_contest_simps [simp]:
  "fails (calm_contest t n) l = False" "commit_lost (calm_contest t n) = False" "db_now (calm_contest t n) = t"
  "ctx_done (calm_contest t n) = False" "new_uuid (calm_contest t n) = ''u''" "trace_values (calm_contest t n) = ([], [])"
  by (simp_all add: calm_contest_def)

lemma upsert_keys:
  assumes "\<And>r. key r = key row \<Longrightarrow> key (upd r) = key row"
  shows "map key (upsert key row upd rows) =
    (if key row \<in> key ` set rows then map key rows else map key rows @ [key row])"
proof -
  have "map key (map (\<lambda>r. if key r = key row then upd r else r) rows) = map key rows"
    using assms by auto
  moreover have "(\<exists>r \<in> set rows. key r = key row) \<longleftrightarrow> key row \<in> key ` set rows"
    by (metis imageE imageI)
  ultimately show ?thesis by (simp add: upsert_def)
qed

lemma upsert_distinct:
  assumes "\<And>r. key r = key row \<Longrightarrow> key (upd r) = key row" and "distinct (map key rows)"
  shows "distinct (map key (upsert key row upd rows))"
  using upsert_keys [of key row upd rows] assms by simp

lemma upsert_other:
  assumes "\<And>r. r \<in> set rows \<Longrightarrow> key r = key row \<Longrightarrow> \<not> P r \<and> \<not> P (upd r)" and "\<not> P row"
  shows "filter P (upsert key row upd rows) = filter P rows"
proof -
  have "filter P (map (\<lambda>r. if key r = key row then upd r else r) rows) = filter P rows"
    using assms(1) by (induction rows) auto
  then show ?thesis using assms(2) by (simp add: upsert_def)
qed

lemma find_map_Some:
  assumes "find (\<lambda>r. key r = k) rows = Some old" and "\<And>r. key r = k \<Longrightarrow> key (upd r) = k"
  shows "find (\<lambda>r. key r = k) (map (\<lambda>r. if key r = k then upd r else r) rows) = Some (upd old)"
  using assms by (induction rows) (auto split: if_splits)

lemma find_upsert:
  assumes "\<And>r. key r = key row \<Longrightarrow> key (upd r) = key row"
  shows "find (\<lambda>r. key r = k) (upsert key row upd rows) =
    (if k = key row
     then Some (case find (\<lambda>r. key r = key row) rows of None \<Rightarrow> row | Some old \<Rightarrow> upd old)
     else find (\<lambda>r. key r = k) rows)"
proof (cases "k = key row")
  case True
  show ?thesis
  proof (cases "find (\<lambda>r. key r = key row) rows")
    case None
    then have n: "\<not> (\<exists>r \<in> set rows. key r = key row)" by (auto simp: find_None_iff)
    then have "find (\<lambda>r. key r = key row) (rows @ [row]) = Some row" by (induction rows) auto
    then show ?thesis using True None n by (simp add: upsert_def)
  next
    case (Some old)
    then have e: "\<exists>r \<in> set rows. key r = key row" by (auto simp: find_Some_iff)
    from find_map_Some [OF Some, of upd] assms show ?thesis using True Some e by (simp add: upsert_def)
  qed
next
  case False
  have "find (\<lambda>r. key r = k) (map (\<lambda>r. if key r = key row then upd r else r) rows)
      = find (\<lambda>r. key r = k) rows"
    using False assms by (induction rows) auto
  moreover have "find (\<lambda>r. key r = k) (rows @ [row]) = find (\<lambda>r. key r = k) rows"
    using False by (induction rows) auto
  ultimately show ?thesis using False by (simp add: upsert_def)
qed

lemma find_before: "find P xs \<noteq> None \<Longrightarrow> find P (xs @ ys) = find P xs"
  by (induction xs) auto

lemma find_key: "find (\<lambda>r. key r = k) rows = Some x \<Longrightarrow> x \<in> set rows \<and> key x = k"
  by (auto simp: find_Some_iff)

lemma find_key_unique:
  "distinct (map key rows) \<Longrightarrow> x \<in> set rows \<Longrightarrow> find (\<lambda>r. key r = key x) rows = Some x"
  by (induction rows) (auto simp: rev_image_eqI)

lemma upsert_mem:
  "r \<in> set (upsert key row upd rows) \<Longrightarrow>
     (r \<in> set rows \<and> key r \<noteq> key row) \<or> r = row \<or> (\<exists>r0 \<in> set rows. key r0 = key row \<and> r = upd r0)"
  by (auto simp: upsert_def split: if_splits)

end
