(* ===== verification/Contest_Projection.thy ===== *)
theory Contest_Projection
  imports Contest_Db
begin

text \<open>
  The projection of judged submissions into the contest tables,
  \<open>src/services/contest/internal/data/projection.go\<close> and \<open>leaderboard_summary.go\<close>, its consumer in
  \<open>biz/scoring.go\<close> and the settlement of a delivery in \<open>server/result_consumer.go\<close>. The transaction of
  \<open>applyProjectionTx\<close> is translated statement by statement, with one label per statement.
\<close>

section \<open>Definitions\<close>

subsection \<open>The summary of a user\<close>

definition rr_key :: "problem_result_row \<Rightarrow> int64 \<times> int64 \<times> int64" where
  "rr_key r = (rr_contest r, rr_user r, rr_problem r)"

definition ur_key :: "user_result_row \<Rightarrow> int64 \<times> int64" where
  "ur_key r = (ur_contest r, ur_user r)"

definition user_problem_results :: "int64 \<Rightarrow> int64 \<Rightarrow> contest_db \<Rightarrow> problem_result_row list" where
  "user_problem_results c u db =
     filter (\<lambda>r. rr_contest r = c \<and> rr_user r = u) (contest_problem_results db)"

definition solved_total :: "problem_result_row list \<Rightarrow> int" where
  "solved_total rs = int (length (filter rr_solved rs))"

definition penalty_total :: "problem_result_row list \<Rightarrow> int" where
  "penalty_total rs = sum_list (map rr_penalty_seconds rs)"

definition problems_in_order :: "int64 \<Rightarrow> contest_db \<Rightarrow> contest_problem_row list" where
  \<comment> \<open>\<open>ORDER BY sort_order, problem_id\<close>\<close>
  "problems_in_order c db =
     sort_key cp_sort_order (sort_key cp_problem (filter (\<lambda>p. cp_contest p = c) (contest_problems db)))"

definition leaderboard_problem :: "int64 \<Rightarrow> contest_db \<Rightarrow> contest_problem_row \<Rightarrow> LeaderboardProblem" where
  \<comment> \<open>the left join of a contest problem with the user's result\<close>
  "leaderboard_problem u db p =
     (case find (\<lambda>r. rr_key r = (cp_contest p, u, cp_problem p)) (contest_problem_results db) of
        None \<Rightarrow> \<lparr>lp_ProblemID = cp_problem p, lp_Solved = False, lp_WrongAttempts = 0,
                 lp_AcceptedAt = None, lp_PenaltySeconds = 0\<rparr>
      | Some r \<Rightarrow> \<lparr>lp_ProblemID = cp_problem p, lp_Solved = rr_solved r,
                 lp_WrongAttempts = rr_wrong_attempts r, lp_AcceptedAt = rr_accepted_at r,
                 lp_PenaltySeconds = rr_penalty_seconds r\<rparr>)"

definition current_summary :: "int64 \<Rightarrow> int64 \<Rightarrow> user_result_row \<Rightarrow> contest_db \<Rightarrow> LeaderboardSnapshot" where
  "current_summary c u r db = \<lparr>ls_Schema = 1, ls_ContestID = c, ls_UserID = u,
     ls_Version = format_int (ur_version r), ls_SolvedCount = ur_solved_count r,
     ls_PenaltySeconds = ur_penalty_seconds r,
     ls_Problems = map (leaderboard_problem u db) (problems_in_order c db)\<rparr>"

definition nullableTraceValue :: "string \<Rightarrow> string option" where
  "nullableTraceValue v = (if v = [] then None else Some v)"

definition new_cache_row ::
  "attempt_env \<Rightarrow> int64 \<Rightarrow> int64 \<Rightarrow> int64 \<Rightarrow> json \<Rightarrow> contest_db \<Rightarrow> cache_outbox_row" where
  "new_cache_row env c u version payload db = \<lparr>co_id = next_cache_id db, co_event_id = new_uuid env,
     co_contest = c, co_user = u, co_version = version,
     co_traceparent = nullableTraceValue (fst (trace_values env)),
     co_tracestate = nullableTraceValue (snd (trace_values env)), co_payload = payload,
     co_status = ''pending'', co_retry_count = 0, co_next_retry_at = utc_timestamp6 env,
     co_lease_owner = None, co_lease_until = None, co_last_error = None,
     co_created_at = utc_timestamp6 env, co_applied_at = None\<rparr>"

definition cache_row_allowed :: "attempt_env \<Rightarrow> int64 \<Rightarrow> int64 \<Rightarrow> int64 \<Rightarrow> contest_db \<Rightarrow> bool" where
  \<comment> \<open>the unique keys and the column widths of \<open>contest_cache_outbox\<close>\<close>
  "cache_row_allowed env c u version db \<longleftrightarrow>
     (\<forall>o1 \<in> set (contest_cache_outbox db). co_event_id o1 \<noteq> new_uuid env
        \<and> \<not> (co_contest o1 = c \<and> co_user o1 = u \<and> co_version o1 = version))
     \<and> length (new_uuid env) \<le> 36 \<and> length (fst (trace_values env)) \<le> 255
     \<and> length (snd (trace_values env)) \<le> 512"

definition enqueueCurrentSummary ::
  "int64 \<Rightarrow> int64 \<Rightarrow> attempt_env \<Rightarrow> contest_db \<Rightarrow> contest_error + contest_db" where
  "enqueueCurrentSummary c u env db =
     stmt env ''select user result''
       (case find (\<lambda>r. ur_key r = (c, u)) (contest_user_results db) of
          None \<Rightarrow> Inl (NoRowsErr ''select user result'')
        | Some r \<Rightarrow>
            stmt env ''select problems''
              (let s = current_summary c u r db
               in errE (map_option PlainErr (LeaderboardSnapshot_Validate s))
                    (case enc_LeaderboardSnapshot s of
                       None \<Rightarrow> Inl (PlainErr ''marshal snapshot'')
                     | Some payload \<Rightarrow>
                         stmt env ''insert cache event''
                           (constraint (cache_row_allowed env c u (ur_version r) db) ''insert cache event''
                              (Inr (db\<lparr>contest_cache_outbox := contest_cache_outbox db
                                         @ [new_cache_row env c u (ur_version r) payload db],
                                       next_cache_id := next_cache_id db + 1\<rparr>))))))"

definition next_version :: "int64 \<Rightarrow> int64 \<Rightarrow> contest_db \<Rightarrow> int" where
  \<comment> \<open>1 for a new row, \<open>version+1\<close> on a duplicate key\<close>
  "next_version c u db =
     (case find (\<lambda>r. ur_key r = (c, u)) (contest_user_results db) of
        None \<Rightarrow> 1 | Some r \<Rightarrow> ur_version r + 1)"

definition user_result_allowed :: "int64 \<Rightarrow> int64 \<Rightarrow> contest_db \<Rightarrow> bool" where
  \<comment> \<open>\<open>chk_contest_user_result\<close> and the range of the columns\<close>
  "user_result_allowed c u db \<longleftrightarrow>
     (let rs = user_problem_results c u db
      in solved_total rs \<le> 100 \<and> 0 \<le> penalty_total rs \<and> penalty_total rs \<le> max_int64
         \<and> next_version c u db \<le> max_int64)"

definition new_user_result :: "attempt_env \<Rightarrow> int64 \<Rightarrow> int64 \<Rightarrow> contest_db \<Rightarrow> user_result_row" where
  "new_user_result env c u db = \<lparr>ur_contest = c, ur_user = u,
     ur_solved_count = solved_total (user_problem_results c u db),
     ur_penalty_seconds = penalty_total (user_problem_results c u db),
     ur_version = next_version c u db, ur_updated_at = utc_timestamp6 env\<rparr>"

definition enqueueLeaderboard ::
  "int64 \<Rightarrow> int64 \<Rightarrow> attempt_env \<Rightarrow> contest_db \<Rightarrow> contest_error + contest_db" where
  "enqueueLeaderboard c u env db =
     stmt env ''upsert user result''
       (if user_problem_results c u db = [] then enqueueCurrentSummary c u env db
        else constraint (user_result_allowed c u db) ''upsert user result''
               (let row = new_user_result env c u db
                in enqueueCurrentSummary c u env
                     (db\<lparr>contest_user_results :=
                           upsert ur_key row (\<lambda>_. row) (contest_user_results db)\<rparr>)))"

subsection \<open>The projection of one event\<close>

definition projection_fact :: "SubmissionFact \<Rightarrow> SubmissionFact" where
  \<comment> \<open>both times truncated to the precision of \<open>DATETIME(6)\<close>\<close>
  "projection_fact f = f\<lparr>sj_SubmittedAt := time_truncate Microsecond (sj_SubmittedAt f),
                         sj_JudgedAt := time_truncate Microsecond (sj_JudgedAt f)\<rparr>"

definition identity_matches :: "SubmissionFact \<Rightarrow> submission_result_row \<Rightarrow> bool" where
  "identity_matches f r \<longleftrightarrow> sr_contest r = sj_ContestID f \<and> sr_user r = sj_UserID f
     \<and> sr_problem r = sj_ProblemID f \<and> sr_submitted_at r = sj_SubmittedAt f"

definition outdated :: "SubmissionFact \<Rightarrow> submission_result_row \<Rightarrow> bool" where
  "outdated f old \<longleftrightarrow> sr_invalidated old \<or> (\<not> sf_Invalidated f \<and> \<not> sr_judged_at old < sj_JudgedAt f)"

definition fact_row :: "attempt_env \<Rightarrow> SubmissionFact \<Rightarrow> submission_result_row" where
  "fact_row env f = \<lparr>sr_submission = sj_SubmissionID f, sr_contest = sj_ContestID f,
     sr_user = sj_UserID f, sr_problem = sj_ProblemID f, sr_verdict = sj_Verdict f,
     sr_submitted_at = sj_SubmittedAt f, sr_judged_at = sj_JudgedAt f,
     sr_invalidated = sf_Invalidated f, sr_updated_at = utc_timestamp6 env\<rparr>"

definition update_fact_row :: "attempt_env \<Rightarrow> SubmissionFact \<Rightarrow> submission_result_row \<Rightarrow> submission_result_row" where
  \<comment> \<open>the \<open>ON DUPLICATE KEY UPDATE\<close> clause\<close>
  "update_fact_row env f r = r\<lparr>sr_verdict := sj_Verdict f, sr_judged_at := sj_JudgedAt f,
     sr_invalidated := sf_Invalidated f, sr_updated_at := utc_timestamp6 env\<rparr>"

definition find_result :: "int64 \<Rightarrow> contest_db \<Rightarrow> submission_result_row option" where
  "find_result i db = find (\<lambda>r. sr_submission r = i) (contest_submission_results db)"

definition row_fact :: "int64 \<Rightarrow> submission_result_row \<Rightarrow> SubmissionFact" where
  \<comment> \<open>the fields that the scan of the rebuild query fills in\<close>
  "row_fact p r = \<lparr>sj_SubmissionID = sr_submission r, sj_ContestID = 0, sj_UserID = 0, sj_ProblemID = p,
     sj_Verdict = sr_verdict r, sj_SubmittedAt = sr_submitted_at r, sj_JudgedAt = zero_time,
     sf_Invalidated = sr_invalidated r\<rparr>"

definition key_facts :: "int64 \<Rightarrow> int64 \<Rightarrow> int64 \<Rightarrow> contest_db \<Rightarrow> SubmissionFact list" where
  "key_facts c u p db = sort_facts (map (row_fact p)
     (filter (\<lambda>r. sr_contest r = c \<and> sr_user r = u \<and> sr_problem r = p) (contest_submission_results db)))"

definition problem_result_row_of ::
  "attempt_env \<Rightarrow> int64 \<Rightarrow> int64 \<Rightarrow> int64 \<Rightarrow> ProblemResult \<Rightarrow> problem_result_row" where
  "problem_result_row_of env c u p result = \<lparr>rr_contest = c, rr_user = u, rr_problem = p,
     rr_solved = pr_Solved result, rr_wrong_attempts = pr_WrongAttempts result,
     rr_accepted_submission_id = pr_AcceptedSubmissionID result, rr_accepted_at = pr_AcceptedAt result,
     rr_penalty_seconds = pr_PenaltySeconds result, rr_updated_at = utc_timestamp6 env\<rparr>"

definition rebuild_problem :: "time \<Rightarrow> SubmissionFact \<Rightarrow> attempt_env \<Rightarrow> contest_db \<Rightarrow> contest_error + contest_db" where
  "rebuild_problem start f env db =
     stmt env ''select facts''
       (let c = sj_ContestID f; u = sj_UserID f; p = sj_ProblemID f;
            row = problem_result_row_of env c u p (Rebuild start (key_facts c u p db))
        in stmt env ''upsert problem result''
             (Inr (db\<lparr>contest_problem_results :=
                        upsert rr_key row (\<lambda>_. row) (contest_problem_results db)\<rparr>)))"

definition store_fact :: "time \<Rightarrow> SubmissionFact \<Rightarrow> attempt_env \<Rightarrow> contest_db \<Rightarrow> contest_error + contest_db" where
  \<comment> \<open>from the insert of the fact to the end of the transaction\<close>
  "store_fact start f env db =
     stmt env ''upsert submission result''
       (constraint (length (sj_Verdict f) \<le> 32) ''upsert submission result''
          (let db1 = db\<lparr>contest_submission_results :=
                 upsert sr_submission (fact_row env f) (update_fact_row env f)
                   (contest_submission_results db)\<rparr>
           in stmt env ''select identity''
                (case find_result (sj_SubmissionID f) db1 of
                   None \<Rightarrow> Inl (NoRowsErr ''select identity'')
                 | Some r \<Rightarrow>
                     guardE (\<not> identity_matches f r) (PlainErr ''submission identity changed during insert'')
                       (bindE (rebuild_problem start f env db1) (\<lambda>db2.
                          enqueueLeaderboard (sj_ContestID f) (sj_UserID f) env db2)))))"

definition project_fact :: "contest_row \<Rightarrow> SubmissionFact \<Rightarrow> attempt_env \<Rightarrow> contest_db \<Rightarrow> contest_error + contest_db" where
  \<comment> \<open>the checks of a fact that was not processed before, and its effect\<close>
  "project_fact contest f env db =
     stmt env ''lock participant''
       (guardE (\<not> is_participant (sj_ContestID f) (sj_UserID f) db) (NoRowsErr ''lock participant'')
          (stmt env ''select problem''
             (guardE (\<not> has_problem (sj_ContestID f) (sj_ProblemID f) db) (NoRowsErr ''select problem'')
                (guardE (sj_SubmittedAt f < ct_start_at contest \<or> \<not> sj_SubmittedAt f < ct_end_at contest)
                   (PlainErr ''submission outside contest interval'')
                   (stmt env ''lock submission result''
                      (case find_result (sj_SubmissionID f) db of
                         None \<Rightarrow> store_fact (ct_start_at contest) f env db
                       | Some old \<Rightarrow>
                           guardE (\<not> identity_matches f old) (PlainErr ''submission identity changed'')
                             (if outdated f old then Inr db
                              else store_fact (ct_start_at contest) f env db)))))))"

definition applyProjectionTx :: "ProjectionEvent \<Rightarrow> attempt_env \<Rightarrow> contest_db \<Rightarrow> contest_error + bool \<times> contest_db" where
  \<comment> \<open>the flag is \<open>processed\<close>\<close>
  "applyProjectionTx event env db =
     (let f = pe_Fact event; eventID = take 36 (pe_EventID event)
      in stmt env ''lock contest''
           (case find_contest (sj_ContestID f) db of
              None \<Rightarrow> Inl (NoRowsErr ''lock contest'')
            | Some contest \<Rightarrow>
                stmt env ''insert processed event''
                  (if eventID \<in> set (contest_processed_events db) then Inr (False, db)
                   else bindE (project_fact contest (projection_fact f) env
                          (db\<lparr>contest_processed_events := contest_processed_events db @ [eventID]\<rparr>))
                          (\<lambda>db'. Inr (True, db')))))"

definition ApplyProjection ::
  "(nat \<Rightarrow> attempt_env) \<Rightarrow> ProjectionEvent \<Rightarrow> contest_db \<Rightarrow> (contest_error + bool) \<times> contest_db" where
  "ApplyProjection envs event db = withContestTx envs (applyProjectionTx event) db"

subsection \<open>The consumer\<close>

definition Handle_projection ::
  "(string \<Rightarrow> bool) \<Rightarrow> (nat \<Rightarrow> attempt_env) \<Rightarrow> json option \<Rightarrow> contest_db \<Rightarrow> contest_error option \<times> contest_db" where
  "Handle_projection uuid_ok envs body db =
     (case ParseProjectionEvent uuid_ok body of
        Inl msg \<Rightarrow> (Some (StatusErr GC_InvalidArgument msg), db)
      | Inr event \<Rightarrow>
          (if sj_ContestID (pe_Fact event) = 0 then (None, db)
           else case ApplyProjection envs event db of
                  (Inl e, db') \<Rightarrow> (Some e, db')
                | (Inr _, db') \<Rightarrow> (None, db')))"

datatype settlement = Acked | Rejected | Requeued

fun dec_object :: "json \<Rightarrow> unit option" where
  \<comment> \<open>\<open>json.Unmarshal\<close> into a map\<close>
  "dec_object (JObj _) = Some ()"
| "dec_object JNull = Some ()"
| "dec_object _ = None"

definition settle_delivery ::
  "(string \<Rightarrow> bool) \<Rightarrow> (nat \<Rightarrow> attempt_env) \<Rightarrow> string \<Rightarrow> string \<Rightarrow> json option \<Rightarrow> contest_db
    \<Rightarrow> settlement \<times> contest_db" where
  \<comment> \<open>one delivery in \<open>ResultConsumerServer.Start\<close>, with its type, routing key and body\<close>
  "settle_delivery uuid_ok envs dtype route body db =
     (case UnmarshalEnvelope uuid_ok body dtype dec_object of
        Inl _ \<Rightarrow> (Rejected, db)
      | Inr (envelope, _) \<Rightarrow>
          (if route \<noteq> env_EventType envelope then (Rejected, db)
           else case Handle_projection uuid_ok envs body db of
                  (None, db') \<Rightarrow> (Acked, db')
                | (Some (StatusErr GC_InvalidArgument _), db') \<Rightarrow> (Rejected, db')
                | (Some _, db') \<Rightarrow> (Requeued, db')))"

subsection \<open>Backfill\<close>

definition backfillUser_tx :: "int64 \<Rightarrow> int64 \<Rightarrow> attempt_env \<Rightarrow> contest_db \<Rightarrow> contest_error + bool \<times> contest_db" where
  "backfillUser_tx c u env db =
     stmt env ''lock participant''
       (guardE (\<not> is_participant c u db) (NoRowsErr ''lock participant'')
          (stmt env ''count user results''
             (if \<exists>r \<in> set (contest_user_results db). ur_key r = (c, u) then Inr (False, db)
              else bindE (enqueueLeaderboard c u env db) (\<lambda>db'. Inr (True, db')))))"

definition backfillUser :: "int64 \<Rightarrow> int64 \<Rightarrow> attempt_env \<Rightarrow> contest_db \<Rightarrow> (contest_error + bool) \<times> contest_db" where
  "backfillUser c u env db = contest_tx env (backfillUser_tx c u env) db"

end
