(* ===== verification/Contest_Repo.thy ===== *)
theory Contest_Repo
  imports Contest_Projection
begin

text \<open>
  The contest entity and its repository, \<open>src/services/contest/internal/biz/contest.go\<close> (types and
  \<open>lifecycle\<close>) and \<open>src/services/contest/internal/data/contest_repo.go\<close>. Every write runs under the
  lock of the contest row and compares the database clock with the interval stored in it.
\<close>

section \<open>Definitions\<close>

subsection \<open>The entity\<close>

datatype ContestStatus = CS_UNSPECIFIED | CS_DRAFT | CS_RUNNING | CS_ENDED | CS_ARCHIVED | CS_OTHER int

record ContestProblem =
  bp_ProblemID :: int64
  bp_SortOrder :: int32
  bp_Score :: int32
  bp_Title :: string

record Contest =
  bk_ID :: int64
  bk_Title :: string
  bk_Status :: ContestStatus
  bk_StartAt :: time
  bk_EndAt :: time
  bk_CreatedBy :: int64
  bk_CreatedAt :: time
  bk_UpdatedAt :: time
  bk_Problems :: "ContestProblem list"
  bk_Joined :: bool

definition lifecycle :: "time \<Rightarrow> time \<Rightarrow> ContestStatus \<Rightarrow> time \<Rightarrow> ContestStatus" where
  "lifecycle start end_at stored now =
     (if stored = CS_ARCHIVED then stored
      else if \<not> now < end_at then CS_ENDED
      else if \<not> now < start then CS_RUNNING
      else CS_DRAFT)"

fun toDBStatus :: "ContestStatus \<Rightarrow> string" where
  "toDBStatus CS_RUNNING = ''running''"
| "toDBStatus CS_ENDED = ''ended''"
| "toDBStatus CS_ARCHIVED = ''archived''"
| "toDBStatus _ = ''draft''"

definition fromDBStatus :: "string \<Rightarrow> ContestStatus" where
  "fromDBStatus v =
     (if v = ''running'' then CS_RUNNING else if v = ''ended'' then CS_ENDED
      else if v = ''archived'' then CS_ARCHIVED else if v = ''draft'' then CS_DRAFT
      else CS_UNSPECIFIED)"

subsection \<open>Reads\<close>

definition problem_of_row :: "contest_problem_row \<Rightarrow> ContestProblem" where
  "problem_of_row r = \<lparr>bp_ProblemID = cp_problem r, bp_SortOrder = cp_sort_order r,
     bp_Score = cp_score r, bp_Title = []\<rparr>"

definition contest_of_row :: "contest_row \<Rightarrow> contest_db \<Rightarrow> Contest" where
  \<comment> \<open>the scan of a row and \<open>scanProblems\<close>\<close>
  "contest_of_row r db = \<lparr>bk_ID = ct_id r, bk_Title = ct_title r, bk_Status = fromDBStatus (ct_status r),
     bk_StartAt = ct_start_at r, bk_EndAt = ct_end_at r, bk_CreatedBy = ct_created_by r,
     bk_CreatedAt = ct_created_at r, bk_UpdatedAt = ct_updated_at r,
     bk_Problems = map problem_of_row (problems_in_order (ct_id r) db), bk_Joined = False\<rparr>"

definition CurrentTime :: "attempt_env \<Rightarrow> contest_error + time" where
  "CurrentTime env = stmt env ''select now'' (Inr (utc_timestamp3 env))"

definition repo_Get :: "attempt_env \<Rightarrow> int64 \<Rightarrow> contest_db \<Rightarrow> contest_error + Contest" where
  "repo_Get env i db =
     fst (contest_tx env (\<lambda>db.
       stmt env ''select contest''
         (case find_contest i db of
            None \<Rightarrow> Inl (StatusErr GC_NotFound ''contest not found'')
          | Some r \<Rightarrow>
              guardE (fromDBStatus (ct_status r) = CS_UNSPECIFIED)
                (StatusErr GC_Internal ''invalid contest status'')
                (stmt env ''select problems'' (Inr (contest_of_row r db, db))))) db)"

definition list_filter :: "time \<Rightarrow> ContestStatus \<Rightarrow> contest_row \<Rightarrow> bool" where
  \<comment> \<open>the \<open>WHERE\<close> clause of \<open>List\<close>; unspecified and unknown filters exclude archived contests\<close>
  "list_filter now f r =
     (case f of
        CS_DRAFT \<Rightarrow> ct_status r = ''draft'' \<and> ct_start_at r > now
      | CS_RUNNING \<Rightarrow> ct_status r = ''draft'' \<and> ct_start_at r \<le> now \<and> ct_end_at r > now
      | CS_ENDED \<Rightarrow> ct_status r = ''draft'' \<and> ct_end_at r \<le> now
      | CS_ARCHIVED \<Rightarrow> ct_status r = ''archived''
      | _ \<Rightarrow> ct_status r \<noteq> ''archived'')"

definition repo_List ::
  "attempt_env \<Rightarrow> int32 \<Rightarrow> int32 \<Rightarrow> ContestStatus \<Rightarrow> contest_db \<Rightarrow> contest_error + Contest list \<times> int64" where
  \<comment> \<open>\<open>ORDER BY start_at DESC, id DESC\<close>; the offset is computed in \<open>int32\<close>, a negative one is refused\<close>
  "repo_List env page pageSize f db =
     stmt env ''count contests''
       (let now = utc_timestamp3 env;
            rows = filter (list_filter now f) (contests db);
            ordered = rev (sort_key ct_start_at (sort_key ct_id rows));
            offset = wrap32 (wrap32 (page - 1) * pageSize)
        in stmt env ''select contests''
             (constraint (0 \<le> offset \<and> 0 \<le> pageSize) ''select contests''
               (stmt env ''select problems''
                 (Inr (map (\<lambda>r. contest_of_row r db) (take (nat pageSize) (drop (nat offset) ordered)),
                       int (length rows))))))"

definition IsParticipant :: "attempt_env \<Rightarrow> int64 \<Rightarrow> int64 \<Rightarrow> contest_db \<Rightarrow> contest_error + bool" where
  "IsParticipant env c u db = stmt env ''select participant'' (Inr (is_participant c u db))"

definition HasProblem :: "attempt_env \<Rightarrow> int64 \<Rightarrow> int64 \<Rightarrow> contest_db \<Rightarrow> contest_error + bool" where
  "HasProblem env c p db = stmt env ''select contest problem'' (Inr (has_problem c p db))"

definition authorize_tx ::
  "int64 \<Rightarrow> int64 \<Rightarrow> int64 \<Rightarrow> attempt_env \<Rightarrow> contest_db \<Rightarrow> contest_error + (time \<times> time) \<times> contest_db" where
  "authorize_tx c u p env db =
     stmt env ''lock contest''
       (case find_contest c db of
          None \<Rightarrow> Inl (StatusErr GC_NotFound ''contest not found'')
        | Some r \<Rightarrow>
            stmt env ''select now''
              (let now = utc_timestamp3 env
               in guardE (ct_status r = ''archived'' \<or> now < ct_start_at r \<or> \<not> now < ct_end_at r)
                    (StatusErr GC_FailedPrecondition ''contest is not accepting submissions'')
                    (stmt env ''select participant''
                       (guardE (\<not> is_participant c u db)
                          (StatusErr GC_PermissionDenied ''user is not a contest participant'')
                          (stmt env ''select contest problem''
                             (guardE (\<not> has_problem c p db)
                                (StatusErr GC_InvalidArgument ''problem does not belong to contest'')
                                (Inr ((ct_start_at r, ct_end_at r), db))))))))"

definition AuthorizeSubmission ::
  "(nat \<Rightarrow> attempt_env) \<Rightarrow> int64 \<Rightarrow> int64 \<Rightarrow> int64 \<Rightarrow> contest_db \<Rightarrow> (contest_error + time \<times> time) \<times> contest_db" where
  \<comment> \<open>the interval of the contest, the only fields the caller reads\<close>
  "AuthorizeSubmission envs c u p db = withContestTx envs (authorize_tx c u p) db"

subsection \<open>Writes\<close>

definition join_tx :: "int64 \<Rightarrow> int64 \<Rightarrow> attempt_env \<Rightarrow> contest_db \<Rightarrow> contest_error + time \<times> contest_db" where
  "join_tx c u env db =
     stmt env ''lock contest''
       (case find_contest c db of
          None \<Rightarrow> Inl (StatusErr GC_NotFound ''contest not found'')
        | Some r \<Rightarrow>
            stmt env ''select now''
              (let now = utc_timestamp3 env
               in guardE (ct_status r = ''archived'' \<or> \<not> now < ct_start_at r \<or> \<not> now < ct_end_at r
                          \<or> ct_status r \<noteq> ''draft'')
                    (StatusErr GC_FailedPrecondition ''contest is not accepting registrations'')
                    (stmt env ''insert participant''
                       (let db' = (if is_participant c u db then db
                                   else db\<lparr>contest_participants := contest_participants db
                                             @ [\<lparr>pt_contest = c, pt_user = u, pt_joined_at = now\<rparr>]\<rparr>)
                        in stmt env ''select joined_at''
                             (case find (\<lambda>p. pt_contest p = c \<and> pt_user p = u) (contest_participants db') of
                                None \<Rightarrow> Inl (NoRowsErr ''select joined_at'')
                              | Some p \<Rightarrow> Inr (pt_joined_at p, db'))))))"

definition repo_Join :: "(nat \<Rightarrow> attempt_env) \<Rightarrow> int64 \<Rightarrow> int64 \<Rightarrow> contest_db \<Rightarrow> (contest_error + time) \<times> contest_db" where
  "repo_Join envs c u db = withContestTx envs (join_tx c u) db"

definition results_refer :: "int64 \<Rightarrow> contest_db \<Rightarrow> bool" where
  \<comment> \<open>the foreign keys of the result tables to \<open>contest_problems\<close>\<close>
  "results_refer c db \<longleftrightarrow> (\<exists>r \<in> set (contest_submission_results db). sr_contest r = c)
     \<or> (\<exists>r \<in> set (contest_problem_results db). rr_contest r = c)"

fun insert_problems ::
  "int64 \<Rightarrow> attempt_env \<Rightarrow> ContestProblem list \<Rightarrow> contest_db \<Rightarrow> contest_error + contest_db" where
  "insert_problems c env [] db = Inr db"
| "insert_problems c env (p # ps) db =
     stmt env ''insert problem''
       (constraint (\<not> (\<exists>r \<in> set (contest_problems db). cp_contest r = c
            \<and> (cp_problem r = bp_ProblemID p \<or> cp_sort_order r = bp_SortOrder p))) ''insert problem''
          (insert_problems c env ps (db\<lparr>contest_problems := contest_problems db
             @ [\<lparr>cp_contest = c, cp_problem = bp_ProblemID p, cp_sort_order = bp_SortOrder p,
                 cp_score = bp_Score p\<rparr>]\<rparr>)))"

definition replaceProblems ::
  "int64 \<Rightarrow> ContestProblem list \<Rightarrow> attempt_env \<Rightarrow> contest_db \<Rightarrow> contest_error + contest_db" where
  "replaceProblems c ps env db =
     stmt env ''delete problems''
       (constraint (\<not> results_refer c db) ''delete problems''
          (insert_problems c env ps
             (db\<lparr>contest_problems := filter (\<lambda>r. cp_contest r \<noteq> c) (contest_problems db)\<rparr>)))"

definition new_contest_row :: "attempt_env \<Rightarrow> Contest \<Rightarrow> contest_db \<Rightarrow> contest_row" where
  "new_contest_row env k db = \<lparr>ct_id = next_contest_id db, ct_title = bk_Title k, ct_status = ''draft'',
     ct_start_at = db_ms (bk_StartAt k), ct_end_at = db_ms (bk_EndAt k), ct_created_by = bk_CreatedBy k,
     ct_created_at = utc_timestamp3 env, ct_updated_at = utc_timestamp3 env\<rparr>"

definition create_contest_tx :: "Contest \<Rightarrow> attempt_env \<Rightarrow> contest_db \<Rightarrow> contest_error + Contest \<times> contest_db" where
  "create_contest_tx k env db =
     stmt env ''select now''
       (let now = utc_timestamp3 env
        in guardE (\<not> now < bk_StartAt k \<or> \<not> bk_StartAt k < bk_EndAt k)
             (StatusErr GC_InvalidArgument ''contest times must describe a future interval'')
             (stmt env ''insert contest''
                (constraint (length (bk_Title k) \<le> 255) ''insert contest''
                   (let row = new_contest_row env k db; i = ct_id row;
                        db1 = db\<lparr>contests := contests db @ [row], next_contest_id := i + 1\<rparr>
                    in bindE (replaceProblems i (bk_Problems k) env db1) (\<lambda>db2.
                         stmt env ''select times''
                           (Inr (k\<lparr>bk_ID := i, bk_CreatedAt := ct_created_at row,
                                   bk_UpdatedAt := ct_updated_at row\<rparr>, db2)))))))"

definition repo_Create :: "attempt_env \<Rightarrow> Contest \<Rightarrow> contest_db \<Rightarrow> (contest_error + Contest) \<times> contest_db" where
  "repo_Create env k db = contest_tx env (create_contest_tx k env) db"

definition next_token :: "attempt_env \<Rightarrow> contest_row \<Rightarrow> time" where
  \<comment> \<open>\<open>GREATEST(UTC_TIMESTAMP(3), updated_at + INTERVAL 1000 MICROSECOND)\<close>\<close>
  "next_token env r = max (utc_timestamp3 env) (ct_updated_at r + Millisecond)"

definition update_contest_tx :: "Contest \<Rightarrow> attempt_env \<Rightarrow> contest_db \<Rightarrow> contest_error + unit \<times> contest_db" where
  "update_contest_tx k env db =
     stmt env ''lock contest''
       (case find_contest (bk_ID k) db of
          None \<Rightarrow> Inl (StatusErr GC_NotFound ''contest not found'')
        | Some r \<Rightarrow>
            stmt env ''select now''
              (let now = utc_timestamp3 env
               in guardE (ct_status r \<noteq> ''draft'' \<or> \<not> now < ct_start_at r)
                    (StatusErr GC_FailedPrecondition ''contest is not editable'')
                    (guardE (\<not> now < bk_StartAt k \<or> \<not> bk_StartAt k < bk_EndAt k)
                       (StatusErr GC_InvalidArgument ''contest times must describe a future interval'')
                       (guardE (ct_updated_at r \<noteq> bk_UpdatedAt k)
                          (StatusErr GC_Aborted ''contest was modified; reload and retry'')
                          (stmt env ''update contest''
                             (constraint (length (bk_Title k) \<le> 255) ''update contest''
                                (bindE (replaceProblems (bk_ID k) (bk_Problems k) env
                                   (db\<lparr>contests := map (\<lambda>x. if ct_id x = bk_ID k
                                      then x\<lparr>ct_title := bk_Title k, ct_start_at := db_ms (bk_StartAt k),
                                             ct_end_at := db_ms (bk_EndAt k), ct_updated_at := next_token env x\<rparr>
                                      else x) (contests db)\<rparr>))
                                   (\<lambda>db'. Inr ((), db')))))))))"

definition repo_Update ::
  "(nat \<Rightarrow> attempt_env) \<Rightarrow> attempt_env \<Rightarrow> Contest \<Rightarrow> contest_db \<Rightarrow> (contest_error + Contest) \<times> contest_db" where
  "repo_Update envs env2 k db =
     (if bk_UpdatedAt k = zero_time
      then (Inl (StatusErr GC_InvalidArgument ''contest update token is required''), db)
      else case withContestTx envs (update_contest_tx k) db of
             (Inl e, db') \<Rightarrow> (Inl e, db')
           | (Inr _, db') \<Rightarrow> (repo_Get env2 (bk_ID k) db', db'))"

definition archive_tx :: "int64 \<Rightarrow> attempt_env \<Rightarrow> contest_db \<Rightarrow> contest_error + unit \<times> contest_db" where
  "archive_tx i env db =
     stmt env ''lock contest''
       (case find_contest i db of
          None \<Rightarrow> Inl (StatusErr GC_NotFound ''contest not found'')
        | Some r \<Rightarrow>
            stmt env ''select now''
              (guardE (ct_status r \<noteq> ''draft'' \<or> \<not> utc_timestamp3 env < ct_start_at r)
                 (StatusErr GC_FailedPrecondition ''contest is not archivable'')
                 (stmt env ''update contest''
                    (Inr ((), db\<lparr>contests := map (\<lambda>x. if ct_id x = i
                        then x\<lparr>ct_status := ''archived'', ct_updated_at := next_token env x\<rparr>
                        else x) (contests db)\<rparr>)))))"

definition repo_Archive ::
  "(nat \<Rightarrow> attempt_env) \<Rightarrow> attempt_env \<Rightarrow> int64 \<Rightarrow> contest_db \<Rightarrow> (contest_error + Contest) \<times> contest_db" where
  "repo_Archive envs env2 i db =
     (case withContestTx envs (archive_tx i) db of
        (Inl e, db') \<Rightarrow> (Inl e, db')
      | (Inr _, db') \<Rightarrow> (repo_Get env2 i db', db'))"

end
