(* ===== verification/Contest_Projection_Facts.thy ===== *)
theory Contest_Projection_Facts
  imports Contest_Repo
begin

text \<open>
  What a committed projection does to the tables, as frame equations, and the interpretation of the
  idempotent-consumer contract on \<open>ApplyProjection\<close>.
\<close>

section \<open>Definitions\<close>

definition mark_event :: "ProjectionEvent \<Rightarrow> contest_db \<Rightarrow> contest_db" where
  "mark_event event db =
     db\<lparr>contest_processed_events := contest_processed_events db @ [take 36 (pe_EventID event)]\<rparr>"

definition stored_results :: "attempt_env \<Rightarrow> SubmissionFact \<Rightarrow> contest_db \<Rightarrow> contest_db" where
  "stored_results env f db =
     db\<lparr>contest_submission_results :=
          upsert sr_submission (fact_row env f) (update_fact_row env f) (contest_submission_results db)\<rparr>"

definition scored_row :: "time \<Rightarrow> SubmissionFact \<Rightarrow> attempt_env \<Rightarrow> contest_db \<Rightarrow> problem_result_row" where
  "scored_row start f env db =
     problem_result_row_of env (sj_ContestID f) (sj_UserID f) (sj_ProblemID f)
       (Rebuild start (key_facts (sj_ContestID f) (sj_UserID f) (sj_ProblemID f) db))"

definition scored :: "time \<Rightarrow> SubmissionFact \<Rightarrow> attempt_env \<Rightarrow> contest_db \<Rightarrow> contest_db" where
  "scored start f env db =
     db\<lparr>contest_problem_results :=
          upsert rr_key (scored_row start f env db) (\<lambda>_. scored_row start f env db)
            (contest_problem_results db)\<rparr>"

definition totalled :: "int64 \<Rightarrow> int64 \<Rightarrow> attempt_env \<Rightarrow> contest_db \<Rightarrow> contest_db" where
  "totalled c u env db =
     db\<lparr>contest_user_results :=
          upsert ur_key (new_user_result env c u db) (\<lambda>_. new_user_result env c u db)
            (contest_user_results db)\<rparr>"

definition announced :: "int64 \<Rightarrow> int64 \<Rightarrow> attempt_env \<Rightarrow> int64 \<Rightarrow> json \<Rightarrow> contest_db \<Rightarrow> contest_db" where
  "announced c u env version payload db =
     db\<lparr>contest_cache_outbox := contest_cache_outbox db @ [new_cache_row env c u version payload db],
        next_cache_id := next_cache_id db + 1\<rparr>"

definition consume_projection ::
  "(nat \<Rightarrow> attempt_env) \<Rightarrow> ProjectionEvent \<Rightarrow> contest_db \<Rightarrow> bool \<times> contest_db" where
  "consume_projection envs event db =
     (case ApplyProjection envs event db of (Inr _, db') \<Rightarrow> (True, db') | (Inl _, db') \<Rightarrow> (False, db'))"

definition projection_handled :: "contest_db \<Rightarrow> ProjectionEvent \<Rightarrow> bool" where
  "projection_handled db event \<longleftrightarrow> take 36 (pe_EventID event) \<in> set (contest_processed_events db)
     \<and> find_contest (sj_ContestID (pe_Fact event)) db \<noteq> None"

definition quiet_attempt :: "(nat \<Rightarrow> attempt_env) \<Rightarrow> ProjectionEvent \<Rightarrow> bool" where
  "quiet_attempt envs event \<longleftrightarrow> \<not> ctx_done (envs 0) \<and> \<not> fails (envs 0) ''begin''
     \<and> \<not> fails (envs 0) ''commit'' \<and> \<not> fails (envs 0) ''lock contest''
     \<and> \<not> fails (envs 0) ''insert processed event''"

definition projected :: "time \<Rightarrow> SubmissionFact \<Rightarrow> attempt_env \<Rightarrow> contest_db \<Rightarrow> contest_db" where
  "projected start f env db = scored start f env (stored_results env f db)"

section \<open>Lemmas\<close>

lemma row_keys [simp]:
  "sr_submission (fact_row env f) = sj_SubmissionID f"
  "sr_submission (update_fact_row env f r) = sr_submission r"
  "rr_key (scored_row start f env db) = (sj_ContestID f, sj_UserID f, sj_ProblemID f)"
  "ur_key (new_user_result env c u db) = (c, u)"
  by (simp_all add: fact_row_def update_fact_row_def scored_row_def problem_result_row_of_def rr_key_def
      ur_key_def new_user_result_def)

lemma update_fact_row_identity [simp]:
  "sr_contest (update_fact_row env f r) = sr_contest r" "sr_user (update_fact_row env f r) = sr_user r"
  "sr_problem (update_fact_row env f r) = sr_problem r"
  "sr_submitted_at (update_fact_row env f r) = sr_submitted_at r"
  by (simp_all add: update_fact_row_def)

lemma projection_fact_simps [simp]:
  "sj_SubmissionID (projection_fact f) = sj_SubmissionID f" "sj_ContestID (projection_fact f) = sj_ContestID f"
  "sj_UserID (projection_fact f) = sj_UserID f" "sj_ProblemID (projection_fact f) = sj_ProblemID f"
  "sj_Verdict (projection_fact f) = sj_Verdict f" "sf_Invalidated (projection_fact f) = sf_Invalidated f"
  by (simp_all add: projection_fact_def)

lemma enqueueCurrentSummary_Inr:
  assumes "enqueueCurrentSummary c u env db = Inr db'"
  obtains r payload where "find (\<lambda>r. ur_key r = (c, u)) (contest_user_results db) = Some r"
    and "LeaderboardSnapshot_Validate (current_summary c u r db) = None"
    and "enc_LeaderboardSnapshot (current_summary c u r db) = Some payload"
    and "cache_row_allowed env c u (ur_version r) db"
    and "db' = announced c u env (ur_version r) payload db"
  using assms
  by (auto simp: enqueueCurrentSummary_def Let_def announced_def split: option.splits)

lemma enqueueLeaderboard_Inr:
  assumes "enqueueLeaderboard c u env db = Inr db'" and "user_problem_results c u db \<noteq> []"
  obtains payload where "user_result_allowed c u db"
    and "LeaderboardSnapshot_Validate (current_summary c u (new_user_result env c u db) (totalled c u env db)) = None"
    and "enc_LeaderboardSnapshot (current_summary c u (new_user_result env c u db) (totalled c u env db)) = Some payload"
    and "cache_row_allowed env c u (next_version c u db) db"
    and "db' = announced c u env (next_version c u db) payload (totalled c u env db)"
proof -
  let ?row = "new_user_result env c u db" and ?db1 = "totalled c u env db"
  from assms have ok: "user_result_allowed c u db" and e: "enqueueCurrentSummary c u env ?db1 = Inr db'"
    by (auto simp: enqueueLeaderboard_def Let_def totalled_def)
  have "find (\<lambda>r. ur_key r = (c, u)) (contest_user_results ?db1) = Some ?row"
    using find_upsert [of ur_key ?row "\<lambda>_. ?row" "(c, u)" "contest_user_results db"]
    by (simp add: totalled_def split: option.splits)
  moreover have "ur_version ?row = next_version c u db" by (simp add: new_user_result_def)
  moreover have "cache_row_allowed env c u v ?db1 = cache_row_allowed env c u v db" for v
    by (simp add: cache_row_allowed_def totalled_def)
  ultimately show ?thesis
    using e by (auto elim!: enqueueCurrentSummary_Inr intro: that [OF ok])
qed

lemma scored_nonempty: "user_problem_results (sj_ContestID f) (sj_UserID f) (scored start f env db) \<noteq> []"
proof -
  let ?row = "scored_row start f env db"
  have "?row \<in> set (contest_problem_results (scored start f env db))"
    by (auto simp: scored_def upsert_def image_iff intro!: bexI)
  moreover have "rr_contest ?row = sj_ContestID f" "rr_user ?row = sj_UserID f"
    by (simp_all add: scored_row_def problem_result_row_of_def)
  ultimately show ?thesis by (auto simp: user_problem_results_def filter_empty_conv)
qed

text \<open>The tables after a committed \<open>store_fact\<close>.\<close>

lemma store_fact_Inr:
  assumes "store_fact start f env db = Inr db'"
  obtains r payload where "find_result (sj_SubmissionID f) (stored_results env f db) = Some r"
    and "identity_matches f r"
    and "user_result_allowed (sj_ContestID f) (sj_UserID f) (projected start f env db)"
    and "LeaderboardSnapshot_Validate (current_summary (sj_ContestID f) (sj_UserID f)
          (new_user_result env (sj_ContestID f) (sj_UserID f) (projected start f env db))
          (totalled (sj_ContestID f) (sj_UserID f) env (projected start f env db))) = None"
    and "enc_LeaderboardSnapshot (current_summary (sj_ContestID f) (sj_UserID f)
          (new_user_result env (sj_ContestID f) (sj_UserID f) (projected start f env db))
          (totalled (sj_ContestID f) (sj_UserID f) env (projected start f env db))) = Some payload"
    and "cache_row_allowed env (sj_ContestID f) (sj_UserID f)
          (next_version (sj_ContestID f) (sj_UserID f) (projected start f env db)) (projected start f env db)"
    and "db' = announced (sj_ContestID f) (sj_UserID f) env
          (next_version (sj_ContestID f) (sj_UserID f) (projected start f env db)) payload
          (totalled (sj_ContestID f) (sj_UserID f) env (projected start f env db))"
proof -
  let ?s = "stored_results env f db" and ?c = "sj_ContestID f" and ?u = "sj_UserID f"
  from assms obtain r where r: "find_result (sj_SubmissionID f) ?s = Some r" "identity_matches f r"
    and rest: "bindE (rebuild_problem start f env ?s) (\<lambda>db2. enqueueLeaderboard ?c ?u env db2) = Inr db'"
    by (auto simp: store_fact_def Let_def stored_results_def split: option.splits)
  from rest have "enqueueLeaderboard ?c ?u env (projected start f env db) = Inr db'"
    by (auto simp: rebuild_problem_def Let_def projected_def scored_def scored_row_def)
  then show ?thesis
    by (rule enqueueLeaderboard_Inr) (auto simp: projected_def scored_nonempty intro: that [OF r])
qed

lemma project_fact_Inr:
  assumes "project_fact contest f env db = Inr db'"
  obtains (outdated) old where "find_result (sj_SubmissionID f) db = Some old" and "identity_matches f old"
      and "outdated f old" and "db' = db"
  | (stored) "store_fact (ct_start_at contest) f env db = Inr db'"
      and "is_participant (sj_ContestID f) (sj_UserID f) db"
      and "has_problem (sj_ContestID f) (sj_ProblemID f) db"
      and "ct_start_at contest \<le> sj_SubmittedAt f" and "sj_SubmittedAt f < ct_end_at contest"
      and "case find_result (sj_SubmissionID f) db of None \<Rightarrow> True
           | Some old \<Rightarrow> identity_matches f old \<and> \<not> outdated f old"
  using assms
  by (auto simp: project_fact_def split: option.splits if_splits)

lemma applyProjectionTx_Inr:
  assumes "applyProjectionTx event env db = Inr (b, db')"
  obtains (seen) "take 36 (pe_EventID event) \<in> set (contest_processed_events db)" and "b = False" and "db' = db"
      and "find_contest (sj_ContestID (pe_Fact event)) db \<noteq> None"
  | (fresh) contest where "take 36 (pe_EventID event) \<notin> set (contest_processed_events db)" and "b = True"
      and "find_contest (sj_ContestID (pe_Fact event)) db = Some contest"
      and "project_fact contest (projection_fact (pe_Fact event)) env (mark_event event db) = Inr db'"
  using assms
  by (auto simp: applyProjectionTx_def Let_def mark_event_def split: option.splits if_splits)

lemma mark_event_simps [simp]:
  "contests (mark_event e db) = contests db" "contest_problems (mark_event e db) = contest_problems db"
  "contest_participants (mark_event e db) = contest_participants db"
  "contest_submission_results (mark_event e db) = contest_submission_results db"
  "contest_problem_results (mark_event e db) = contest_problem_results db"
  "contest_user_results (mark_event e db) = contest_user_results db"
  "contest_cache_outbox (mark_event e db) = contest_cache_outbox db"
  "contest_processed_events (mark_event e db) = contest_processed_events db @ [take 36 (pe_EventID e)]"
  "next_contest_id (mark_event e db) = next_contest_id db"
  by (simp_all add: mark_event_def)

lemma store_fact_frame:
  assumes "store_fact start f env db = Inr db'"
  shows "contests db' = contests db" "contest_problems db' = contest_problems db"
    "contest_participants db' = contest_participants db"
    "contest_processed_events db' = contest_processed_events db"
    "contest_submission_results db' = contest_submission_results (stored_results env f db)"
    "contest_problem_results db' = contest_problem_results (projected start f env db)"
    "contest_user_results db' =
       contest_user_results (totalled (sj_ContestID f) (sj_UserID f) env (projected start f env db))"
    "next_contest_id db' = next_contest_id db"
  using assms
  by (auto elim!: store_fact_Inr simp: announced_def totalled_def projected_def scored_def stored_results_def)

lemma project_fact_frame:
  assumes "project_fact contest f env db = Inr db'"
  shows "contests db' = contests db" "contest_processed_events db' = contest_processed_events db"
  using assms by (auto elim!: project_fact_Inr simp: store_fact_frame)

lemma applyProjectionTx_frame:
  assumes "applyProjectionTx event env db = Inr (b, db')"
  shows "contests db' = contests db" "find_contest i db' = find_contest i db"
    "set (contest_processed_events db') = insert (take 36 (pe_EventID event)) (set (contest_processed_events db))"
  using assms
  by (auto elim!: applyProjectionTx_Inr simp: find_contest_def dest: project_fact_frame)

section \<open>The consumer contract\<close>

lemma ApplyProjection_handled:
  assumes "ApplyProjection envs event db = (r, db')" and "take 36 (pe_EventID event) \<in> set (contest_processed_events db)"
  shows "db' = db"
proof -
  have "take 36 (pe_EventID event) \<in> set (contest_processed_events db) \<longrightarrow> db' = db"
    by (rule withContestTx_rel [OF assms(1) [unfolded ApplyProjection_def],
          of "\<lambda>a b. take 36 (pe_EventID event) \<in> set (contest_processed_events a) \<longrightarrow> b = a"])
      (auto elim: applyProjectionTx_Inr)
  with assms(2) show ?thesis by simp
qed

lemma ApplyProjection_keeps:
  assumes "ApplyProjection envs event db = (r, db')"
  shows "contests db' = contests db \<and> set (contest_processed_events db) \<subseteq> set (contest_processed_events db')"
  by (rule withContestTx_rel [OF assms [unfolded ApplyProjection_def]])
    (auto simp: applyProjectionTx_frame)

lemma ApplyProjection_records:
  assumes "ApplyProjection envs event db = (Inr b, db')"
  shows "projection_handled db' event"
proof -
  from withContestTx_ok [OF assms [unfolded ApplyProjection_def]]
  obtain i s1 where t: "applyProjectionTx event (envs i) s1 = Inr (b, db')" by blast
  then have "find_contest (sj_ContestID (pe_Fact event)) db' \<noteq> None"
    using applyProjectionTx_frame(2) [OF t] by (auto elim: applyProjectionTx_Inr)
  then show ?thesis using applyProjectionTx_frame(3) [OF t] by (simp add: projection_handled_def)
qed

lemma ApplyProjection_again:
  assumes "projection_handled db event" and "quiet_attempt envs event"
  shows "ApplyProjection envs event db = (Inr False, db)"
proof -
  have "applyProjectionTx event (envs 0) db = Inr (False, db)"
    using assms by (auto simp: applyProjectionTx_def projection_handled_def quiet_attempt_def Let_def)
  then show ?thesis
    using assms(2) unfolding ApplyProjection_def quiet_attempt_def by (intro withContestTx_first) auto
qed

interpretation contest_results: idempotent_consumer consume_projection projection_handled quiet_attempt
proof unfold_locales
  fix db e envs b db'
  assume "projection_handled db e" and "consume_projection envs e db = (b, db')"
  then show "db' = db"
    by (auto simp: consume_projection_def projection_handled_def split: prod.splits sum.splits
        dest: ApplyProjection_handled)
next
  fix db e envs
  assume "projection_handled db e" and "quiet_attempt envs e"
  then show "fst (consume_projection envs e db)"
    by (simp add: consume_projection_def ApplyProjection_again)
next
  fix envs e db db'
  assume "consume_projection envs e db = (True, db')"
  then show "projection_handled db' e"
    by (auto simp: consume_projection_def split: prod.splits sum.splits dest: ApplyProjection_records)
next
  fix db e envs e2 b db'
  assume h: "projection_handled db e" and c: "consume_projection envs e2 db = (b, db')"
  then have "contests db' = contests db \<and> set (contest_processed_events db) \<subseteq> set (contest_processed_events db')"
    by (auto simp: consume_projection_def split: prod.splits sum.splits dest: ApplyProjection_keeps)
  with h show "projection_handled db' e" by (auto simp: projection_handled_def find_contest_def)
qed

end
