(* ===== verification/Contest_Inv.thy ===== *)
theory Contest_Inv
  imports Contest_Projection_Facts
begin

text \<open>
  The invariant of the contest tables and the steps that keep it. The result tables are a projection:
  the score of a user on a problem is the scoring rule applied to the facts stored for them, the totals
  are the sums of the scores, and the outbox holds the snapshot of the current totals.
\<close>

section \<open>Definitions\<close>

definition row_matches :: "problem_result_row \<Rightarrow> ProblemResult \<Rightarrow> bool" where
  "row_matches r res \<longleftrightarrow> rr_solved r = pr_Solved res \<and> rr_wrong_attempts r = pr_WrongAttempts res
     \<and> rr_accepted_submission_id r = pr_AcceptedSubmissionID res \<and> rr_accepted_at r = pr_AcceptedAt res
     \<and> rr_penalty_seconds r = pr_PenaltySeconds res"

definition interval :: "contest_db \<Rightarrow> int64 \<Rightarrow> (time \<times> time) option" where
  "interval db i = map_option (\<lambda>c. (ct_start_at c, ct_end_at c)) (find_contest i db)"

definition facts_ok :: "contest_db \<Rightarrow> bool" where
  "facts_ok db \<longleftrightarrow> distinct (map sr_submission (contest_submission_results db))
     \<and> (\<forall>r \<in> set (contest_submission_results db). \<exists>s e. interval db (sr_contest r) = Some (s, e)
          \<and> s \<le> sr_submitted_at r \<and> sr_submitted_at r < e)"

definition scores_ok :: "contest_db \<Rightarrow> bool" where
  "scores_ok db \<longleftrightarrow> distinct (map rr_key (contest_problem_results db))
     \<and> (\<forall>r \<in> set (contest_problem_results db). \<exists>s e. interval db (rr_contest r) = Some (s, e)
          \<and> key_facts (rr_contest r) (rr_user r) (rr_problem r) db \<noteq> []
          \<and> row_matches r (Rebuild s (key_facts (rr_contest r) (rr_user r) (rr_problem r) db)))
     \<and> (\<forall>r \<in> set (contest_submission_results db).
          (sr_contest r, sr_user r, sr_problem r) \<in> rr_key ` set (contest_problem_results db))"

definition totals_ok :: "contest_db \<Rightarrow> bool" where
  "totals_ok db \<longleftrightarrow> distinct (map ur_key (contest_user_results db))
     \<and> (\<forall>u \<in> set (contest_user_results db). user_problem_results (ur_contest u) (ur_user u) db \<noteq> []
          \<and> ur_solved_count u = solved_total (user_problem_results (ur_contest u) (ur_user u) db)
          \<and> ur_penalty_seconds u = penalty_total (user_problem_results (ur_contest u) (ur_user u) db))
     \<and> (\<forall>r \<in> set (contest_problem_results db).
          (rr_contest r, rr_user r) \<in> ur_key ` set (contest_user_results db))"

definition announces_totals :: "contest_db \<Rightarrow> user_result_row \<Rightarrow> cache_outbox_row \<Rightarrow> bool" where
  "announces_totals db u e \<longleftrightarrow> co_contest e = ur_contest u \<and> co_user e = ur_user u \<and> co_version e = ur_version u
     \<and> LeaderboardSnapshot_Validate (current_summary (ur_contest u) (ur_user u) u db) = None
     \<and> enc_LeaderboardSnapshot (current_summary (ur_contest u) (ur_user u) u db) = Some (co_payload e)"

definition outbox_ok :: "contest_db \<Rightarrow> bool" where
  "outbox_ok db \<longleftrightarrow>
     (\<forall>u \<in> set (contest_user_results db). \<exists>e \<in> set (contest_cache_outbox db). announces_totals db u e)
     \<and> (\<forall>e \<in> set (contest_cache_outbox db). \<exists>u \<in> set (contest_user_results db).
          ur_key u = (co_contest e, co_user e) \<and> co_version e \<le> ur_version u)"

definition contest_inv :: "contest_db \<Rightarrow> bool" where
  "contest_inv db \<longleftrightarrow> facts_ok db \<and> scores_ok db \<and> totals_ok db \<and> outbox_ok db"

inductive contest_step :: "contest_db \<Rightarrow> contest_db \<Rightarrow> bool" where
  project: "ApplyProjection envs event db = (r, db') \<Longrightarrow> contest_step db db'"
| create: "repo_Create env k db = (r, db') \<Longrightarrow> contest_step db db'"
| update: "repo_Update envs env2 k db = (r, db') \<Longrightarrow> contest_step db db'"
| archive: "repo_Archive envs env2 i db = (r, db') \<Longrightarrow> contest_step db db'"
| join: "repo_Join envs c u db = (r, db') \<Longrightarrow> contest_step db db'"
| backfill: "backfillUser c u env db = (r, db') \<Longrightarrow> contest_step db db'"

inductive contest_reach :: "contest_db \<Rightarrow> contest_db \<Rightarrow> bool" for db0 where
  start: "contest_reach db0 db0"
| more: "contest_reach db0 db \<Longrightarrow> contest_step db db' \<Longrightarrow> contest_reach db0 db'"

section \<open>Lemmas\<close>

subsection \<open>Steps that do not touch the results\<close>

lemma contest_inv_frame:
  assumes inv: "contest_inv db"
    and same: "contest_submission_results db' = contest_submission_results db"
      "contest_problem_results db' = contest_problem_results db"
      "contest_user_results db' = contest_user_results db" "contest_cache_outbox db' = contest_cache_outbox db"
    and cfg: "\<And>i. results_refer i db \<Longrightarrow> interval db i \<noteq> None \<Longrightarrow>
      interval db' i = interval db i \<and> problems_in_order i db' = problems_in_order i db"
  shows "contest_inv db'"
proof -
  have kf: "key_facts c u p db' = key_facts c u p db" for c u p by (simp add: key_facts_def same)
  have up: "user_problem_results c u db' = user_problem_results c u db" for c u
    by (simp add: user_problem_results_def same)
  have "facts_ok db'"
    using inv cfg unfolding contest_inv_def facts_ok_def same by (fastforce simp: results_refer_def)
  moreover have "scores_ok db'"
    using inv cfg unfolding contest_inv_def scores_ok_def same kf by (fastforce simp: results_refer_def)
  moreover have "totals_ok db'" using inv by (simp add: contest_inv_def totals_ok_def same up)
  moreover have "outbox_ok db'"
  proof -
    have "current_summary (ur_contest u) (ur_user u) u db' = current_summary (ur_contest u) (ur_user u) u db"
      if u: "u \<in> set (contest_user_results db)" for u
    proof -
      obtain r where r: "r \<in> set (contest_problem_results db)" "rr_contest r = ur_contest u"
        using inv u by (fastforce simp: contest_inv_def totals_ok_def user_problem_results_def filter_empty_conv)
      then have "results_refer (ur_contest u) db" "interval db (ur_contest u) \<noteq> None"
        using inv by (auto simp: results_refer_def contest_inv_def scores_ok_def)
      then show ?thesis using cfg by (simp add: current_summary_def leaderboard_problem_def same)
    qed
    then show ?thesis using inv by (simp add: contest_inv_def outbox_ok_def announces_totals_def same)
  qed
  ultimately show ?thesis by (simp add: contest_inv_def)
qed

lemma insert_problems_Inr:
  assumes "insert_problems c env ps db = Inr db'"
  shows "\<exists>rows. db' = db\<lparr>contest_problems := rows\<rparr>
    \<and> filter (\<lambda>r. cp_contest r \<noteq> c) rows = filter (\<lambda>r. cp_contest r \<noteq> c) (contest_problems db)"
  using assms
proof (induction c env ps db rule: insert_problems.induct)
  case (1 c env db)
  then show ?case by (intro exI [of _ "contest_problems db"]) simp
next
  case (2 c env p ps db)
  then show ?case by fastforce
qed

lemma replaceProblems_Inr:
  assumes "replaceProblems c ps env db = Inr db'"
  shows "\<not> results_refer c db" and "\<exists>rows. db' = db\<lparr>contest_problems := rows\<rparr>"
    and "i \<noteq> c \<Longrightarrow> problems_in_order i db' = problems_in_order i db"
proof -
  let ?db = "db\<lparr>contest_problems := filter (\<lambda>r. cp_contest r \<noteq> c) (contest_problems db)\<rparr>"
  from assms have ins: "insert_problems c env ps ?db = Inr db'" and nr: "\<not> results_refer c db"
    by (auto simp: replaceProblems_def)
  from insert_problems_Inr [OF ins] obtain rows where rows: "db' = ?db\<lparr>contest_problems := rows\<rparr>"
    "filter (\<lambda>r. cp_contest r \<noteq> c) rows = filter (\<lambda>r. cp_contest r \<noteq> c) (contest_problems db)"
    by auto
  show "\<not> results_refer c db" by (fact nr)
  show "\<exists>rows. db' = db\<lparr>contest_problems := rows\<rparr>" using rows(1) by auto
  assume i: "i \<noteq> c"
  have "filter (\<lambda>r. cp_contest r = i) xs = filter (\<lambda>r. cp_contest r = i) (filter (\<lambda>r. cp_contest r \<noteq> c) xs)" for xs
    using i by (induction xs) auto
  then show "problems_in_order i db' = problems_in_order i db"
    unfolding problems_in_order_def using rows by (metis contest_db.simps(2) contest_db.update_convs(2) contest_db.surjective contest_db.select_convs(2))
qed

lemma create_contest_inv:
  assumes "contest_inv db" and "create_contest_tx k env db = Inr (k', db')"
  shows "contest_inv db'"
proof -
  let ?row = "new_contest_row env k db"
  let ?db1 = "db\<lparr>contests := contests db @ [?row], next_contest_id := ct_id ?row + 1\<rparr>"
  from assms(2) have rp: "replaceProblems (ct_id ?row) (bk_Problems k) env ?db1 = Inr db'"
    by (auto simp: create_contest_tx_def Let_def)
  obtain rows where rows: "db' = ?db1\<lparr>contest_problems := rows\<rparr>" using replaceProblems_Inr(2) [OF rp] by auto
  have nr: "\<not> results_refer (ct_id ?row) db"
    using replaceProblems_Inr(1) [OF rp] by (simp add: results_refer_def)
  show ?thesis
  proof (rule contest_inv_frame [OF assms(1)])
    fix i
    assume r: "results_refer i db" and f: "interval db i \<noteq> None"
    then have "i \<noteq> ct_id ?row" using nr by auto
    from replaceProblems_Inr(3) [OF rp this] have "problems_in_order i db' = problems_in_order i db"
      by (simp add: problems_in_order_def)
    moreover have "interval db' i = interval db i"
      using find_before [of "\<lambda>c. ct_id c = i" "contests db" "[?row]"] f
      by (simp add: interval_def find_contest_def rows)
    ultimately show "interval db' i = interval db i \<and> problems_in_order i db' = problems_in_order i db"
      by simp
  qed (simp_all add: rows)
qed

lemma find_contest_map:
  assumes "\<And>c. ct_id (g c) = ct_id c"
  shows "find (\<lambda>c. ct_id c = i) (map g cs) = map_option g (find (\<lambda>c. ct_id c = i) cs)"
  using assms by (induction cs) auto

lemma update_contest_inv:
  assumes "contest_inv db" and "update_contest_tx k env db = Inr (x, db')"
  shows "contest_inv db'"
proof -
  define g where "g = (\<lambda>x. if ct_id x = bk_ID k
     then x\<lparr>ct_title := bk_Title k, ct_start_at := db_ms (bk_StartAt k), ct_end_at := db_ms (bk_EndAt k),
            ct_updated_at := next_token env x\<rparr> else x)"
  let ?db1 = "db\<lparr>contests := map g (contests db)\<rparr>"
  from assms(2) have rp: "replaceProblems (bk_ID k) (bk_Problems k) env ?db1 = Inr db'"
    by (auto simp: update_contest_tx_def Let_def g_def split: option.splits)
  obtain rows where rows: "db' = ?db1\<lparr>contest_problems := rows\<rparr>" using replaceProblems_Inr(2) [OF rp] by auto
  have nr: "\<not> results_refer (bk_ID k) db"
    using replaceProblems_Inr(1) [OF rp] by (simp add: results_refer_def)
  show ?thesis
  proof (rule contest_inv_frame [OF assms(1)])
    fix i
    assume r: "results_refer i db"
    then have i: "i \<noteq> bk_ID k" using nr by auto
    from replaceProblems_Inr(3) [OF rp this] have "problems_in_order i db' = problems_in_order i db"
      by (simp add: problems_in_order_def)
    moreover have "find_contest i db' = find_contest i db"
    proof -
      have "map_option g (find (\<lambda>c. ct_id c = i) (contests db)) = find (\<lambda>c. ct_id c = i) (contests db)"
        using i by (cases "find (\<lambda>c. ct_id c = i) (contests db)") (auto simp: g_def dest: find_key)
      then show ?thesis by (simp add: find_contest_def rows find_contest_map g_def)
    qed
    ultimately show "interval db' i = interval db i \<and> problems_in_order i db' = problems_in_order i db"
      by (simp add: interval_def)
  qed (simp_all add: rows)
qed

lemma archive_inv:
  assumes "contest_inv db" and "archive_tx i env db = Inr (x, db')"
  shows "contest_inv db'"
proof -
  define g where "g = (\<lambda>x. if ct_id x = i then x\<lparr>ct_status := ''archived'', ct_updated_at := next_token env x\<rparr> else x)"
  from assms(2) have d: "db' = db\<lparr>contests := map g (contests db)\<rparr>"
    by (auto simp: archive_tx_def g_def split: option.splits)
  have g: "ct_id (g c) = ct_id c" "ct_start_at (g c) = ct_start_at c" "ct_end_at (g c) = ct_end_at c" for c
    by (simp_all add: g_def)
  show ?thesis
    by (rule contest_inv_frame [OF assms(1)])
      (simp_all add: d interval_def find_contest_def find_contest_map g problems_in_order_def
        option.map_comp comp_def)
qed

lemma join_inv:
  assumes "contest_inv db" and "join_tx c u env db = Inr (x, db')"
  shows "contest_inv db'"
proof -
  from assms(2) have "\<exists>ps. db' = db\<lparr>contest_participants := ps\<rparr>"
    by (auto simp: join_tx_def Let_def split: option.splits if_splits intro: exI [of _ "contest_participants db"])
  then show ?thesis
    by (auto intro!: contest_inv_frame [OF assms(1)] simp: interval_def find_contest_def problems_in_order_def)
qed

subsection \<open>The projection of a fact\<close>

text \<open>
  The tables after a stored fact: other keys keep their facts, scores and totals, and the key of the
  fact gets the score of its facts.
\<close>

lemma stored_identity:
  assumes "facts_ok db" and "find_result (sj_SubmissionID f) (stored_results env f db) = Some r"
    and "identity_matches f r" and "x \<in> set (contest_submission_results (stored_results env f db))"
    and "sr_submission x = sj_SubmissionID f"
  shows "identity_matches f x"
proof -
  have "distinct (map sr_submission (contest_submission_results (stored_results env f db)))"
    using assms(1) unfolding stored_results_def facts_ok_def by (auto intro!: upsert_distinct)
  from find_key_unique [OF this assms(4)] assms(2,3,5) show ?thesis by (simp add: find_result_def)
qed

lemma stored_identity_before:
  assumes "facts_ok db" and "find_result (sj_SubmissionID f) (stored_results env f db) = Some r"
    and "identity_matches f r" and "x \<in> set (contest_submission_results db)"
    and "sr_submission x = sj_SubmissionID f"
  shows "sr_contest x = sj_ContestID f \<and> sr_user x = sj_UserID f \<and> sr_problem x = sj_ProblemID f
    \<and> sr_submitted_at x = sj_SubmittedAt f"
proof -
  have "update_fact_row env f x \<in> set (contest_submission_results (stored_results env f db))"
    using assms(4,5) by (force simp: stored_results_def upsert_def)
  from stored_identity [OF assms(1-3) this] assms(5) show ?thesis by (simp add: identity_matches_def)
qed

lemma stored_key_facts:
  assumes "facts_ok db" and "find_result (sj_SubmissionID f) (stored_results env f db) = Some r"
    and "identity_matches f r" and "(c, u, p) \<noteq> (sj_ContestID f, sj_UserID f, sj_ProblemID f)"
  shows "key_facts c u p (stored_results env f db) = key_facts c u p db"
proof -
  let ?P = "\<lambda>r. sr_contest r = c \<and> sr_user r = u \<and> sr_problem r = p"
  have "filter ?P (upsert sr_submission (fact_row env f) (update_fact_row env f) (contest_submission_results db))
      = filter ?P (contest_submission_results db)"
  proof (rule upsert_other)
    show "\<not> ?P (fact_row env f)" using assms(4) by (auto simp: fact_row_def)
    fix x
    assume "x \<in> set (contest_submission_results db)" "sr_submission x = sr_submission (fact_row env f)"
    with stored_identity_before [OF assms(1-3)] assms(4)
    show "\<not> ?P x \<and> \<not> ?P (update_fact_row env f x)" by auto
  qed
  then show ?thesis by (simp add: key_facts_def stored_results_def)
qed

lemma stored_mem:
  assumes "x \<in> set (contest_submission_results (stored_results env f db))"
  obtains "sr_submission x \<noteq> sj_SubmissionID f" and "x \<in> set (contest_submission_results db)"
  | "sr_submission x = sj_SubmissionID f" and "x = fact_row env f"
  | y where "sr_submission x = sj_SubmissionID f" and "y \<in> set (contest_submission_results db)"
      and "sr_submission y = sj_SubmissionID f" and "x = update_fact_row env f y"
  using upsert_mem [OF assms [unfolded stored_results_def, simplified]] by auto

lemma stored_facts_ok:
  assumes ok: "facts_ok db" and r: "find_result (sj_SubmissionID f) (stored_results env f db) = Some r"
    "identity_matches f r"
    and c: "interval db (sj_ContestID f) = Some (s, e)" "s \<le> sj_SubmittedAt f" "sj_SubmittedAt f < e"
    and same: "contest_submission_results db' = contest_submission_results (stored_results env f db)"
      "contests db' = contests db"
  shows "facts_ok db'"
proof -
  have i: "interval db' j = interval db j" for j by (simp add: interval_def find_contest_def same)
  have "distinct (map sr_submission (contest_submission_results (stored_results env f db)))"
    using ok unfolding stored_results_def facts_ok_def by (auto intro!: upsert_distinct)
  moreover have "\<exists>s e. interval db (sr_contest x) = Some (s, e) \<and> s \<le> sr_submitted_at x \<and> sr_submitted_at x < e"
    if x: "x \<in> set (contest_submission_results (stored_results env f db))" for x
  proof (cases "sr_submission x = sj_SubmissionID f")
    case True
    from stored_identity [OF ok r x True] c show ?thesis by (auto simp: identity_matches_def)
  next
    case False
    with x ok show ?thesis by (auto simp: facts_ok_def elim!: stored_mem)
  qed
  ultimately show ?thesis by (simp add: facts_ok_def i same)
qed

lemma stored_key_nonempty:
  assumes "find_result (sj_SubmissionID f) (stored_results env f db) = Some r" and "identity_matches f r"
  shows "key_facts (sj_ContestID f) (sj_UserID f) (sj_ProblemID f) (stored_results env f db) \<noteq> []"
proof -
  have "r \<in> set (contest_submission_results (stored_results env f db))"
    using assms(1) by (auto simp: find_result_def dest: find_key)
  then have "row_fact (sj_ProblemID f) r
      \<in> set (key_facts (sj_ContestID f) (sj_UserID f) (sj_ProblemID f) (stored_results env f db))"
    using assms(2) by (auto simp: key_facts_def identity_matches_def)
  then show ?thesis by auto
qed

lemma scored_row_matches:
  "row_matches (scored_row s f env db)
     (Rebuild s (key_facts (sj_ContestID f) (sj_UserID f) (sj_ProblemID f) db))"
  by (simp add: row_matches_def scored_row_def problem_result_row_of_def)

lemma scored_mem:
  assumes "x \<in> set (contest_problem_results (scored s f env db))"
  shows "x = scored_row s f env db
    \<or> (x \<in> set (contest_problem_results db) \<and> rr_key x \<noteq> (sj_ContestID f, sj_UserID f, sj_ProblemID f))"
  using upsert_mem [OF assms [unfolded scored_def, simplified]] by auto

lemma scored_keys:
  "rr_key ` set (contest_problem_results (scored s f env db)) =
     insert (sj_ContestID f, sj_UserID f, sj_ProblemID f) (rr_key ` set (contest_problem_results db))"
proof -
  let ?row = "scored_row s f env db"
  have "map rr_key (contest_problem_results (scored s f env db)) =
    (if rr_key ?row \<in> rr_key ` set (contest_problem_results db) then map rr_key (contest_problem_results db)
     else map rr_key (contest_problem_results db) @ [rr_key ?row])"
    unfolding scored_def by (simp add: upsert_keys)
  from arg_cong [OF this, of set] show ?thesis by (auto split: if_splits)
qed

lemma projected_scores_ok:
  assumes inv: "facts_ok db" "scores_ok db"
    and r: "find_result (sj_SubmissionID f) (stored_results env f db) = Some r" "identity_matches f r"
    and c: "interval db (sj_ContestID f) = Some (s, e)"
    and same: "contest_submission_results db' = contest_submission_results (stored_results env f db)"
      "contest_problem_results db' = contest_problem_results (projected s f env db)" "contests db' = contests db"
  shows "scores_ok db'"
proof -
  let ?st = "stored_results env f db"
  have i: "interval db' j = interval db j" for j by (simp add: interval_def find_contest_def same)
  have kf: "key_facts c u p db' = key_facts c u p ?st" for c u p by (simp add: key_facts_def same)
  have st: "contest_problem_results ?st = contest_problem_results db" by (simp add: stored_results_def)
  have pr: "contest_problem_results db' = contest_problem_results (scored s f env ?st)"
    by (simp add: same projected_def)
  have "distinct (map rr_key (contest_problem_results db'))"
    using inv(2) unfolding pr scored_def scores_ok_def by (auto simp: st intro!: upsert_distinct)
  moreover have "\<exists>s e. interval db (rr_contest x) = Some (s, e)
      \<and> key_facts (rr_contest x) (rr_user x) (rr_problem x) ?st \<noteq> []
      \<and> row_matches x (Rebuild s (key_facts (rr_contest x) (rr_user x) (rr_problem x) ?st))"
    if x: "x \<in> set (contest_problem_results db')" for x
  proof (cases "x = scored_row s f env ?st")
    case True
    moreover have "rr_key x = (sj_ContestID f, sj_UserID f, sj_ProblemID f)" using True by simp
    ultimately show ?thesis
      using c stored_key_nonempty [OF r] scored_row_matches by (auto simp: rr_key_def)
  next
    case False
    with scored_mem [OF x [unfolded pr]]
    have o1: "x \<in> set (contest_problem_results db)" "rr_key x \<noteq> (sj_ContestID f, sj_UserID f, sj_ProblemID f)"
      by (auto simp: st)
    with inv(2) stored_key_facts [OF inv(1) r] show ?thesis
      by (auto simp: scores_ok_def rr_key_def)
  qed
  moreover have "(sr_contest x, sr_user x, sr_problem x) \<in> rr_key ` set (contest_problem_results db')"
    if x: "x \<in> set (contest_submission_results ?st)" for x
  proof (cases "sr_submission x = sj_SubmissionID f")
    case True
    from stored_identity [OF inv(1) r x True] show ?thesis by (simp add: pr scored_keys identity_matches_def)
  next
    case False
    with x have "x \<in> set (contest_submission_results db)" by (auto elim: stored_mem)
    with inv(2) show ?thesis by (auto simp: pr scored_keys scores_ok_def st)
  qed
  ultimately show ?thesis by (simp add: scores_ok_def i kf same(1))
qed

lemma scored_user_results:
  assumes "(c, u) \<noteq> (sj_ContestID f, sj_UserID f)"
  shows "user_problem_results c u (scored s f env db) = user_problem_results c u db"
    and "find (\<lambda>r. rr_key r = (c, u, p)) (contest_problem_results (scored s f env db))
         = find (\<lambda>r. rr_key r = (c, u, p)) (contest_problem_results db)"
proof -
  let ?row = "scored_row s f env db"
  show "user_problem_results c u (scored s f env db) = user_problem_results c u db"
    unfolding user_problem_results_def scored_def
    using assms upsert_other [of "contest_problem_results db" rr_key ?row
        "\<lambda>r. rr_contest r = c \<and> rr_user r = u" "\<lambda>_. ?row"]
    by (auto simp: rr_key_def scored_row_def problem_result_row_of_def)
  show "find (\<lambda>r. rr_key r = (c, u, p)) (contest_problem_results (scored s f env db))
         = find (\<lambda>r. rr_key r = (c, u, p)) (contest_problem_results db)"
    unfolding scored_def using assms find_upsert [of rr_key ?row "\<lambda>_. ?row" "(c, u, p)"] by auto
qed

lemma totalled_mem:
  assumes "x \<in> set (contest_user_results (totalled c u env db))"
  shows "x = new_user_result env c u db \<or> (x \<in> set (contest_user_results db) \<and> ur_key x \<noteq> (c, u))"
  using upsert_mem [OF assms [unfolded totalled_def, simplified]] by auto

lemma totalled_keys:
  "ur_key ` set (contest_user_results (totalled c u env db)) = insert (c, u) (ur_key ` set (contest_user_results db))"
proof -
  let ?row = "new_user_result env c u db"
  have "map ur_key (contest_user_results (totalled c u env db)) =
    (if ur_key ?row \<in> ur_key ` set (contest_user_results db) then map ur_key (contest_user_results db)
     else map ur_key (contest_user_results db) @ [ur_key ?row])"
    unfolding totalled_def by (simp add: upsert_keys)
  from arg_cong [OF this, of set] show ?thesis by (auto split: if_splits)
qed

lemma totalled_new: "new_user_result env c u db \<in> set (contest_user_results (totalled c u env db))"
  by (force simp: totalled_def upsert_def)

lemma projected_totals_ok:
  assumes inv: "totals_ok db"
    and same: "contest_problem_results db' = contest_problem_results (projected s f env db)"
      "contest_user_results db' =
        contest_user_results (totalled (sj_ContestID f) (sj_UserID f) env (projected s f env db))"
  shows "totals_ok db'"
proof -
  let ?c = "sj_ContestID f" and ?u = "sj_UserID f" and ?pj = "projected s f env db"
  let ?row = "new_user_result env ?c ?u ?pj"
  have up: "user_problem_results c u db' = user_problem_results c u ?pj" for c u
    by (simp add: user_problem_results_def same)
  have st: "user_problem_results c u (stored_results env f db) = user_problem_results c u db"
    "contest_problem_results (stored_results env f db) = contest_problem_results db"
    "contest_user_results ?pj = contest_user_results db" for c u
    by (simp_all add: user_problem_results_def stored_results_def projected_def scored_def)
  have "distinct (map ur_key (contest_user_results db'))"
    using inv unfolding same totalled_def totals_ok_def st by (auto simp: st intro!: upsert_distinct)
  moreover have "user_problem_results (ur_contest x) (ur_user x) ?pj \<noteq> []
      \<and> ur_solved_count x = solved_total (user_problem_results (ur_contest x) (ur_user x) ?pj)
      \<and> ur_penalty_seconds x = penalty_total (user_problem_results (ur_contest x) (ur_user x) ?pj)"
    if x: "x \<in> set (contest_user_results db')" for x
  proof (cases "x = ?row")
    case True
    then show ?thesis using scored_nonempty by (simp add: new_user_result_def projected_def)
  next
    case False
    with totalled_mem [OF x [unfolded same(2)]] have o1: "x \<in> set (contest_user_results db)" "ur_key x \<noteq> (?c, ?u)"
      by (auto simp: st)
    then show ?thesis
      using inv scored_user_results(1) [of "ur_contest x" "ur_user x" f s env "stored_results env f db"]
      by (auto simp: totals_ok_def projected_def st ur_key_def)
  qed
  moreover have "(rr_contest x, rr_user x) \<in> ur_key ` set (contest_user_results db')"
    if x: "x \<in> set (contest_problem_results db')" for x
  proof -
    from scored_mem [OF x [unfolded same(1) projected_def]] show ?thesis
      using inv unfolding same totalled_keys totals_ok_def
      by (auto simp: st scored_row_def problem_result_row_of_def)
  qed
  ultimately show ?thesis by (simp add: totals_ok_def up)
qed

lemma next_version_above:
  assumes "outbox_ok db" and "totals_ok db" and "e \<in> set (contest_cache_outbox db)"
    and "co_contest e = c" and "co_user e = u"
  shows "co_version e < next_version c u db"
proof -
  obtain x where x: "x \<in> set (contest_user_results db)" "ur_key x = (c, u)" "co_version e \<le> ur_version x"
    using assms by (auto simp: outbox_ok_def)
  have "find (\<lambda>r. ur_key r = ur_key x) (contest_user_results db) = Some x"
    using assms(2) x(1) by (intro find_key_unique) (auto simp: totals_ok_def)
  then show ?thesis using x by (simp add: next_version_def)
qed

lemma projected_outbox_ok:
  assumes inv: "outbox_ok db" "totals_ok db"
    and valid: "LeaderboardSnapshot_Validate (current_summary (sj_ContestID f) (sj_UserID f)
          (new_user_result env (sj_ContestID f) (sj_UserID f) (projected s f env db))
          (totalled (sj_ContestID f) (sj_UserID f) env (projected s f env db))) = None"
    and payload: "enc_LeaderboardSnapshot (current_summary (sj_ContestID f) (sj_UserID f)
          (new_user_result env (sj_ContestID f) (sj_UserID f) (projected s f env db))
          (totalled (sj_ContestID f) (sj_UserID f) env (projected s f env db))) = Some payload"
    and db': "db' = announced (sj_ContestID f) (sj_UserID f) env
          (next_version (sj_ContestID f) (sj_UserID f) (projected s f env db)) payload
          (totalled (sj_ContestID f) (sj_UserID f) env (projected s f env db))"
  shows "outbox_ok db'"
proof -
  let ?c = "sj_ContestID f" and ?u = "sj_UserID f" and ?pj = "projected s f env db"
  let ?v = "next_version ?c ?u ?pj" and ?t = "totalled ?c ?u env ?pj"
  let ?row = "new_user_result env ?c ?u ?pj" and ?e = "new_cache_row env ?c ?u ?v payload ?t"
  have row: "ur_contest ?row = ?c" "ur_user ?row = ?u" "ur_version ?row = ?v"
    by (simp_all add: new_user_result_def)
  have e: "co_contest ?e = ?c" "co_user ?e = ?u" "co_version ?e = ?v" "co_payload ?e = payload"
    by (simp_all add: new_cache_row_def)
  have ur: "contest_user_results ?pj = contest_user_results db" "contest_problems db' = contest_problems db"
    "contest_problem_results db' = contest_problem_results ?pj"
    "contest_user_results db' = contest_user_results ?t"
    by (simp_all add: projected_def scored_def stored_results_def db' announced_def totalled_def)
  have box: "set (contest_cache_outbox db') = insert ?e (set (contest_cache_outbox db))"
    by (simp add: db' announced_def totalled_def projected_def scored_def stored_results_def)
  have v: "next_version ?c ?u ?pj = next_version ?c ?u db" by (simp add: next_version_def ur)
  have cs: "current_summary c u x db' = current_summary c u x ?t" for c u x
    by (simp add: current_summary_def problems_in_order_def leaderboard_problem_def db' announced_def)
  have other: "current_summary c u x db' = current_summary c u x db" if "(c, u) \<noteq> (?c, ?u)" for c u x
  proof -
    have "find (\<lambda>r. rr_key r = (c, u, p)) (contest_problem_results db')
        = find (\<lambda>r. rr_key r = (c, u, p)) (contest_problem_results db)" for p
      using scored_user_results(2) [OF that] by (simp add: ur projected_def stored_results_def)
    moreover have "cp_contest y = c" if "y \<in> set (problems_in_order c db)" for y
      using that by (simp add: problems_in_order_def)
    ultimately show ?thesis
      by (auto simp: current_summary_def problems_in_order_def leaderboard_problem_def ur)
  qed
  have "\<exists>e \<in> set (contest_cache_outbox db'). announces_totals db' x e" if x: "x \<in> set (contest_user_results db')" for x
  proof (cases "x = ?row")
    case True
    then have "announces_totals db' x ?e" using payload valid by (simp add: announces_totals_def row e cs)
    then show ?thesis using box by blast
  next
    case False
    with totalled_mem [of x ?c ?u env ?pj] x have o1: "x \<in> set (contest_user_results db)" "ur_key x \<noteq> (?c, ?u)"
      by (auto simp: ur)
    then obtain y where "y \<in> set (contest_cache_outbox db)" "announces_totals db x y"
      using inv(1) by (auto simp: outbox_ok_def)
    then show ?thesis using other o1(2) box by (auto simp: announces_totals_def ur_key_def)
  qed
  moreover have "\<exists>x \<in> set (contest_user_results db'). ur_key x = (co_contest y, co_user y) \<and> co_version y \<le> ur_version x"
    if y: "y \<in> set (contest_cache_outbox db')" for y
  proof (cases "co_contest y = ?c \<and> co_user y = ?u")
    case True
    then have "co_version y \<le> ?v"
    proof (cases "y = ?e")
      case False
      then have "y \<in> set (contest_cache_outbox db)" using y box by auto
      from next_version_above [OF inv this, of ?c ?u] True v show ?thesis by simp
    qed (simp add: e(3))
    then show ?thesis
      using totalled_new [of env ?c ?u ?pj] True row_keys(4) [of env ?c ?u ?pj] by (metis ur(4) row(3))
  next
    case False
    then have "y \<in> set (contest_cache_outbox db)" using y by (auto simp: box e)
    then obtain x where x: "x \<in> set (contest_user_results db)" "ur_key x = (co_contest y, co_user y)"
      "co_version y \<le> ur_version x"
      using inv(1) by (auto simp: outbox_ok_def)
    then have "x \<in> set (contest_user_results ?t)" using False by (auto simp: totalled_def upsert_def ur image_iff)
    then show ?thesis using x by (auto simp: ur)
  qed
  ultimately show ?thesis by (simp add: outbox_ok_def)
qed

lemma store_fact_inv:
  assumes inv: "contest_inv db" and st: "store_fact s f env db = Inr db'"
    and c: "interval db (sj_ContestID f) = Some (s, e)" "s \<le> sj_SubmittedAt f" "sj_SubmittedAt f < e"
  shows "contest_inv db'"
  using st
proof (rule store_fact_Inr)
  fix r payload
  assume r: "find_result (sj_SubmissionID f) (stored_results env f db) = Some r" "identity_matches f r"
    and valid: "LeaderboardSnapshot_Validate (current_summary (sj_ContestID f) (sj_UserID f)
          (new_user_result env (sj_ContestID f) (sj_UserID f) (projected s f env db))
          (totalled (sj_ContestID f) (sj_UserID f) env (projected s f env db))) = None"
    and payload: "enc_LeaderboardSnapshot (current_summary (sj_ContestID f) (sj_UserID f)
          (new_user_result env (sj_ContestID f) (sj_UserID f) (projected s f env db))
          (totalled (sj_ContestID f) (sj_UserID f) env (projected s f env db))) = Some payload"
    and db': "db' = announced (sj_ContestID f) (sj_UserID f) env
          (next_version (sj_ContestID f) (sj_UserID f) (projected s f env db)) payload
          (totalled (sj_ContestID f) (sj_UserID f) env (projected s f env db))"
  note frame = store_fact_frame [OF st]
  from inv have i: "facts_ok db" "scores_ok db" "totals_ok db" "outbox_ok db" by (auto simp: contest_inv_def)
  show ?thesis
    unfolding contest_inv_def
    using stored_facts_ok [OF i(1) r c frame(5,1)] projected_scores_ok [OF i(1,2) r c(1) frame(5,6,1)]
      projected_totals_ok [OF i(3) frame(6,7)] projected_outbox_ok [OF i(4,3) valid payload db']
    by blast
qed

subsection \<open>Every step\<close>

lemma mark_event_inv: "contest_inv db \<Longrightarrow> contest_inv (mark_event e db)"
  by (rule contest_inv_frame) (simp_all add: interval_def find_contest_def problems_in_order_def)

lemma applyProjectionTx_inv:
  assumes "contest_inv db" and "applyProjectionTx event env db = Inr (b, db')"
  shows "contest_inv db'"
  using assms(2)
proof (cases rule: applyProjectionTx_Inr)
  case seen
  then show ?thesis using assms(1) by simp
next
  case (fresh contest)
  let ?f = "projection_fact (pe_Fact event)" and ?m = "mark_event event db"
  have inv: "contest_inv ?m" using assms(1) by (simp add: mark_event_inv)
  from fresh(4) show ?thesis
  proof (cases rule: project_fact_Inr)
    case (outdated old)
    then show ?thesis using inv by simp
  next
    case stored
    have "interval ?m (sj_ContestID ?f) = Some (ct_start_at contest, ct_end_at contest)"
      using fresh(3) by (simp add: interval_def find_contest_def)
    from store_fact_inv [OF inv stored(1) this stored(4,5)] show ?thesis .
  qed
qed

lemma backfill_noop:
  assumes "contest_inv db" and "backfillUser_tx c u env db = Inr (b, db')"
  shows "db' = db"
proof (cases "user_problem_results c u db = []")
  case True
  have no: "find (\<lambda>r. ur_key r = (c, u)) (contest_user_results db) = None"
  proof -
    have "ur_key x \<noteq> (c, u)" if "x \<in> set (contest_user_results db)" for x
      using that assms(1) True by (auto simp: contest_inv_def totals_ok_def ur_key_def)
    then show ?thesis by (auto simp: find_None_iff)
  qed
  then show ?thesis
    using assms(2) True by (auto simp: backfillUser_tx_def enqueueLeaderboard_def enqueueCurrentSummary_def stmt_def
        split: if_splits)
next
  case False
  then obtain r where "r \<in> set (contest_problem_results db)" "rr_contest r = c" "rr_user r = u"
    by (auto simp: user_problem_results_def filter_empty_conv)
  then have "\<exists>x \<in> set (contest_user_results db). ur_key x = (c, u)"
    using assms(1) by (fastforce simp: contest_inv_def totals_ok_def)
  then show ?thesis using assms(2) by (auto simp: backfillUser_tx_def)
qed

lemma contest_step_inv:
  assumes "contest_inv db" and "contest_step db db'"
  shows "contest_inv db'"
  using assms(2)
proof cases
  case (project envs event r)
  from withContestTx_preserves [OF project [unfolded ApplyProjection_def], of contest_inv] assms(1)
  show ?thesis using applyProjectionTx_inv by blast
next
  case (create env k r)
  from contest_tx_atomic [OF create [unfolded repo_Create_def]] show ?thesis
    using assms(1) create_contest_inv by blast
next
  case (update envs env2 k r)
  then obtain r' where "db' = db \<or> withContestTx envs (update_contest_tx k) db = (r', db')"
    by (auto simp: repo_Update_def split: if_splits prod.splits sum.splits)
  then show ?thesis
    using withContestTx_preserves [of envs "update_contest_tx k" db r' db' contest_inv] assms(1)
      update_contest_inv by blast
next
  case (archive envs env2 i r)
  then obtain r' where "withContestTx envs (archive_tx i) db = (r', db')"
    by (auto simp: repo_Archive_def split: prod.splits sum.splits)
  then show ?thesis
    using withContestTx_preserves [of envs "archive_tx i" db r' db' contest_inv] assms(1) archive_inv by blast
next
  case (join envs c u r)
  from withContestTx_preserves [OF join [unfolded repo_Join_def], of contest_inv] assms(1) show ?thesis
    using join_inv by blast
next
  case (backfill c u env r)
  from contest_tx_atomic [OF backfill [unfolded backfillUser_def]] show ?thesis
    using assms(1) backfill_noop by blast
qed

lemma empty_contest_inv: "contest_inv empty_contest_db"
  by (simp add: contest_inv_def facts_ok_def scores_ok_def totals_ok_def outbox_ok_def empty_contest_db_def)

lemma contest_reach_inv:
  assumes "contest_reach db0 db" and "contest_inv db0"
  shows "contest_inv db"
  using assms by (induction rule: contest_reach.induct) (auto intro: contest_step_inv)

end
