(* ===== verification/Contest_Props.thy ===== *)
theory Contest_Props
  imports Contest_Inv
begin

text \<open>
  The properties of the contest store: the leaderboard as a function of the stored facts, redelivery and
  reordering of events, the phases of a contest, and the update token.
\<close>

section \<open>Definitions\<close>

subsection \<open>The abstract store of facts\<close>

text \<open>
  What the projection means, without tables, transactions and retries: a map from submissions to their
  latest fact. An invalidation is final, otherwise the fact judged later wins.
\<close>

definition row_view :: "submission_result_row \<Rightarrow> SubmissionFact" where
  "row_view r = \<lparr>sj_SubmissionID = sr_submission r, sj_ContestID = sr_contest r, sj_UserID = sr_user r,
     sj_ProblemID = sr_problem r, sj_Verdict = sr_verdict r, sj_SubmittedAt = sr_submitted_at r,
     sj_JudgedAt = sr_judged_at r, sf_Invalidated = sr_invalidated r\<rparr>"

definition fact_view :: "contest_db \<Rightarrow> int64 \<Rightarrow> SubmissionFact option" where
  "fact_view db i = map_option row_view (find_result i db)"

definition absorb :: "SubmissionFact \<Rightarrow> (int64 \<Rightarrow> SubmissionFact option) \<Rightarrow> int64 \<Rightarrow> SubmissionFact option" where
  "absorb f m =
     (case m (sj_SubmissionID f) of
        None \<Rightarrow> m(sj_SubmissionID f \<mapsto> f)
      | Some g \<Rightarrow>
          (if sf_Invalidated g \<or> (\<not> sf_Invalidated f \<and> \<not> sj_JudgedAt g < sj_JudgedAt f) then m
           else m(sj_SubmissionID f \<mapsto> f)))"

definition commuting :: "SubmissionFact \<Rightarrow> SubmissionFact \<Rightarrow> bool" where
  \<comment> \<open>facts whose order does not matter: of different submissions, or judged at different times, or
    one of them an invalidation\<close>
  "commuting f g \<longleftrightarrow> f = g \<or> sj_SubmissionID f \<noteq> sj_SubmissionID g
     \<or> (if sf_Invalidated f then \<not> sf_Invalidated g
        else sf_Invalidated g \<or> sj_JudgedAt f \<noteq> sj_JudgedAt g)"

fun project_all :: "((nat \<Rightarrow> attempt_env) \<times> ProjectionEvent) list \<Rightarrow> contest_db \<Rightarrow> contest_db option" where
  \<comment> \<open>a sequence of accepted deliveries\<close>
  "project_all [] db = Some db"
| "project_all ((envs, event) # xs) db =
     (case ApplyProjection envs event db of (Inr _, db') \<Rightarrow> project_all xs db' | (Inl _, _) \<Rightarrow> None)"

definition stored_key :: "ProjectionEvent \<Rightarrow> string" where
  "stored_key event = take 36 (pe_EventID event)"

definition fact_of :: "ProjectionEvent \<Rightarrow> SubmissionFact" where
  "fact_of event = projection_fact (pe_Fact event)"

definition user_facts :: "int64 \<Rightarrow> int64 \<Rightarrow> int64 \<Rightarrow> contest_db \<Rightarrow> SubmissionFact list" where
  \<comment> \<open>the facts stored for a user on a problem, in table order\<close>
  "user_facts c u p db = map (row_fact p)
     (filter (\<lambda>r. sr_contest r = c \<and> sr_user r = u \<and> sr_problem r = p) (contest_submission_results db))"

subsection \<open>A contest with one accepted submission\<close>

definition demo_contest :: Contest where
  "demo_contest = \<lparr>bk_ID = 0, bk_Title = ''c'', bk_Status = CS_DRAFT, bk_StartAt = 5000000000,
     bk_EndAt = 9000000000, bk_CreatedBy = 1, bk_CreatedAt = 0, bk_UpdatedAt = 0,
     bk_Problems = [\<lparr>bp_ProblemID = 3, bp_SortOrder = 1, bp_Score = 0, bp_Title = []\<rparr>], bk_Joined = False\<rparr>"

definition demo_contest_judged :: "string \<Rightarrow> ProjectionEvent" where
  "demo_contest_judged i = \<lparr>pe_EventID = i, pe_CausationID = [], pe_TraceParent = [], pe_TraceState = [],
     pe_Fact = \<lparr>sj_SubmissionID = 11, sj_ContestID = 1, sj_UserID = 2, sj_ProblemID = 3,
       sj_Verdict = ''AC'', sj_SubmittedAt = 6000000000, sj_JudgedAt = 6500000000, sf_Invalidated = False\<rparr>\<rparr>"

definition demo_contest_created :: contest_db where
  "demo_contest_created = snd (repo_Create (calm_contest 1000000000 0) demo_contest empty_contest_db)"

definition demo_contest_joined :: contest_db where
  "demo_contest_joined = snd (repo_Join (calm_contest 2000000000) 1 2 demo_contest_created)"

definition demo_contest_projected :: contest_db where
  "demo_contest_projected = snd (ApplyProjection (calm_contest 7000000000) (demo_contest_judged ''e'') demo_contest_joined)"

section \<open>Lemmas\<close>

subsection \<open>The refinement\<close>

lemma absorb_commute:
  assumes "commuting f g"
  shows "absorb f (absorb g m) = absorb g (absorb f m)"
  using assms
  by (cases "m (sj_SubmissionID f)"; cases "m (sj_SubmissionID g)")
    (auto simp: absorb_def commuting_def fun_upd_twist)

lemma store_fact_view:
  assumes st: "store_fact s f env db = Inr db'"
    and old: "case find_result (sj_SubmissionID f) db of None \<Rightarrow> True
      | Some old \<Rightarrow> identity_matches f old \<and> \<not> outdated f old"
  shows "fact_view db' = absorb f (fact_view db)"
proof -
  have "find_result i db' = (if i = sj_SubmissionID f
      then Some (case find_result i db of None \<Rightarrow> fact_row env f | Some r \<Rightarrow> update_fact_row env f r)
      else find_result i db)" for i
    using find_upsert [of sr_submission "fact_row env f" "update_fact_row env f" i "contest_submission_results db"]
    by (simp add: find_result_def store_fact_frame(5) [OF st] stored_results_def)
  moreover have "row_view (fact_row env f) = f" by (simp add: row_view_def fact_row_def)
  moreover have "row_view (update_fact_row env f r) = f"
    if "find_result (sj_SubmissionID f) db = Some r" "identity_matches f r" for r
    using that by (auto simp: row_view_def update_fact_row_def identity_matches_def find_result_def dest!: find_key)
  ultimately show ?thesis
    using old
    by (auto simp: fact_view_def absorb_def fun_eq_iff row_view_def outdated_def split: option.splits)
qed

lemma applyProjectionTx_view:
  assumes "applyProjectionTx event env db = Inr (b, db')" and "stored_key event \<notin> set (contest_processed_events db)"
  shows "fact_view db' = absorb (fact_of event) (fact_view db)"
  using assms(1)
proof (cases rule: applyProjectionTx_Inr)
  case seen
  then show ?thesis using assms(2) by (simp add: stored_key_def)
next
  case (fresh contest)
  have m: "fact_view (mark_event event db) = fact_view db" by (simp add: fact_view_def find_result_def fun_eq_iff)
  from fresh(4) show ?thesis
  proof (cases rule: project_fact_Inr)
    case (outdated old)
    then show ?thesis
      by (auto simp: m absorb_def fact_of_def fact_view_def find_result_def outdated_def row_view_def)
  next
    case stored
    from store_fact_view [OF stored(1) stored(6)] show ?thesis by (simp add: m fact_of_def)
  qed
qed

lemma ApplyProjection_view:
  assumes "ApplyProjection envs event db = (Inr b, db')" and new: "stored_key event \<notin> set (contest_processed_events db)"
  shows "fact_view db' = absorb (fact_of event) (fact_view db)"
    and "set (contest_processed_events db') = insert (stored_key event) (set (contest_processed_events db))"
proof -
  let ?R = "\<lambda>a b. b = a \<or> (stored_key event \<notin> set (contest_processed_events a)
      \<and> fact_view b = absorb (fact_of event) (fact_view a)
      \<and> set (contest_processed_events b) = insert (stored_key event) (set (contest_processed_events a)))"
  have "?R db db'"
  proof (rule withContestTx_rel [OF assms(1) [unfolded ApplyProjection_def], of ?R])
    fix i s1 a s'
    assume t: "applyProjectionTx event (envs i) s1 = Inr (a, s')"
    then show "?R s1 s'"
      using applyProjectionTx_view [OF t] applyProjectionTx_frame(3) [OF t]
      by (cases "stored_key event \<in> set (contest_processed_events s1)")
        (auto simp: stored_key_def elim: applyProjectionTx_Inr)
  qed auto
  moreover have "db' \<noteq> db"
    using ApplyProjection_records [OF assms(1)] new by (auto simp: projection_handled_def stored_key_def)
  ultimately show "fact_view db' = absorb (fact_of event) (fact_view db)"
    "set (contest_processed_events db') = insert (stored_key event) (set (contest_processed_events db))"
    by auto
qed

lemma project_all_view:
  assumes "project_all xs db = Some db'" and "distinct (map (\<lambda>x. stored_key (snd x)) xs)"
    and "\<forall>x \<in> set xs. stored_key (snd x) \<notin> set (contest_processed_events db)"
  shows "fact_view db' = fold absorb (map (\<lambda>x. fact_of (snd x)) xs) (fact_view db)"
  using assms
proof (induction xs db rule: project_all.induct)
  case (2 envs event xs db)
  from "2.prems"(1) obtain b db1 where a: "ApplyProjection envs event db = (Inr b, db1)"
    and rest: "project_all xs db1 = Some db'"
    by (auto split: prod.splits sum.splits)
  note v = ApplyProjection_view [OF a]
  have "fact_view db' = fold absorb (map (\<lambda>x. fact_of (snd x)) xs) (fact_view db1)"
    by (rule "2.IH" [OF a [symmetric] refl rest]) (use "2.prems" v(2) in \<open>auto simp: image_iff\<close>)
  then show ?case using v(1) "2.prems" by simp
qed simp

subsection \<open>Scores\<close>

lemma key_facts_perm: "key_facts c u p db = sort_facts (user_facts c u p db)"
  by (simp add: key_facts_def user_facts_def)

lemma user_facts_distinct:
  "distinct (map sr_submission (contest_submission_results db)) \<Longrightarrow>
    distinct (map sj_SubmissionID (user_facts c u p db))"
  by (auto simp: user_facts_def row_fact_def comp_def intro: distinct_map_filter)

lemma score_is_acm:
  assumes "facts_ok db" and "key_facts c u p db \<noteq> []" and "interval db c = Some (s, e)"
    and "int (length (contest_submission_results db)) \<le> max_int32" and "e - s \<le> max_int64"
  shows "Rebuild s (key_facts c u p db) = acm_result s p (user_facts c u p db)"
proof -
  have d: "distinct (map sj_SubmissionID (user_facts c u p db))"
    using assms(1) user_facts_distinct by (auto simp: facts_ok_def)
  have "Rebuild s (key_facts c u p db) = Rebuild s (user_facts c u p db)"
    unfolding Rebuild_def key_facts_perm using sort_facts_perm [OF d mset_sort_facts] by simp
  also have "\<dots> = acm_result s p (user_facts c u p db)"
  proof (rule Rebuild_acm [OF d])
    show "user_facts c u p db \<noteq> []" using assms(2) by (auto simp: key_facts_perm sort_facts_def)
    have "length (user_facts c u p db) \<le> length (contest_submission_results db)"
      by (simp add: user_facts_def)
    then show "int (length (user_facts c u p db)) \<le> max_int32" using assms(4) by linarith
    show "\<forall>f \<in> set (user_facts c u p db). sj_ProblemID f = p \<and> s \<le> sj_SubmittedAt f
           \<and> sj_SubmittedAt f - s \<le> max_int64"
      using assms(1,3,5) by (fastforce simp: facts_ok_def user_facts_def row_fact_def)
  qed
  finally show ?thesis .
qed

subsection \<open>Tokens\<close>

lemma withContestTx_refused:
  assumes "withContestTx envs body s = (r, s')" and "\<And>i x. body (envs i) s \<noteq> Inr x"
  shows "s' = s \<and> (\<exists>e. r = Inl e)"
proof -
  have once: "contest_tx (envs i) (body (envs i)) s = (x, s1) \<Longrightarrow> s1 = s \<and> (\<exists>e. x = Inl e)" for i x s1
    using assms(2) [of i] by (auto simp: contest_tx_def run_tx_def split: if_splits sum.splits)
  have "tx_attempts n k envs e body s = (r, s') \<Longrightarrow> s' = s \<and> (\<exists>e. r = Inl e)" for n k e
  proof (induction n arbitrary: k e)
    case (Suc n)
    obtain x where t: "contest_tx (envs k) (body (envs k)) s = (Inl x, s)"
      using once by (metis surj_pair)
    from Suc show ?case by (auto simp: Let_def t split: if_splits)
  qed auto
  with assms(1) show ?thesis unfolding withContestTx_def by blast
qed

lemma next_token_later: "ct_updated_at r < next_token env r"
  by (simp add: next_token_def Millisecond_def)

lemma update_contest_row:
  assumes "update_contest_tx k env db = Inr (x, db')"
  obtains r r' where "find_contest (bk_ID k) db = Some r" and "ct_updated_at r = bk_UpdatedAt k"
    and "ct_status r = ''draft''" and "utc_timestamp3 env < ct_start_at r"
    and "find_contest (bk_ID k) db' = Some r'" and "ct_updated_at r < ct_updated_at r'"
    and "\<And>i. i \<noteq> bk_ID k \<Longrightarrow> find_contest i db' = find_contest i db"
proof -
  define g where "g = (\<lambda>x. if ct_id x = bk_ID k
     then x\<lparr>ct_title := bk_Title k, ct_start_at := db_ms (bk_StartAt k), ct_end_at := db_ms (bk_EndAt k),
            ct_updated_at := next_token env x\<rparr> else x)"
  from assms obtain r where r: "find_contest (bk_ID k) db = Some r" "ct_updated_at r = bk_UpdatedAt k"
    "ct_status r = ''draft''" "utc_timestamp3 env < ct_start_at r"
    and rp: "replaceProblems (bk_ID k) (bk_Problems k) env (db\<lparr>contests := map g (contests db)\<rparr>) = Inr db'"
    by (auto simp: update_contest_tx_def Let_def g_def split: option.splits)
  have cs: "contests db' = map g (contests db)" using replaceProblems_Inr(2) [OF rp] by auto
  have f: "find_contest i db' = map_option g (find_contest i db)" for i
    by (simp add: find_contest_def cs find_contest_map g_def)
  have "ct_id r = bk_ID k" using r(1) by (auto simp: find_contest_def dest: find_key)
  then have "ct_updated_at r < ct_updated_at (g r)" by (simp add: g_def next_token_later)
  moreover have "find_contest i db' = find_contest i db" if "i \<noteq> bk_ID k" for i
    using that f [of i] by (cases "find_contest i db") (auto simp: find_contest_def g_def dest: find_key)
  ultimately show ?thesis using that [OF r, of "g r"] f r(1) by simp
qed

definition token_le :: "contest_db \<Rightarrow> contest_db \<Rightarrow> bool" where
  "token_le db db' \<longleftrightarrow> (\<forall>i r. find_contest i db = Some r \<longrightarrow>
     (\<exists>r'. find_contest i db' = Some r' \<and> ct_updated_at r \<le> ct_updated_at r'))"

lemma token_le_refl: "token_le db db"
  by (simp add: token_le_def)

lemma token_le_trans: "token_le a b \<Longrightarrow> token_le b c \<Longrightarrow> token_le a c"
  unfolding token_le_def by (meson order_trans)

lemma token_le_same: "contests db' = contests db \<Longrightarrow> token_le db db'"
  by (simp add: token_le_def find_contest_def)

lemma update_token_le: "update_contest_tx k env db = Inr (x, db') \<Longrightarrow> token_le db db'"
  unfolding token_le_def by (erule update_contest_row) (metis less_imp_le option.inject order_refl)

lemma archive_token_le:
  assumes "archive_tx i env db = Inr (x, db')"
  shows "token_le db db'"
proof -
  define g where "g = (\<lambda>x. if ct_id x = i then x\<lparr>ct_status := ''archived'', ct_updated_at := next_token env x\<rparr> else x)"
  have "db' = db\<lparr>contests := map g (contests db)\<rparr>"
    using assms by (auto simp: archive_tx_def g_def split: option.splits)
  then have "find_contest j db' = map_option g (find_contest j db)" for j
    by (simp add: find_contest_def find_contest_map g_def)
  moreover have "ct_updated_at r \<le> ct_updated_at (g r)" for r
    using next_token_later [of r env] by (simp add: g_def)
  ultimately show ?thesis by (auto simp: token_le_def)
qed

lemma create_token_le:
  assumes "create_contest_tx k env db = Inr (x, db')"
  shows "token_le db db'"
proof -
  let ?row = "new_contest_row env k db"
  from assms have "replaceProblems (ct_id ?row) (bk_Problems k) env
      (db\<lparr>contests := contests db @ [?row], next_contest_id := ct_id ?row + 1\<rparr>) = Inr db'"
    by (auto simp: create_contest_tx_def Let_def)
  from replaceProblems_Inr(2) [OF this] have cs: "contests db' = contests db @ [?row]" by auto
  have "find_contest i db' = Some r" if "find_contest i db = Some r" for i r
    using that find_before [of "\<lambda>c. ct_id c = i" "contests db" "[?row]"] by (simp add: find_contest_def cs)
  then show ?thesis by (auto simp: token_le_def)
qed

lemma join_contests: "join_tx c u env db = Inr (x, db') \<Longrightarrow> contests db' = contests db"
  by (auto simp: join_tx_def Let_def split: option.splits if_splits)

lemma enqueueLeaderboard_contests: "enqueueLeaderboard c u env db = Inr db' \<Longrightarrow> contests db' = contests db"
  by (auto simp: enqueueLeaderboard_def Let_def announced_def split: if_splits elim!: enqueueCurrentSummary_Inr)

lemma backfill_contests: "backfillUser_tx c u env db = Inr (x, db') \<Longrightarrow> contests db' = contests db"
  by (auto simp: backfillUser_tx_def dest: enqueueLeaderboard_contests split: if_splits)

lemma step_token_le:
  assumes "contest_step db db'"
  shows "token_le db db'"
  using assms
proof cases
  case (project envs event r)
  then show ?thesis using ApplyProjection_keeps token_le_same by blast
next
  case (create env k r)
  then show ?thesis
    using contest_tx_atomic [OF create [unfolded repo_Create_def]] create_token_le token_le_refl by blast
next
  case (update envs env2 k r)
  then obtain r' where "db' = db \<or> withContestTx envs (update_contest_tx k) db = (r', db')"
    by (auto simp: repo_Update_def split: if_splits prod.splits sum.splits)
  then show ?thesis
    using withContestTx_rel [of envs "update_contest_tx k" db r' db' token_le] token_le_refl token_le_trans
      update_token_le by blast
next
  case (archive envs env2 i r)
  then obtain r' where "withContestTx envs (archive_tx i) db = (r', db')"
    by (auto simp: repo_Archive_def split: prod.splits sum.splits)
  then show ?thesis
    using withContestTx_rel [of envs "archive_tx i" db r' db' token_le] token_le_refl token_le_trans
      archive_token_le by blast
next
  case (join envs c u r)
  from withContestTx_rel [OF join [unfolded repo_Join_def], of token_le] show ?thesis
    using token_le_refl token_le_trans join_contests token_le_same by blast
next
  case (backfill c u env r)
  from contest_tx_atomic [OF backfill [unfolded backfillUser_def]] show ?thesis
    using backfill_contests token_le_same token_le_refl by blast
qed

lemma reach_token_le: "contest_reach db0 db \<Longrightarrow> token_le db0 db"
  by (induction rule: contest_reach.induct) (auto intro: token_le_refl token_le_trans step_token_le)

lemma demo_contest_reach: "contest_reach empty_contest_db demo_contest_joined" "contest_reach empty_contest_db demo_contest_projected"
proof -
  have "contest_reach empty_contest_db demo_contest_created"
    unfolding demo_contest_created_def by (rule contest_reach.more [OF contest_reach.start]) (rule contest_step.create, rule prod.collapse [symmetric])
  then show j: "contest_reach empty_contest_db demo_contest_joined"
    unfolding demo_contest_joined_def by (rule contest_reach.more) (rule contest_step.join, rule prod.collapse [symmetric])
  then show "contest_reach empty_contest_db demo_contest_projected"
    unfolding demo_contest_projected_def by (rule contest_reach.more) (rule contest_step.project, rule prod.collapse [symmetric])
qed

lemma demo_contest_accepted:
  "ApplyProjection (calm_contest 7000000000) (demo_contest_judged ''e'') demo_contest_joined = (Inr True, demo_contest_projected)"
proof (rule prod_eqI)
  show "fst (ApplyProjection (calm_contest 7000000000) (demo_contest_judged ''e'') demo_contest_joined) = fst (Inr True, demo_contest_projected)"
    by code_simp
qed (simp add: demo_contest_projected_def)

section \<open>Properties\<close>

text \<open>
  C23. The leaderboard is a function of the facts. In every state the service reaches from empty tables,
  by any sequence of projections, contest edits, registrations and backfills, with failing statements,
  retried deadlocks and lost commits: each score is the ACM rule applied to the facts stored for that user
  and problem; each fact and each score is counted; the totals of a user are the sums of their scores;
  and the cache outbox holds a snapshot with exactly the current totals and their version.
\<close>

theorem leaderboard_matches_facts:
  assumes "contest_reach empty_contest_db db"
    and "int (length (contest_submission_results db)) \<le> max_int32"
    and "\<forall>i s e. interval db i = Some (s, e) \<longrightarrow> e - s \<le> max_int64"
  shows "(\<forall>r \<in> set (contest_problem_results db). \<exists>s e. interval db (rr_contest r) = Some (s, e)
        \<and> row_matches r (acm_result s (rr_problem r) (user_facts (rr_contest r) (rr_user r) (rr_problem r) db)))
    \<and> (\<forall>f \<in> set (contest_submission_results db).
        (sr_contest f, sr_user f, sr_problem f) \<in> rr_key ` set (contest_problem_results db))
    \<and> (\<forall>r \<in> set (contest_problem_results db).
        (rr_contest r, rr_user r) \<in> ur_key ` set (contest_user_results db))
    \<and> (\<forall>u \<in> set (contest_user_results db).
        ur_solved_count u = solved_total (user_problem_results (ur_contest u) (ur_user u) db)
        \<and> ur_penalty_seconds u = penalty_total (user_problem_results (ur_contest u) (ur_user u) db)
        \<and> (\<exists>e \<in> set (contest_cache_outbox db). announces_totals db u e))"
proof -
  have inv: "facts_ok db" "scores_ok db" "totals_ok db" "outbox_ok db"
    using contest_reach_inv [OF assms(1) empty_contest_inv] by (auto simp: contest_inv_def)
  have "\<exists>s e. interval db (rr_contest r) = Some (s, e)
      \<and> row_matches r (acm_result s (rr_problem r) (user_facts (rr_contest r) (rr_user r) (rr_problem r) db))"
    if "r \<in> set (contest_problem_results db)" for r
  proof -
    from inv(2) that obtain s e where se: "interval db (rr_contest r) = Some (s, e)"
      and k: "key_facts (rr_contest r) (rr_user r) (rr_problem r) db \<noteq> []"
      and m: "row_matches r (Rebuild s (key_facts (rr_contest r) (rr_user r) (rr_problem r) db))"
      by (fastforce simp: scores_ok_def)
    then show ?thesis using score_is_acm [OF inv(1) k se assms(2)] assms(3) by auto
  qed
  then show ?thesis using inv(2-4) by (simp add: scores_ok_def totals_ok_def outbox_ok_def)
qed

theorem leaderboard_matches_facts_witness:
  "\<exists>u \<in> set (contest_user_results demo_contest_projected). ur_solved_count u = 1 \<and> ur_penalty_seconds u = 1
     \<and> (\<exists>e \<in> set (contest_cache_outbox demo_contest_projected). announces_totals demo_contest_projected u e)"
proof -
  have l: "int (length (contest_submission_results demo_contest_projected)) \<le> max_int32" by code_simp
  have c: "contests demo_contest_projected = [\<lparr>ct_id = 1, ct_title = ''c'', ct_status = ''draft'',
     ct_start_at = 5000000000, ct_end_at = 9000000000, ct_created_by = 1, ct_created_at = 1000000000,
     ct_updated_at = 1000000000\<rparr>]"
    by code_simp
  have i: "\<forall>i s e. interval demo_contest_projected i = Some (s, e) \<longrightarrow> e - s \<le> max_int64"
    by (auto simp: interval_def find_contest_def c max_int64_def split: if_splits)
  have "\<exists>u \<in> set (contest_user_results demo_contest_projected). ur_solved_count u = 1 \<and> ur_penalty_seconds u = 1"
    by code_simp
  then show ?thesis using leaderboard_matches_facts [OF demo_contest_reach(2) l i] by blast
qed



text \<open>
  C24. The projection refines a map from submissions to their latest fact. A sequence of new events
  that the store accepts takes the facts it holds to the facts the abstract map absorbs, one by one, so
  retries, lost commits and outdated events leave no trace of their own; and when the events commute
  (about different submissions, judged at different times, or one an invalidation) every order of
  delivery leads to the same facts.
\<close>

theorem projection_refines_latest_facts:
  assumes "project_all xs db = Some db'" and "distinct (map (\<lambda>x. stored_key (snd x)) xs)"
    and "\<forall>x \<in> set xs. stored_key (snd x) \<notin> set (contest_processed_events db)"
  shows "fact_view db' = fold absorb (map (\<lambda>x. fact_of (snd x)) xs) (fact_view db)
    \<and> (\<forall>ys db''. project_all ys db = Some db'' \<and> mset (map snd ys) = mset (map snd xs)
         \<and> (\<forall>x \<in> set xs. \<forall>y \<in> set xs. commuting (fact_of (snd x)) (fact_of (snd y)))
         \<longrightarrow> fact_view db'' = fact_view db')"
proof (intro conjI allI impI)
  show v: "fact_view db' = fold absorb (map (\<lambda>x. fact_of (snd x)) xs) (fact_view db)"
    by (rule project_all_view [OF assms])
  fix ys db''
  assume h: "project_all ys db = Some db'' \<and> mset (map snd ys) = mset (map snd xs)
         \<and> (\<forall>x \<in> set xs. \<forall>y \<in> set xs. commuting (fact_of (snd x)) (fact_of (snd y)))"
  then have m: "mset (map snd ys) = mset (map snd xs)" by simp
  have s: "snd ` set ys = snd ` set xs" using m by (metis list.set_map set_mset_mset)
  have "mset (map (\<lambda>x. stored_key (snd x)) ys) = mset (map (\<lambda>x. stored_key (snd x)) xs)"
    using arg_cong [OF m, of "image_mset stored_key"] by (simp add: image_mset.compositionality comp_def)
  then have d: "distinct (map (\<lambda>x. stored_key (snd x)) ys)" using assms(2) by (metis mset_eq_imp_distinct_iff)
  have n: "\<forall>y \<in> set ys. stored_key (snd y) \<notin> set (contest_processed_events db)"
    using assms(3) s by (metis (no_types, lifting) image_iff)
  have "fold absorb (map (\<lambda>x. fact_of (snd x)) ys) = fold absorb (map (\<lambda>x. fact_of (snd x)) xs)"
  proof (rule fold_multiset_equiv)
    show "mset (map (\<lambda>x. fact_of (snd x)) ys) = mset (map (\<lambda>x. fact_of (snd x)) xs)"
      using arg_cong [OF m, of "image_mset fact_of"] by (simp add: image_mset.compositionality comp_def)
    fix f g
    assume "f \<in> set (map (\<lambda>x. fact_of (snd x)) ys)" "g \<in> set (map (\<lambda>x. fact_of (snd x)) ys)"
    then have "f \<in> fact_of ` snd ` set ys" "g \<in> fact_of ` snd ` set ys" by (simp_all add: image_image)
    then obtain a b where ab: "f = fact_of a" "g = fact_of b" "a \<in> snd ` set xs" "b \<in> snd ` set xs"
      unfolding s by blast
    then have "commuting f g" using h by auto
    then show "absorb f \<circ> absorb g = absorb g \<circ> absorb f" using absorb_commute by (auto simp: fun_eq_iff)
  qed
  then show "fact_view db'' = fact_view db'" using project_all_view [OF _ d n] h v by simp
qed

theorem projection_refines_latest_facts_witness:
  "project_all [(calm_contest 7000000000, demo_contest_judged ''e'')] demo_contest_joined = Some demo_contest_projected
   \<and> fact_view demo_contest_projected = absorb (fact_of (demo_contest_judged ''e'')) (fact_view demo_contest_joined)"
proof -
  have p: "project_all [(calm_contest 7000000000, demo_contest_judged ''e'')] demo_contest_joined = Some demo_contest_projected"
    by (simp add: demo_contest_accepted)
  have n: "contest_processed_events demo_contest_joined = []" by code_simp
  show ?thesis using p projection_refines_latest_facts [OF p] n by simp
qed

end
