(* ===== verification/Contest_Usecase.thy ===== *)
theory Contest_Usecase
  imports Contest_Props
begin

text \<open>
  The use cases of the contest service, \<open>src/services/contest/internal/biz/contest.go\<close>, wired as in
  production: the repository is the MySQL \<open>Repository\<close>, which provides the clock, the participant
  queries and \<open>AuthorizeSubmission\<close>, so the branches for repositories without them are not taken. The
  calls to the judge service (\<open>CreateSubmission\<close>) and to the problem catalogue (\<open>Titles\<close>) are
  parameters.
\<close>

section \<open>Definitions\<close>

record ContestActor =
  ca_UserId :: int64
  ca_Roles :: "string list"

record Timestamp =
  ts_Seconds :: int64
  ts_Nanos :: int32

record ProblemUpdate =
  pu_ProblemId :: int64
  pu_SortOrder :: int32
  pu_Score :: int32

record ContestUpdate =
  cu_Title :: string
  cu_StartAt :: "Timestamp option"
  cu_EndAt :: "Timestamp option"
  cu_Problems :: "ProblemUpdate option list"
  cu_ExpectedUpdatedAt :: "Timestamp option"

record ContestSubmissionRequest =
  cq_ContestId :: int64
  cq_ProblemId :: int64
  cq_Language :: string
  cq_SourceCode :: string
  cq_IdempotencyKey :: string

record CreateSubmissionRequest =
  cs_ProblemId :: int64
  cs_ContestId :: int64
  cs_Language :: string
  cs_SourceCode :: string
  cs_IdempotencyKey :: string
  cs_ContestStartAt :: time
  cs_ContestEndAt :: time

record usecase_env =
  e_get :: attempt_env \<comment> \<open>the first read of the contest\<close>
  e_now :: attempt_env \<comment> \<open>the clock query\<close>
  e_tx :: "nat \<Rightarrow> attempt_env" \<comment> \<open>the attempts of the write\<close>
  e_after :: attempt_env \<comment> \<open>the read after the write\<close>

definition AsTime :: "Timestamp \<Rightarrow> time" where
  "AsTime ts = ts_Seconds ts * 1000000000 + ts_Nanos ts"

definition CheckValid :: "Timestamp \<Rightarrow> bool" where
  "CheckValid ts \<longleftrightarrow> - 62135596800 \<le> ts_Seconds ts \<and> ts_Seconds ts \<le> 253402300799
     \<and> 0 \<le> ts_Nanos ts \<and> ts_Nanos ts < 1000000000"

definition contest_isAdmin :: "ContestActor option \<Rightarrow> bool" where
  "contest_isAdmin actor =
     (case actor of None \<Rightarrow> False
      | Some a \<Rightarrow> \<exists>role \<in> set (ca_Roles a). equal_fold (trim_space role) ''admin'')"

definition actor_missing :: "ContestActor option \<Rightarrow> bool" where
  "actor_missing actor = (case actor of None \<Rightarrow> True | Some a \<Rightarrow> ca_UserId a \<le> 0)"

definition actor_id :: "ContestActor option \<Rightarrow> int64" where
  "actor_id actor = (case actor of None \<Rightarrow> 0 | Some a \<Rightarrow> ca_UserId a)"

definition requireAdmin :: "ContestActor option \<Rightarrow> contest_error option" where
  "requireAdmin actor =
     (if actor_missing actor then Some (StatusErr GC_Unauthenticated ''authenticated actor is required'')
      else if \<not> contest_isAdmin actor then Some (StatusErr GC_PermissionDenied ''admin role required'')
      else None)"

fun normalize_problems ::
  "int64 set \<Rightarrow> ProblemUpdate option list \<Rightarrow> contest_error + ContestProblem list" where
  "normalize_problems seen [] = Inr []"
| "normalize_problems seen (None # ps) = Inl (StatusErr GC_InvalidArgument ''invalid contest problem'')"
| "normalize_problems seen (Some p # ps) =
     (if pu_ProblemId p \<le> 0 \<or> pu_SortOrder p \<le> 0 \<or> pu_Score p < 0
      then Inl (StatusErr GC_InvalidArgument ''invalid contest problem'')
      else if pu_ProblemId p \<in> seen then Inl (StatusErr GC_InvalidArgument ''duplicate contest problem'')
      else bindE (normalize_problems (insert (pu_ProblemId p) seen) ps) (\<lambda>rest.
             Inr (\<lparr>bp_ProblemID = pu_ProblemId p, bp_SortOrder = pu_SortOrder p,
                   bp_Score = pu_Score p, bp_Title = []\<rparr> # rest)))"

definition normalizeUpdate :: "ContestUpdate option \<Rightarrow> contest_error + time \<times> time \<times> ContestProblem list" where
  "normalizeUpdate input =
     (let incomplete = Inl (StatusErr GC_InvalidArgument ''complete contest fields are required'')
      in case input of None \<Rightarrow> incomplete
         | Some u \<Rightarrow>
             (if trim_space (cu_Title u) = [] then incomplete
              else case (cu_StartAt u, cu_EndAt u) of
                     (Some s, Some e) \<Rightarrow>
                       (let start = time_truncate Millisecond (AsTime s);
                            end_at = time_truncate Millisecond (AsTime e)
                        in guardE (\<not> start < end_at)
                             (StatusErr GC_InvalidArgument ''start_at must be before end_at'')
                             (bindE (normalize_problems {} (cu_Problems u)) (\<lambda>problems.
                                guardE (problems = [])
                                  (StatusErr GC_InvalidArgument ''contest must contain at least one problem'')
                                  (Inr (start, end_at, problems)))))
                   | _ \<Rightarrow> incomplete))"

definition uc_Join ::
  "usecase_env \<Rightarrow> ContestActor option \<Rightarrow> int64 \<Rightarrow> contest_db \<Rightarrow> (contest_error + time) \<times> contest_db" where
  "uc_Join e actor c db =
     (if actor_missing actor then (Inl (StatusErr GC_Unauthenticated ''authenticated actor is required''), db)
      else if c \<le> 0 then (Inl (StatusErr GC_InvalidArgument ''invalid contest id''), db)
      else case bindE (repo_Get (e_get e) c db) (\<lambda>k. bindE (CurrentTime (e_now e)) (\<lambda>now.
                  guardE (bk_Status k = CS_ARCHIVED \<or> \<not> now < bk_StartAt k \<or> \<not> now < bk_EndAt k
                          \<or> lifecycle (bk_StartAt k) (bk_EndAt k) (bk_Status k) now \<noteq> CS_DRAFT)
                    (StatusErr GC_FailedPrecondition ''contest is not accepting registrations'') (Inr ()))) of
             Inl err \<Rightarrow> (Inl err, db)
           | Inr _ \<Rightarrow> repo_Join (e_tx e) c (actor_id actor) db)"

definition uc_Create ::
  "usecase_env \<Rightarrow> ContestActor option \<Rightarrow> ContestUpdate option \<Rightarrow> contest_db \<Rightarrow> (contest_error + Contest) \<times> contest_db" where
  "uc_Create e actor input db =
     (case errE (requireAdmin actor)
             (bindE (normalizeUpdate input) (\<lambda>(start, end_at, problems).
                bindE (CurrentTime (e_now e)) (\<lambda>now.
                  guardE (\<not> now < start)
                    (StatusErr GC_InvalidArgument ''contest start_at must be in the future'')
                    (Inr (start, end_at, problems))))) of
        Inl err \<Rightarrow> (Inl err, db)
      | Inr (start, end_at, problems) \<Rightarrow>
          repo_Create (e_tx e 0)
            \<lparr>bk_ID = 0, bk_Title = trim_space (case input of None \<Rightarrow> [] | Some u \<Rightarrow> cu_Title u),
             bk_Status = CS_DRAFT, bk_StartAt = start, bk_EndAt = end_at, bk_CreatedBy = actor_id actor,
             bk_CreatedAt = zero_time, bk_UpdatedAt = zero_time, bk_Problems = problems, bk_Joined = False\<rparr> db)"

definition uc_Get :: "usecase_env \<Rightarrow> ContestActor option \<Rightarrow> int64 \<Rightarrow> contest_db \<Rightarrow> contest_error + Contest" where
  "uc_Get e actor i db =
     guardE (actor_missing actor \<or> i \<le> 0) (StatusErr GC_InvalidArgument ''invalid contest request'')
       (bindE (repo_Get (e_get e) i db) (\<lambda>k. bindE (CurrentTime (e_now e)) (\<lambda>now.
          let k1 = k\<lparr>bk_Status := lifecycle (bk_StartAt k) (bk_EndAt k) (bk_Status k) now\<rparr>
          in guardE (bk_Status k1 = CS_ARCHIVED \<and> \<not> contest_isAdmin actor)
               (StatusErr GC_NotFound ''contest not found'') (Inr k1))))"

definition uc_List ::
  "usecase_env \<Rightarrow> ContestActor option \<Rightarrow> int32 \<Rightarrow> int32 \<Rightarrow> ContestStatus \<Rightarrow> contest_db
    \<Rightarrow> contest_error + Contest list \<times> int64" where
  "uc_List e actor page pageSize f db =
     guardE (actor_missing actor) (StatusErr GC_Unauthenticated ''authenticated actor is required'')
       (guardE (page \<le> 0 \<or> pageSize \<le> 0 \<or> pageSize > 100) (StatusErr GC_InvalidArgument ''invalid page'')
          (guardE (\<not> contest_isAdmin actor \<and> f = CS_ARCHIVED)
             (StatusErr GC_PermissionDenied ''archived contests are restricted'')
             (bindE (repo_List (e_get e) page pageSize f db) (\<lambda>(items, total).
                bindE (CurrentTime (e_now e)) (\<lambda>now.
                  Inr (map (\<lambda>k. k\<lparr>bk_Status := lifecycle (bk_StartAt k) (bk_EndAt k) (bk_Status k) now\<rparr>) items,
                       total))))))"

definition uc_Update ::
  "usecase_env \<Rightarrow> ContestActor option \<Rightarrow> int64 \<Rightarrow> ContestUpdate option \<Rightarrow> contest_db
    \<Rightarrow> (contest_error + Contest) \<times> contest_db" where
  "uc_Update e actor i input db =
     (case errE (requireAdmin actor)
             (bindE (repo_Get (e_get e) i db) (\<lambda>k. bindE (CurrentTime (e_now e)) (\<lambda>now.
                guardE (lifecycle (bk_StartAt k) (bk_EndAt k) (bk_Status k) now \<noteq> CS_DRAFT)
                  (StatusErr GC_FailedPrecondition ''only draft contests can be updated'')
                  (bindE (normalizeUpdate input) (\<lambda>(start, end_at, problems).
                     guardE (\<not> now < start)
                       (StatusErr GC_InvalidArgument ''contest start_at must be in the future'')
                       (case Option.bind input cu_ExpectedUpdatedAt of
                          None \<Rightarrow> Inl (StatusErr GC_InvalidArgument ''contest expected_updated_at is required'')
                        | Some token \<Rightarrow>
                            guardE (\<not> CheckValid token)
                              (StatusErr GC_InvalidArgument ''invalid contest expected_updated_at'')
                              (Inr (k\<lparr>bk_Status := CS_DRAFT, bk_UpdatedAt := AsTime token,
                                      bk_Title := trim_space (case input of None \<Rightarrow> [] | Some u \<Rightarrow> cu_Title u),
                                      bk_StartAt := start, bk_EndAt := end_at, bk_Problems := problems\<rparr>)))))))) of
        Inl err \<Rightarrow> (Inl err, db)
      | Inr k \<Rightarrow> repo_Update (e_tx e) (e_after e) k db)"

definition uc_Archive ::
  "usecase_env \<Rightarrow> ContestActor option \<Rightarrow> int64 \<Rightarrow> contest_db \<Rightarrow> (contest_error + Contest) \<times> contest_db" where
  "uc_Archive e actor i db =
     (case errE (requireAdmin actor)
             (bindE (repo_Get (e_get e) i db) (\<lambda>k. bindE (CurrentTime (e_now e)) (\<lambda>now.
                guardE (lifecycle (bk_StartAt k) (bk_EndAt k) (bk_Status k) now \<noteq> CS_DRAFT)
                  (StatusErr GC_FailedPrecondition ''only draft contests can be archived'') (Inr ())))) of
        Inl err \<Rightarrow> (Inl err, db)
      | Inr _ \<Rightarrow> repo_Archive (e_tx e) (e_after e) i db)"

definition uc_CreateSubmission ::
  "(CreateSubmissionRequest \<Rightarrow> contest_error + 'resp) \<Rightarrow> usecase_env \<Rightarrow> ContestActor option
    \<Rightarrow> ContestSubmissionRequest option \<Rightarrow> contest_db \<Rightarrow> (contest_error + 'resp) \<times> contest_db" where
  "uc_CreateSubmission create e actor input db =
     (if actor_missing actor then (Inl (StatusErr GC_Unauthenticated ''authenticated actor is required''), db)
      else case input of
             None \<Rightarrow> (Inl (StatusErr GC_InvalidArgument ''invalid contest submission''), db)
           | Some q \<Rightarrow>
               (if cq_ContestId q \<le> 0 \<or> cq_ProblemId q \<le> 0
                then (Inl (StatusErr GC_InvalidArgument ''invalid contest submission''), db)
                else case AuthorizeSubmission (e_tx e) (cq_ContestId q) (actor_id actor) (cq_ProblemId q) db of
                       (Inl err, db') \<Rightarrow> (Inl err, db')
                     | (Inr (start, end_at), db') \<Rightarrow>
                         (create \<lparr>cs_ProblemId = cq_ProblemId q, cs_ContestId = cq_ContestId q,
                            cs_Language = cq_Language q, cs_SourceCode = cq_SourceCode q,
                            cs_IdempotencyKey = cq_IdempotencyKey q, cs_ContestStartAt = start,
                            cs_ContestEndAt = end_at\<rparr>, db')))"

definition uc_GetDetails ::
  "(int64 list \<Rightarrow> contest_error + (int64 \<Rightarrow> string)) \<Rightarrow> usecase_env \<Rightarrow> ContestActor option \<Rightarrow> int64 \<Rightarrow> contest_db
    \<Rightarrow> contest_error + Contest" where
  "uc_GetDetails titles e actor i db =
     bindE (uc_Get e actor i db) (\<lambda>k.
       bindE (IsParticipant (e_after e) i (actor_id actor) db) (\<lambda>joined.
         let k1 = k\<lparr>bk_Joined := joined\<rparr>
         in if bk_Problems k1 = [] then Inr k1
            else bindE (titles (map bp_ProblemID (bk_Problems k1))) (\<lambda>t.
                   Inr (k1\<lparr>bk_Problems := map (\<lambda>p. p\<lparr>bp_Title := t (bp_ProblemID p)\<rparr>) (bk_Problems k1)\<rparr>))))"

section \<open>Lemmas\<close>

lemma fromDB_draft [simp]: "fromDBStatus ''draft'' = CS_DRAFT" "fromDBStatus ''archived'' = CS_ARCHIVED"
  by (simp_all add: fromDBStatus_def)

lemma fromDB_archived: "fromDBStatus v = CS_ARCHIVED \<longleftrightarrow> v = ''archived''"
  by (simp add: fromDBStatus_def)

lemma lifecycle_cases:
  "lifecycle s e st now = CS_DRAFT \<longleftrightarrow> st \<noteq> CS_ARCHIVED \<and> now < s \<and> now < e"
  "lifecycle s e st now = CS_RUNNING \<longleftrightarrow> st \<noteq> CS_ARCHIVED \<and> s \<le> now \<and> now < e"
  by (auto simp: lifecycle_def)

lemma join_tx_phase:
  assumes "join_tx c u env db = Inr (x, db')"
  shows "\<exists>r. find_contest c db' = Some r \<and> ct_status r = ''draft''
    \<and> utc_timestamp3 env < ct_start_at r \<and> utc_timestamp3 env < ct_end_at r \<and> is_participant c u db'"
  using assms
  by (auto simp: join_tx_def Let_def is_participant_def find_contest_def split: option.splits if_splits)

lemma archive_tx_phase:
  assumes "archive_tx i env db = Inr (x, db')"
  shows "\<exists>r. find_contest i db = Some r \<and> ct_status r = ''draft'' \<and> utc_timestamp3 env < ct_start_at r"
  using assms by (auto simp: archive_tx_def split: option.splits)

lemma update_refused:
  assumes "find_contest (bk_ID k) db = Some r" and "bk_UpdatedAt k < ct_updated_at r"
    and "repo_Update envs env2 k db = (x, db')"
  shows "db' = db \<and> (\<exists>e. x = Inl e)"
proof (cases "bk_UpdatedAt k = zero_time")
  case True
  then show ?thesis using assms(3) by (auto simp: repo_Update_def)
next
  case False
  have "update_contest_tx k (envs i) db \<noteq> Inr y" for i y
    using assms(1,2) by (cases y) (auto elim!: update_contest_row)
  then show ?thesis
    using assms(3) False withContestTx_refused [of envs "update_contest_tx k" db]
    by (auto simp: repo_Update_def split: prod.splits sum.splits)
qed

lemma update_ok_row:
  assumes "repo_Update envs env2 k db = (Inr y, db')"
  shows "\<exists>r. find_contest (bk_ID k) db' = Some r \<and> bk_UpdatedAt k < ct_updated_at r"
proof -
  from assms obtain u where "withContestTx envs (update_contest_tx k) db = (Inr u, db')"
    by (auto simp: repo_Update_def split: if_splits prod.splits sum.splits)
  from withContestTx_ok [OF this] obtain i s1 where "update_contest_tx k (envs i) s1 = Inr (u, db')" by blast
  then show ?thesis by (rule update_contest_row) auto
qed

lemma authorize_keeps:
  assumes "AuthorizeSubmission envs c u p db = (x, db')"
  shows "db' = db"
  by (rule withContestTx_rel [OF assms [unfolded AuthorizeSubmission_def], of "\<lambda>a b. b = a"])
    (auto simp: authorize_tx_def Let_def split: option.splits)

section \<open>Properties\<close>

text \<open>
  C27. The phases of a contest exclude each other, by the database clock and under the lock of the
  contest: a registration is committed only while the contest is a draft, an edit or an archival only
  before its start, and a submission is authorised only while it is running, for a registered user and
  a problem of the contest, with the interval that is stored.
\<close>

theorem contest_phases:
  shows "(repo_Join envs c u db = (Inr joined, db1) \<longrightarrow>
      (\<exists>i r. find_contest c db1 = Some r \<and> is_participant c u db1
        \<and> lifecycle (ct_start_at r) (ct_end_at r) (fromDBStatus (ct_status r)) (utc_timestamp3 (envs i)) = CS_DRAFT))
    \<and> (AuthorizeSubmission envs c u p db = (Inr (s, e), db1) \<longrightarrow>
      db1 = db \<and> (\<exists>i r. find_contest c db = Some r \<and> s = ct_start_at r \<and> e = ct_end_at r
        \<and> is_participant c u db \<and> has_problem c p db
        \<and> lifecycle s e (fromDBStatus (ct_status r)) (utc_timestamp3 (envs i)) = CS_RUNNING))
    \<and> (repo_Archive envs env2 c db = (Inr k1, db1) \<longrightarrow>
      (\<exists>i d r. find_contest c d = Some r \<and> ct_status r = ''draft''
        \<and> utc_timestamp3 (envs i) < ct_start_at r \<and> archive_tx c (envs i) d = Inr ((), db1)))
    \<and> (repo_Update envs env2 k db = (Inr k1, db1) \<longrightarrow>
      (\<exists>i d r. find_contest (bk_ID k) d = Some r \<and> ct_status r = ''draft''
        \<and> utc_timestamp3 (envs i) < ct_start_at r \<and> update_contest_tx k (envs i) d = Inr ((), db1)))"
proof (intro conjI impI)
  assume "repo_Join envs c u db = (Inr joined, db1)"
  from withContestTx_ok [OF this [unfolded repo_Join_def]]
  obtain i d where "join_tx c u (envs i) d = Inr (joined, db1)" by blast
  from join_tx_phase [OF this] show "\<exists>i r. find_contest c db1 = Some r \<and> is_participant c u db1
        \<and> lifecycle (ct_start_at r) (ct_end_at r) (fromDBStatus (ct_status r)) (utc_timestamp3 (envs i)) = CS_DRAFT"
    by (auto simp: lifecycle_cases)
next
  assume a: "AuthorizeSubmission envs c u p db = (Inr (s, e), db1)"
  show d: "db1 = db" by (rule authorize_keeps [OF a])
  from withContestTx_ok [OF a [unfolded AuthorizeSubmission_def]]
  obtain i d0 where t: "authorize_tx c u p (envs i) d0 = Inr ((s, e), db1)" by blast
  then have "d0 = db" using d by (auto simp: authorize_tx_def Let_def split: option.splits)
  with t show "\<exists>i r. find_contest c db = Some r \<and> s = ct_start_at r \<and> e = ct_end_at r
        \<and> is_participant c u db \<and> has_problem c p db
        \<and> lifecycle s e (fromDBStatus (ct_status r)) (utc_timestamp3 (envs i)) = CS_RUNNING"
    by (auto simp: authorize_tx_def Let_def lifecycle_cases fromDB_archived split: option.splits intro!: exI [of _ i])
next
  assume "repo_Archive envs env2 c db = (Inr k1, db1)"
  then have "\<exists>x. withContestTx envs (archive_tx c) db = (Inr x, db1)"
    by (auto simp: repo_Archive_def split: prod.splits sum.splits)
  then obtain i d where "archive_tx c (envs i) d = Inr ((), db1)"
    using withContestTx_ok [where body = "archive_tx c"] by (metis (full_types) old.unit.exhaust)
  with archive_tx_phase [OF this] show "\<exists>i d r. find_contest c d = Some r \<and> ct_status r = ''draft''
        \<and> utc_timestamp3 (envs i) < ct_start_at r \<and> archive_tx c (envs i) d = Inr ((), db1)"
    by blast
next
  assume "repo_Update envs env2 k db = (Inr k1, db1)"
  then have "\<exists>x. withContestTx envs (update_contest_tx k) db = (Inr x, db1)"
    by (auto simp: repo_Update_def split: if_splits prod.splits sum.splits)
  then obtain i d where t: "update_contest_tx k (envs i) d = Inr ((), db1)"
    using withContestTx_ok [where body = "update_contest_tx k"] by (metis (full_types) old.unit.exhaust)
  from t show "\<exists>i d r. find_contest (bk_ID k) d = Some r \<and> ct_status r = ''draft''
        \<and> utc_timestamp3 (envs i) < ct_start_at r \<and> update_contest_tx k (envs i) d = Inr ((), db1)"
    by (rule update_contest_row) (use t in blast)
qed

theorem contest_phases_witness:
  "\<exists>r. find_contest 1 demo_contest_joined = Some r \<and> is_participant 1 2 demo_contest_joined
     \<and> AuthorizeSubmission (calm_contest 6000000000) 1 2 3 demo_contest_joined = (Inr (5000000000, 9000000000), demo_contest_joined)
     \<and> has_problem 1 3 demo_contest_joined"
proof -
  have j: "repo_Join (calm_contest 2000000000) 1 2 demo_contest_created = (Inr 2000000000, demo_contest_joined)"
  proof (rule prod_eqI)
    show "fst (repo_Join (calm_contest 2000000000) 1 2 demo_contest_created) = fst (Inr 2000000000, demo_contest_joined)" by code_simp
  qed (simp add: demo_contest_joined_def)
  have f: "fst (AuthorizeSubmission (calm_contest 6000000000) 1 2 3 demo_contest_joined) = Inr (5000000000, 9000000000)"
    by code_simp
  then obtain d where a: "AuthorizeSubmission (calm_contest 6000000000) 1 2 3 demo_contest_joined = (Inr (5000000000, 9000000000), d)"
    by (metis prod.collapse)
  have "\<exists>r. find_contest 1 demo_contest_joined = Some r \<and> is_participant 1 2 demo_contest_joined"
    using contest_phases [THEN conjunct1, rule_format, OF j] by blast
  moreover have "d = demo_contest_joined \<and> has_problem 1 3 demo_contest_joined"
    using contest_phases [THEN conjunct2, THEN conjunct1, rule_format, OF a] by blast
  ultimately show ?thesis using a by blast
qed

text \<open>
  C28. Edits are never lost. After an edit of a contest succeeds, whatever happens next (other edits,
  archival, registrations, projections), an edit of the same contest that carries the token the first
  one carried, or an older one, fails and changes nothing, even when it is retried.
\<close>

theorem stale_edits_fail:
  assumes "repo_Update envs env2 k db = (Inr k1, db1)" and "contest_reach db1 db2"
    and "bk_ID k' = bk_ID k" and "bk_UpdatedAt k' \<le> bk_UpdatedAt k"
    and "repo_Update envs' env2' k' db2 = (x, db3)"
  shows "db3 = db2 \<and> (\<exists>e. x = Inl e)"
proof -
  obtain r where r: "find_contest (bk_ID k) db1 = Some r" "bk_UpdatedAt k < ct_updated_at r"
    using update_ok_row [OF assms(1)] by blast
  obtain r' where r': "find_contest (bk_ID k) db2 = Some r'" "ct_updated_at r \<le> ct_updated_at r'"
    using reach_token_le [OF assms(2)] r(1) by (auto simp: token_le_def)
  have "find_contest (bk_ID k') db2 = Some r'" "bk_UpdatedAt k' < ct_updated_at r'"
    using r r' assms(3,4) by auto
  from update_refused [OF this assms(5)] show ?thesis .
qed

theorem stale_edits_fail_witness:
  "let k = demo_contest\<lparr>bk_ID := 1, bk_UpdatedAt := 1000000000\<rparr>;
       d1 = snd (repo_Update (calm_contest 2000000000) (calm_contest 2000000000 0) k demo_contest_created)
   in isl (fst (repo_Update (calm_contest 3000000000) (calm_contest 3000000000 0) k d1))
      \<and> snd (repo_Update (calm_contest 3000000000) (calm_contest 3000000000 0) k d1) = d1"
proof -
  let ?k = "demo_contest\<lparr>bk_ID := 1, bk_UpdatedAt := 1000000000\<rparr>"
  let ?u = "repo_Update (calm_contest 2000000000) (calm_contest 2000000000 0) ?k demo_contest_created"
  have "\<not> isl (fst ?u)" by code_simp
  then obtain k1 where u: "?u = (Inr k1, snd ?u)" by (metis isl_def obj_sumE prod.collapse)
  from stale_edits_fail [OF u contest_reach.start refl order_refl prod.collapse [symmetric]]
  have "\<exists>x. fst (repo_Update envs' env' ?k (snd ?u)) = Inl x \<and> snd (repo_Update envs' env' ?k (snd ?u)) = snd ?u"
    for envs' env' by blast
  then show ?thesis by (metis (no_types, lifting) isl_def)
qed

text \<open>
  Only administrators change contests: when a create, update or archive request changes the tables,
  its actor has a positive id and the admin role, whatever the role's case and surrounding blanks; and an
  ordinary user never reads an archived contest.
\<close>

theorem only_admin_manages_contests:
  shows "(snd (uc_Create e actor input db) \<noteq> db \<or> snd (uc_Update e actor i input db) \<noteq> db
      \<or> snd (uc_Archive e actor i db) \<noteq> db \<longrightarrow>
        (\<exists>a. actor = Some a \<and> 0 < ca_UserId a
          \<and> (\<exists>role \<in> set (ca_Roles a). to_lower (trim_space role) = ''admin'')))
    \<and> (uc_Get e actor i db = Inr k \<and> bk_Status k = CS_ARCHIVED \<longrightarrow> contest_isAdmin actor)"
proof (intro conjI impI)
  have admin: "requireAdmin actor = None \<Longrightarrow> \<exists>a. actor = Some a \<and> 0 < ca_UserId a
      \<and> (\<exists>role \<in> set (ca_Roles a). to_lower (trim_space role) = ''admin'')"
  proof -
    have "to_lower ''admin'' = ''admin''" by code_simp
    moreover assume "requireAdmin actor = None"
    ultimately show ?thesis
      by (cases actor) (auto simp: requireAdmin_def actor_missing_def contest_isAdmin_def equal_fold_def split: if_splits)
  qed
  assume "snd (uc_Create e actor input db) \<noteq> db \<or> snd (uc_Update e actor i input db) \<noteq> db
      \<or> snd (uc_Archive e actor i db) \<noteq> db"
  then have "requireAdmin actor = None"
    by (cases "requireAdmin actor") (auto simp: uc_Create_def uc_Update_def uc_Archive_def)
  then show "\<exists>a. actor = Some a \<and> 0 < ca_UserId a
          \<and> (\<exists>role \<in> set (ca_Roles a). to_lower (trim_space role) = ''admin'')"
    by (rule admin)
next
  assume "uc_Get e actor i db = Inr k \<and> bk_Status k = CS_ARCHIVED"
  then show "contest_isAdmin actor" by (auto simp: uc_Get_def Let_def)
qed

theorem only_admin_manages_contests_witness:
  "let e = \<lparr>e_get = calm_contest 2000000000 0, e_now = calm_contest 2000000000 0, e_tx = calm_contest 2000000000,
            e_after = calm_contest 2000000000 0\<rparr>
   in snd (uc_Archive e (Some \<lparr>ca_UserId = 1, ca_Roles = ['' Admin '']\<rparr>) 1 demo_contest_created) \<noteq> demo_contest_created
      \<and> to_lower (trim_space '' Admin '') = ''admin''"
proof -
  let ?e = "\<lparr>e_get = calm_contest 2000000000 0, e_now = calm_contest 2000000000 0, e_tx = calm_contest 2000000000,
            e_after = calm_contest 2000000000 0\<rparr>"
  have "map ct_status (contests (snd (uc_Archive ?e (Some \<lparr>ca_UserId = 1, ca_Roles = ['' Admin '']\<rparr>) 1 demo_contest_created)))
      = [''archived'']" "map ct_status (contests demo_contest_created) = [''draft'']"
    by code_simp+
  then have "snd (uc_Archive ?e (Some \<lparr>ca_UserId = 1, ca_Roles = ['' Admin '']\<rparr>) 1 demo_contest_created) \<noteq> demo_contest_created"
    by auto
  with only_admin_manages_contests [of ?e "Some \<lparr>ca_UserId = 1, ca_Roles = ['' Admin '']\<rparr>" None demo_contest_created 1]
  show ?thesis by (simp add: Let_def)
qed

end
