(* ===== verification/Contest_Leaderboard.thy ===== *)
theory Contest_Leaderboard
  imports Contest_Props
begin

text \<open>
  The ranking: the SQL query of \<open>Leaderboard\<close> in \<open>src/services/contest/internal/data/projection.go\<close>, and
  the member under which the Redis cache files a user, \<open>leaderboardMember\<close> in \<open>leaderboard_redis.go\<close>. All
  scores of the sorted set are zero, so Redis orders the members as byte strings (\<open>bytes_less\<close>).
\<close>

section \<open>Definitions\<close>

subsection \<open>The SQL ranking\<close>

type_synonym ranked = "int64 \<times> int \<times> int" \<comment> \<open>user, solved, penalty\<close>

definition rank_before :: "ranked \<Rightarrow> ranked \<Rightarrow> bool" where
  \<comment> \<open>\<open>ORDER BY SUM(solved) DESC, SUM(penalty_seconds) ASC, user_id ASC\<close>\<close>
  "rank_before a b = (case a of (u, n, q) \<Rightarrow> case b of (u', n', q') \<Rightarrow>
     if n \<noteq> n' then n' < n else if q \<noteq> q' then q < q' else u < u')"

fun rank_insert :: "ranked \<Rightarrow> ranked list \<Rightarrow> ranked list" where
  "rank_insert a [] = [a]"
| "rank_insert a (b # bs) = (if rank_before b a then b # rank_insert a bs else a # b # bs)"

definition contest_users :: "int64 \<Rightarrow> contest_db \<Rightarrow> int64 list" where
  "contest_users c db = remdups (map rr_user (filter (\<lambda>r. rr_contest r = c) (contest_problem_results db)))"

definition leaderboard_order :: "int64 \<Rightarrow> contest_db \<Rightarrow> ranked list" where
  "leaderboard_order c db = foldr rank_insert
     (map (\<lambda>u. (u, solved_total (user_problem_results c u db), penalty_total (user_problem_results c u db)))
        (contest_users c db)) []"

record LeaderboardEntry =
  le_UserId :: int64
  le_Rank :: int32
  le_SolvedCount :: int32
  le_PenaltySeconds :: int64
  le_Problems :: "LeaderboardProblem list"

definition shown_problem :: "LeaderboardProblem \<Rightarrow> LeaderboardProblem" where
  \<comment> \<open>\<open>LeaderboardProblemResult\<close> has no penalty\<close>
  "shown_problem p = p\<lparr>lp_PenaltySeconds := 0\<rparr>"

definition rank_entries :: "int64 \<Rightarrow> int64 \<Rightarrow> contest_db \<Rightarrow> ranked list \<Rightarrow> LeaderboardEntry list" where
  \<comment> \<open>the rank is computed in \<open>int32\<close>; \<open>AcceptedCount\<close>, \<open>Score\<close> and \<open>Penalty\<close> repeat the other fields\<close>
  "rank_entries c offset db rows = map (\<lambda>(k, (u, n, q)).
     \<lparr>le_UserId = u, le_Rank = wrap32 (wrap32 (wrap32 offset + int k) + 1), le_SolvedCount = n,
      le_PenaltySeconds = q, le_Problems = map (\<lambda>p. shown_problem (leaderboard_problem u db p)) (problems_in_order c db)\<rparr>)
     (enumerate 0 rows)"

definition repo_Leaderboard ::
  "attempt_env \<Rightarrow> int64 \<Rightarrow> int32 \<Rightarrow> int32 \<Rightarrow> contest_db \<Rightarrow> contest_error + LeaderboardEntry list \<times> int64" where
  "repo_Leaderboard env c page pageSize db =
     fst (contest_tx env (\<lambda>db.
       stmt env ''count users''
         (let offset = wrap64 (wrap64 (page - 1) * pageSize)
          in stmt env ''select users''
               (constraint (0 \<le> offset \<and> 0 \<le> pageSize) ''select users''
                  (stmt env ''select problems''
                     (Inr ((rank_entries c offset db (take (nat pageSize) (drop (nat offset) (leaderboard_order c db))),
                            int (length (contest_users c db))), db)))))) db)"

subsection \<open>Members of the sorted set\<close>

definition pad_int :: "nat \<Rightarrow> int \<Rightarrow> string" where
  \<comment> \<open>\<open>%0wd\<close>\<close>
  "pad_int w v =
     (let ds = decimal_digits (nat \<bar>v\<bar>)
      in if v < 0 then CHR ''-'' # replicate (w - 1 - length ds) CHR ''0'' @ ds
         else replicate (w - length ds) CHR ''0'' @ ds)"

definition leaderboardMember :: "LeaderboardSnapshot \<Rightarrow> string" where
  "leaderboardMember s = pad_int 3 (wrap32 (100 - ls_SolvedCount s)) @ '':'' @ pad_int 19 (ls_PenaltySeconds s)
     @ '':'' @ pad_int 19 (ls_UserID s)"

definition cached_member :: "int64 \<Rightarrow> contest_db \<Rightarrow> int64 \<Rightarrow> string" where
  \<comment> \<open>the member of the user's current totals, as the outbox announces them\<close>
  "cached_member c db u =
     (case find (\<lambda>r. ur_key r = (c, u)) (contest_user_results db) of
        None \<Rightarrow> [] | Some r \<Rightarrow> leaderboardMember (current_summary c u r db))"

definition ranked_snapshot :: "LeaderboardSnapshot \<Rightarrow> ranked" where
  "ranked_snapshot s = (ls_UserID s, ls_SolvedCount s, ls_PenaltySeconds s)"

fun fixed_digits :: "nat \<Rightarrow> nat \<Rightarrow> string" where
  "fixed_digits 0 n = []"
| "fixed_digits (Suc w) n = fixed_digits w (n div 10) @ [char_of (48 + n mod 10)]"

section \<open>Lemmas\<close>

subsection \<open>Fixed-width decimals\<close>

lemma length_fixed_digits [simp]: "length (fixed_digits w n) = w"
  by (induction w arbitrary: n) auto

lemma fixed_digits_zero: "fixed_digits w 0 = replicate w CHR ''0''"
proof (induction w)
  case (Suc w)
  have "char_of (48 :: nat) = CHR ''0''" by code_simp
  with Suc show ?case by (simp add: replicate_append_same)
qed simp

lemma padded_digits:
  "n < 10 ^ w \<Longrightarrow> 0 < w \<Longrightarrow>
    replicate (w - length (decimal_digits n)) CHR ''0'' @ decimal_digits n = fixed_digits w n"
proof (induction w arbitrary: n)
  case (Suc w)
  show ?case
  proof (cases "n < 10")
    case True
    then show ?thesis by (simp add: decimal_digits.simps [of n] fixed_digits_zero)
  next
    case False
    then have "0 < w" using Suc.prems by (cases w) auto
    moreover have "n div 10 < 10 ^ w" using Suc.prems by (simp add: less_mult_imp_div_less mult.commute)
    ultimately show ?thesis using Suc.IH [of "n div 10"] False by (simp add: decimal_digits.simps [of n])
  qed
qed simp

lemma pad_int_fixed: "0 \<le> v \<Longrightarrow> nat v < 10 ^ w \<Longrightarrow> 0 < w \<Longrightarrow> pad_int w v = fixed_digits w (nat v)"
  by (simp add: pad_int_def padded_digits)

lemma of_char_digit: "k < 10 \<Longrightarrow> (of_char (char_of (48 + k :: nat) :: char) :: nat) = 48 + k"
  by (simp only: of_char_of) simp

lemma digit_chars:
  assumes "m < 10" and "n < 10"
  shows "(of_char (char_of (48 + m :: nat) :: char) :: nat) < of_char (char_of (48 + n :: nat) :: char) \<longleftrightarrow> m < n"
    and "(char_of (48 + m :: nat) :: char) = char_of (48 + n :: nat) \<longleftrightarrow> m = n"
proof -
  show "(of_char (char_of (48 + m :: nat) :: char) :: nat) < of_char (char_of (48 + n :: nat) :: char) \<longleftrightarrow> m < n"
    by (simp only: of_char_digit [OF assms(1)] of_char_digit [OF assms(2)]) simp
  show "(char_of (48 + m :: nat) :: char) = char_of (48 + n :: nat) \<longleftrightarrow> m = n"
  proof
    assume e: "(char_of (48 + m :: nat) :: char) = char_of (48 + n :: nat)"
    from arg_cong [OF e, of "of_char :: char \<Rightarrow> nat"] of_char_digit [OF assms(1)] of_char_digit [OF assms(2)]
    show "m = n" by linarith
  qed simp
qed

lemma div10_less: "(m :: nat) < n \<longleftrightarrow> m div 10 < n div 10 \<or> (m div 10 = n div 10 \<and> m mod 10 < n mod 10)"
proof -
  have "m = 10 * (m div 10) + m mod 10" "n = 10 * (n div 10) + n mod 10" "m mod 10 < 10" "n mod 10 < 10"
    by simp_all
  then show ?thesis by linarith
qed

lemma div10_eq: "(m :: nat) = n \<longleftrightarrow> m div 10 = n div 10 \<and> m mod 10 = n mod 10"
  by (metis mult_div_mod_eq)

lemma fixed_digits_order:
  assumes "m < 10 ^ w" and "n < 10 ^ w"
  shows "bytes_less (fixed_digits w m @ s) (fixed_digits w n @ t) \<longleftrightarrow> m < n \<or> (m = n \<and> bytes_less s t)"
  using assms
proof (induction w arbitrary: m n s t)
  case (Suc w)
  have d: "m div 10 < 10 ^ w" "n div 10 < 10 ^ w" using Suc.prems by (simp_all add: less_mult_imp_div_less mult.commute)
  have "bytes_less (fixed_digits (Suc w) m @ s) (fixed_digits (Suc w) n @ t) \<longleftrightarrow>
      m div 10 < n div 10 \<or> (m div 10 = n div 10 \<and> (m mod 10 < n mod 10 \<or> (m mod 10 = n mod 10 \<and> bytes_less s t)))"
    using Suc.IH [OF d, of "char_of (48 + m mod 10) # s" "char_of (48 + n mod 10) # t"]
    by (simp add: digit_chars)
  also have "\<dots> \<longleftrightarrow> m < n \<or> (m = n \<and> bytes_less s t)"
    using div10_less [of m n] div10_eq [of m n] by blast
  finally show ?case .
qed simp

lemma fixed_digits_char:
  "c \<in> set (fixed_digits w n) \<Longrightarrow> (48 :: nat) \<le> of_char c \<and> of_char c \<le> (57 :: nat)"
  by (induction w arbitrary: n) auto

subsection \<open>Members\<close>

lemma member_shape:
  assumes "LeaderboardSnapshot_Validate s = None" and "ls_UserID s \<le> max_int64"
  shows "leaderboardMember s = fixed_digits 3 (nat (100 - ls_SolvedCount s)) @ '':''
      @ fixed_digits 19 (nat (ls_PenaltySeconds s)) @ '':'' @ fixed_digits 19 (nat (ls_UserID s))"
    and "nat (100 - ls_SolvedCount s) < 10 ^ 3" and "nat (ls_PenaltySeconds s) < 10 ^ 19"
    and "nat (ls_UserID s) < 10 ^ 19"
proof -
  note v = valid_snapshot [OF assms(1)]
  have w: "wrap32 (100 - ls_SolvedCount s) = 100 - ls_SolvedCount s"
    using v(4,5) by (simp add: wrap32_id max_int32_def)
  show b: "nat (100 - ls_SolvedCount s) < 10 ^ 3" "nat (ls_PenaltySeconds s) < 10 ^ 19" "nat (ls_UserID s) < 10 ^ 19"
    using v(3-7) assms(2) by (simp_all add: max_int64_def nat_less_iff)
  show "leaderboardMember s = fixed_digits 3 (nat (100 - ls_SolvedCount s)) @ '':''
      @ fixed_digits 19 (nat (ls_PenaltySeconds s)) @ '':'' @ fixed_digits 19 (nat (ls_UserID s))"
    unfolding leaderboardMember_def w using v(3-6) b by (simp add: pad_int_fixed del: fixed_digits.simps)
qed

lemma member_order:
  assumes s: "LeaderboardSnapshot_Validate s = None" "ls_UserID s \<le> max_int64"
    and t: "LeaderboardSnapshot_Validate t = None" "ls_UserID t \<le> max_int64"
  shows "bytes_less (leaderboardMember s) (leaderboardMember t) \<longleftrightarrow> rank_before (ranked_snapshot s) (ranked_snapshot t)"
proof -
  note vs = valid_snapshot [OF s(1)] and vt = valid_snapshot [OF t(1)]
  note bs = member_shape [OF s] and bt = member_shape [OF t]
  have last: "bytes_less (fixed_digits 19 (nat (ls_UserID s))) (fixed_digits 19 (nat (ls_UserID t)))
      \<longleftrightarrow> ls_UserID s < ls_UserID t"
    using fixed_digits_order [OF bs(4) bt(4), of "[]" "[]"] vs(3) vt(3) by auto
  show ?thesis
    unfolding bs(1) bt(1) fixed_digits_order [OF bs(2) bt(2)]
    using vs(3-6) vt(3-6) last fixed_digits_order [OF bs(3) bt(3)]
    by (auto simp: rank_before_def ranked_snapshot_def simp del: fixed_digits.simps)
qed

subsection \<open>The SQL order\<close>

lemma rank_before_trans: "rank_before a b \<Longrightarrow> rank_before b c \<Longrightarrow> rank_before a c"
  by (auto simp: rank_before_def split: if_splits prod.splits)

lemma rank_before_total: "fst a \<noteq> fst b \<Longrightarrow> rank_before a b \<or> rank_before b a"
  by (auto simp: rank_before_def split: prod.splits)

lemma mset_rank_insert [simp]: "mset (rank_insert a bs) = add_mset a (mset bs)"
  by (induction bs) auto

lemma rank_insert_sorted:
  assumes "sorted_wrt rank_before bs" and "fst a \<notin> fst ` set bs"
  shows "sorted_wrt rank_before (rank_insert a bs)"
  using assms
proof (induction bs)
  case (Cons b bs)
  have in_set: "x \<in> set (rank_insert a bs) \<Longrightarrow> x = a \<or> x \<in> set bs" for x
    by (metis insert_iff mset_rank_insert set_mset_add_mset_insert set_mset_mset)
  show ?case
  proof (cases "rank_before b a")
    case True
    then show ?thesis using Cons by (auto dest: in_set)
  next
    case False
    then have "rank_before a b" using Cons.prems(2) rank_before_total [of a b] by auto
    then show ?thesis using False Cons.prems rank_before_trans by auto
  qed
qed simp

lemma rank_sort_sorted:
  "distinct (map fst xs) \<Longrightarrow> sorted_wrt rank_before (foldr rank_insert xs []) \<and> mset (foldr rank_insert xs []) = mset xs"
proof (induction xs)
  case (Cons x xs)
  have "set (foldr rank_insert xs []) = set xs" using Cons by (metis distinct.simps(2) list.simps(9) set_mset_mset)
  then show ?case using Cons by (auto intro!: rank_insert_sorted)
qed simp

lemma leaderboard_order_sorted:
  "sorted_wrt rank_before (leaderboard_order c db)
   \<and> mset (leaderboard_order c db) = mset (map (\<lambda>u. (u, solved_total (user_problem_results c u db),
        penalty_total (user_problem_results c u db))) (contest_users c db))"
  unfolding leaderboard_order_def
  by (rule rank_sort_sorted) (simp add: comp_def contest_users_def)

lemma sorted_wrt_map_cong:
  assumes "sorted_wrt R xs" and "\<And>x y. x \<in> set xs \<Longrightarrow> y \<in> set xs \<Longrightarrow> R x y \<Longrightarrow> Q (f x) (f y)"
  shows "sorted_wrt Q (map f xs)"
  using assms by (induction xs) auto

lemma ranked_user:
  assumes "contest_inv db" and "(u, n, q) \<in> set (leaderboard_order c db)"
  obtains r where "find (\<lambda>r. ur_key r = (c, u)) (contest_user_results db) = Some r"
    and "LeaderboardSnapshot_Validate (current_summary c u r db) = None"
    and "ranked_snapshot (current_summary c u r db) = (u, n, q)" and "u \<in> set (contest_users c db)"
proof -
  have "set (leaderboard_order c db) = set (map (\<lambda>u. (u, solved_total (user_problem_results c u db),
        penalty_total (user_problem_results c u db))) (contest_users c db))"
    using leaderboard_order_sorted by (metis set_mset_mset)
  then have u: "u \<in> set (contest_users c db)" "n = solved_total (user_problem_results c u db)"
    "q = penalty_total (user_problem_results c u db)"
    using assms(2) by auto
  then obtain x where "x \<in> set (contest_problem_results db)" "rr_contest x = c" "rr_user x = u"
    by (auto simp: contest_users_def)
  then obtain r where r: "r \<in> set (contest_user_results db)" "ur_key r = (c, u)"
    using assms(1) by (fastforce simp: contest_inv_def totals_ok_def)
  have f: "find (\<lambda>x. ur_key x = ur_key r) (contest_user_results db) = Some r"
    using assms(1) r(1) by (intro find_key_unique) (auto simp: contest_inv_def totals_ok_def)
  moreover have k: "ur_contest r = c" "ur_user r = u" using r(2) by (auto simp: ur_key_def)
  moreover have "LeaderboardSnapshot_Validate (current_summary c u r db) = None"
    using assms(1) r(1) k by (auto simp: contest_inv_def outbox_ok_def announces_totals_def)
  moreover have "ranked_snapshot (current_summary c u r db) = (u, n, q)"
    using assms(1) r(1) k u by (auto simp: ranked_snapshot_def current_summary_def contest_inv_def totals_ok_def)
  ultimately show ?thesis using that u(1) r(2) by metis
qed

lemma member_bounds:
  assumes "LeaderboardSnapshot_Validate s = None" and "ls_UserID s \<le> max_int64"
  shows "length (leaderboardMember s) = 43" and "bytes_less (leaderboardMember s) ''~''"
    and "drop 24 (leaderboardMember s) = pad_int 19 (ls_UserID s)"
proof -
  note m = member_shape [OF assms]
  show "length (leaderboardMember s) = 43" unfolding m(1) by (simp del: fixed_digits.simps)
  obtain c cs where c: "fixed_digits 3 (nat (100 - ls_SolvedCount s)) = c # cs"
    by (cases "fixed_digits 3 (nat (100 - ls_SolvedCount s))") (metis length_fixed_digits list.size(3) numeral_eq_Suc nat.distinct(1), auto)
  then have "(of_char c :: nat) \<le> 57" using fixed_digits_char [of c 3 "nat (100 - ls_SolvedCount s)"] by auto
  then show "bytes_less (leaderboardMember s) ''~''" unfolding m(1) c by simp
  show "drop 24 (leaderboardMember s) = pad_int 19 (ls_UserID s)"
    unfolding m(1) using pad_int_fixed [of "ls_UserID s" 19] valid_snapshot(3) [OF assms(1)] m(4)
    by (simp del: fixed_digits.simps)
qed

section \<open>Properties\<close>

text \<open>
  C29. The cache ranks as the database does. In every reachable state, the members under which the current
  totals of the users are filed in the sorted set are in strictly increasing byte order along the order
  of the SQL ranking (more problems solved, then less penalty, then the smaller user id), and all sort
  before the sentinel; each has 43 bytes and ends in the user's id.
\<close>

theorem rankings_agree:
  assumes "contest_reach empty_contest_db db" and "\<forall>u \<in> set (contest_users c db). u \<le> max_int64"
  shows "sorted_wrt rank_before (leaderboard_order c db)
    \<and> sorted_wrt bytes_less (map (\<lambda>x. cached_member c db (fst x)) (leaderboard_order c db))
    \<and> (\<forall>x \<in> set (leaderboard_order c db). bytes_less (cached_member c db (fst x)) ''~''
         \<and> length (cached_member c db (fst x)) = 43
         \<and> drop 24 (cached_member c db (fst x)) = pad_int 19 (fst x))"
proof -
  have inv: "contest_inv db" using contest_reach_inv [OF assms(1) empty_contest_inv] .
  have user: "\<exists>s. cached_member c db (fst x) = leaderboardMember s \<and> LeaderboardSnapshot_Validate s = None
      \<and> ranked_snapshot s = x \<and> ls_UserID s = fst x \<and> ls_UserID s \<le> max_int64"
    if x: "x \<in> set (leaderboard_order c db)" for x
  proof -
    obtain u n q where unq: "x = (u, n, q)" by (cases x)
    from ranked_user [OF inv x [unfolded unq]] assms(2) show ?thesis
      by (metis cached_member_def fst_conv option.simps(5) ranked_snapshot_def unq)
  qed
  have "sorted_wrt bytes_less (map (\<lambda>x. cached_member c db (fst x)) (leaderboard_order c db))"
  proof (rule sorted_wrt_map_cong [where R = rank_before])
    show "sorted_wrt rank_before (leaderboard_order c db)" using leaderboard_order_sorted by blast
    fix x y
    assume "x \<in> set (leaderboard_order c db)" "y \<in> set (leaderboard_order c db)" "rank_before x y"
    then show "bytes_less (cached_member c db (fst x)) (cached_member c db (fst y))"
      using user [of x] user [of y] member_order by metis
  qed
  then show ?thesis using leaderboard_order_sorted user member_bounds by metis
qed

theorem rankings_agree_witness:
  "leaderboard_order 1 demo_contest_projected = [(2, 1, 1)]
   \<and> cached_member 1 demo_contest_projected 2 = ''099:0000000000000000001:0000000000000000002''
   \<and> bytes_less (cached_member 1 demo_contest_projected 2) ''~''"
proof -
  have u: "contest_users 1 demo_contest_projected = [2]"
    and o1: "leaderboard_order 1 demo_contest_projected = [(2, 1, 1)]" by code_simp+
  have m: "cached_member 1 demo_contest_projected 2 = ''099:0000000000000000001:0000000000000000002''"
    by code_simp
  show ?thesis using rankings_agree [OF demo_contest_reach(2), of 1] u o1 m by (simp add: max_int64_def)
qed

end
