(* ===== verification/Contest_Cache.thy ===== *)
theory Contest_Cache
  imports Contest_Leaderboard
begin

text \<open>
  The leaderboard cache in Redis, \<open>src/services/contest/internal/data/leaderboard_redis.go\<close> and
  \<open>leaderboard_generation.go\<close>: the Lua scripts and the Go methods around them. A Lua script runs
  atomically on the store; each of its writes may fail (a server out of memory), and the writes before it
  stay. Keys expire: a \<open>redis\<close> store holds the deadline of each key, in milliseconds of the server's
  clock. A bulk string is a text or the JSON text of a value (\<open>RJson\<close>).
\<close>

section \<open>Definitions\<close>

subsection \<open>The store\<close>

datatype rtext = RT string | RJson json

datatype rvalue =
    RStr string
  | RZSet "(string \<times> string) list" \<comment> \<open>member and score\<close>
  | RHash "(string \<times> rtext) list"

type_synonym redis = "(string \<times> rvalue \<times> int option) list" \<comment> \<open>key, value, deadline\<close>

record redis_env =
  r_down :: bool \<comment> \<open>the call does not reach the server or times out\<close>
  r_now :: int
  r_lost :: "nat \<Rightarrow> bool" \<comment> \<open>the writes of the script that fail\<close>

definition rlook :: "int \<Rightarrow> redis \<Rightarrow> string \<Rightarrow> rvalue option" where
  "rlook now st k = (case map_of st k of None \<Rightarrow> None
     | Some (v, e) \<Rightarrow> (case e of None \<Rightarrow> Some v | Some d \<Rightarrow> if now < d then Some v else None))"

definition rput :: "int \<Rightarrow> string \<Rightarrow> rvalue \<Rightarrow> redis \<Rightarrow> redis" where
  \<comment> \<open>a write to a key keeps its deadline\<close>
  "rput now k v st = assoc_put k (v, if rlook now st k = None then None else snd (the (map_of st k))) st"

definition del :: "string \<Rightarrow> redis \<Rightarrow> redis" where
  "del k st = filter (\<lambda>x. fst x \<noteq> k) st"

definition hget :: "int \<Rightarrow> redis \<Rightarrow> string \<Rightarrow> string \<Rightarrow> rtext option" where
  "hget now st k f = (case rlook now st k of Some (RHash h) \<Rightarrow> map_of h f | _ \<Rightarrow> None)"

definition hlen :: "int \<Rightarrow> redis \<Rightarrow> string \<Rightarrow> nat" where
  "hlen now st k = (case rlook now st k of Some (RHash h) \<Rightarrow> length h | _ \<Rightarrow> 0)"

definition zscore :: "int \<Rightarrow> redis \<Rightarrow> string \<Rightarrow> string \<Rightarrow> string option" where
  "zscore now st k m = (case rlook now st k of Some (RZSet z) \<Rightarrow> map_of z m | _ \<Rightarrow> None)"

definition zcard :: "int \<Rightarrow> redis \<Rightarrow> string \<Rightarrow> nat" where
  "zcard now st k = (case rlook now st k of Some (RZSet z) \<Rightarrow> length z | _ \<Rightarrow> 0)"

definition hset :: "int \<Rightarrow> string \<Rightarrow> string \<Rightarrow> rtext \<Rightarrow> redis \<Rightarrow> redis" where
  "hset now k f v st =
     rput now k (RHash (assoc_put f v (case rlook now st k of Some (RHash h) \<Rightarrow> h | _ \<Rightarrow> []))) st"

definition zadd :: "int \<Rightarrow> string \<Rightarrow> string \<Rightarrow> redis \<Rightarrow> redis" where
  "zadd now k m st =
     rput now k (RZSet (assoc_put m ''0'' (case rlook now st k of Some (RZSet z) \<Rightarrow> z | _ \<Rightarrow> []))) st"

definition zrem :: "int \<Rightarrow> string \<Rightarrow> string \<Rightarrow> redis \<Rightarrow> redis" where
  "zrem now k m st = (case rlook now st k of
     Some (RZSet z) \<Rightarrow>
       (let z' = filter (\<lambda>x. fst x \<noteq> m) z in if z' = [] then del k st else rput now k (RZSet z') st)
   | _ \<Rightarrow> st)"

definition pexpire :: "int \<Rightarrow> int \<Rightarrow> string \<Rightarrow> redis \<Rightarrow> redis" where
  "pexpire now ttl k st = (case rlook now st k of None \<Rightarrow> st | Some v \<Rightarrow> assoc_put k (v, Some (now + ttl)) st)"

definition set_px :: "int \<Rightarrow> int \<Rightarrow> string \<Rightarrow> string \<Rightarrow> redis \<Rightarrow> redis" where
  "set_px now ttl k v st = assoc_put k (RStr v, Some (now + ttl)) st"

definition rGET :: "int \<Rightarrow> redis \<Rightarrow> string \<Rightarrow> unit + string option" where
  \<comment> \<open>\<open>redis.call('GET', k)\<close> raises an error on another type\<close>
  "rGET now st k = (case rlook now st k of None \<Rightarrow> Inr None | Some (RStr s) \<Rightarrow> Inr (Some s) | _ \<Rightarrow> Inl ())"

definition is_str :: "int \<Rightarrow> redis \<Rightarrow> string \<Rightarrow> bool" where
  "is_str now st k = (case rlook now st k of Some (RStr _) \<Rightarrow> True | _ \<Rightarrow> False)"

definition is_zset :: "int \<Rightarrow> redis \<Rightarrow> string \<Rightarrow> bool" where
  "is_zset now st k = (case rlook now st k of Some (RZSet _) \<Rightarrow> True | _ \<Rightarrow> False)"

definition is_hash :: "int \<Rightarrow> redis \<Rightarrow> string \<Rightarrow> bool" where
  "is_hash now st k = (case rlook now st k of Some (RHash _) \<Rightarrow> True | _ \<Rightarrow> False)"

fun run_writes :: "(nat \<Rightarrow> bool) \<Rightarrow> nat \<Rightarrow> (redis \<Rightarrow> redis) list \<Rightarrow> redis \<Rightarrow> bool \<times> redis" where
  \<comment> \<open>the writes of a script, from the i-th on, until one fails\<close>
  "run_writes lost i [] st = (True, st)"
| "run_writes lost i (w # ws) st = (if lost i then (False, st) else run_writes lost (Suc i) ws (w st))"

subsection \<open>Keys\<close>

record gen_keys =
  k_rank :: string
  k_entries :: string
  k_versions :: string
  k_members :: string
  k_meta :: string

definition cache_base :: "string \<Rightarrow> int64 \<Rightarrow> string" where
  "cache_base namespace i = namespace @ '':{'' @ format_int i @ ''}:lb:''"

definition generationKeys :: "string \<Rightarrow> int64 \<Rightarrow> string \<Rightarrow> gen_keys" where
  "generationKeys namespace i g =
     (let prefix = cache_base namespace i @ g @ '':''
      in \<lparr>k_rank = prefix @ ''rank'', k_entries = prefix @ ''entries'', k_versions = prefix @ ''versions'',
          k_members = prefix @ ''members'', k_meta = prefix @ ''meta''\<rparr>)"

definition key_list :: "gen_keys \<Rightarrow> string list" where
  "key_list ks = [k_rank ks, k_entries ks, k_versions ks, k_members ks, k_meta ks]"

subsection \<open>The version fence\<close>

definition gen_valid :: "int \<Rightarrow> redis \<Rightarrow> gen_keys \<Rightarrow> string \<Rightarrow> bool" where
  \<comment> \<open>the structural checks of \<open>validateGenerationLua\<close> and of \<open>updateLeaderboardLua\<close>\<close>
  "gen_valid now st ks g \<longleftrightarrow>
     is_zset now st (k_rank ks) \<and> is_hash now st (k_entries ks) \<and> is_hash now st (k_versions ks)
     \<and> is_hash now st (k_members ks) \<and> is_hash now st (k_meta ks)
     \<and> hget now st (k_meta ks) ''generation'' = Some (RT g) \<and> zscore now st (k_rank ks) ''~'' = Some ''0''
     \<and> (\<forall>k \<in> {k_entries ks, k_versions ks, k_members ks}.
          hget now st k ''__generation'' = Some (RT g) \<and> hlen now st k = zcard now st (k_rank ks))"

definition all_digits :: "string \<Rightarrow> bool" where
  "all_digits s \<longleftrightarrow> s \<noteq> [] \<and> list_all (\<lambda>c. digit_value c \<noteq> None) s"

definition version_text :: "rtext \<Rightarrow> bool" where
  "version_text v = (case v of RJson _ \<Rightarrow> False
     | RT s \<Rightarrow> length s = 19 \<and> all_digits s \<and> \<not> bytes_less s ''0000000000000000001''
          \<and> \<not> bytes_less ''9223372036854775807'' s)"

record update_args =
  ua_user :: string \<comment> \<open>ARGV[2]\<close>
  ua_version :: string \<comment> \<open>ARGV[3]\<close>
  ua_member :: string \<comment> \<open>ARGV[4]\<close>
  ua_payload :: json \<comment> \<open>ARGV[5]\<close>
  ua_suffix :: string \<comment> \<open>ARGV[6]\<close>

definition old_entry_ok :: "int \<Rightarrow> redis \<Rightarrow> gen_keys \<Rightarrow> update_args \<Rightarrow> bool" where
  \<comment> \<open>the stored version, member and entry of the user agree\<close>
  "old_entry_ok now st ks a =
     (case hget now st (k_versions ks) (ua_user a) of
        None \<Rightarrow> hget now st (k_members ks) (ua_user a) = None \<and> hget now st (k_entries ks) (ua_user a) = None
      | Some v \<Rightarrow> version_text v
          \<and> (case hget now st (k_members ks) (ua_user a) of
               Some (RT m) \<Rightarrow> length m = 43 \<and> drop 24 m = ua_suffix a
                 \<and> hget now st (k_entries ks) (ua_user a) \<noteq> None \<and> zscore now st (k_rank ks) m = Some ''0''
             | _ \<Rightarrow> False))"

definition not_newer :: "rtext \<Rightarrow> string \<Rightarrow> bool" where
  \<comment> \<open>\<open>incoming <= version\<close>\<close>
  "not_newer v incoming = (case v of RT s \<Rightarrow> \<not> bytes_less s incoming | RJson _ \<Rightarrow> False)"

definition update_writes :: "int \<Rightarrow> redis \<Rightarrow> gen_keys \<Rightarrow> update_args \<Rightarrow> rtext \<Rightarrow> (redis \<Rightarrow> redis) list" where
  "update_writes now st ks a state =
     [hset now (k_meta ks) ''state'' (RT ''dirty'')]
     @ (case hget now st (k_members ks) (ua_user a) of Some (RT m) \<Rightarrow> [zrem now (k_rank ks) m] | _ \<Rightarrow> [])
     @ [zadd now (k_rank ks) (ua_member a), hset now (k_entries ks) (ua_user a) (RJson (ua_payload a)),
        hset now (k_versions ks) (ua_user a) (RT (ua_version a)),
        hset now (k_members ks) (ua_user a) (RT (ua_member a)), hset now (k_meta ks) ''state'' state]"

definition lua_update :: "(nat \<Rightarrow> bool) \<Rightarrow> int \<Rightarrow> gen_keys \<Rightarrow> string \<Rightarrow> update_args \<Rightarrow> redis \<Rightarrow> int \<times> redis" where
  \<comment> \<open>the function \<open>update\<close> of \<open>updateLeaderboardLua\<close>\<close>
  "lua_update lost now ks target a st =
     (let state = hget now st (k_meta ks) ''state''
      in if \<not> gen_valid now st ks target then (-1, st)
         else if state \<notin> {Some (RT ''building''), Some (RT ''ready'')} then (-1, st)
         else if length (ua_version a) \<noteq> 19 \<or> \<not> all_digits (ua_version a) then (-2, st)
         else if \<not> old_entry_ok now st ks a then (-1, st)
         else if (case hget now st (k_versions ks) (ua_user a) of
                    None \<Rightarrow> False | Some v \<Rightarrow> not_newer v (ua_version a)) then (0, st)
         else case run_writes lost 0 (update_writes now st ks a (the state)) st of
                (True, st') \<Rightarrow> (1, st') | (False, st') \<Rightarrow> (-1, st'))"

subsection \<open>Errors and arguments\<close>

datatype cache_error = ErrCacheIncomplete | ErrGenerationChanged | ErrInvalidSnapshot | ErrCacheStale
  | ErrReconcileDue | ErrBuildBusy | RedisErr | CacheErr string

definition scriptUpdateResult :: "int option \<Rightarrow> cache_error option" where
  \<comment> \<open>\<open>None\<close> is an error reply of the server\<close>
  "scriptUpdateResult r = (case r of None \<Rightarrow> Some RedisErr
     | Some n \<Rightarrow> if n = 0 \<or> n = 1 then None
                else if n = -3 then Some ErrGenerationChanged
                else if n = -2 then Some ErrInvalidSnapshot
                else Some ErrCacheIncomplete)"

definition snapshotArguments :: "LeaderboardSnapshot \<Rightarrow> cache_error + update_args" where
  "snapshotArguments s =
     (if LeaderboardSnapshot_Validate s \<noteq> None then Inl ErrInvalidSnapshot
      else case enc_LeaderboardSnapshot s of
             None \<Rightarrow> Inl ErrInvalidSnapshot
           | Some payload \<Rightarrow>
               Inr \<lparr>ua_user = format_int (ls_UserID s),
                    ua_version = pad_int 19 (case parse_int64 (ls_Version s) of None \<Rightarrow> 0 | Some v \<Rightarrow> v),
                    ua_member = leaderboardMember s, ua_payload = payload,
                    ua_suffix = pad_int 19 (ls_UserID s)\<rparr>)"

record cache_config =
  cc_enabled :: bool
  cc_namespace :: string

definition mget :: "int \<Rightarrow> redis \<Rightarrow> string \<Rightarrow> string option" where
  \<comment> \<open>\<open>MGET\<close> answers nil for a key of another type\<close>
  "mget now st k = (case rlook now st k of Some (RStr s) \<Rightarrow> Some s | _ \<Rightarrow> None)"

definition pointers ::
  "(string \<Rightarrow> bool) \<Rightarrow> cache_config \<Rightarrow> redis_env \<Rightarrow> int64 \<Rightarrow> redis \<Rightarrow> cache_error + string \<times> string" where
  \<comment> \<open>the first argument tells canonical UUIDs\<close>
  "pointers canonical cfg env i st =
     (if r_down env then Inl RedisErr
      else let p = (\<lambda>name. mget (r_now env) st (cache_base (cc_namespace cfg) i @ name));
               bad = (\<lambda>v. case v of None \<Rightarrow> False | Some g \<Rightarrow> \<not> canonical g);
               val = (\<lambda>v. case v of None \<Rightarrow> [] | Some g \<Rightarrow> g)
           in if bad (p ''active'') \<or> bad (p ''building'') then Inl ErrCacheIncomplete
              else Inr (val (p ''active''), val (p ''building'')))"

subsection \<open>Relay and load\<close>

definition or_empty :: "string option \<Rightarrow> string" where
  "or_empty v = (case v of None \<Rightarrow> [] | Some s \<Rightarrow> s)"

definition relay_script ::
  "(nat \<Rightarrow> bool) \<Rightarrow> int \<Rightarrow> string \<Rightarrow> gen_keys \<Rightarrow> gen_keys \<Rightarrow> string \<Rightarrow> string \<Rightarrow> update_args \<Rightarrow> redis
    \<Rightarrow> int option \<times> redis" where
  \<comment> \<open>\<open>relayLeaderboard\<close>; the writes of the second update are counted from 8 on\<close>
  "relay_script lost now base ka kb active building a st =
     (case (rGET now st (base @ ''active''), rGET now st (base @ ''building'')) of
        (Inr pa, Inr pb) \<Rightarrow>
          (if or_empty pa \<noteq> active \<or> or_empty pb \<noteq> building then (Some (-3), st)
           else if active = [] \<and> building = [] then (Some (-1), st)
           else let (r1, st1) = (if active = [] then (0, st) else lua_update lost now ka active a st)
                in if building = [] then (Some (if r1 < 0 then -1 else 1), st1)
                   else case rGET now st1 (base @ ''lease'') of
                          Inl _ \<Rightarrow> (None, st1)
                        | Inr l \<Rightarrow>
                            (if l \<noteq> Some building then (Some (-3), st1)
                             else let (r2, st2) = lua_update (\<lambda>i. lost (i + 8)) now kb building a st1
                                  in (Some (if r1 < 0 \<or> r2 < 0 then -1 else 1), st2)))
      | _ \<Rightarrow> (None, st))"

definition cache_Apply ::
  "(string \<Rightarrow> bool) \<Rightarrow> cache_config \<Rightarrow> redis_env \<Rightarrow> redis_env \<Rightarrow> LeaderboardSnapshot \<Rightarrow> redis
    \<Rightarrow> cache_error option \<times> redis" where
  "cache_Apply canonical cfg env1 env2 s st =
     (case snapshotArguments s of
        Inl e \<Rightarrow> (Some e, st)
      | Inr a \<Rightarrow>
          (if \<not> cc_enabled cfg then (Some ErrCacheIncomplete, st)
           else case pointers canonical cfg env1 (ls_ContestID s) st of
                  Inl e \<Rightarrow> (Some e, st)
                | Inr (active, building) \<Rightarrow>
                    (if r_down env2 then (Some RedisErr, st)
                     else let (r, st') = relay_script (r_lost env2) (r_now env2)
                                (cache_base (cc_namespace cfg) (ls_ContestID s))
                                (generationKeys (cc_namespace cfg) (ls_ContestID s) active)
                                (generationKeys (cc_namespace cfg) (ls_ContestID s) building) active building a st
                          in (scriptUpdateResult r, st'))))"

definition cache_Load ::
  "cache_config \<Rightarrow> redis_env \<Rightarrow> string \<Rightarrow> LeaderboardSnapshot \<Rightarrow> redis \<Rightarrow> cache_error option \<times> redis" where
  "cache_Load cfg env g s st =
     (case snapshotArguments s of
        Inl e \<Rightarrow> (Some e, st)
      | Inr a \<Rightarrow>
          (if r_down env then (Some RedisErr, st)
           else let base = cache_base (cc_namespace cfg) (ls_ContestID s); now = r_now env
                in case (rGET now st (base @ ''lease''), rGET now st (base @ ''building'')) of
                     (Inr l, Inr b) \<Rightarrow>
                       (if l \<noteq> Some g \<or> b \<noteq> Some g then (scriptUpdateResult (Some (-3)), st)
                        else let (r, st') = lua_update (r_lost env) now
                                   (generationKeys (cc_namespace cfg) (ls_ContestID s) g) g a st
                             in (scriptUpdateResult (Some r), st'))
                   | _ \<Rightarrow> (scriptUpdateResult None, st)))"

subsection \<open>Generations\<close>

definition generationTTL :: int where
  "generationTTL = 600000"

definition buildLease :: int where
  "buildLease = 30000"

definition expire_all :: "int \<Rightarrow> int \<Rightarrow> string list \<Rightarrow> redis \<Rightarrow> redis" where
  "expire_all now ttl ks st = fold (pexpire now ttl) ks st"

definition prepare_script :: "(nat \<Rightarrow> bool) \<Rightarrow> int \<Rightarrow> gen_keys \<Rightarrow> string \<Rightarrow> redis \<Rightarrow> int option \<times> redis" where
  "prepare_script lost now ks g st =
     (if \<exists>k \<in> set (key_list ks). rlook now st k \<noteq> None then (Some 0, st)
      else if lost 0 then (None, st)
      else let st1 = pexpire now generationTTL (k_meta ks)
                 (hset now (k_meta ks) ''state'' (RT ''creating'') (hset now (k_meta ks) ''generation'' (RT g) st));
               mk = (\<lambda>k st. pexpire now generationTTL k (hset now k ''__generation'' (RT g) st))
           in case run_writes (\<lambda>i. lost (Suc i)) 0
                [\<lambda>st. pexpire now generationTTL (k_rank ks) (zadd now (k_rank ks) ''~'' st),
                 mk (k_entries ks), mk (k_versions ks), mk (k_members ks),
                 hset now (k_meta ks) ''state'' (RT ''building'')] st1 of
                (False, st2) \<Rightarrow> (Some (-1), st2)
              | (True, st2) \<Rightarrow> (Some 1, expire_all now generationTTL (key_list ks) st2))"

definition PrepareGeneration ::
  "(string \<Rightarrow> bool) \<Rightarrow> cache_config \<Rightarrow> redis_env \<Rightarrow> int64 \<Rightarrow> string \<Rightarrow> redis \<Rightarrow> cache_error option \<times> redis" where
  "PrepareGeneration canonical cfg env i g st =
     (if \<not> cc_enabled cfg then (Some ErrCacheIncomplete, st)
      else if \<not> canonical g \<or> i \<le> 0 then (Some (CacheErr ''invalid leaderboard generation''), st)
      else if r_down env then (Some RedisErr, st)
      else case prepare_script (r_lost env) (r_now env) (generationKeys (cc_namespace cfg) i g) g st of
             (None, st') \<Rightarrow> (Some RedisErr, st')
           | (Some r, st') \<Rightarrow> (if r \<noteq> 1 then Some ErrCacheIncomplete else None, st'))"

definition begin_script :: "(nat \<Rightarrow> bool) \<Rightarrow> int \<Rightarrow> string \<Rightarrow> gen_keys \<Rightarrow> string \<Rightarrow> redis \<Rightarrow> int option \<times> redis" where
  "begin_script lost now base ks g st =
     (if \<not> gen_valid now st ks g \<or> hget now st (k_meta ks) ''state'' \<noteq> Some (RT ''building'') then (Some (-1), st)
      else if rlook now st (base @ ''lease'') \<noteq> None then (Some 0, st)
      else let previous = or_empty (mget now st (base @ ''active''))
           in case run_writes lost 0
                [set_px now buildLease (base @ ''lease'') g, set_px now buildLease (base @ ''building'') g,
                 hset now (k_meta ks) ''previous'' (RT previous)] st of
                (False, st') \<Rightarrow> (None, st') | (True, st') \<Rightarrow> (Some 1, st'))"

definition BeginBuild ::
  "(string \<Rightarrow> bool) \<Rightarrow> cache_config \<Rightarrow> redis_env \<Rightarrow> redis_env \<Rightarrow> redis_env \<Rightarrow> int64 \<Rightarrow> string \<Rightarrow> redis
    \<Rightarrow> (cache_error + string) \<times> redis" where
  \<comment> \<open>the string is the new generation drawn by \<open>uuid.NewString\<close>\<close>
  "BeginBuild canonical cfg env1 env2 env3 i g st =
     (let base = cache_base (cc_namespace cfg) i
      in if r_down env1 then (Inl RedisErr, st)
         else if rlook (r_now env1) st (base @ ''lease'') \<noteq> None then (Inl ErrBuildBusy, st)
         else case PrepareGeneration canonical cfg env2 i g st of
                (Some e, st1) \<Rightarrow> (Inl e, st1)
              | (None, st1) \<Rightarrow>
                  (if r_down env3 then (Inl RedisErr, st1)
                   else case begin_script (r_lost env3) (r_now env3) base (generationKeys (cc_namespace cfg) i g) g st1 of
                          (None, st2) \<Rightarrow> (Inl RedisErr, st2)
                        | (Some r, st2) \<Rightarrow>
                            (if r = 0 then (Inl ErrBuildBusy, st2)
                             else case scriptUpdateResult (Some r) of
                                    Some e \<Rightarrow> (Inl e, st2) | None \<Rightarrow> (Inr g, st2))))"

definition build_owned :: "int \<Rightarrow> string \<Rightarrow> string \<Rightarrow> redis \<Rightarrow> unit + bool" where
  \<comment> \<open>the lease and the build pointer both name the generation\<close>
  "build_owned now base g st =
     (case (rGET now st (base @ ''lease''), rGET now st (base @ ''building'')) of
        (Inr l, Inr b) \<Rightarrow> Inr (l = Some g \<and> b = Some g) | _ \<Rightarrow> Inl ())"

definition renew_script :: "int \<Rightarrow> string \<Rightarrow> gen_keys \<Rightarrow> string \<Rightarrow> redis \<Rightarrow> int option \<times> redis" where
  "renew_script now base ks g st =
     (case build_owned now base g st of
        Inl _ \<Rightarrow> (None, st)
      | Inr owned \<Rightarrow>
          (if \<not> owned then (Some (-3), st)
           else if \<not> gen_valid now st ks g \<or> hget now st (k_meta ks) ''state'' \<noteq> Some (RT ''building'')
           then (Some (-1), st)
           else (Some 1, expire_all now generationTTL (key_list ks)
                   (expire_all now buildLease [base @ ''lease'', base @ ''building''] st))))"

definition RenewBuild :: "cache_config \<Rightarrow> redis_env \<Rightarrow> int64 \<Rightarrow> string \<Rightarrow> redis \<Rightarrow> cache_error option \<times> redis" where
  "RenewBuild cfg env i g st =
     (if r_down env then (Some RedisErr, st)
      else let (r, st') = renew_script (r_now env) (cache_base (cc_namespace cfg) i)
                 (generationKeys (cc_namespace cfg) i g) g st
           in (scriptUpdateResult r, st'))"

definition activate_script ::
  "(nat \<Rightarrow> bool) \<Rightarrow> int \<Rightarrow> string \<Rightarrow> gen_keys \<Rightarrow> string \<Rightarrow> string \<Rightarrow> redis \<Rightarrow> int option \<times> redis" where
  "activate_script lost now base ks g signature st =
     (case build_owned now base g st of
        Inl _ \<Rightarrow> (None, st)
      | Inr owned \<Rightarrow>
          (if \<not> owned then (Some (-3), st)
           else if \<not> gen_valid now st ks g \<or> hget now st (k_meta ks) ''state'' \<noteq> Some (RT ''building'')
           then (Some (-1), st)
           else let active = or_empty (mget now st (base @ ''active''));
                    previous = hget now st (k_meta ks) ''previous''
                in if active \<noteq> [] \<and> previous \<noteq> Some (RT active) then (Some (-3), st)
                   else case run_writes lost 0
                     [\<lambda>st. hset now (k_meta ks) ''built_ms'' (RT (format_int now))
                        (hset now (k_meta ks) ''signature'' (RT signature)
                          (hset now (k_meta ks) ''state'' (RT ''ready'') st)),
                      \<lambda>st. set_px now generationTTL (base @ ''active'') g
                        (expire_all now generationTTL (key_list ks) st)] st of
                     (False, st') \<Rightarrow> (None, st')
                   | (True, st') \<Rightarrow> (Some 1, del (base @ ''lease'') (del (base @ ''building'') st'))))"

definition ActivateBuild ::
  "cache_config \<Rightarrow> redis_env \<Rightarrow> int64 \<Rightarrow> string \<Rightarrow> string \<Rightarrow> redis \<Rightarrow> cache_error option \<times> redis" where
  "ActivateBuild cfg env i g signature st =
     (if r_down env then (Some RedisErr, st)
      else let (r, st') = activate_script (r_lost env) (r_now env) (cache_base (cc_namespace cfg) i)
                 (generationKeys (cc_namespace cfg) i g) g signature st
           in (scriptUpdateResult r, st'))"

definition AbandonBuild :: "cache_config \<Rightarrow> redis_env \<Rightarrow> int64 \<Rightarrow> string \<Rightarrow> redis \<Rightarrow> cache_error option \<times> redis" where
  "AbandonBuild cfg env i g st =
     (let base = cache_base (cc_namespace cfg) i; now = r_now env
      in if r_down env then (Some RedisErr, st)
         else case rGET now st (base @ ''lease'') of
                Inl _ \<Rightarrow> (Some RedisErr, st)
              | Inr l \<Rightarrow>
                  (if l \<noteq> Some g then (None, st)
                   else case rGET now st (base @ ''building'') of
                          Inl _ \<Rightarrow> (Some RedisErr, st)
                        | Inr b \<Rightarrow>
                            (None, del (base @ ''lease'') (if b = Some g then del (base @ ''building'') st else st))))"

definition servable :: "int \<Rightarrow> redis \<Rightarrow> gen_keys \<Rightarrow> string \<Rightarrow> string \<Rightarrow> bool" where
  \<comment> \<open>what \<open>verifyFreshness\<close> and \<open>readLeaderboard\<close> require of a generation\<close>
  "servable now st ks g signature \<longleftrightarrow> gen_valid now st ks g
     \<and> hget now st (k_meta ks) ''state'' = Some (RT ''ready'')
     \<and> hget now st (k_meta ks) ''signature'' = Some (RT signature)"

definition number_field :: "int \<Rightarrow> redis \<Rightarrow> string \<Rightarrow> string \<Rightarrow> int option" where
  \<comment> \<open>\<open>tonumber(redis.call('HGET', k, f))\<close> on the decimal texts the service writes\<close>
  "number_field now st k f = (case hget now st k f of Some (RT s) \<Rightarrow> parse_int64 s | _ \<Rightarrow> None)"

definition verify_script :: "(nat \<Rightarrow> bool) \<Rightarrow> int \<Rightarrow> string \<Rightarrow> gen_keys \<Rightarrow> string \<Rightarrow> string \<Rightarrow> int \<Rightarrow> redis \<Rightarrow> int option \<times> redis" where
  "verify_script lost now base ks g signature lag st =
     (case rGET now st (base @ ''active'') of
        Inl _ \<Rightarrow> (None, st)
      | Inr active \<Rightarrow>
          (if active \<noteq> Some g then (Some (-3), st)
           else if \<not> servable now st ks g signature then (Some (-1), st)
           else if lost 0 then (None, st)
           else let st1 = expire_all now generationTTL ((base @ ''active'') # key_list ks)
                      (hset now (k_meta ks) ''lag_ms'' (RT (format_int lag))
                        (hset now (k_meta ks) ''checked_ms'' (RT (format_int now)) st))
                in (Some (case number_field now st1 (k_meta ks) ''built_ms'' of
                            None \<Rightarrow> 2 | Some built \<Rightarrow> if now - built > 300000 then 2 else 1), st1)))"

definition VerifyFreshness ::
  "cache_config \<Rightarrow> redis_env \<Rightarrow> int64 \<Rightarrow> string \<Rightarrow> string \<Rightarrow> int \<Rightarrow> redis \<Rightarrow> cache_error option \<times> redis" where
  "VerifyFreshness cfg env i g signature lag st =
     (if r_down env then (Some RedisErr, st)
      else let (r, st') = verify_script (r_lost env) (r_now env) (cache_base (cc_namespace cfg) i)
                 (generationKeys (cc_namespace cfg) i g) g signature lag st
           in (if r = Some 2 then Some ErrReconcileDue else scriptUpdateResult r, st'))"

subsection \<open>Reading a page\<close>

fun insert_bytes :: "string \<Rightarrow> string list \<Rightarrow> string list" where
  "insert_bytes m [] = [m]"
| "insert_bytes m (n # ns) = (if bytes_less n m then n # insert_bytes m ns else m # n # ns)"

definition zrange :: "int \<Rightarrow> redis \<Rightarrow> string \<Rightarrow> nat \<Rightarrow> nat \<Rightarrow> string list" where
  \<comment> \<open>\<open>lim\<close> members from \<open>offset\<close> on; every score is zero, so members are in byte order\<close>
  "zrange now st k offset lim = (case rlook now st k of
     Some (RZSet z) \<Rightarrow> take lim (drop offset (foldr insert_bytes (map fst z) [])) | _ \<Rightarrow> [])"

definition member_pattern :: "string \<Rightarrow> bool" where
  "member_pattern m \<longleftrightarrow> length m = 43
     \<and> (case split_on CHR '':'' m of
          [a, b, c] \<Rightarrow> length a = 3 \<and> all_digits a \<and> all_digits b \<and> all_digits c | _ \<Rightarrow> False)"

definition member_user :: "string \<Rightarrow> string" where
  "member_user m = dropWhile (\<lambda>c. c = CHR ''0'') (drop 24 m)"

datatype read_reply = Code int | Page int "(string \<times> rtext \<times> rtext) list"

fun read_members :: "int \<Rightarrow> redis \<Rightarrow> gen_keys \<Rightarrow> string list \<Rightarrow> (string \<times> rtext \<times> rtext) list option" where
  "read_members now st ks [] = Some []"
| "read_members now st ks (m # ms) =
     (if \<not> member_pattern m then None
      else case (hget now st (k_entries ks) (member_user m), hget now st (k_versions ks) (member_user m)) of
             (Some entry, Some version) \<Rightarrow>
               (if hget now st (k_members ks) (member_user m) \<noteq> Some (RT m)
                   \<or> zscore now st (k_rank ks) m \<noteq> Some ''0'' then None
                else map_option (Cons (m, entry, version)) (read_members now st ks ms))
           | _ \<Rightarrow> None)"

definition read_script ::
  "int \<Rightarrow> string \<Rightarrow> gen_keys \<Rightarrow> string \<Rightarrow> string \<Rightarrow> int \<Rightarrow> int \<Rightarrow> int \<Rightarrow> redis \<Rightarrow> read_reply option" where
  "read_script now base ks g signature offset lim maxage st =
     (case rGET now st (base @ ''active'') of
        Inl _ \<Rightarrow> None
      | Inr active \<Rightarrow>
          Some (if active \<noteq> Some g then Code (-3)
           else if \<not> servable now st ks g signature then Code (-1)
           else case (number_field now st (k_meta ks) ''checked_ms'', number_field now st (k_meta ks) ''lag_ms'') of
                  (Some checked, Some lag) \<Rightarrow>
                    (if lag < 0 \<or> now < checked \<or> now - checked + lag > maxage then Code (-4)
                     else let total = int (zcard now st (k_rank ks)) - 1
                          in if offset < 0 \<or> lim < 1 \<or> lim > 100 then Code (-1)
                             else if total \<le> offset then Page total []
                             else case read_members now st ks
                                    (zrange now st (k_rank ks) (nat offset) (nat (min lim (total - offset)))) of
                                    None \<Rightarrow> Code (-1) | Some rows \<Rightarrow> Page total rows)
                | _ \<Rightarrow> Code (-4)))"

definition signature_text :: "Contest \<Rightarrow> string" where
  "signature_text k = format_int (bk_ID k) @ ''/'' @ format_int (bk_StartAt k div 1000000) @ ''/''
     @ format_int (bk_EndAt k div 1000000)
     @ concat (map (\<lambda>p. ''/'' @ format_int (bp_ProblemID p) @ '':'' @ format_int (bp_SortOrder p) @ '':''
         @ format_int (bp_Score p)) (bk_Problems k))"

definition contestSignature :: "(bytes \<Rightarrow> bytes) \<Rightarrow> Contest \<Rightarrow> string" where
  "contestSignature sha256 k = hex_encode (sha256 (signature_text k))"

definition page_entry ::
  "Contest \<Rightarrow> int64 \<Rightarrow> nat \<Rightarrow> string \<times> rtext \<times> rtext \<Rightarrow> LeaderboardEntry option" where
  \<comment> \<open>one row of the reply, checked against its snapshot; \<open>None\<close> is \<open>ErrCacheIncomplete\<close>\<close>
  "page_entry k offset n row =
     (case row of (member, RJson payload, RT version) \<Rightarrow>
        (case dec_LeaderboardSnapshot payload of
           None \<Rightarrow> None
         | Some s \<Rightarrow>
             (if LeaderboardSnapshot_Validate s \<noteq> None \<or> ls_ContestID s \<noteq> bk_ID k
                 \<or> member \<noteq> leaderboardMember s \<or> length (ls_Problems s) \<noteq> length (bk_Problems k)
                 \<or> version \<noteq> pad_int 19 (case parse_int64 (ls_Version s) of None \<Rightarrow> 0 | Some v \<Rightarrow> v)
                 \<or> map lp_ProblemID (ls_Problems s) \<noteq> map bp_ProblemID (bk_Problems k) then None
              else Some \<lparr>le_UserId = ls_UserID s, le_Rank = wrap32 (offset + int n + 1),
                         le_SolvedCount = ls_SolvedCount s, le_PenaltySeconds = ls_PenaltySeconds s,
                         le_Problems = map shown_problem (ls_Problems s)\<rparr>))
      | _ \<Rightarrow> None)"

fun page_entries ::
  "Contest \<Rightarrow> int64 \<Rightarrow> nat \<Rightarrow> (string \<times> rtext \<times> rtext) list \<Rightarrow> LeaderboardEntry list option" where
  "page_entries k offset n [] = Some []"
| "page_entries k offset n (row # rows) =
     (case page_entry k offset n row of None \<Rightarrow> None
      | Some e \<Rightarrow> map_option (Cons e) (page_entries k offset (Suc n) rows))"

definition maxCacheAge :: int where
  "maxCacheAge = 30000"

definition cache_Read ::
  "(string \<Rightarrow> bool) \<Rightarrow> (bytes \<Rightarrow> bytes) \<Rightarrow> cache_config \<Rightarrow> redis_env \<Rightarrow> redis_env \<Rightarrow> Contest \<Rightarrow> int32 \<Rightarrow> int32 \<Rightarrow> redis
    \<Rightarrow> cache_error + LeaderboardEntry list \<times> int64" where
  "cache_Read canonical sha256 cfg env1 env2 k page pageSize st =
     (if page \<le> 0 \<or> pageSize \<le> 0 \<or> pageSize > 100 then Inl (CacheErr ''invalid leaderboard page'')
      else if \<not> cc_enabled cfg then Inl ErrCacheIncomplete
      else bindE (pointers canonical cfg env1 (bk_ID k) st) (\<lambda>(g, _).
        if g = [] then Inl ErrCacheIncomplete
        else if r_down env2 then Inl RedisErr
        else let offset = wrap64 (wrap64 (page - 1) * pageSize)
             in case read_script (r_now env2) (cache_base (cc_namespace cfg) (bk_ID k))
                    (generationKeys (cc_namespace cfg) (bk_ID k) g) g (contestSignature sha256 k)
                    offset pageSize maxCacheAge st of
                  None \<Rightarrow> Inl RedisErr
                | Some (Code n) \<Rightarrow>
                    Inl (if n = -4 then ErrCacheStale else if n = -3 then ErrGenerationChanged else ErrCacheIncomplete)
                | Some (Page users rows) \<Rightarrow>
                    (if users < 0 \<or> int (length rows) \<noteq> max 0 (min pageSize (users - offset))
                     then Inl ErrCacheIncomplete
                     else case page_entries k offset 0 rows of
                            None \<Rightarrow> Inl ErrCacheIncomplete | Some items \<Rightarrow> Inr (items, users))))"

end
