(* ===== verification/Contest_Cache_Props.thy ===== *)
theory Contest_Cache_Props
  imports Contest_Cache
begin

text \<open>
  The version fence of the leaderboard cache: what one update script does to a generation, also when one
  of its writes fails.
\<close>

section \<open>Definitions\<close>

definition demo_snapshot :: LeaderboardSnapshot where
  "demo_snapshot = \<lparr>ls_Schema = 1, ls_ContestID = 1, ls_UserID = 2, ls_Version = ''7'', ls_SolvedCount = 1,
     ls_PenaltySeconds = 1, ls_Problems = [\<lparr>lp_ProblemID = 3, lp_Solved = True, lp_WrongAttempts = 0,
       lp_AcceptedAt = Some 6000000000, lp_PenaltySeconds = 1\<rparr>]\<rparr>"

definition demo_cache :: redis where
  \<comment> \<open>a new generation under construction\<close>
  "demo_cache = snd (prepare_script (\<lambda>_. False) 0 (generationKeys ''n'' 1 ''g'') ''g'' [])"

section \<open>Lemmas\<close>

subsection \<open>The store\<close>

lemma map_of_remove: "map_of (filter (\<lambda>x. fst x \<noteq> m) xs) m' = (if m' = m then None else map_of xs m')"
  by (induction xs) auto

lemma rlook_rput [simp]: "rlook now (rput now k v st) k' = (if k' = k then Some v else rlook now st k')"
  by (auto simp: rput_def rlook_def split: option.splits if_splits)

lemma map_of_rput_other [simp]: "k' \<noteq> k \<Longrightarrow> map_of (rput now k v st) k' = map_of st k'"
  by (simp add: rput_def)

lemma map_of_del: "map_of (del k st) k' = (if k' = k then None else map_of st k')"
  by (simp add: del_def map_of_remove)

lemma hget_hset [simp]:
  "hget now (hset now k f v st) k' f' = (if k' = k \<and> f' = f then Some v else hget now st k' f')"
  by (auto simp: hget_def hset_def split: option.splits rvalue.splits)

lemma zscore_hset [simp]:
  "k' \<noteq> k \<Longrightarrow> zscore now (hset now k f v st) k' m = zscore now st k' m"
  by (simp add: zscore_def hset_def)

lemma zscore_zadd [simp]:
  "zscore now (zadd now k m st) k' m' = (if k' = k \<and> m' = m then Some ''0'' else zscore now st k' m')"
  by (auto simp: zscore_def zadd_def split: option.splits rvalue.splits)

lemma hget_zadd [simp]: "k' \<noteq> k \<Longrightarrow> hget now (zadd now k m st) k' f = hget now st k' f"
  by (simp add: hget_def zadd_def)

lemma rlook_zrem_other: "k' \<noteq> k \<Longrightarrow> rlook now (zrem now k m st) k' = rlook now st k'"
  by (simp add: zrem_def Let_def rlook_def [of now _ k'] map_of_del split: option.split rvalue.split)

lemma hget_zrem [simp]: "k' \<noteq> k \<Longrightarrow> hget now (zrem now k m st) k' f = hget now st k' f"
  by (simp add: hget_def rlook_zrem_other)

lemma zscore_zrem [simp]:
  "zscore now (zrem now k m st) k' m' = (if k' = k \<and> m' = m then None else zscore now st k' m')"
proof (cases "k' = k")
  case False
  then show ?thesis by (simp add: zscore_def rlook_zrem_other)
next
  case True
  show ?thesis
  proof (cases "rlook now st k")
    case None
    then show ?thesis using True by (simp add: zscore_def zrem_def)
  next
    case (Some v)
    show ?thesis
    proof (cases v)
      case (RZSet z)
      let ?z = "filter (\<lambda>x. fst x \<noteq> m) z"
      have "rlook now (del k st) k = None" by (simp add: rlook_def map_of_del)
      then show ?thesis
        using True Some RZSet map_of_remove [of m z m']
        by (cases "?z = []") (auto simp: zscore_def zrem_def Let_def)
    qed (use True Some in \<open>simp_all add: zscore_def zrem_def\<close>)
  qed
qed

lemma writes_other [simp]:
  "k' \<noteq> k \<Longrightarrow> map_of (hset now k f v st) k' = map_of st k'"
  "k' \<noteq> k \<Longrightarrow> map_of (zadd now k m st) k' = map_of st k'"
  "k' \<noteq> k \<Longrightarrow> map_of (zrem now k m st) k' = map_of st k'"
  by (simp_all add: hset_def zadd_def zrem_def map_of_del Let_def split: option.split rvalue.split)

subsection \<open>Sequences of writes\<close>

lemma run_writes_all: "run_writes lost i ws st = (True, st') \<Longrightarrow> st' = fold (\<lambda>w s. w s) ws st"
  by (induction ws arbitrary: i st) (auto split: if_splits)

lemma run_writes_invariant:
  assumes "run_writes lost i ws st = (ok, st')" and "P st" and "\<And>w s. w \<in> set ws \<Longrightarrow> P s \<Longrightarrow> P (w s)"
  shows "P st'"
  using assms by (induction ws arbitrary: i st) (auto split: if_splits)

lemma run_writes_stopped:
  assumes "run_writes lost i (w # ws @ [w']) st = (False, st')" and "P (w st)"
    and "\<And>x s. x \<in> set ws \<Longrightarrow> P s \<Longrightarrow> P (x s)"
  shows "st' = st \<or> P st'"
proof (cases "lost i")
  case False
  have "run_writes lost j (ws @ [w']) s = (False, st') \<Longrightarrow> P s \<Longrightarrow> P st'" for j s
    using assms(3)
  proof (induction ws arbitrary: j s)
    case (Cons x xs)
    then show ?case by (auto split: if_splits)
  qed (auto split: if_splits)
  then show ?thesis using assms(1,2) False by auto
qed (use assms(1) in auto)

subsection \<open>One update\<close>

lemma generationKeys_distinct: "distinct (key_list (generationKeys ns i g))"
  by (simp add: key_list_def generationKeys_def Let_def)

lemma update_committed:
  assumes d: "distinct (key_list ks)" and m: "old = hget now st (k_members ks) (ua_user a)"
    and st': "st' = fold (\<lambda>w s. w s) (update_writes now st ks a state) st"
  shows "hget now st' (k_versions ks) u = (if u = ua_user a then Some (RT (ua_version a)) else hget now st (k_versions ks) u)"
    and "hget now st' (k_entries ks) u = (if u = ua_user a then Some (RJson (ua_payload a)) else hget now st (k_entries ks) u)"
    and "hget now st' (k_members ks) u = (if u = ua_user a then Some (RT (ua_member a)) else hget now st (k_members ks) u)"
    and "zscore now st' (k_rank ks) x = (if x = ua_member a then Some ''0''
           else if old = Some (RT x) then None else zscore now st (k_rank ks) x)"
    and "hget now st' (k_meta ks) f = (if f = ''state'' then Some state else hget now st (k_meta ks) f)"
  using d unfolding st' update_writes_def m key_list_def
  by (auto split: option.splits rtext.splits)

lemma update_torn:
  assumes "distinct (key_list ks)" and "run_writes lost 0 (update_writes now st ks a state) st = (False, st')"
  shows "st' = st \<or> hget now st' (k_meta ks) ''state'' = Some (RT ''dirty'')"
proof -
  define ws where "ws = (case hget now st (k_members ks) (ua_user a) of Some (RT m) \<Rightarrow> [zrem now (k_rank ks) m] | _ \<Rightarrow> [])
     @ [zadd now (k_rank ks) (ua_member a), hset now (k_entries ks) (ua_user a) (RJson (ua_payload a)),
        hset now (k_versions ks) (ua_user a) (RT (ua_version a)),
        hset now (k_members ks) (ua_user a) (RT (ua_member a))]"
  have "update_writes now st ks a state =
      hset now (k_meta ks) ''state'' (RT ''dirty'') # ws @ [hset now (k_meta ks) ''state'' state]"
    by (simp add: update_writes_def ws_def)
  then have run: "run_writes lost 0 (hset now (k_meta ks) ''state'' (RT ''dirty'') # ws
      @ [hset now (k_meta ks) ''state'' state]) st = (False, st')"
    using assms(2) by simp
  show ?thesis
    by (rule run_writes_stopped [OF run])
      (use assms(1) in \<open>auto simp: ws_def key_list_def split: option.splits rtext.splits\<close>)
qed

lemma update_elsewhere:
  assumes "run_writes lost 0 (update_writes now st ks a state) st = (ok, st')" and "k \<notin> set (key_list ks)"
  shows "map_of st' k = map_of st k"
  by (rule run_writes_invariant [OF assms(1), of "\<lambda>s. map_of s k = map_of st k"])
    (use assms(2) in \<open>auto simp: update_writes_def key_list_def split: option.splits rtext.splits\<close>)

lemma dirty_not_live:
  assumes "hget now st k ''state'' = Some (RT ''dirty'')"
  shows "hget later st k ''state'' = Some v \<Longrightarrow> v = RT ''dirty''"
  using assms by (auto simp: hget_def rlook_def split: option.splits rvalue.splits if_splits prod.splits)

lemma pad_version_order:
  assumes "0 \<le> v" "v \<le> max_int64" "0 \<le> w" "w \<le> max_int64"
  shows "bytes_less (pad_int 19 v) (pad_int 19 w) \<longleftrightarrow> v < w"
proof -
  have b: "nat v < 10 ^ 19" "nat w < 10 ^ 19" using assms by (simp_all add: max_int64_def nat_less_iff)
  show ?thesis
    using pad_int_fixed [of v 19] pad_int_fixed [of w 19] fixed_digits_order [OF b, of "[]" "[]"] assms b
    by (auto simp del: fixed_digits.simps)
qed

lemma update_cases:
  assumes "lua_update lost now ks g a st = (r, st')"
  obtains (refused) "r < 0" and "st' = st"
  | (older) v where "r = 0" and "st' = st" and "hget now st (k_versions ks) (ua_user a) = Some v"
      and "not_newer v (ua_version a)"
  | (written) ok state where "run_writes lost 0 (update_writes now st ks a state) st = (ok, st')"
      and "r = (if ok then 1 else -1)" and "hget now st (k_meta ks) ''state'' = Some state"
      and "state \<in> {RT ''building'', RT ''ready''}"
      and "\<And>v. hget now st (k_versions ks) (ua_user a) = Some v \<Longrightarrow> \<not> not_newer v (ua_version a)"
proof -
  let ?state = "hget now st (k_meta ks) ''state''" and ?old = "hget now st (k_versions ks) (ua_user a)"
  let ?run = "run_writes lost 0 (update_writes now st ks a (the ?state)) st"
  let ?blocked = "\<not> gen_valid now st ks g \<or> ?state \<notin> {Some (RT ''building''), Some (RT ''ready'')}
    \<or> length (ua_version a) \<noteq> 19 \<or> \<not> all_digits (ua_version a) \<or> \<not> old_entry_ok now st ks a"
  show ?thesis
  proof (cases ?blocked)
    case True
    then have "r < 0 \<and> st' = st" using assms by (auto simp: lua_update_def Let_def split: if_splits)
    then show ?thesis using refused by blast
  next
    case False
    then obtain state where state: "?state = Some state" "state \<in> {RT ''building'', RT ''ready''}" by blast
    show ?thesis
    proof (cases "\<exists>v. ?old = Some v \<and> not_newer v (ua_version a)")
      case True
      then show ?thesis using assms False older by (auto simp: lua_update_def Let_def)
    next
      case newer: False
      then have "(case ?old of None \<Rightarrow> False | Some v \<Rightarrow> not_newer v (ua_version a)) = False"
        by (auto split: option.splits)
      then have run: "(r, st') = (case ?run of (True, s1) \<Rightarrow> (1, s1) | (False, s1) \<Rightarrow> (-1, s1))"
        using assms False by (simp add: lua_update_def Let_def)
      obtain ok s1 where "?run = (ok, s1)" by (cases ?run)
      then have "run_writes lost 0 (update_writes now st ks a state) st = (ok, st')" "r = (if ok then 1 else -1)"
        using run state(1) by (cases ok; simp)+
      then show ?thesis using written state newer by blast
    qed
  qed
qed

section \<open>Properties\<close>

text \<open>
  C30. The cache never goes back and never shows half an update. Whatever writes of the script fail: when
  the script reports success, the entry, version and member of the user are the new ones, everything of
  the other users is as before, and the version that was stored is smaller; when it reports nothing to do,
  the stored version is at least as large; when it fails, either nothing changed or the generation is
  dirty, and then no read serves it and no update touches it, now or later. Keys of other generations are
  never written.
\<close>

theorem cache_updates_are_fenced:
  assumes "snapshotArguments s = Inr a" and "parse_int64 (ls_Version s) = Some v"
    and "ks = generationKeys ns i g" and "lua_update lost now ks g a st = (r, st')"
  shows "(r = 1 \<longrightarrow>
        (\<forall>u. hget now st' (k_versions ks) u =
               (if u = ua_user a then Some (RT (pad_int 19 v)) else hget now st (k_versions ks) u)
           \<and> hget now st' (k_entries ks) u =
               (if u = ua_user a then map_option RJson (enc_LeaderboardSnapshot s) else hget now st (k_entries ks) u))
        \<and> zscore now st' (k_rank ks) (leaderboardMember s) = Some ''0''
        \<and> hget now st' (k_meta ks) ''state'' = hget now st (k_meta ks) ''state'')
    \<and> (\<forall>w. hget now st (k_versions ks) (ua_user a) = Some (RT (pad_int 19 w)) \<and> 0 < w \<and> w \<le> max_int64 \<longrightarrow>
         (r = 1 \<longrightarrow> w < v) \<and> (r = 0 \<longrightarrow> v \<le> w))
    \<and> (r = 0 \<longrightarrow> st' = st)
    \<and> (r \<noteq> 0 \<and> r \<noteq> 1 \<longrightarrow> st' = st \<or> (\<forall>later signature lost' b.
         \<not> servable later st' ks g signature \<and> lua_update lost' later ks g b st' = (-1, st')))
    \<and> (\<forall>k. k \<notin> set (key_list ks) \<longrightarrow> map_of st' k = map_of st k)"
proof -
  have d: "distinct (key_list ks)" using generationKeys_distinct assms(3) by simp
  have valid: "LeaderboardSnapshot_Validate s = None"
    and a: "ua_version a = pad_int 19 v" "ua_member a = leaderboardMember s"
      "enc_LeaderboardSnapshot s = Some (ua_payload a)"
    using assms(1,2) by (auto simp: snapshotArguments_def split: if_splits option.splits)
  have v: "0 < v" "v \<le> max_int64" using valid_snapshot(1) [OF valid] assms(2) by auto
  have torn: "\<not> servable later st' ks g signature \<and> lua_update lost' later ks g b st' = (-1, st')"
    if dirty: "hget now st' (k_meta ks) ''state'' = Some (RT ''dirty'')" for later signature lost' b
    using dirty_not_live [OF dirty, of later]
    by (auto simp: servable_def lua_update_def Let_def)
  from assms(4) show ?thesis
  proof (cases rule: update_cases)
    case refused
    then show ?thesis by auto
  next
    case (older w)
    have "v \<le> u" if "w = RT (pad_int 19 u)" "0 < u" "u \<le> max_int64" for u
      using older(4) that v pad_version_order [of u v] by (auto simp: not_newer_def a(1))
    then show ?thesis using older by auto
  next
    case (written ok state)
    have newer: "w < v" if "hget now st (k_versions ks) (ua_user a) = Some (RT (pad_int 19 w))" "0 < w" "w \<le> max_int64" for w
      using written(5) [OF that(1)] that v pad_version_order [of w v] by (auto simp: not_newer_def a(1))
    have out: "\<forall>k. k \<notin> set (key_list ks) \<longrightarrow> map_of st' k = map_of st k" using update_elsewhere [OF written(1)] by blast
    show ?thesis
    proof (cases ok)
      case True
      then have "st' = fold (\<lambda>w s. w s) (update_writes now st ks a state) st"
        using written(1) run_writes_all [of lost 0 "update_writes now st ks a state" st st'] by simp
      note done1 = update_committed [OF d refl this]
      show ?thesis using True written(2,3) done1(1,2,4,5) out newer a by simp
    next
      case False
      then have "st' = st \<or> hget now st' (k_meta ks) ''state'' = Some (RT ''dirty'')"
        using update_torn [OF d, of lost now st a state st'] written(1) by simp
      then show ?thesis using False written(2) torn out by auto
    qed
  qed
qed


theorem cache_updates_are_fenced_witness:
  "\<exists>a st'. snapshotArguments demo_snapshot = Inr a
     \<and> lua_update (\<lambda>_. False) 5 (generationKeys ''n'' 1 ''g'') ''g'' a demo_cache = (1, st')
     \<and> hget 5 st' (k_versions (generationKeys ''n'' 1 ''g'')) ''2'' = Some (RT ''0000000000000000007'')
     \<and> zscore 5 st' (k_rank (generationKeys ''n'' 1 ''g'')) (leaderboardMember demo_snapshot) = Some ''0''"
proof -
  let ?ks = "generationKeys ''n'' 1 ''g''"
  define a where "a = projr (snapshotArguments demo_snapshot)"
  have "isl (snapshotArguments demo_snapshot) = False" by code_simp
  then have a: "snapshotArguments demo_snapshot = Inr a" unfolding a_def by (cases "snapshotArguments demo_snapshot") auto
  have p: "parse_int64 (ls_Version demo_snapshot) = Some 7" and u: "ua_user a = ''2''"
    and t: "pad_int 19 7 = ''0000000000000000007''"
    unfolding a_def by code_simp+
  have "fst (lua_update (\<lambda>_. False) 5 ?ks ''g'' (projr (snapshotArguments demo_snapshot)) demo_cache) = 1"
    by code_simp
  then obtain st' where r: "lua_update (\<lambda>_. False) 5 ?ks ''g'' a demo_cache = (1, st')"
    unfolding a_def by (metis prod.collapse)
  from cache_updates_are_fenced [OF a p refl r] have "hget 5 st' (k_versions ?ks) ''2'' = Some (RT (pad_int 19 7))"
    "zscore 5 st' (k_rank ?ks) (leaderboardMember demo_snapshot) = Some ''0''"
    using u by auto
  then show ?thesis using a r t by auto
qed

end
