(* ===== verification/Contest_Relay.thy ===== *)
theory Contest_Relay
  imports Contest_Cache_Props
begin

text \<open>
  The relay of the cache outbox: \<open>src/services/contest/internal/data/cache_outbox.go\<close> (claim, complete and
  fail one event) and \<open>CacheRelay.RunOnce\<close> in \<open>src/services/contest/internal/biz/cache_outbox.go\<close>. The
  sink is the interface \<open>LeaderboardSink\<close>, an argument of the relay with its contract as a locale;
  \<open>cache_Apply\<close> provides it. Between the claim and the settlement of an event other workers, the
  projection and the maintenance run: the state machine below has the two as separate steps.
\<close>

section \<open>Definitions\<close>

subsection \<open>The repository\<close>

record CacheOutboxEvent =
  ce_ID :: int64
  ce_ContestID :: int64
  ce_UserID :: int64
  ce_Version :: string
  ce_TraceParent :: string
  ce_TraceState :: string
  ce_Payload :: json
  ce_Retries :: int
  ce_Age :: duration

datatype relay_error = ErrLeaseLost | StoreErr contest_error | BadCall string

definition claimable_event :: "time \<Rightarrow> cache_outbox_row \<Rightarrow> bool" where
  "claimable_event now r \<longleftrightarrow> co_status r = ''pending'' \<and> co_next_retry_at r \<le> now
     \<and> (case co_lease_until r of None \<Rightarrow> True | Some t \<Rightarrow> t \<le> now)"

definition event_of_row :: "time \<Rightarrow> cache_outbox_row \<Rightarrow> CacheOutboxEvent" where
  "event_of_row now r = \<lparr>ce_ID = co_id r, ce_ContestID = co_contest r, ce_UserID = co_user r,
     ce_Version = format_int (co_version r), ce_TraceParent = or_empty (co_traceparent r),
     ce_TraceState = or_empty (co_tracestate r), ce_Payload = co_payload r, ce_Retries = co_retry_count r,
     ce_Age = max (now - co_created_at r) 0\<rparr>"

definition set_event :: "int64 \<Rightarrow> (cache_outbox_row \<Rightarrow> cache_outbox_row) \<Rightarrow> contest_db \<Rightarrow> contest_db" where
  "set_event i upd db =
     db\<lparr>contest_cache_outbox := map (\<lambda>r. if co_id r = i then upd r else r) (contest_cache_outbox db)\<rparr>"

definition lease_event :: "string \<Rightarrow> time \<Rightarrow> cache_outbox_row \<Rightarrow> cache_outbox_row" where
  "lease_event token until r = r\<lparr>co_lease_owner := Some token, co_lease_until := Some until\<rparr>"

definition claim_cache_tx ::
  "(int64 \<Rightarrow> bool) \<Rightarrow> string \<Rightarrow> duration \<Rightarrow> attempt_env \<Rightarrow> contest_db
    \<Rightarrow> contest_error + CacheOutboxEvent option \<times> contest_db" where
  \<comment> \<open>\<open>locked\<close> are the rows that \<open>SKIP LOCKED\<close> passes over\<close>
  "claim_cache_tx locked token lease env db =
     (let now = utc_timestamp6 env
      in stmt env ''select event''
           (case find (\<lambda>r. claimable_event now r \<and> \<not> locked (co_id r)) (sort_key co_id (contest_cache_outbox db)) of
              None \<Rightarrow> Inr (None, db)
            | Some r \<Rightarrow>
                stmt env ''lease event''
                  (constraint (length token \<le> 36) ''lease event''
                     (Inr (Some (event_of_row now r),
                           set_event (co_id r) (lease_event token (now + lease div 1000 * 1000)) db)))))"

definition ClaimCacheEvent ::
  "(string \<Rightarrow> bool) \<Rightarrow> (int64 \<Rightarrow> bool) \<Rightarrow> string \<Rightarrow> duration \<Rightarrow> attempt_env \<Rightarrow> contest_db
    \<Rightarrow> (relay_error + CacheOutboxEvent option) \<times> contest_db" where
  "ClaimCacheEvent uuid_ok locked token lease env db =
     (if \<not> uuid_ok token \<or> lease \<le> 0 \<or> lease > Minute then (Inl (BadCall ''invalid cache lease''), db)
      else case contest_tx env (claim_cache_tx locked token lease env) db of
             (Inl e, db') \<Rightarrow> (Inl (StoreErr e), db')
           | (Inr ev, db') \<Rightarrow> (Inr ev, db'))"

definition holds_lease :: "int64 \<Rightarrow> string \<Rightarrow> time \<Rightarrow> cache_outbox_row \<Rightarrow> bool" where
  "holds_lease i token now r \<longleftrightarrow> co_id r = i \<and> co_status r = ''pending'' \<and> co_lease_owner r = Some token
     \<and> (case co_lease_until r of None \<Rightarrow> False | Some t \<Rightarrow> now < t)"

definition settle_event ::
  "int64 \<Rightarrow> string \<Rightarrow> (time \<Rightarrow> cache_outbox_row \<Rightarrow> cache_outbox_row) \<Rightarrow> attempt_env \<Rightarrow> contest_db
    \<Rightarrow> relay_error option \<times> contest_db" where
  \<comment> \<open>one \<open>UPDATE\<close> of the row under its lease, and \<open>cacheLeaseResult\<close>\<close>
  "settle_event i token upd env db =
     (let now = utc_timestamp6 env;
          db' = db\<lparr>contest_cache_outbox :=
                     map (\<lambda>r. if holds_lease i token now r then upd now r else r) (contest_cache_outbox db)\<rparr>;
          n = length (filter (holds_lease i token now) (contest_cache_outbox db))
      in if fails env ''update event'' then (Some (StoreErr (sql_err env ''update event'')), if commit_lost env then db' else db)
         else (if n \<noteq> 1 then Some ErrLeaseLost else None, db'))"

definition complete_event :: "time \<Rightarrow> cache_outbox_row \<Rightarrow> cache_outbox_row" where
  "complete_event now r = r\<lparr>co_status := ''applied'', co_applied_at := Some now, co_lease_owner := None,
     co_lease_until := None, co_last_error := None\<rparr>"

definition fail_event :: "duration \<Rightarrow> bool \<Rightarrow> string \<Rightarrow> time \<Rightarrow> cache_outbox_row \<Rightarrow> cache_outbox_row" where
  "fail_event delay dead reason now r = r\<lparr>co_status := (if dead then ''dead'' else ''pending''),
     co_retry_count := co_retry_count r + 1, co_next_retry_at := now + delay div 1000 * 1000,
     co_lease_owner := None, co_lease_until := None, co_last_error := Some reason\<rparr>"

definition CompleteCacheEvent :: "int64 \<Rightarrow> string \<Rightarrow> attempt_env \<Rightarrow> contest_db \<Rightarrow> relay_error option \<times> contest_db" where
  "CompleteCacheEvent i token env db = settle_event i token complete_event env db"

definition FailCacheEvent ::
  "int64 \<Rightarrow> string \<Rightarrow> duration \<Rightarrow> bool \<Rightarrow> string \<Rightarrow> attempt_env \<Rightarrow> contest_db \<Rightarrow> relay_error option \<times> contest_db" where
  \<comment> \<open>the last conjunct: \<open>retry_count\<close> is an \<open>INT\<close> column\<close>
  "FailCacheEvent i token delay dead reason env db =
     (if delay < 0 \<or> delay > Hour then (Some (BadCall ''invalid cache retry delay''), db)
      else if \<exists>r \<in> set (contest_cache_outbox db). holds_lease i token (utc_timestamp6 env) r \<and> co_retry_count r \<ge> max_int32
      then (Some (StoreErr (SqlErr ''update event'' False)), db)
      else settle_event i token (fail_event delay dead (take 255 reason)) env db)"

subsection \<open>The relay\<close>

fun delay_loop :: "nat \<Rightarrow> duration \<Rightarrow> duration" where
  \<comment> \<open>the retries left to count and the delay\<close>
  "delay_loop 0 delay = delay"
| "delay_loop (Suc n) delay = (if delay < Minute then delay_loop n (wrap64 (delay * 2)) else delay)"

definition retry_delay :: "int \<Rightarrow> duration" where
  "retry_delay retries = min (delay_loop (nat retries) Second) Minute"

definition event_snapshot :: "CacheOutboxEvent \<Rightarrow> LeaderboardSnapshot option" where
  \<comment> \<open>the decoded payload when it is a valid snapshot of the event's identity\<close>
  "event_snapshot ev =
     (case dec_LeaderboardSnapshot (ce_Payload ev) of None \<Rightarrow> None
      | Some s \<Rightarrow>
          (if LeaderboardSnapshot_Validate s \<noteq> None \<or> ls_ContestID s \<noteq> ce_ContestID ev
              \<or> ls_UserID s \<noteq> ce_UserID ev \<or> ls_Version s \<noteq> ce_Version ev then None else Some s))"

record relay_result =
  re_Claimed :: bool
  re_Err :: "relay_error option"
  re_Outcome :: string

definition settled :: "string \<Rightarrow> string \<Rightarrow> relay_error option \<Rightarrow> relay_result" where
  \<comment> \<open>the outcome of a settlement: on success, on an error other than a lost lease\<close>
  "settled ok bad e = \<lparr>re_Claimed = True, re_Err = e,
     re_Outcome = (case e of None \<Rightarrow> ok | Some ErrLeaseLost \<Rightarrow> ''lease_lost'' | Some _ \<Rightarrow> bad)\<rparr>"

definition deliver ::
  "(LeaderboardSnapshot \<Rightarrow> 'st \<Rightarrow> cache_error option \<times> 'st) \<Rightarrow> (cache_error \<Rightarrow> string) \<Rightarrow> string
    \<Rightarrow> CacheOutboxEvent \<Rightarrow> attempt_env \<Rightarrow> contest_db \<Rightarrow> 'st \<Rightarrow> relay_result \<times> contest_db \<times> 'st" where
  \<comment> \<open>\<open>RunOnce\<close> from the decoding of a claimed event on; \<open>text\<close> is \<open>err.Error()\<close>\<close>
  "deliver sink text token ev env db st =
     (case event_snapshot ev of
        None \<Rightarrow>
          (let (e, db') = FailCacheEvent (ce_ID ev) token 0 True ''invalid leaderboard snapshot'' env db
           in (settled ''dead'' ''error'' e, db', st))
      | Some s \<Rightarrow>
          (case sink s st of
             (Some err, st') \<Rightarrow>
               (if ctx_done env then (\<lparr>re_Claimed = True, re_Err = Some (StoreErr CtxErr), re_Outcome = ''idle''\<rparr>, db, st')
                else let dead = (err = ErrInvalidSnapshot);
                         (e, db') = FailCacheEvent (ce_ID ev) token (retry_delay (ce_Retries ev)) dead
                           (take 255 (text err)) env db
                     in (settled (if dead then ''dead'' else ''retry'') ''error'' e, db', st'))
           | (None, st') \<Rightarrow>
               (let (e, db') = CompleteCacheEvent (ce_ID ev) token env db
                in (settled ''applied'' ''confirm_error'' e, db', st'))))"

definition relay_RunOnce ::
  "(string \<Rightarrow> bool) \<Rightarrow> (int64 \<Rightarrow> bool) \<Rightarrow> (LeaderboardSnapshot \<Rightarrow> 'st \<Rightarrow> cache_error option \<times> 'st)
    \<Rightarrow> (cache_error \<Rightarrow> string) \<Rightarrow> string \<Rightarrow> attempt_env \<Rightarrow> attempt_env \<Rightarrow> (contest_db \<Rightarrow> contest_db)
    \<Rightarrow> contest_db \<Rightarrow> 'st \<Rightarrow> relay_result \<times> contest_db \<times> 'st" where
  \<comment> \<open>\<open>meanwhile\<close> is what others do to the tables between the claim and the settlement\<close>
  "relay_RunOnce uuid_ok locked sink text token env1 env2 meanwhile db st =
     (case ClaimCacheEvent uuid_ok locked token (30 * Second) env1 db of
        (Inl e, db') \<Rightarrow> (\<lparr>re_Claimed = False, re_Err = Some e, re_Outcome = ''error''\<rparr>, db', st)
      | (Inr None, db') \<Rightarrow> (\<lparr>re_Claimed = False, re_Err = None, re_Outcome = ''idle''\<rparr>, db', st)
      | (Inr (Some ev), db') \<Rightarrow> deliver sink text token ev env2 (meanwhile db') st)"

subsection \<open>The state machine\<close>

definition bigint_db :: "contest_db \<Rightarrow> bool" where
  \<comment> \<open>the ranges of the \<open>BIGINT\<close> columns the snapshots are built from\<close>
  "bigint_db db \<longleftrightarrow> (\<forall>p \<in> set (contest_problems db). cp_problem p \<le> max_int64)
     \<and> (\<forall>p \<in> set (contest_participants db). pt_contest p \<le> max_int64 \<and> pt_user p \<le> max_int64)"

record relay_state =
  rs_db :: contest_db
  rs_flight :: "(string \<times> CacheOutboxEvent) list" \<comment> \<open>claimed events with their tokens\<close>
  rs_accepted :: "LeaderboardSnapshot list" \<comment> \<open>the snapshots the sink reported as applied\<close>

definition claim_flight ::
  "string \<Rightarrow> relay_error + CacheOutboxEvent option \<Rightarrow> (string \<times> CacheOutboxEvent) list
    \<Rightarrow> (string \<times> CacheOutboxEvent) list" where
  "claim_flight token r fl = (case r of Inr (Some ev) \<Rightarrow> (token, ev) # fl | _ \<Rightarrow> fl)"

definition accepted_by ::
  "(LeaderboardSnapshot \<Rightarrow> 'st \<Rightarrow> cache_error option \<times> 'st) \<Rightarrow> CacheOutboxEvent \<Rightarrow> 'st \<Rightarrow> LeaderboardSnapshot list" where
  "accepted_by sink ev st =
     (case event_snapshot ev of None \<Rightarrow> [] | Some s \<Rightarrow> if fst (sink s st) = None then [s] else [])"

inductive relay_step ::
  "('env \<Rightarrow> LeaderboardSnapshot \<Rightarrow> 'st \<Rightarrow> cache_error option \<times> 'st) \<Rightarrow> relay_state \<Rightarrow> relay_state \<Rightarrow> bool"
  for sink where
  tables: "contest_step (rs_db x) db' \<Longrightarrow> bigint_db db' \<Longrightarrow> relay_step sink x (x\<lparr>rs_db := db'\<rparr>)"
| claim: "ClaimCacheEvent uuid_ok locked token lease env (rs_db x) = (r, db') \<Longrightarrow>
    relay_step sink x (x\<lparr>rs_db := db', rs_flight := claim_flight token r (rs_flight x)\<rparr>)"
| deliver: "(token, ev) \<in> set (rs_flight x) \<Longrightarrow>
    deliver (sink senv) text token ev env (rs_db x) st = (res, db', st') \<Longrightarrow>
    relay_step sink x (x\<lparr>rs_db := db', rs_flight := remove1 (token, ev) (rs_flight x),
      rs_accepted := accepted_by (sink senv) ev st @ rs_accepted x\<rparr>)"

inductive relay_reach ::
  "('env \<Rightarrow> LeaderboardSnapshot \<Rightarrow> 'st \<Rightarrow> cache_error option \<times> 'st) \<Rightarrow> relay_state \<Rightarrow> bool" for sink where
  start: "relay_reach sink \<lparr>rs_db = empty_contest_db, rs_flight = [], rs_accepted = []\<rparr>"
| more: "relay_reach sink x \<Longrightarrow> relay_step sink x y \<Longrightarrow> relay_reach sink y"

inductive_cases relay_stepE: "relay_step sink x y"

definition cache_sink ::
  "(string \<Rightarrow> bool) \<Rightarrow> cache_config \<Rightarrow> redis_env \<times> redis_env \<Rightarrow> LeaderboardSnapshot \<Rightarrow> redis
    \<Rightarrow> cache_error option \<times> redis" where
  "cache_sink canonical cfg envs s st = cache_Apply canonical cfg (fst envs) (snd envs) s st"

definition row_core :: "cache_outbox_row \<Rightarrow> int64 \<times> int64 \<times> int64 \<times> int64 \<times> json" where
  "row_core r = (co_id r, co_contest r, co_user r, co_version r, co_payload r)"

definition carries :: "LeaderboardSnapshot \<Rightarrow> cache_outbox_row \<Rightarrow> bool" where
  "carries s r \<longleftrightarrow> dec_LeaderboardSnapshot (co_payload r) = Some s \<and> enc_LeaderboardSnapshot s = Some (co_payload r)
     \<and> LeaderboardSnapshot_Validate s = None \<and> ls_ContestID s = co_contest r \<and> ls_UserID s = co_user r
     \<and> ls_Version s = format_int (co_version r) \<and> co_contest r \<le> max_int64 \<and> co_user r \<le> max_int64"

definition row_ok :: "LeaderboardSnapshot list \<Rightarrow> cache_outbox_row \<Rightarrow> bool" where
  "row_ok accepted r \<longleftrightarrow> (\<exists>s. carries s r
     \<and> (co_status r = ''pending'' \<or> (co_status r = ''applied'' \<and> s \<in> set accepted)))"

definition box_ok :: "LeaderboardSnapshot list \<Rightarrow> contest_db \<Rightarrow> bool" where
  "box_ok accepted db \<longleftrightarrow> distinct (map co_id (contest_cache_outbox db))
     \<and> (\<forall>r \<in> set (contest_cache_outbox db). co_id r < next_cache_id db \<and> row_ok accepted r)"

definition event_of :: "contest_db \<Rightarrow> CacheOutboxEvent \<Rightarrow> bool" where
  "event_of db ev \<longleftrightarrow> (\<exists>r \<in> set (contest_cache_outbox db). ce_ID ev = co_id r \<and> ce_ContestID ev = co_contest r
     \<and> ce_UserID ev = co_user r \<and> ce_Version ev = format_int (co_version r) \<and> ce_Payload ev = co_payload r)"

definition relay_inv :: "relay_state \<Rightarrow> bool" where
  "relay_inv x \<longleftrightarrow> contest_inv (rs_db x) \<and> bigint_db (rs_db x) \<and> box_ok (rs_accepted x) (rs_db x)
     \<and> (\<forall>(token, ev) \<in> set (rs_flight x). event_of (rs_db x) ev)"

definition store_ok :: "LeaderboardSnapshot list \<Rightarrow> contest_db \<Rightarrow> bool" where
  "store_ok acc db \<longleftrightarrow> contest_inv db \<and> bigint_db db \<and> box_ok acc db"

definition same_box :: "contest_db \<Rightarrow> contest_db \<Rightarrow> bool" where
  "same_box db db' \<longleftrightarrow> contest_cache_outbox db' = contest_cache_outbox db \<and> next_cache_id db' = next_cache_id db"

definition keeps_rows :: "contest_db \<Rightarrow> contest_db \<Rightarrow> bool" where
  "keeps_rows db db' \<longleftrightarrow> row_core ` set (contest_cache_outbox db) \<subseteq> row_core ` set (contest_cache_outbox db')"

definition touches_rows :: "contest_db \<Rightarrow> contest_db \<Rightarrow> bool" where
  "touches_rows db db' \<longleftrightarrow> (\<exists>g. (\<forall>r. row_core (g r) = row_core r)
     \<and> db' = db\<lparr>contest_cache_outbox := map g (contest_cache_outbox db)\<rparr>)"

definition same_statuses :: "contest_db \<Rightarrow> contest_db \<Rightarrow> bool" where
  "same_statuses db db' \<longleftrightarrow> (\<forall>r' \<in> set (contest_cache_outbox db'). \<exists>r \<in> set (contest_cache_outbox db).
     row_core r' = row_core r \<and> co_status r' = co_status r)"

definition demo_active_cache :: redis where
  "demo_active_cache = set_px 0 generationTTL (cache_base ''n'' 1 @ ''active'') ''g'' demo_cache"

definition demo_relay_claim :: "(relay_error + CacheOutboxEvent option) \<times> contest_db" where
  "demo_relay_claim = ClaimCacheEvent (\<lambda>_. True) (\<lambda>_. False) ''t'' (30 * Second) (calm_contest 8000000000 0) demo_contest_projected"

definition demo_relay_event :: CacheOutboxEvent where
  "demo_relay_event = \<lparr>ce_ID = 1, ce_ContestID = 1, ce_UserID = 2, ce_Version = ''1'', ce_TraceParent = [],
     ce_TraceState = [], ce_Payload = co_payload (hd (contest_cache_outbox demo_contest_projected)),
     ce_Retries = 0, ce_Age = 1000000000\<rparr>"

definition demo_sink :: "redis_env \<times> redis_env" where
  "demo_sink = (\<lparr>r_down = False, r_now = 0, r_lost = (\<lambda>_. False)\<rparr>, \<lparr>r_down = False, r_now = 0, r_lost = (\<lambda>_. False)\<rparr>)"

definition demo_applied :: contest_db where
  "demo_applied = snd (CompleteCacheEvent 1 ''t'' (calm_contest 8000000000 0) (snd demo_relay_claim))"

definition demo_announced :: LeaderboardSnapshot where
  "demo_announced = demo_snapshot\<lparr>ls_Version := ''1''\<rparr>"

abbreviation demo_cache_sink :: "redis_env \<times> redis_env \<Rightarrow> LeaderboardSnapshot \<Rightarrow> redis \<Rightarrow> cache_error option \<times> redis" where
  "demo_cache_sink \<equiv> cache_sink (\<lambda>_. True) \<lparr>cc_enabled = True, cc_namespace = ''n''\<rparr>"

section \<open>Lemmas\<close>

subsection \<open>Snapshots that fit their columns\<close>

lemma rebuild_loop_wrong:
  "pr_WrongAttempts res \<in> {-2147483648..max_int32} \<Longrightarrow>
   pr_WrongAttempts (rebuild_loop start facts res) \<in> {-2147483648..max_int32}"
  by (induction start facts res rule: rebuild_loop.induct)
    (auto simp: rebuild_loop.simps(2) Let_def wrap32_range split: if_splits)

lemma stored_wrong_attempts:
  assumes "scores_ok db" and "r \<in> set (contest_problem_results db)"
  shows "rr_wrong_attempts r \<in> {-2147483648..max_int32}"
proof -
  obtain s where "row_matches r (Rebuild s (key_facts (rr_contest r) (rr_user r) (rr_problem r) db))"
    using assms by (fastforce simp: scores_ok_def)
  then show ?thesis
    using rebuild_loop_wrong [of zero_ProblemResult]
    by (auto simp: row_matches_def Rebuild_def zero_ProblemResult_def max_int32_def)
qed

lemma summary_decodes:
  assumes "scores_ok db" and "bigint_db db" and "c \<le> max_int64" and "u \<le> max_int64"
    and valid: "LeaderboardSnapshot_Validate (current_summary c u r db) = None"
    and enc: "enc_LeaderboardSnapshot (current_summary c u r db) = Some j"
  shows "dec_LeaderboardSnapshot j = Some (current_summary c u r db)"
proof -
  let ?s = "current_summary c u r db"
  have ids: "ls_ContestID ?s = c" "ls_UserID ?s = u" by (simp_all add: current_summary_def)
  note v = valid_snapshot [OF valid]
  have "lp_ProblemID p \<le> max_int64 \<and> lp_WrongAttempts p \<le> max_int32" if "p \<in> set (ls_Problems ?s)" for p
  proof -
    from that obtain q where q: "q \<in> set (problems_in_order c db)" "p = leaderboard_problem u db q"
      by (auto simp: current_summary_def)
    then have "cp_problem q \<le> max_int64" using assms(2) by (auto simp: bigint_db_def problems_in_order_def)
    moreover have "rr_wrong_attempts x \<le> max_int32"
      if "find (\<lambda>r. rr_key r = (cp_contest q, u, cp_problem q)) (contest_problem_results db) = Some x" for x
      using stored_wrong_attempts [OF assms(1), of x] that by (auto dest: find_key)
    ultimately show ?thesis
      using q(2) by (auto simp: leaderboard_problem_def max_int32_def split: option.splits)
  qed
  then show ?thesis
    using v assms(3,4) ids
    by (intro dec_enc_LeaderboardSnapshot [OF enc]) (force simp: min_int64_def max_int64_def max_int32_def)+
qed

subsection \<open>The outbox under the steps of the store\<close>

lemma box_ok_frame:
  "contest_cache_outbox db' = contest_cache_outbox db \<Longrightarrow> next_cache_id db' = next_cache_id db \<Longrightarrow>
   box_ok acc db' = box_ok acc db"
  by (simp add: box_ok_def)

lemma store_fact_box:
  assumes st: "store_fact start f env db = Inr db'" and inv: "contest_inv db'" "bigint_db db" "box_ok acc db"
    and "is_participant (sj_ContestID f) (sj_UserID f) db"
  shows "box_ok acc db'"
  using st
proof (rule store_fact_Inr)
  let ?c = "sj_ContestID f" and ?u = "sj_UserID f" and ?pj = "projected start f env db"
  let ?row = "new_user_result env ?c ?u ?pj" and ?t = "totalled ?c ?u env ?pj" and ?v = "next_version ?c ?u ?pj"
  fix payload
  assume valid: "LeaderboardSnapshot_Validate (current_summary ?c ?u ?row ?t) = None"
    and enc: "enc_LeaderboardSnapshot (current_summary ?c ?u ?row ?t) = Some payload"
    and db': "db' = announced ?c ?u env ?v payload ?t"
  have same: "current_summary ?c ?u ?row ?t = current_summary ?c ?u ?row db'"
    by (simp add: current_summary_def problems_in_order_def leaderboard_problem_def db' announced_def)
  have big: "bigint_db db'" using inv(2) store_fact_frame(2,3) [OF st] by (simp add: bigint_db_def)
  have ids: "?c \<le> max_int64" "?u \<le> max_int64"
    using assms(5) inv(2) by (auto simp: is_participant_def bigint_db_def)
  have scores: "scores_ok db'" using inv(1) by (simp add: contest_inv_def)
  let ?e = "new_cache_row env ?c ?u ?v payload ?t"
  have "dec_LeaderboardSnapshot payload = Some (current_summary ?c ?u ?row db')"
    by (rule summary_decodes [OF scores big ids valid [unfolded same] enc [unfolded same]])
  then have "carries (current_summary ?c ?u ?row db') ?e"
    using valid enc ids same
    by (simp add: carries_def new_cache_row_def current_summary_def new_user_result_def)
  then have "row_ok acc ?e" by (auto simp: row_ok_def new_cache_row_def)
  moreover have "contest_cache_outbox db' = contest_cache_outbox db @ [?e]" "next_cache_id db' = next_cache_id db + 1"
      "co_id ?e = next_cache_id db"
    by (simp_all add: db' announced_def totalled_def projected_def scored_def stored_results_def new_cache_row_def)
  ultimately show ?thesis using inv(3) by (fastforce simp: box_ok_def)
qed

lemma applyProjectionTx_box:
  assumes "store_ok acc db" and "applyProjectionTx event env db = Inr (b, db')"
  shows "store_ok acc db'"
  using assms(2)
proof (cases rule: applyProjectionTx_Inr)
  case seen
  then show ?thesis using assms(1) by simp
next
  case (fresh contest)
  let ?m = "mark_event event db"
  have inv': "contest_inv db'" using applyProjectionTx_inv [OF _ assms(2)] assms(1) by (simp add: store_ok_def)
  have m: "bigint_db ?m" "box_ok acc ?m"
    using assms(1) by (simp_all add: store_ok_def bigint_db_def box_ok_def) (simp_all add: mark_event_def)
  from fresh(4) show ?thesis
  proof (cases rule: project_fact_Inr)
    case (outdated old)
    then show ?thesis using m inv' by (simp add: store_ok_def)
  next
    case stored
    have "bigint_db db'" using m(1) store_fact_frame(2,3) [OF stored(1)] by (simp add: bigint_db_def)
    then show ?thesis
      using store_fact_box [OF stored(1) inv' m stored(2)] inv' by (simp add: store_ok_def)
  qed
qed

lemma same_box_refl: "same_box db db"
  by (simp add: same_box_def)

lemma replaceProblems_same_box:
  assumes "replaceProblems j ps env db = Inr db'"
  shows "same_box db db'"
proof -
  from replaceProblems_Inr(2) [OF assms] obtain rows where "db' = db\<lparr>contest_problems := rows\<rparr>" ..
  then show ?thesis by (simp add: same_box_def)
qed

lemma edits_keep_box:
  "create_contest_tx k env db = Inr (k', db') \<Longrightarrow> same_box db db'"
  "update_contest_tx k env db = Inr (w, db') \<Longrightarrow> same_box db db'"
  "archive_tx i env db = Inr (w, db') \<Longrightarrow> same_box db db'"
  "join_tx c u env db = Inr (t, db') \<Longrightarrow> same_box db db'"
proof -
  assume "create_contest_tx k env db = Inr (k', db')"
  then show "same_box db db'"
    by (auto simp: create_contest_tx_def Let_def same_box_def dest: replaceProblems_same_box)
next
  assume "update_contest_tx k env db = Inr (w, db')"
  then show "same_box db db'"
    by (auto simp: update_contest_tx_def Let_def same_box_def dest: replaceProblems_same_box split: option.splits)
next
  assume "archive_tx i env db = Inr (w, db')"
  then show "same_box db db'" by (auto simp: archive_tx_def same_box_def split: option.splits)
next
  assume "join_tx c u env db = Inr (t, db')"
  then have "\<exists>ps. db' = db\<lparr>contest_participants := ps\<rparr>"
    by (auto simp: join_tx_def Let_def split: option.splits if_splits intro: exI [of _ "contest_participants db"])
  then show "same_box db db'" by (auto simp: same_box_def)
qed

lemma same_box_tx:
  assumes "withContestTx envs body db = (r, db')" and "\<And>i db a db'. body (envs i) db = Inr (a, db') \<Longrightarrow> same_box db db'"
  shows "same_box db db'"
proof (rule withContestTx_rel [OF assms(1)])
  show "same_box a b \<Longrightarrow> same_box b c \<Longrightarrow> same_box a c" for a b c by (simp add: same_box_def)
qed (simp add: same_box_refl, rule assms(2))

lemma contest_step_box_cases:
  assumes "contest_step db db'" and "contest_inv db"
  obtains (quiet) "same_box db db'"
  | (projection) envs event r where "ApplyProjection envs event db = (r, db')"
  using assms(1)
proof cases
  case (project envs event r)
  then show ?thesis by (rule projection)
next
  case (create env k r)
  then have "same_box db db'"
    using contest_tx_atomic [OF create [unfolded repo_Create_def]] by (auto intro: same_box_refl edits_keep_box(1))
  then show ?thesis by (rule quiet)
next
  case (update envs env2 k r)
  then obtain r' where "db' = db \<or> withContestTx envs (update_contest_tx k) db = (r', db')"
    by (auto simp: repo_Update_def split: if_splits prod.splits sum.splits)
  then show ?thesis by (intro quiet) (auto intro: same_box_refl same_box_tx edits_keep_box(2))
next
  case (archive envs env2 i r)
  then obtain r' where "withContestTx envs (archive_tx i) db = (r', db')"
    by (auto simp: repo_Archive_def split: prod.splits sum.splits)
  then show ?thesis by (intro quiet) (rule same_box_tx, assumption, rule edits_keep_box(3))
next
  case (join envs c u r)
  then show ?thesis unfolding repo_Join_def by (intro quiet) (rule same_box_tx, assumption, rule edits_keep_box(4))
next
  case (backfill c u env r)
  from contest_tx_atomic [OF backfill [unfolded backfillUser_def]] have "db' = db"
    using assms(2) backfill_noop by blast
  then show ?thesis by (intro quiet) (simp add: same_box_def)
qed

lemma contest_step_box:
  assumes "contest_step db db'" and "store_ok acc db"
  shows "box_ok acc db'"
proof -
  from assms(2) have "contest_inv db" by (simp add: store_ok_def)
  with assms(1) show ?thesis
  proof (cases rule: contest_step_box_cases)
    case quiet
    then have "box_ok acc db' = box_ok acc db" by (intro box_ok_frame) (simp_all add: same_box_def)
    then show ?thesis using assms(2) by (simp add: store_ok_def)
  next
    case (projection envs event r)
    have "store_ok acc db'"
      by (rule withContestTx_preserves [OF projection [unfolded ApplyProjection_def], of "store_ok acc"])
        (use assms(2) applyProjectionTx_box in blast)+
    then show ?thesis by (simp add: store_ok_def)
  qed
qed

text \<open>No step of the store removes a row or changes what it announces.\<close>

lemma applyProjectionTx_keeps_rows: "applyProjectionTx event env db = Inr (b, db') \<Longrightarrow> keeps_rows db db'"
  by (auto elim!: applyProjectionTx_Inr project_fact_Inr store_fact_Inr
      simp: keeps_rows_def announced_def totalled_def projected_def scored_def stored_results_def)

lemma keeps_rows_trans: "keeps_rows a b \<Longrightarrow> keeps_rows b c \<Longrightarrow> keeps_rows a c"
  by (auto simp: keeps_rows_def)

lemma contest_step_keeps_rows:
  assumes "contest_step db db'" and "contest_inv db"
  shows "keeps_rows db db'"
  using assms
proof (cases rule: contest_step_box_cases)
  case (projection envs event r)
  show ?thesis
    by (rule withContestTx_rel [OF projection [unfolded ApplyProjection_def], of keeps_rows])
      (simp add: keeps_rows_def, rule keeps_rows_trans, assumption+, rule applyProjectionTx_keeps_rows)
qed (simp add: same_box_def keeps_rows_def)

subsection \<open>The steps of the relay\<close>

text \<open>A claim and a settlement change the lease, the status and the retry columns of rows only.\<close>

lemma row_core_eq:
  "row_core r' = row_core r \<longleftrightarrow> co_id r' = co_id r \<and> co_contest r' = co_contest r \<and> co_user r' = co_user r
     \<and> co_version r' = co_version r \<and> co_payload r' = co_payload r"
  by (auto simp: row_core_def)

lemma carries_core: "row_core r' = row_core r \<Longrightarrow> carries s r' = carries s r"
  by (simp add: row_core_eq carries_def)

lemma touches_rows_keeps: "touches_rows db db' \<Longrightarrow> keeps_rows db db'"
  by (auto simp: touches_rows_def keeps_rows_def) (metis image_eqI)

lemma touches_rows_refl: "touches_rows db db"
  unfolding touches_rows_def by (intro exI [of _ id]) simp

lemma touches_rows_inv:
  assumes "touches_rows db db'" and "contest_inv db"
  shows "contest_inv db'"
proof -
  obtain g where g: "\<And>r. row_core (g r) = row_core r" "db' = db\<lparr>contest_cache_outbox := map g (contest_cache_outbox db)\<rparr>"
    using assms(1) by (auto simp: touches_rows_def)
  have sum: "current_summary c u r db' = current_summary c u r db" for c u r
    by (simp add: current_summary_def problems_in_order_def leaderboard_problem_def g(2))
  have ann: "announces_totals db' u (g e) = announces_totals db u e" for u e
    using g(1) [of e] by (simp add: announces_totals_def sum row_core_eq)
  have core: "co_contest (g e) = co_contest e" "co_user (g e) = co_user e" "co_version (g e) = co_version e" for e
    using g(1) [of e] by (simp_all add: row_core_eq)
  have box: "contest_cache_outbox db' = map g (contest_cache_outbox db)" "contest_user_results db' = contest_user_results db"
    by (simp_all add: g(2))
  have "outbox_ok db'"
    using assms(2) by (simp add: contest_inv_def outbox_ok_def ann core box)
  moreover have "facts_ok db'" "scores_ok db'" "totals_ok db'"
    using assms(2)
    by (simp_all add: contest_inv_def facts_ok_def scores_ok_def totals_ok_def g(2) interval_def find_contest_def
        key_facts_def user_problem_results_def)
  ultimately show ?thesis by (simp add: contest_inv_def)
qed

lemma touches_rows_box:
  assumes "touches_rows db db'" and "box_ok acc db" and "set acc \<subseteq> set acc'"
    and "\<And>r r'. r \<in> set (contest_cache_outbox db) \<Longrightarrow> r' \<in> set (contest_cache_outbox db') \<Longrightarrow> row_core r' = row_core r
      \<Longrightarrow> co_status r' = co_status r \<or> (\<exists>s. carries s r \<and> (co_status r' = ''pending'' \<or> (co_status r' = ''applied'' \<and> s \<in> set acc')))"
  shows "box_ok acc' db'"
proof -
  obtain g where g: "\<And>r. row_core (g r) = row_core r" "db' = db\<lparr>contest_cache_outbox := map g (contest_cache_outbox db)\<rparr>"
    using assms(1) by (auto simp: touches_rows_def)
  have "row_ok acc' (g r)" if r: "r \<in> set (contest_cache_outbox db)" for r
  proof -
    have ok: "row_ok acc r" using assms(2) r by (simp add: box_ok_def)
    have "g r \<in> set (contest_cache_outbox db')" using g(2) r by simp
    from assms(4) [OF r this g(1)] show ?thesis
    proof
      assume "co_status (g r) = co_status r"
      then show ?thesis using ok assms(3) carries_core [OF g(1)] by (auto simp: row_ok_def)
    next
      assume "\<exists>s. carries s r \<and> (co_status (g r) = ''pending'' \<or> (co_status (g r) = ''applied'' \<and> s \<in> set acc'))"
      then show ?thesis using carries_core [OF g(1)] by (auto simp: row_ok_def)
    qed
  qed
  moreover have "co_id (g r) = co_id r" for r using g(1) [of r] by (simp add: row_core_eq)
  ultimately show ?thesis using assms(2) by (simp add: box_ok_def g(2) comp_def)
qed

lemma event_of_kept:
  assumes "keeps_rows db db'" and "event_of db ev"
  shows "event_of db' ev"
proof -
  obtain r where r: "r \<in> set (contest_cache_outbox db)" "ce_ID ev = co_id r" "ce_ContestID ev = co_contest r"
    "ce_UserID ev = co_user r" "ce_Version ev = format_int (co_version r)" "ce_Payload ev = co_payload r"
    using assms(2) by (auto simp: event_of_def)
  obtain r' where "r' \<in> set (contest_cache_outbox db')" "row_core r' = row_core r"
    using assms(1) r(1) unfolding keeps_rows_def by (metis imageE image_eqI subsetD)
  with r show ?thesis unfolding event_of_def by (intro bexI [of _ r']) (simp_all add: row_core_eq)
qed

lemma event_of_carries:
  assumes "event_of db ev" and "box_ok acc db"
  obtains s where "event_snapshot ev = Some s" and "LeaderboardSnapshot_Validate s = None"
    and "enc_LeaderboardSnapshot s \<noteq> None"
    and "\<And>r. r \<in> set (contest_cache_outbox db) \<Longrightarrow> co_id r = ce_ID ev \<Longrightarrow> carries s r"
proof -
  obtain r where r: "r \<in> set (contest_cache_outbox db)" "ce_ID ev = co_id r" "ce_ContestID ev = co_contest r"
    "ce_UserID ev = co_user r" "ce_Version ev = format_int (co_version r)" "ce_Payload ev = co_payload r"
    using assms(1) by (auto simp: event_of_def)
  obtain s where s: "carries s r" using assms(2) r(1) by (auto simp: box_ok_def row_ok_def)
  have "x = r" if "x \<in> set (contest_cache_outbox db)" "co_id x = ce_ID ev" for x
    using assms(2) r(1,2) that by (auto simp: box_ok_def distinct_map inj_on_def)
  then show ?thesis using s r by (intro that [of s]) (auto simp: carries_def event_snapshot_def)
qed

lemma find_in_set: "find P xs = Some x \<Longrightarrow> x \<in> set xs \<and> P x"
  by (induction xs) (auto split: if_splits)

lemma same_statuses_refl: "same_statuses db db"
  by (auto simp: same_statuses_def)

lemma claim_touches:
  assumes "ClaimCacheEvent uuid_ok locked token lease env db = (r, db')"
  shows "touches_rows db db'" and "\<And>ev. r = Inr (Some ev) \<Longrightarrow> event_of db ev"
    and "same_statuses db db'"
proof -
  have upd: "touches_rows db (set_event i (lease_event t w) db)
      \<and> same_statuses db (set_event i (lease_event t w) db)" for i t w
  proof
    show "touches_rows db (set_event i (lease_event t w) db)"
      unfolding touches_rows_def set_event_def
      by (rule exI [of _ "\<lambda>r. if co_id r = i then lease_event t w r else r"]) (simp add: row_core_def lease_event_def)
  qed (auto simp: same_statuses_def set_event_def lease_event_def row_core_def)
  have body: "touches_rows db x \<and> same_statuses db x
      \<and> (\<forall>ev. a = Some ev \<longrightarrow> event_of db ev)"
    if "claim_cache_tx locked token lease env db = Inr (a, x)" for a x
  proof (cases "find (\<lambda>r. claimable_event (utc_timestamp6 env) r \<and> \<not> locked (co_id r)) (sort_key co_id (contest_cache_outbox db))")
    case None
    then show ?thesis using that touches_rows_refl same_statuses_refl by (simp add: claim_cache_tx_def)
  next
    case (Some e)
    then have "e \<in> set (contest_cache_outbox db)" using find_in_set [OF Some] by simp
    then have "event_of db (event_of_row n e)" for n by (auto simp: event_of_def event_of_row_def)
    then show ?thesis using Some that upd by (auto simp: claim_cache_tx_def Let_def)
  qed
  from assms have "(r = Inl (BadCall ''invalid cache lease'') \<and> db' = db)
      \<or> (\<exists>r0. contest_tx env (claim_cache_tx locked token lease env) db = (r0, db') \<and> (\<forall>ev. r = Inr ev \<longrightarrow> r0 = Inr ev))"
    by (auto simp: ClaimCacheEvent_def split: if_splits prod.splits sum.splits)
  then consider "db' = db" | a where "claim_cache_tx locked token lease env db = Inr (a, db')"
    using contest_tx_atomic by fast
  then have "touches_rows db db' \<and> same_statuses db db'"
  proof cases
    case 1
    then show ?thesis by (simp add: touches_rows_refl same_statuses_refl)
  next
    case 2
    then show ?thesis using body by fast
  qed
  then show "touches_rows db db'" "same_statuses db db'"
    by simp_all
  show "event_of db ev" if "r = Inr (Some ev)" for ev
    using assms that body by (auto simp: ClaimCacheEvent_def contest_tx_ok split: if_splits prod.splits sum.splits)
qed

lemma settle_touches:
  assumes "settle_event i token upd env db = (e, db')" and "\<And>n r. row_core (upd n r) = row_core r"
  shows "touches_rows db db'"
    and "r \<in> set (contest_cache_outbox db') \<Longrightarrow> r \<in> set (contest_cache_outbox db)
      \<or> (\<exists>r0 \<in> set (contest_cache_outbox db). holds_lease i token (utc_timestamp6 env) r0 \<and> r = upd (utc_timestamp6 env) r0)"
proof -
  let ?now = "utc_timestamp6 env"
  let ?g = "\<lambda>r. if holds_lease i token ?now r then upd ?now r else r"
  let ?db = "db\<lparr>contest_cache_outbox := map ?g (contest_cache_outbox db)\<rparr>"
  from assms(1) have d: "db' = db \<or> db' = ?db" by (auto simp: settle_event_def Let_def split: if_splits)
  have "touches_rows db ?db" unfolding touches_rows_def by (rule exI [of _ ?g]) (simp add: assms(2))
  then show "touches_rows db db'" using d touches_rows_refl by blast
  show "r \<in> set (contest_cache_outbox db') \<Longrightarrow> r \<in> set (contest_cache_outbox db)
      \<or> (\<exists>r0 \<in> set (contest_cache_outbox db). holds_lease i token ?now r0 \<and> r = upd ?now r0)"
    using d by auto
qed

lemma settle_cores: "row_core (complete_event n r) = row_core r" "row_core (fail_event d dead t n r) = row_core r"
  by (simp_all add: row_core_def complete_event_def fail_event_def)

lemma FailCacheEvent_settles:
  "FailCacheEvent i token delay dead reason env db = (e, db') \<Longrightarrow>
     db' = db \<or> settle_event i token (fail_event delay dead (take 255 reason)) env db = (e, db')"
  by (auto simp: FailCacheEvent_def split: if_splits)

lemma same_status_row:
  assumes "box_ok acc db" and "same_statuses db db'"
    and "r \<in> set (contest_cache_outbox db)" "r' \<in> set (contest_cache_outbox db')" "row_core r' = row_core r"
  shows "co_status r' = co_status r"
proof -
  obtain r0 where r0: "r0 \<in> set (contest_cache_outbox db)" "row_core r' = row_core r0" "co_status r' = co_status r0"
    using assms(2,4) by (auto simp: same_statuses_def)
  then have "r0 = r" using assms(1,3,5) by (auto simp: box_ok_def distinct_map inj_on_def row_core_eq)
  then show ?thesis using r0 by simp
qed

lemma delay_loop_bounds: "0 < d \<Longrightarrow> d \<le> 2 * Minute \<Longrightarrow> 0 < delay_loop n d \<and> delay_loop n d \<le> 2 * Minute \<and> d \<le> delay_loop n d"
proof (induction n d rule: delay_loop.induct)
  case (2 n d)
  then show ?case by (auto simp: Minute_def wrap64_id max_int64_def min_int64_def)
qed simp

lemma retry_delay_bounds: "Second \<le> retry_delay n" "retry_delay n \<le> Minute" "0 \<le> retry_delay n"
  using delay_loop_bounds [of Second "nat n"] by (auto simp: retry_delay_def Minute_def Second_def)

section \<open>The contract of the sink\<close>

locale leaderboard_sink =
  fixes sink :: "'env \<Rightarrow> LeaderboardSnapshot \<Rightarrow> 'st \<Rightarrow> cache_error option \<times> 'st"
  assumes valid_not_refused:
    "LeaderboardSnapshot_Validate s = None \<Longrightarrow> enc_LeaderboardSnapshot s \<noteq> None \<Longrightarrow>
     fst (sink env s st) \<noteq> Some ErrInvalidSnapshot"
begin

lemma deliver_settles:
  assumes d: "deliver (sink senv) text token ev env db st = (res, db', st')"
    and s: "event_snapshot ev = Some s" "LeaderboardSnapshot_Validate s = None" "enc_LeaderboardSnapshot s \<noteq> None"
  obtains (untouched) "db' = db"
  | (failed) e delay reason where "settle_event (ce_ID ev) token (fail_event delay False reason) env db = (e, db')"
  | (applied) e where "settle_event (ce_ID ev) token complete_event env db = (e, db')"
      and "accepted_by (sink senv) ev st = [s]"
proof (cases "sink senv s st")
  case (Pair out st1)
  show ?thesis
  proof (cases out)
    case None
    then obtain e where "CompleteCacheEvent (ce_ID ev) token env db = (e, db')"
      using d s(1) Pair by (auto simp: deliver_def split: prod.splits)
    then show ?thesis using None Pair s(1) by (intro applied) (simp_all add: CompleteCacheEvent_def accepted_by_def)
  next
    case (Some err)
    then have "err \<noteq> ErrInvalidSnapshot" using valid_not_refused [OF s(2,3), of senv st] Pair by simp
    then consider "db' = db" | e where "FailCacheEvent (ce_ID ev) token (retry_delay (ce_Retries ev)) False
        (take 255 (text err)) env db = (e, db')"
      using d s(1) Pair Some by (auto simp: deliver_def Let_def split: prod.splits if_splits)
    then show ?thesis
    proof cases
      case (2 e)
      from FailCacheEvent_settles [OF 2] show ?thesis using untouched failed by blast
    qed (rule untouched)
  qed
qed

lemma deliver_inv:
  assumes d: "deliver (sink senv) text token ev env db st = (res, db', st')"
    and inv: "store_ok acc db" "event_of db ev"
  shows "touches_rows db db'" and "box_ok (accepted_by (sink senv) ev st @ acc) db'"
proof -
  let ?acc = "accepted_by (sink senv) ev st @ acc"
  have box: "box_ok acc db" using inv(1) by (simp add: store_ok_def)
  obtain s where s: "event_snapshot ev = Some s" "LeaderboardSnapshot_Validate s = None"
      "enc_LeaderboardSnapshot s \<noteq> None"
    and carry: "\<And>r. r \<in> set (contest_cache_outbox db) \<Longrightarrow> co_id r = ce_ID ev \<Longrightarrow> carries s r"
    using event_of_carries [OF inv(2) box] by metis
  have dist: "r = r'" if "r \<in> set (contest_cache_outbox db)" "r' \<in> set (contest_cache_outbox db)" "co_id r = co_id r'" for r r'
    using box that by (auto simp: box_ok_def distinct_map inj_on_def)
  have settle: "touches_rows db db' \<and> box_ok ?acc db'"
    if e: "settle_event (ce_ID ev) token upd env db = (e, db')" and core: "\<And>n r. row_core (upd n r) = row_core r"
      and st: "\<And>n r. co_status (upd n r) = ''pending'' \<or> co_status (upd n r) = ''applied'' \<and> s \<in> set ?acc" for upd e
  proof
    show t: "touches_rows db db'" by (rule settle_touches(1) [OF e core])
    show "box_ok ?acc db'"
    proof (rule touches_rows_box [OF t box])
      fix r r'
      assume r: "r \<in> set (contest_cache_outbox db)" "r' \<in> set (contest_cache_outbox db')" "row_core r' = row_core r"
      from settle_touches(2) [OF e core r(2)]
      consider "r' \<in> set (contest_cache_outbox db)"
        | r0 where "r0 \<in> set (contest_cache_outbox db)" "holds_lease (ce_ID ev) token (utc_timestamp6 env) r0"
            "r' = upd (utc_timestamp6 env) r0" by blast
      then show "co_status r' = co_status r \<or> (\<exists>s. carries s r \<and> (co_status r' = ''pending'' \<or> (co_status r' = ''applied'' \<and> s \<in> set ?acc)))"
      proof cases
        case 1
        then show ?thesis using dist r by (auto simp: row_core_eq)
      next
        case 2
        then have "co_id r = ce_ID ev" using core r(3) by (simp add: row_core_eq holds_lease_def)
        then show ?thesis using carry [OF r(1)] st 2(3) by blast
      qed
    qed simp
  qed
  have "touches_rows db db' \<and> box_ok ?acc db'"
  proof (rule deliver_settles [OF d s])
    assume "db' = db"
    moreover have "box_ok ?acc db" by (rule touches_rows_box [OF touches_rows_refl box])
        (use dist in \<open>auto simp: row_core_eq\<close>)
    ultimately show ?thesis by (simp add: touches_rows_refl)
  next
    fix e delay reason
    assume "settle_event (ce_ID ev) token (fail_event delay False reason) env db = (e, db')"
    then show ?thesis by (rule settle) (rule settle_cores, simp add: fail_event_def)
  next
    fix e
    assume "settle_event (ce_ID ev) token complete_event env db = (e, db')" and "accepted_by (sink senv) ev st = [s]"
    then show ?thesis by (intro settle) (assumption, rule settle_cores, simp add: complete_event_def)
  qed
  then show "touches_rows db db'" and "box_ok ?acc db'" by simp_all
qed

lemma relay_step_inv:
  assumes inv: "relay_inv x" and "relay_step sink x y"
  shows "relay_inv y"
  using assms(2)
proof cases
  case (tables db')
  have ok: "store_ok (rs_accepted x) (rs_db x)" using inv by (simp add: relay_inv_def store_ok_def)
  have c: "contest_inv (rs_db x)" using inv by (simp add: relay_inv_def)
  show ?thesis
    using inv tables contest_step_inv [OF c tables(2)] contest_step_box [OF tables(2) ok]
      event_of_kept [OF contest_step_keeps_rows [OF tables(2) c]]
    by (auto simp: relay_inv_def)
next
  case (claim uuid_ok locked token lease env r db')
  note t = claim_touches [OF claim(2)]
  have big: "bigint_db db'" using inv t(1) by (auto simp: relay_inv_def touches_rows_def bigint_db_def)
  have box: "box_ok (rs_accepted x) (rs_db x)" using inv by (simp add: relay_inv_def)
  have "box_ok (rs_accepted x) db'"
  proof (rule touches_rows_box [OF t(1) box])
    fix r r'
    assume r: "r \<in> set (contest_cache_outbox (rs_db x))" "r' \<in> set (contest_cache_outbox db')" "row_core r' = row_core r"
    then show "co_status r' = co_status r \<or> (\<exists>s. carries s r \<and> (co_status r' = ''pending'' \<or> (co_status r' = ''applied'' \<and> s \<in> set (rs_accepted x))))"
      using same_status_row [OF box t(3)] by blast
  qed simp
  then show ?thesis
    using inv claim(1) big touches_rows_inv [OF t(1)] event_of_kept [OF touches_rows_keeps [OF t(1)]] t(2)
    by (auto simp: relay_inv_def claim_flight_def split: sum.splits option.splits)
next
  case (deliver token ev senv tx env st res db' st')
  have ev: "event_of (rs_db x) ev" using inv deliver(2) by (auto simp: relay_inv_def)
  have ok: "store_ok (rs_accepted x) (rs_db x)" using inv by (simp add: relay_inv_def store_ok_def)
  note t = deliver_inv [OF deliver(3) ok ev]
  have big: "bigint_db db'" using inv t(1) by (auto simp: relay_inv_def touches_rows_def bigint_db_def)
  show ?thesis
    using inv deliver(1) big t(2) touches_rows_inv [OF t(1)] event_of_kept [OF touches_rows_keeps [OF t(1)]]
    by (auto simp: relay_inv_def dest: notin_set_remove1)
qed

lemma relay_reach_inv: "relay_reach sink x \<Longrightarrow> relay_inv x"
proof (induction rule: relay_reach.induct)
  case start
  show ?case by (simp add: relay_inv_def empty_contest_inv) (simp add: bigint_db_def box_ok_def empty_contest_db_def)
next
  case (more x y)
  then show ?case using relay_step_inv by blast
qed

end

lemma relay_script_codes:
  "relay_script lost now base ka kb active building a st = (r, st') \<Longrightarrow> r \<noteq> Some (-2)"
  by (auto simp: relay_script_def Let_def split: sum.splits if_splits prod.splits)

lemma cache_Apply_valid:
  assumes "LeaderboardSnapshot_Validate s = None" and "enc_LeaderboardSnapshot s \<noteq> None"
  shows "fst (cache_Apply canonical cfg env1 env2 s st) \<noteq> Some ErrInvalidSnapshot"
proof -
  obtain a where a: "snapshotArguments s = Inr a" using assms by (auto simp: snapshotArguments_def)
  have "pointers canonical cfg env1 (ls_ContestID s) st \<noteq> Inl ErrInvalidSnapshot"
    by (auto simp: pointers_def Let_def split: if_splits)
  moreover have "scriptUpdateResult r \<noteq> Some ErrInvalidSnapshot" if "r \<noteq> Some (-2)" for r
    using that by (auto simp: scriptUpdateResult_def split: option.splits)
  ultimately show ?thesis
    using a relay_script_codes by (auto simp: cache_Apply_def Let_def split: sum.split prod.split)
qed

interpretation cache: leaderboard_sink "cache_sink canonical cfg" for canonical cfg
  by unfold_locales (simp add: cache_sink_def cache_Apply_valid)

text \<open>A projected result that is claimed and delivered to a cache with an active generation.\<close>

lemma demo_relay_evaluated:
  "fst demo_relay_claim = Inr (Some demo_relay_event)" "event_snapshot demo_relay_event = Some demo_announced"
  "fst (demo_cache_sink demo_sink demo_announced demo_active_cache) = None"
  "map co_status (contest_cache_outbox demo_applied) = [''applied'']"
  "bigint_db demo_contest_created" "bigint_db demo_contest_joined" "bigint_db demo_contest_projected"
  by code_simp+

lemma demo_relay_reach:
  "relay_reach demo_cache_sink \<lparr>rs_db = demo_applied, rs_flight = [], rs_accepted = [demo_announced]\<rparr>"
proof -
  let ?x = "\<lambda>db. \<lparr>rs_db = db, rs_flight = [], rs_accepted = []\<rparr>"
  have tab: "relay_reach demo_cache_sink (?x db')"
    if "relay_reach demo_cache_sink (?x db)" "contest_step db db'" "bigint_db db'" for db db'
    using relay_reach.more [OF that(1) relay_step.tables [of "?x db" db']] that(2,3) by simp
  have "relay_reach demo_cache_sink (?x demo_contest_created)"
    by (rule tab [OF relay_reach.start]) (unfold demo_contest_created_def, rule contest_step.create, rule prod.collapse [symmetric],
      fold demo_contest_created_def, rule demo_relay_evaluated)
  then have "relay_reach demo_cache_sink (?x demo_contest_joined)"
    by (rule tab) (unfold demo_contest_joined_def, rule contest_step.join, rule prod.collapse [symmetric],
      fold demo_contest_joined_def, rule demo_relay_evaluated)
  then have p: "relay_reach demo_cache_sink (?x demo_contest_projected)"
    by (rule tab) (unfold demo_contest_projected_def, rule contest_step.project, rule prod.collapse [symmetric],
      fold demo_contest_projected_def, rule demo_relay_evaluated)
  let ?y = "\<lparr>rs_db = snd demo_relay_claim, rs_flight = [(''t'', demo_relay_event)], rs_accepted = []\<rparr>"
  have "relay_step demo_cache_sink (?x demo_contest_projected) ?y"
    using relay_step.claim [of "\<lambda>_. True" "\<lambda>_. False" "''t''" "30 * Second" "calm_contest 8000000000 0"
        "?x demo_contest_projected" "fst demo_relay_claim" "snd demo_relay_claim" demo_cache_sink]
    by (simp add: demo_relay_evaluated(1) claim_flight_def prod_eq_iff flip: demo_relay_claim_def)
  with p have y: "relay_reach demo_cache_sink ?y" by (rule relay_reach.more)
  obtain st' where sink: "demo_cache_sink demo_sink demo_announced demo_active_cache = (None, st')"
    using demo_relay_evaluated(3) by (metis prod.collapse)
  obtain e where e: "CompleteCacheEvent 1 ''t'' (calm_contest 8000000000 0) (snd demo_relay_claim) = (e, demo_applied)"
    unfolding demo_applied_def by (metis prod.collapse)
  have i: "ce_ID demo_relay_event = 1" by (simp add: demo_relay_event_def)
  have d: "deliver (demo_cache_sink demo_sink) (\<lambda>_. []) ''t'' demo_relay_event (calm_contest 8000000000 0)
      (snd demo_relay_claim) demo_active_cache = (settled ''applied'' ''confirm_error'' e, demo_applied, st')"
    by (simp add: deliver_def demo_relay_evaluated(2) sink i e)
  have "relay_step demo_cache_sink ?y \<lparr>rs_db = demo_applied, rs_flight = [], rs_accepted = [demo_announced]\<rparr>"
    using relay_step.deliver [of "''t''" demo_relay_event ?y demo_cache_sink demo_sink "\<lambda>_. []" "calm_contest 8000000000 0"
        demo_active_cache] d
    by (simp add: accepted_by_def demo_relay_evaluated(2) sink)
  with y show ?thesis by (rule relay_reach.more)
qed

section \<open>Property\<close>

text \<open>
  C31. No announced result is lost on its way to the cache. In every state reached by projections, edits,
  registrations and backfills, by claims and by deliveries of claimed events in any order, with
  failing statements, expired leases and an unavailable cache: no event of the outbox is dead; an event
  is marked applied only after the cache reported success for exactly the snapshot the event carries; the
  current totals of every user with results are in an event that is still pending, or the cache has
  accepted them; and a failed event becomes due again after at least a second and at most a minute.
\<close>

theorem current_totals_reach_the_cache:
  assumes "relay_reach (cache_sink canonical cfg) x"
  shows "(\<forall>r \<in> set (contest_cache_outbox (rs_db x)). co_status r = ''pending''
        \<or> co_status r = ''applied'' \<and> (\<exists>s \<in> set (rs_accepted x). carries s r))
    \<and> (\<forall>u \<in> set (contest_user_results (rs_db x)).
        (\<exists>r \<in> set (contest_cache_outbox (rs_db x)). co_status r = ''pending'' \<and> announces_totals (rs_db x) u r)
        \<or> current_summary (ur_contest u) (ur_user u) u (rs_db x) \<in> set (rs_accepted x))
    \<and> (\<forall>n. Second \<le> retry_delay n \<and> retry_delay n \<le> Minute)"
proof -
  from cache.relay_reach_inv [OF assms] have inv: "contest_inv (rs_db x)" "bigint_db (rs_db x)"
    "box_ok (rs_accepted x) (rs_db x)"
    by (simp_all add: relay_inv_def)
  have rows: "\<exists>s. carries s r \<and> (co_status r = ''pending'' \<or> co_status r = ''applied'' \<and> s \<in> set (rs_accepted x))"
    if "r \<in> set (contest_cache_outbox (rs_db x))" for r
    using inv(3) that by (auto simp: box_ok_def row_ok_def)
  have "(\<exists>r \<in> set (contest_cache_outbox (rs_db x)). co_status r = ''pending'' \<and> announces_totals (rs_db x) u r)
      \<or> current_summary (ur_contest u) (ur_user u) u (rs_db x) \<in> set (rs_accepted x)"
    if u: "u \<in> set (contest_user_results (rs_db x))" for u
  proof -
    obtain r where r: "r \<in> set (contest_cache_outbox (rs_db x))" "announces_totals (rs_db x) u r"
      using inv(1) u by (auto simp: contest_inv_def outbox_ok_def)
    obtain s where s: "carries s r" "co_status r = ''pending'' \<or> co_status r = ''applied'' \<and> s \<in> set (rs_accepted x)"
      using rows [OF r(1)] by blast
    have "dec_LeaderboardSnapshot (co_payload r) = Some (current_summary (ur_contest u) (ur_user u) u (rs_db x))"
      by (rule summary_decodes) (use inv r(2) s(1) in \<open>auto simp: contest_inv_def announces_totals_def carries_def\<close>)
    then have "s = current_summary (ur_contest u) (ur_user u) u (rs_db x)" using s(1) by (simp add: carries_def)
    then show ?thesis using r s(2) by blast
  qed
  then show ?thesis using rows retry_delay_bounds by blast
qed

theorem current_totals_reach_the_cache_witness:
  "map co_status (contest_cache_outbox demo_applied) = [''applied'']
   \<and> (\<exists>s \<in> set [demo_announced]. carries s (hd (contest_cache_outbox demo_applied)))"
proof -
  have "hd (contest_cache_outbox demo_applied) \<in> set (contest_cache_outbox demo_applied)"
    "co_status (hd (contest_cache_outbox demo_applied)) = ''applied''"
    using demo_relay_evaluated(4) by auto
  then show ?thesis
    using current_totals_reach_the_cache [OF demo_relay_reach] demo_relay_evaluated(4) by fastforce
qed

end
