(* ===== verification/User_Store.thy ===== *)
theory User_Store
  imports Sql_Tx Json
begin

text \<open>
  The stores of the user service: the account tables
  (\<open>src/services/user/internal/data/data.go\<close>, with the keys and widths of \<open>src/migrations/user\<close>) and the
  refresh tokens in Redis (\<open>src/services/user/internal/data/refresh_token_store.go\<close>). Every key in Redis has a
  deadline of the server's clock. The client library converts a lifetime to the units of the \<open>SET\<close> and
  \<open>EXPIRE\<close> commands; the two conversions are arguments (\<open>redis_units\<close>).
\<close>

section \<open>Definitions\<close>

subsection \<open>Accounts\<close>

datatype user_error = UInvalidArgument | UInvalidCredential | UAlreadyExists | UNotFound | UAdminAlreadyExists
  | UInactive | UPermissionDenied | URefreshTokenDenied | UOther string

definition RoleUser :: string where
  "RoleUser = ''user''"

definition RoleAdmin :: string where
  "RoleAdmin = ''admin''"

definition UserStatusActive :: string where
  "UserStatusActive = ''active''"

record User =
  us_ID :: int64
  us_Username :: string
  us_Email :: string
  us_PasswordHash :: string
  us_Status :: string
  us_Roles :: "string list"

definition empty_user :: User where
  "empty_user = \<lparr>us_ID = 0, us_Username = [], us_Email = [], us_PasswordHash = [], us_Status = [], us_Roles = []\<rparr>"

definition User_IsActive :: "User \<Rightarrow> bool" where
  "User_IsActive u \<longleftrightarrow> us_Status u = UserStatusActive"

record user_row =
  uw_id :: int64
  uw_username :: string
  uw_email :: string
  uw_password_hash :: string
  uw_status :: string

record user_db =
  ud_users :: "user_row list"
  ud_roles :: "(int64 \<times> string) list"
  ud_user_roles :: "(int64 \<times> int64) list" \<comment> \<open>user and role\<close>
  ud_next_id :: int64

definition seeded_user_db :: user_db where
  \<comment> \<open>after the migrations\<close>
  "seeded_user_db = \<lparr>ud_users = [], ud_roles = [(1, RoleUser), (2, RoleAdmin)], ud_user_roles = [], ud_next_id = 1\<rparr>"

definition user_stmt :: "db_env \<Rightarrow> string \<Rightarrow> user_error + 'b \<Rightarrow> user_error + 'b" where
  "user_stmt env label r = stmtE env (UOther label) label r"

definition role_id :: "string \<Rightarrow> user_db \<Rightarrow> int64 option" where
  "role_id name db = map_option fst (find (\<lambda>r. db_eq (snd r) name) (ud_roles db))"

definition user_key_taken :: "User \<Rightarrow> user_db \<Rightarrow> bool" where
  "user_key_taken u db \<longleftrightarrow> (\<exists>r \<in> set (ud_users db). db_eq (uw_username r) (us_Username u) \<or> db_eq (uw_email r) (us_Email u))"

definition user_fits :: "User \<Rightarrow> bool" where
  "user_fits u \<longleftrightarrow> length (us_Username u) \<le> 64 \<and> length (us_Email u) \<le> 255 \<and> length (us_PasswordHash u) \<le> 255
     \<and> length (us_Status u) \<le> 32"

definition insert_user :: "db_env \<Rightarrow> User \<Rightarrow> user_db \<Rightarrow> user_error + int64 \<times> user_db" where
  \<comment> \<open>the INSERT with \<open>translateMySQLError\<close>, and the new id\<close>
  "insert_user env u db =
     user_stmt env ''insert user''
       (guardE (\<not> user_fits u) (UOther ''insert user'')
          (guardE (user_key_taken u db) UAlreadyExists
             (let i = ud_next_id db
              in Inr (i, db\<lparr>ud_users := ud_users db @ [\<lparr>uw_id = i, uw_username = us_Username u, uw_email = us_Email u,
                               uw_password_hash = us_PasswordHash u, uw_status = us_Status u\<rparr>], ud_next_id := i + 1\<rparr>))))"

definition insert_user_role :: "db_env \<Rightarrow> int64 \<Rightarrow> int64 \<Rightarrow> user_db \<Rightarrow> user_error + user_db" where
  "insert_user_role env u r db =
     user_stmt env ''insert user role''
       (guardE ((u, r) \<in> set (ud_user_roles db)) (UOther ''insert user role'')
          (Inr (db\<lparr>ud_user_roles := ud_user_roles db @ [(u, r)]\<rparr>)))"

definition create_user_tx :: "db_env \<Rightarrow> User \<Rightarrow> string \<Rightarrow> user_db \<Rightarrow> user_error + User \<times> user_db" where
  "create_user_tx env u defaultRole db =
     bindE (insert_user env u db) (\<lambda>(i, db1).
       user_stmt env ''select role''
         (case role_id defaultRole db1 of
            None \<Rightarrow> Inl (UOther ''default role is not seeded'')
          | Some r \<Rightarrow> bindE (insert_user_role env i r db1) (\<lambda>db2. Inr (u\<lparr>us_ID := i\<rparr>, db2))))"

definition CreateUser :: "db_env \<Rightarrow> User \<Rightarrow> string \<Rightarrow> user_db \<Rightarrow> (user_error + User) \<times> user_db" where
  "CreateUser env u defaultRole db = run_tx env (UOther ''transaction'') (create_user_tx env u defaultRole) db"

definition admin_count :: "user_db \<Rightarrow> nat" where
  "admin_count db = length (filter (\<lambda>ur. \<exists>r \<in> set (ud_roles db). fst r = snd ur \<and> db_eq (snd r) RoleAdmin) (ud_user_roles db))"

definition bootstrap_tx :: "db_env \<Rightarrow> User \<Rightarrow> user_db \<Rightarrow> user_error + User \<times> user_db" where
  "bootstrap_tx env u db =
     user_stmt env ''select role''
       (case role_id RoleAdmin db of
          None \<Rightarrow> Inl (UOther ''admin role is not seeded'')
        | Some r \<Rightarrow>
            user_stmt env ''count admins''
              (guardE (admin_count db > 0) UAdminAlreadyExists
                 (bindE (insert_user env u db) (\<lambda>(i, db1).
                    bindE (insert_user_role env i r db1) (\<lambda>db2.
                      Inr (u\<lparr>us_ID := i, us_Roles := [RoleAdmin]\<rparr>, db2))))))"

definition BootstrapAdmin :: "db_env \<Rightarrow> User \<Rightarrow> user_db \<Rightarrow> (user_error + User) \<times> user_db" where
  "BootstrapAdmin env u db = run_tx env (UOther ''transaction'') (bootstrap_tx env u) db"

fun role_before :: "string option \<Rightarrow> string option \<Rightarrow> bool" where
  \<comment> \<open>\<open>ORDER BY r.name\<close>, NULL first\<close>
  "role_before None b = (b \<noteq> None)"
| "role_before (Some s) None = False"
| "role_before (Some s) (Some t) = bytes_less (to_lower s) (to_lower t)"

fun insert_by_role :: "'a \<times> string option \<Rightarrow> ('a \<times> string option) list \<Rightarrow> ('a \<times> string option) list" where
  "insert_by_role a [] = [a]"
| "insert_by_role a (b # bs) = (if role_before (snd b) (snd a) then b # insert_by_role a bs else a # b # bs)"

definition role_names_of :: "user_db \<Rightarrow> int64 \<Rightarrow> string list" where
  \<comment> \<open>the join of \<open>user_roles\<close> and \<open>roles\<close> for a user\<close>
  "role_names_of db u = concat (map (\<lambda>ur. map snd (filter (\<lambda>r. fst r = snd ur) (ud_roles db)))
     (filter (\<lambda>ur. fst ur = u) (ud_user_roles db)))"

definition joined_rows :: "(user_row \<Rightarrow> bool) \<Rightarrow> user_db \<Rightarrow> (user_row \<times> string option) list" where
  \<comment> \<open>the two left joins\<close>
  "joined_rows p db = concat (map (\<lambda>u. case role_names_of db (uw_id u) of
       [] \<Rightarrow> [(u, None)] | ns \<Rightarrow> map (\<lambda>n. (u, Some n)) ns) (filter p (ud_users db)))"

definition scan_row :: "user_row \<times> string option \<Rightarrow> User \<Rightarrow> User" where
  "scan_row x u = (case x of (r, role) \<Rightarrow>
     \<lparr>us_ID = uw_id r, us_Username = uw_username r, us_Email = uw_email r, us_PasswordHash = uw_password_hash r,
      us_Status = uw_status r, us_Roles = us_Roles u @ (case role of None \<Rightarrow> [] | Some n \<Rightarrow> [n])\<rparr>)"

definition findUser :: "db_env \<Rightarrow> (user_row \<Rightarrow> bool) \<Rightarrow> user_db \<Rightarrow> user_error + User" where
  "findUser env p db =
     user_stmt env ''select user''
       (let rows = foldr insert_by_role (joined_rows p db) []
        in if rows = [] then Inl UNotFound else Inr (fold scan_row rows empty_user))"

definition user_FindByID :: "db_env \<Rightarrow> int64 \<Rightarrow> user_db \<Rightarrow> user_error + User" where
  "user_FindByID env i db = findUser env (\<lambda>r. uw_id r = i) db"

definition names_account :: "string \<Rightarrow> user_row \<Rightarrow> bool" where
  "names_account account r \<longleftrightarrow> db_eq (to_lower (uw_username r)) (to_lower account) \<or> db_eq (to_lower (uw_email r)) (to_lower account)"

definition FindByAccount :: "db_env \<Rightarrow> string \<Rightarrow> user_db \<Rightarrow> user_error + User" where
  "FindByAccount env account db = findUser env (names_account account) db"

definition ListUserRoles :: "db_env \<Rightarrow> int64 \<Rightarrow> user_db \<Rightarrow> user_error + string list" where
  "ListUserRoles env u db =
     user_stmt env ''select roles''
       (Inr (map (\<lambda>x. the (snd x)) (foldr insert_by_role (map (\<lambda>n. (u, Some n)) (role_names_of db u)) [])))"

subsection \<open>Refresh tokens\<close>

record RefreshTokenRecord =
  rt_UserID :: int64
  rt_SessionID :: string
  rt_TokenID :: string
  rt_TokenHash :: string
  rt_CreatedAt :: time
  rt_ExpiresAt :: time
  rt_LastUsedAt :: time
  rt_RotatedFrom :: string
  rt_Revoked :: bool
  rt_ReplayLocked :: bool

definition enc_RefreshTokenRecord :: "RefreshTokenRecord \<Rightarrow> json option" where
  "enc_RefreshTokenRecord r =
     (if time_json_ok (rt_CreatedAt r) \<and> time_json_ok (rt_ExpiresAt r) \<and> time_json_ok (rt_LastUsedAt r)
      then Some (JObj [(''UserID'', JNum (rt_UserID r)), (''SessionID'', JStr (rt_SessionID r)),
        (''TokenID'', JStr (rt_TokenID r)), (''TokenHash'', JStr (rt_TokenHash r)),
        (''CreatedAt'', JTime (rt_CreatedAt r)), (''ExpiresAt'', JTime (rt_ExpiresAt r)),
        (''LastUsedAt'', JTime (rt_LastUsedAt r)), (''RotatedFrom'', JStr (rt_RotatedFrom r)),
        (''Revoked'', JBool (rt_Revoked r)), (''ReplayLocked'', JBool (rt_ReplayLocked r))])
      else None)"

definition dec_RefreshTokenRecord :: "json \<Rightarrow> RefreshTokenRecord option" where
  "dec_RefreshTokenRecord = dec_struct (\<lambda>kvs.
     case (dec_field dec_int64 0 ''UserID'' kvs, dec_field dec_str [] ''SessionID'' kvs,
           dec_field dec_str [] ''TokenID'' kvs, dec_field dec_str [] ''TokenHash'' kvs,
           dec_field dec_time zero_time ''CreatedAt'' kvs, dec_field dec_time zero_time ''ExpiresAt'' kvs,
           dec_field dec_time zero_time ''LastUsedAt'' kvs, dec_field dec_str [] ''RotatedFrom'' kvs,
           dec_field dec_bool False ''Revoked'' kvs, dec_field dec_bool False ''ReplayLocked'' kvs)
     of (Some u, Some s, Some t, Some h, Some c, Some e, Some l, Some f, Some v, Some y) \<Rightarrow>
          Some \<lparr>rt_UserID = u, rt_SessionID = s, rt_TokenID = t, rt_TokenHash = h, rt_CreatedAt = c,
                rt_ExpiresAt = e, rt_LastUsedAt = l, rt_RotatedFrom = f, rt_Revoked = v, rt_ReplayLocked = y\<rparr>
      | _ \<Rightarrow> None)"

datatype token_value = TText json | TSet "string list"

type_synonym token_store = "(string \<times> token_value \<times> time) list" \<comment> \<open>key, value, deadline\<close>

record redis_units =
  ru_px :: "duration \<Rightarrow> duration"
  ru_ex :: "duration \<Rightarrow> duration"

record token_env =
  te_check :: time \<comment> \<open>\<open>time.Now()\<close> of the use case\<close>
  te_issue :: time \<comment> \<open>the clock of the token manager\<close>
  te_store :: time \<comment> \<open>the clock of the store\<close>
  te_redis :: time \<comment> \<open>the clock of Redis\<close>
  te_fails :: "nat \<Rightarrow> bool" \<comment> \<open>the commands of the operation that fail\<close>
  te_lost :: "nat \<Rightarrow> bool" \<comment> \<open>a failed write that took effect\<close>
  te_raw :: "string option" \<comment> \<open>random values, or a failing source\<close>
  te_session :: "string option"
  te_token :: "string option"

definition tokenKey :: "string \<Rightarrow> string \<Rightarrow> string" where
  "tokenKey namespace h = namespace @ '':refresh_token:'' @ h"

definition sessionKey :: "string \<Rightarrow> string \<Rightarrow> string" where
  "sessionKey namespace s = namespace @ '':refresh_session:'' @ s"

definition tlook :: "time \<Rightarrow> token_store \<Rightarrow> string \<Rightarrow> token_value option" where
  "tlook now st k = (case map_of st k of None \<Rightarrow> None | Some (v, d) \<Rightarrow> if now < d then Some v else None)"

definition members :: "time \<Rightarrow> token_store \<Rightarrow> string \<Rightarrow> string list" where
  "members now st k = (case tlook now st k of Some (TSet xs) \<Rightarrow> xs | _ \<Rightarrow> [])"

definition written :: "string \<Rightarrow> redis_units \<Rightarrow> time \<Rightarrow> duration \<Rightarrow> RefreshTokenRecord \<Rightarrow> json \<Rightarrow> token_store \<Rightarrow> token_store" where
  \<comment> \<open>the pipeline of \<open>SET\<close>, \<open>SADD\<close> and \<open>EXPIRE\<close>\<close>
  "written ns units now ttl r payload st =
     (let k = sessionKey ns (rt_SessionID r); xs = members now st k;
          xs' = (if rt_TokenHash r \<in> set xs then xs else xs @ [rt_TokenHash r])
      in assoc_put k (TSet xs', now + ru_ex units ttl)
           (assoc_put (tokenKey ns (rt_TokenHash r)) (TText payload, now + ru_px units ttl) st))"

definition store_save :: "string \<Rightarrow> redis_units \<Rightarrow> token_env \<Rightarrow> nat \<Rightarrow> RefreshTokenRecord \<Rightarrow> token_store \<Rightarrow> user_error option \<times> token_store" where
  \<comment> \<open>\<open>i\<close> numbers the command\<close>
  "store_save ns units env i r st =
     (let ttl = time_sub (rt_ExpiresAt r) (te_store env)
      in if ttl \<le> 0 then (Some URefreshTokenDenied, st)
         else case enc_RefreshTokenRecord r of
                None \<Rightarrow> (Some (UOther ''marshal''), st)
              | Some payload \<Rightarrow>
                  (let st' = written ns units (te_redis env) ttl r payload st
                   in if te_fails env i then (Some (UOther ''redis''), if te_lost env i then st' else st)
                      else (None, st')))"

definition store_Save :: "string \<Rightarrow> redis_units \<Rightarrow> token_env \<Rightarrow> nat \<Rightarrow> RefreshTokenRecord \<Rightarrow> token_store \<Rightarrow> user_error option \<times> token_store" where
  "store_Save ns units env i r st =
     (if rt_TokenHash r = [] \<or> rt_SessionID r = [] then (Some URefreshTokenDenied, st) else store_save ns units env i r st)"

definition FindByHash :: "string \<Rightarrow> token_env \<Rightarrow> nat \<Rightarrow> string \<Rightarrow> token_store \<Rightarrow> user_error + RefreshTokenRecord" where
  "FindByHash ns env i h st =
     (if h = [] then Inl URefreshTokenDenied
      else if te_fails env i then Inl (UOther ''redis'')
      else case tlook (te_redis env) st (tokenKey ns h) of
             None \<Rightarrow> Inl URefreshTokenDenied
           | Some (TSet _) \<Rightarrow> Inl (UOther ''wrong type'')
           | Some (TText payload) \<Rightarrow>
               (case dec_RefreshTokenRecord payload of None \<Rightarrow> Inl (UOther ''unmarshal'') | Some r \<Rightarrow> Inr r))"

definition Rotate :: "string \<Rightarrow> redis_units \<Rightarrow> token_env \<Rightarrow> nat \<Rightarrow> string \<Rightarrow> RefreshTokenRecord \<Rightarrow> token_store \<Rightarrow> user_error option \<times> token_store" where
  "Rotate ns units env i h nxt st =
     (case FindByHash ns env i h st of
        Inl e \<Rightarrow> (Some e, st)
      | Inr old \<Rightarrow>
          (if rt_Revoked old \<or> rt_ReplayLocked old
           then (Some URefreshTokenDenied, snd (store_save ns units env (i + 1) (old\<lparr>rt_ReplayLocked := True\<rparr>) st))
           else let now = te_store env;
                    old' = old\<lparr>rt_Revoked := True, rt_LastUsedAt := now\<rparr>;
                    nxt' = nxt\<lparr>rt_LastUsedAt := now,
                               rt_SessionID := (if rt_SessionID nxt = [] then rt_SessionID old else rt_SessionID nxt),
                               rt_RotatedFrom := (if rt_RotatedFrom nxt = [] then rt_TokenID old else rt_RotatedFrom nxt)\<rparr>
                in case store_save ns units env (i + 1) old' st of
                     (Some e, st1) \<Rightarrow> (Some e, st1)
                   | (None, st1) \<Rightarrow> store_save ns units env (i + 2) nxt' st1))"

fun revoke_all :: "string \<Rightarrow> redis_units \<Rightarrow> token_env \<Rightarrow> nat \<Rightarrow> string list \<Rightarrow> token_store \<Rightarrow> user_error option \<times> token_store" where
  \<comment> \<open>the loop of \<open>RevokeSession\<close>: a token that cannot be read is skipped\<close>
  "revoke_all ns units env i [] st = (None, st)"
| "revoke_all ns units env i (h # hs) st =
     (case FindByHash ns env i h st of
        Inl _ \<Rightarrow> revoke_all ns units env (i + 1) hs st
      | Inr r \<Rightarrow>
          (case store_save ns units env (i + 1) (r\<lparr>rt_Revoked := True, rt_LastUsedAt := te_store env\<rparr>) st of
             (Some e, st') \<Rightarrow> (Some e, st')
           | (None, st') \<Rightarrow> revoke_all ns units env (i + 2) hs st'))"

definition RevokeSession :: "string \<Rightarrow> redis_units \<Rightarrow> token_env \<Rightarrow> nat \<Rightarrow> string \<Rightarrow> token_store \<Rightarrow> user_error option \<times> token_store" where
  "RevokeSession ns units env i s st =
     (if s = [] then (Some URefreshTokenDenied, st)
      else if te_fails env i then (Some (UOther ''redis''), st)
      else revoke_all ns units env (i + 1) (members (te_redis env) st (sessionKey ns s)) st)"

end
