(* ===== verification/User_Usecase.thy ===== *)
theory User_Usecase
  imports User_Store
begin

text \<open>
  The use cases of the user service, \<open>src/services/user/internal/biz/usecase.go\<close>, \<open>auth.go\<close> and \<open>user.go\<close>,
  and the RS256 token manager of \<open>src/services/user/internal/security/token.go\<close>. Password hashing, the
  signature of an access token and SHA-256 are arguments (\<open>user_deps\<close>). Requests run one after the other:
  an operation reads and writes the token store without another one in between.
\<close>

section \<open>Definitions\<close>

subsection \<open>Tokens\<close>

record user_deps =
  dp_hash :: "string \<Rightarrow> string option"
  dp_compare :: "string \<Rightarrow> string \<Rightarrow> bool" \<comment> \<open>hash and password\<close>
  dp_sign :: "int64 \<Rightarrow> string \<Rightarrow> string list \<Rightarrow> string option" \<comment> \<open>subject, name and roles\<close>
  dp_sha256 :: "bytes \<Rightarrow> bytes"
  dp_ns :: string
  dp_units :: redis_units
  dp_accessTokenTTL :: duration
  dp_refreshTokenTTL :: duration

record TokenPair =
  tp_AccessToken :: string
  tp_RefreshToken :: string
  tp_ExpiresIn :: duration

definition token_Hash :: "user_deps \<Rightarrow> string \<Rightarrow> string" where
  "token_Hash deps raw = hex_encode (dp_sha256 deps raw)"

definition IssueAccessToken :: "user_deps \<Rightarrow> int64 \<Rightarrow> string \<Rightarrow> string list \<Rightarrow> user_error + string \<times> duration" where
  "IssueAccessToken deps i name roles =
     (if i \<le> 0 then Inl (UOther ''invalid argument'')
      else case dp_sign deps i name roles of None \<Rightarrow> Inl (UOther ''sign'') | Some t \<Rightarrow> Inr (t, dp_accessTokenTTL deps))"

definition new_record :: "user_deps \<Rightarrow> token_env \<Rightarrow> int64 \<Rightarrow> string \<Rightarrow> string \<Rightarrow> string \<Rightarrow> string \<Rightarrow> RefreshTokenRecord" where
  "new_record deps env userID raw sid tid rotatedFrom =
     \<lparr>rt_UserID = userID, rt_SessionID = sid, rt_TokenID = tid, rt_TokenHash = token_Hash deps raw,
      rt_CreatedAt = te_issue env, rt_ExpiresAt = te_issue env + dp_refreshTokenTTL deps, rt_LastUsedAt = te_issue env,
      rt_RotatedFrom = rotatedFrom, rt_Revoked = False, rt_ReplayLocked = False\<rparr>"

definition Generate :: "user_deps \<Rightarrow> token_env \<Rightarrow> int64 \<Rightarrow> string \<Rightarrow> string \<Rightarrow> user_error + string \<times> RefreshTokenRecord" where
  "Generate deps env userID sessionID rotatedFrom =
     (if userID \<le> 0 then Inl (UOther ''invalid argument'')
      else case te_raw env of None \<Rightarrow> Inl (UOther ''random'')
      | Some raw \<Rightarrow>
          (case (if sessionID = [] then te_session env else Some sessionID) of
             None \<Rightarrow> Inl (UOther ''random'')
           | Some sid \<Rightarrow>
               (case te_token env of None \<Rightarrow> Inl (UOther ''random'')
                | Some tid \<Rightarrow> Inr (raw, new_record deps env userID raw sid tid rotatedFrom))))"

subsection \<open>Accounts\<close>

record RegisterInput =
  ri_Username :: string
  ri_Email :: string
  ri_Password :: string

definition NormalizeUsername :: "string \<Rightarrow> string" where
  "NormalizeUsername s = to_lower (trim_space s)"

definition NormalizeEmail :: "string \<Rightarrow> string" where
  "NormalizeEmail s = to_lower (trim_space s)"

definition RegisterInput_Normalize :: "RegisterInput \<Rightarrow> RegisterInput" where
  "RegisterInput_Normalize i = \<lparr>ri_Username = NormalizeUsername (ri_Username i), ri_Email = NormalizeEmail (ri_Email i),
     ri_Password = trim_space (ri_Password i)\<rparr>"

definition Register :: "user_deps \<Rightarrow> db_env \<Rightarrow> RegisterInput \<Rightarrow> user_db \<Rightarrow> (user_error + User) \<times> user_db" where
  "Register deps env input db =
     (let i = RegisterInput_Normalize input
      in case dp_hash deps (ri_Password i) of
           None \<Rightarrow> (Inl (UOther ''hash''), db)
         | Some h \<Rightarrow>
             CreateUser env \<lparr>us_ID = 0, us_Username = ri_Username i, us_Email = ri_Email i, us_PasswordHash = h,
                             us_Status = UserStatusActive, us_Roles = [RoleUser]\<rparr> RoleUser db)"

definition load_roles :: "db_env \<Rightarrow> user_db \<Rightarrow> User \<Rightarrow> user_error + User" where
  \<comment> \<open>\<open>len(user.Roles) == 0\<close>\<close>
  "load_roles env db u =
     (if us_Roles u = [] then bindE (ListUserRoles env (us_ID u) db) (\<lambda>rs. Inr (u\<lparr>us_Roles := rs\<rparr>)) else Inr u)"

definition issueTokenPair :: "user_deps \<Rightarrow> token_env \<Rightarrow> User \<Rightarrow> string \<Rightarrow> string \<Rightarrow> token_store \<Rightarrow> (user_error + TokenPair) \<times> token_store" where
  "issueTokenPair deps env u sessionID rotatedFrom st =
     (case IssueAccessToken deps (us_ID u) (us_Username u) (us_Roles u) of
        Inl e \<Rightarrow> (Inl e, st)
      | Inr (access, expiresIn) \<Rightarrow>
          (case Generate deps env (us_ID u) sessionID rotatedFrom of
             Inl e \<Rightarrow> (Inl e, st)
           | Inr (raw, r) \<Rightarrow>
               (case store_Save (dp_ns deps) (dp_units deps) env 0 r st of
                  (Some e, st') \<Rightarrow> (Inl e, st')
                | (None, st') \<Rightarrow>
                    (Inr \<lparr>tp_AccessToken = access, tp_RefreshToken = raw, tp_ExpiresIn = expiresIn\<rparr>, st'))))"

definition authenticate :: "user_deps \<Rightarrow> db_env \<Rightarrow> string \<Rightarrow> string \<Rightarrow> user_db \<Rightarrow> user_error + User" where
  \<comment> \<open>\<open>Login\<close> up to the tokens\<close>
  "authenticate deps env account password db =
     (case FindByAccount env (trim_space account) db of
        Inl e \<Rightarrow> Inl (if e = UNotFound then UInvalidCredential else e)
      | Inr u \<Rightarrow>
          guardE (\<not> dp_compare deps (us_PasswordHash u) password) UInvalidCredential
            (guardE (\<not> User_IsActive u) UInactive (load_roles env db u)))"

definition Login ::
  "user_deps \<Rightarrow> db_env \<Rightarrow> token_env \<Rightarrow> string \<Rightarrow> string \<Rightarrow> user_db \<Rightarrow> token_store \<Rightarrow> (user_error + TokenPair) \<times> token_store" where
  "Login deps env tenv account password db st =
     (case authenticate deps env account password db of
        Inl e \<Rightarrow> (Inl e, st)
      | Inr u \<Rightarrow> issueTokenPair deps tenv u [] [] st)"

definition RefreshToken ::
  "user_deps \<Rightarrow> db_env \<Rightarrow> token_env \<Rightarrow> string \<Rightarrow> user_db \<Rightarrow> token_store \<Rightarrow> (user_error + TokenPair) \<times> token_store" where
  "RefreshToken deps env tenv raw db st =
     (case FindByHash (dp_ns deps) tenv 0 (token_Hash deps raw) st of
        Inl _ \<Rightarrow> (Inl URefreshTokenDenied, st)
      | Inr r \<Rightarrow>
          (if rt_Revoked r \<or> rt_ReplayLocked r \<or> \<not> te_check tenv < rt_ExpiresAt r then (Inl URefreshTokenDenied, st)
           else case bindE (user_FindByID env (rt_UserID r) db) (\<lambda>u. guardE (\<not> User_IsActive u) UInactive (load_roles env db u)) of
                  Inl e \<Rightarrow> (Inl e, st)
                | Inr u \<Rightarrow>
                    (case IssueAccessToken deps (us_ID u) (us_Username u) (us_Roles u) of
                       Inl e \<Rightarrow> (Inl e, st)
                     | Inr (access, expiresIn) \<Rightarrow>
                         (case Generate deps tenv (us_ID u) (rt_SessionID r) (rt_TokenID r) of
                            Inl e \<Rightarrow> (Inl e, st)
                          | Inr (nextRaw, nextRecord) \<Rightarrow>
                              (case Rotate (dp_ns deps) (dp_units deps) tenv 1 (rt_TokenHash r) nextRecord st of
                                 (Some e, st') \<Rightarrow> (Inl e, st')
                               | (None, st') \<Rightarrow>
                                   (Inr \<lparr>tp_AccessToken = access, tp_RefreshToken = nextRaw, tp_ExpiresIn = expiresIn\<rparr>, st'))))))"

definition Logout :: "user_deps \<Rightarrow> token_env \<Rightarrow> string \<Rightarrow> token_store \<Rightarrow> user_error option \<times> token_store" where
  "Logout deps tenv raw st =
     (case FindByHash (dp_ns deps) tenv 0 (token_Hash deps raw) st of
        Inl e \<Rightarrow> (if e = URefreshTokenDenied then None else Some e, st)
      | Inr r \<Rightarrow> RevokeSession (dp_ns deps) (dp_units deps) tenv 1 (rt_SessionID r) st)"

record RequestContext =
  rq_UserID :: int64
  rq_Roles :: "string list"

definition rq_IsAdmin :: "RequestContext \<Rightarrow> bool" where
  "rq_IsAdmin c \<longleftrightarrow> RoleAdmin \<in> set (rq_Roles c)"

definition active_user :: "db_env \<Rightarrow> int64 \<Rightarrow> user_db \<Rightarrow> user_error + User" where
  "active_user env i db =
     bindE (user_FindByID env i db) (\<lambda>u. guardE (\<not> User_IsActive u) UInactive (load_roles env db u))"

definition GetCurrentUser :: "db_env \<Rightarrow> RequestContext \<Rightarrow> user_db \<Rightarrow> user_error + User" where
  "GetCurrentUser env c db = guardE (rq_UserID c \<le> 0) UInvalidArgument (active_user env (rq_UserID c) db)"

definition GetUser :: "db_env \<Rightarrow> RequestContext \<Rightarrow> int64 \<Rightarrow> user_db \<Rightarrow> user_error + User" where
  "GetUser env c i db =
     guardE (i \<le> 0 \<or> rq_UserID c \<le> 0) UInvalidArgument
       (guardE (rq_UserID c \<noteq> i \<and> \<not> rq_IsAdmin c) UPermissionDenied (active_user env i db))"

end
