(* ===== verification/User_Accounts.thy ===== *)
theory User_Accounts
  imports User_Usecase
begin

text \<open>
  The accounts of the user service: the bootstrap command (\<open>src/services/user/cmd/user-bootstrap/main.go\<close>),
  the account tables that registrations and the bootstrap command lead to, and what a lookup finds in them.
\<close>

section \<open>Definitions\<close>

definition bootstrap_run :: "user_deps \<Rightarrow> db_env \<Rightarrow> string \<Rightarrow> string \<Rightarrow> string \<Rightarrow> user_db \<Rightarrow> user_error option \<times> user_db" where
  \<comment> \<open>\<open>run\<close>, on the input that \<open>loadBootstrapInput\<close> accepted\<close>
  "bootstrap_run deps env username email password db =
     (case dp_hash deps password of
        None \<Rightarrow> (Some (UOther ''hash''), db)
      | Some h \<Rightarrow>
          (case BootstrapAdmin env \<lparr>us_ID = 0, us_Username = NormalizeUsername username, us_Email = NormalizeEmail email,
                  us_PasswordHash = h, us_Status = UserStatusActive, us_Roles = []\<rparr> db of
             (Inl e, db') \<Rightarrow> (if e = UAdminAlreadyExists then None else Some e, db')
           | (Inr _, db') \<Rightarrow> (None, db')))"

inductive account_tables :: "user_deps \<Rightarrow> user_db \<Rightarrow> bool" for deps where
  migrated: "account_tables deps seeded_user_db"
| registered: "account_tables deps db \<Longrightarrow> account_tables deps (snd (Register deps env input db))"
| bootstrapped: "account_tables deps db \<Longrightarrow> account_tables deps (snd (bootstrap_run deps env username email password db))"

definition user_of :: "user_row \<Rightarrow> string list \<Rightarrow> User" where
  "user_of r roles = \<lparr>us_ID = uw_id r, us_Username = uw_username r, us_Email = uw_email r,
     us_PasswordHash = uw_password_hash r, us_Status = uw_status r, us_Roles = roles\<rparr>"

definition accounts_ok :: "user_db \<Rightarrow> bool" where
  "accounts_ok db \<longleftrightarrow> ud_roles db = [(1, RoleUser), (2, RoleAdmin)]
     \<and> map fst (ud_user_roles db) = map uw_id (ud_users db)
     \<and> snd ` set (ud_user_roles db) \<subseteq> {1, 2}
     \<and> length (filter (\<lambda>ur. snd ur = 2) (ud_user_roles db)) \<le> 1
     \<and> distinct (map uw_id (ud_users db)) \<and> (\<forall>r \<in> set (ud_users db). uw_id r < ud_next_id db)
     \<and> distinct (map (to_lower \<circ> uw_username) (ud_users db)) \<and> distinct (map (to_lower \<circ> uw_email) (ud_users db))"

definition sample_deps :: user_deps where
  "sample_deps = \<lparr>dp_hash = (\<lambda>p. Some (rev p)), dp_compare = (\<lambda>h p. h = rev p), dp_sign = (\<lambda>i n rs. Some n), dp_sha256 = rev,
     dp_ns = ''user'', dp_units = \<lparr>ru_px = (\<lambda>t. t), ru_ex = (\<lambda>t. t)\<rparr>, dp_accessTokenTTL = Minute, dp_refreshTokenTTL = Hour\<rparr>"

definition sample_input :: RegisterInput where
  "sample_input = \<lparr>ri_Username = ''Root@oj.dev'', ri_Email = ''eve@oj.dev'', ri_Password = ''12345678''\<rparr>"

definition sample_bootstrapped :: user_db where
  "sample_bootstrapped = snd (bootstrap_run sample_deps (healthy 0) ''root'' ''root@oj.dev'' ''password'' seeded_user_db)"

definition sample_registered :: user_db where
  "sample_registered = snd (Register sample_deps (healthy 1) sample_input sample_bootstrapped)"

definition sample_user :: User where
  "sample_user = \<lparr>us_ID = 2, us_Username = ''root@oj.dev'', us_Email = ''eve@oj.dev'', us_PasswordHash = ''87654321'',
     us_Status = UserStatusActive, us_Roles = [RoleUser]\<rparr>"

section \<open>Lemmas\<close>

subsection \<open>The tables\<close>

lemma admin_count_seeded:
  "ud_roles db = [(1, RoleUser), (2, RoleAdmin)] \<Longrightarrow> admin_count db = length (filter (\<lambda>ur. snd ur = 2) (ud_user_roles db))"
proof -
  have "\<not> db_eq RoleUser RoleAdmin" by code_simp
  then show "ud_roles db = [(1, RoleUser), (2, RoleAdmin)] \<Longrightarrow> ?thesis"
    by (auto simp: admin_count_def intro!: arg_cong [where f = length] filter_cong)
qed

lemma role_id_seeded:
  "ud_roles db = [(1, RoleUser), (2, RoleAdmin)] \<Longrightarrow> role_id RoleUser db = Some 1"
  "ud_roles db = [(1, RoleUser), (2, RoleAdmin)] \<Longrightarrow> role_id RoleAdmin db = Some 2"
proof -
  have "\<not> db_eq RoleUser RoleAdmin" by code_simp
  then show "ud_roles db = [(1, RoleUser), (2, RoleAdmin)] \<Longrightarrow> role_id RoleUser db = Some 1"
    "ud_roles db = [(1, RoleUser), (2, RoleAdmin)] \<Longrightarrow> role_id RoleAdmin db = Some 2"
    by (simp_all add: role_id_def)
qed

lemma insert_user_Inr:
  assumes "insert_user env u db = Inr (i, db1)"
  shows "i = ud_next_id db" and "\<not> user_key_taken u db"
    and "db1 = db\<lparr>ud_users := ud_users db @ [\<lparr>uw_id = i, uw_username = us_Username u, uw_email = us_Email u,
                    uw_password_hash = us_PasswordHash u, uw_status = us_Status u\<rparr>], ud_next_id := i + 1\<rparr>"
  using assms by (auto simp: insert_user_def user_stmt_def Let_def)

lemma insert_user_role_Inr:
  "insert_user_role env u r db = Inr db' \<Longrightarrow> db' = db\<lparr>ud_user_roles := ud_user_roles db @ [(u, r)]\<rparr>"
  by (auto simp: insert_user_role_def user_stmt_def)

lemma account_added:
  assumes "accounts_ok db" and i: "insert_user env u db = Inr (i, db1)" and r: "insert_user_role env i role db1 = Inr db'"
    and "role = 1 \<or> role = 2 \<and> admin_count db = 0"
  shows "accounts_ok db'"
proof -
  note i = insert_user_Inr [OF i]
  have "i \<notin> uw_id ` set (ud_users db)" using assms(1) i(1) by (auto simp: accounts_ok_def)
  moreover have "to_lower (us_Username u) \<notin> (\<lambda>r. to_lower (uw_username r)) ` set (ud_users db)"
    "to_lower (us_Email u) \<notin> (\<lambda>r. to_lower (uw_email r)) ` set (ud_users db)"
    using i(2) by (fastforce simp: user_key_taken_def db_eq_def equal_fold_def)+
  moreover have "length (filter (\<lambda>ur. snd ur = 2) (ud_user_roles db)) + (if role = 2 then 1 else 0) \<le> 1"
    using assms(1,4) admin_count_seeded [of db] by (auto simp: accounts_ok_def)
  moreover have "\<forall>r \<in> set (ud_users db). uw_id r < ud_next_id db + 1"
    using assms(1) by (fastforce simp: accounts_ok_def)
  ultimately show ?thesis
    using assms(1,4) insert_user_role_Inr [OF r] i(1) unfolding i(3) by (simp add: accounts_ok_def comp_def) force
qed

lemma create_user_tx_Inr:
  assumes "ud_roles db = [(1, RoleUser), (2, RoleAdmin)]" and "create_user_tx env u RoleUser db = Inr (v, db')"
  obtains i db1 where "insert_user env u db = Inr (i, db1)" and "insert_user_role env i 1 db1 = Inr db'" and "v = u\<lparr>us_ID := i\<rparr>"
proof -
  from assms(2) obtain i db1 where i: "insert_user env u db = Inr (i, db1)"
    and b: "(case role_id RoleUser db1 of None \<Rightarrow> Inl (UOther ''default role is not seeded'')
          | Some r \<Rightarrow> bindE (insert_user_role env i r db1) (\<lambda>db2. Inr (u\<lparr>us_ID := i\<rparr>, db2))) = Inr (v, db')"
    by (auto simp: create_user_tx_def user_stmt_def)
  have "role_id RoleUser db1 = Some 1" using role_id_seeded(1) [of db1] insert_user_Inr(3) [OF i] assms(1) by simp
  then show ?thesis using that i b by auto
qed

lemma bootstrap_tx_Inr:
  assumes "ud_roles db = [(1, RoleUser), (2, RoleAdmin)]" and "bootstrap_tx env u db = Inr (v, db')"
  obtains i db1 where "insert_user env u db = Inr (i, db1)" and "insert_user_role env i 2 db1 = Inr db'"
    and "admin_count db = 0"
  using assms(2) role_id_seeded(2) [OF assms(1)] by (auto simp: bootstrap_tx_def user_stmt_def)

lemma create_user_tx_ok: "accounts_ok db \<Longrightarrow> create_user_tx env u RoleUser db = Inr (v, db') \<Longrightarrow> accounts_ok db'"
  using create_user_tx_Inr account_added by (metis accounts_ok_def)

lemma bootstrap_tx_ok: "accounts_ok db \<Longrightarrow> bootstrap_tx env u db = Inr (v, db') \<Longrightarrow> accounts_ok db'"
  using bootstrap_tx_Inr account_added by (metis accounts_ok_def)

lemma tx_keeps:
  assumes "P s" and "\<And>a s'. body s = Inr (a, s') \<Longrightarrow> P s'"
  shows "P (snd (run_tx env err body s))"
  using run_tx_atomic [of env err body s] assms by (cases "run_tx env err body s") auto

lemma account_tables_ok:
  assumes "account_tables deps db"
  shows "accounts_ok db"
  using assms
proof (induction rule: account_tables.induct)
  case migrated
  show ?case by (simp add: accounts_ok_def seeded_user_db_def)
next
  case (registered db env input)
  have "accounts_ok (snd (CreateUser env u RoleUser db))" for u
    unfolding CreateUser_def by (rule tx_keeps) (fact registered.IH, rule create_user_tx_ok [OF registered.IH])
  then show ?case using registered.IH by (simp add: Register_def Let_def split: option.split)
next
  case (bootstrapped db env username email password)
  have "accounts_ok (snd (BootstrapAdmin env u db))" for u
    unfolding BootstrapAdmin_def by (rule tx_keeps) (fact bootstrapped.IH, rule bootstrap_tx_ok [OF bootstrapped.IH])
  then show ?case
    using bootstrapped.IH by (auto simp: bootstrap_run_def split: option.splits prod.splits sum.splits) (metis snd_conv)+
qed

subsection \<open>Lookups\<close>

lemma filter_id:
  "distinct (map f xs) \<Longrightarrow> x \<in> set xs \<Longrightarrow> filter (\<lambda>y. f y = f x) xs = [x]"
proof (induction xs)
  case (Cons y ys)
  then have "f z \<noteq> f y" if "z \<in> set ys" for z using that by (metis distinct.simps(2) image_eqI list.set_map list.simps(9))
  then show ?case using Cons by (auto simp: filter_empty_conv)
qed simp

lemma one_role:
  assumes "accounts_ok db" and "r \<in> set (ud_users db)"
  shows "role_names_of db (uw_id r) = [RoleUser] \<or> role_names_of db (uw_id r) = [RoleAdmin]"
proof -
  have "uw_id r \<in> fst ` set (ud_user_roles db)" using assms unfolding accounts_ok_def by (metis image_eqI list.set_map)
  then obtain x where x: "x \<in> set (ud_user_roles db)" "fst x = uw_id r" by auto
  have "filter (\<lambda>ur. fst ur = uw_id r) (ud_user_roles db) = [x]"
    using filter_id [of fst "ud_user_roles db" x] assms(1) x by (simp add: accounts_ok_def)
  moreover have "snd x = 1 \<or> snd x = 2" using assms(1) x(1) by (auto simp: accounts_ok_def)
  ultimately show ?thesis using assms(1) by (auto simp: role_names_of_def accounts_ok_def)
qed

lemma findUser_one:
  assumes "filter p (ud_users db) = [r]" and "role_names_of db (uw_id r) = [n]"
  shows "findUser (healthy t) p db = Inr (user_of r [n])"
  using assms by (simp add: findUser_def user_stmt_def joined_rows_def scan_row_def user_of_def empty_user_def Let_def)

lemma findUser_two:
  assumes "filter p (ud_users db) = [a, r]" and "role_names_of db (uw_id a) = [RoleAdmin]" and "role_names_of db (uw_id r) = [RoleUser]"
  shows "findUser (healthy t) p db = Inr (user_of r [RoleAdmin, RoleUser])"
proof -
  have "bytes_less (to_lower RoleAdmin) (to_lower RoleUser)" "\<not> bytes_less (to_lower RoleUser) (to_lower RoleAdmin)"
    by code_simp+
  then show ?thesis
    using assms by (simp add: findUser_def user_stmt_def joined_rows_def scan_row_def user_of_def empty_user_def Let_def)
qed

lemma bootstrap_skipped:
  assumes "BootstrapAdmin env u db = (Inl UAdminAlreadyExists, db')"
  shows "admin_count db > 0"
proof -
  have "bootstrap_tx env u db = Inl UAdminAlreadyExists"
    using assms by (auto simp: BootstrapAdmin_def run_tx_def split: if_splits sum.splits)
  then show ?thesis
    by (auto simp: bootstrap_tx_def user_stmt_def stmtE_def guardE_def insert_user_def insert_user_role_def Let_def
        split: option.splits if_splits)
qed

lemma bootstrap_seeded:
  assumes "bootstrap_run deps env username email pw seeded_user_db = (None, db1)"
  obtains a where "ud_users db1 = [a]" and "uw_email a = NormalizeEmail email" and "uw_id a = 1"
    and "ud_user_roles db1 = [(1, 2)]" and "ud_roles db1 = ud_roles seeded_user_db" and "ud_next_id db1 = 2"
proof -
  have roles: "ud_roles seeded_user_db = [(1, RoleUser), (2, RoleAdmin)]" by (simp add: seeded_user_db_def)
  then have "admin_count seeded_user_db = 0" by (simp add: admin_count_seeded) (simp add: seeded_user_db_def)
  then have "BootstrapAdmin env u seeded_user_db \<noteq> (Inl UAdminAlreadyExists, db1)" for u using bootstrap_skipped by fastforce
  moreover obtain h where h: "dp_hash deps pw = Some h" using assms by (auto simp: bootstrap_run_def split: option.splits)
  moreover define u where "u = \<lparr>us_ID = 0, us_Username = NormalizeUsername username, us_Email = NormalizeEmail email,
     us_PasswordHash = h, us_Status = UserStatusActive, us_Roles = []\<rparr>"
  ultimately obtain v where "BootstrapAdmin env u seeded_user_db = (Inr v, db1)"
    using assms unfolding bootstrap_run_def u_def [symmetric]
    by (cases "BootstrapAdmin env u seeded_user_db") (auto simp: u_def [symmetric] split: sum.splits if_splits)
  moreover have u: "us_Email u = NormalizeEmail email" by (simp add: u_def)
  ultimately obtain i db where i: "insert_user env u seeded_user_db = Inr (i, db)" and r: "insert_user_role env i 2 db = Inr db1"
    by (auto simp: BootstrapAdmin_def run_tx_ok elim: bootstrap_tx_Inr [OF roles])
  show ?thesis
    using that [of "hd (ud_users db1)"] u insert_user_Inr(1,3) [OF i] insert_user_role_Inr [OF r] by (simp add: seeded_user_db_def)
qed

lemma sample_tables: "account_tables sample_deps sample_registered"
  unfolding sample_registered_def sample_bootstrapped_def by (intro account_tables.intros)

lemma sample_steps:
  "bootstrap_run sample_deps (healthy 0) ''root'' ''root@oj.dev'' ''password'' seeded_user_db = (None, sample_bootstrapped)"
  "Register sample_deps (healthy 1) sample_input sample_bootstrapped = (Inr sample_user, sample_registered)"
  "NormalizeUsername (ri_Username sample_input) = NormalizeEmail ''root@oj.dev''"
  by code_simp+

section \<open>Properties\<close>





end
