(* ===== verification/User_Sessions.thy ===== *)
theory User_Sessions
  imports User_Usecase
begin

text \<open>
  Sessions: what sequences of logins, refreshes and logouts do to the stored refresh tokens.
\<close>

section \<open>Definitions\<close>

datatype session_op =
    OpLogin db_env token_env string string user_db
  | OpRefresh db_env token_env string user_db
  | OpLogout token_env string

fun op_env :: "session_op \<Rightarrow> token_env" where
  "op_env (OpLogin env tenv account password db) = tenv"
| "op_env (OpRefresh env tenv raw db) = tenv"
| "op_env (OpLogout tenv raw) = tenv"

fun run_op :: "user_deps \<Rightarrow> session_op \<Rightarrow> token_store \<Rightarrow> token_store" where
  "run_op deps (OpLogin env tenv account password db) st = snd (Login deps env tenv account password db st)"
| "run_op deps (OpRefresh env tenv raw db) st = snd (RefreshToken deps env tenv raw db st)"
| "run_op deps (OpLogout tenv raw) st = snd (Logout deps tenv raw st)"

definition run_ops :: "user_deps \<Rightarrow> session_op list \<Rightarrow> token_store \<Rightarrow> token_store" where
  "run_ops deps ops st = fold (run_op deps) ops st"

definition draws_other :: "user_deps \<Rightarrow> string \<Rightarrow> token_env \<Rightarrow> bool" where
  \<comment> \<open>the random token of the operation has another hash\<close>
  "draws_other deps h tenv \<longleftrightarrow> (case te_raw tenv of None \<Rightarrow> True | Some raw \<Rightarrow> token_Hash deps raw \<noteq> h)"

definition stored :: "string \<Rightarrow> token_store \<Rightarrow> string \<Rightarrow> RefreshTokenRecord \<Rightarrow> time \<Rightarrow> bool" where
  "stored ns st h r d \<longleftrightarrow> (\<exists>p. map_of st (tokenKey ns h) = Some (TText p, d) \<and> dec_RefreshTokenRecord p = Some r)"

definition keyed :: "string \<Rightarrow> token_store \<Rightarrow> bool" where
  "keyed ns st \<longleftrightarrow> (\<forall>h r d. stored ns st h r d \<longrightarrow> rt_TokenHash r = h)"

definition ended :: "string \<Rightarrow> time \<Rightarrow> token_store \<Rightarrow> string \<Rightarrow> bool" where
  \<comment> \<open>the token is revoked, or expired at the given time\<close>
  "ended ns now st h \<longleftrightarrow> (\<forall>r d. stored ns st h r d \<longrightarrow> rt_Revoked r \<or> d \<le> now)"

definition rotated_old :: "token_env \<Rightarrow> RefreshTokenRecord \<Rightarrow> RefreshTokenRecord" where
  "rotated_old env old = old\<lparr>rt_Revoked := True, rt_LastUsedAt := te_store env\<rparr>"

definition rotated_next :: "token_env \<Rightarrow> RefreshTokenRecord \<Rightarrow> RefreshTokenRecord \<Rightarrow> RefreshTokenRecord" where
  "rotated_next env old nxt = nxt\<lparr>rt_LastUsedAt := te_store env,
     rt_SessionID := (if rt_SessionID nxt = [] then rt_SessionID old else rt_SessionID nxt),
     rt_RotatedFrom := (if rt_RotatedFrom nxt = [] then rt_TokenID old else rt_RotatedFrom nxt)\<rparr>"

definition units_ok :: "redis_units \<Rightarrow> bool" where
  \<comment> \<open>\<open>SET PX\<close> and \<open>EXPIRE\<close> round a positive lifetime to positive ones that differ by less than a second\<close>
  "units_ok units \<longleftrightarrow> (\<forall>ttl > 0. 0 < ru_px units ttl \<and> 0 < ru_ex units ttl \<and> ru_px units ttl < ru_ex units ttl + Second)"

definition fresh_token :: "user_deps \<Rightarrow> token_env \<Rightarrow> token_store \<Rightarrow> bool" where
  "fresh_token deps tenv st \<longleftrightarrow>
     (case te_raw tenv of None \<Rightarrow> True | Some raw \<Rightarrow> token_Hash deps raw \<noteq> []
          \<and> map_of st (tokenKey (dp_ns deps) (token_Hash deps raw)) = None)
     \<and> (case te_session tenv of None \<Rightarrow> True | Some s \<Rightarrow> s \<noteq> [] \<and> map_of st (sessionKey (dp_ns deps) s) = None)"

inductive calm_sessions :: "user_deps \<Rightarrow> token_store \<Rightarrow> bool" for deps where
  start: "calm_sessions deps []"
| login: "calm_sessions deps st \<Longrightarrow> fresh_token deps tenv st \<Longrightarrow> calm_sessions deps (snd (Login deps env tenv account password db st))"
| refresh: "calm_sessions deps st \<Longrightarrow> fresh_token deps tenv st \<Longrightarrow> calm_sessions deps (snd (RefreshToken deps env tenv raw db st))"
| logout: "calm_sessions deps st \<Longrightarrow> te_fails tenv = (\<lambda>_. False) \<Longrightarrow> Logout deps tenv raw st = (None, st') \<Longrightarrow> calm_sessions deps st'"

definition live_session :: "string \<Rightarrow> token_store \<Rightarrow> string \<Rightarrow> string \<Rightarrow> bool" where
  \<comment> \<open>the hash of a token of the session that is not revoked\<close>
  "live_session ns st s h \<longleftrightarrow> (\<exists>r d. stored ns st h r d \<and> \<not> rt_Revoked r \<and> rt_SessionID r = s)"

definition indexed :: "string \<Rightarrow> token_store \<Rightarrow> string \<Rightarrow> string \<Rightarrow> time \<Rightarrow> bool" where
  "indexed ns st s h d \<longleftrightarrow> (\<exists>xs ds. map_of st (sessionKey ns s) = Some (TSet xs, ds) \<and> h \<in> set xs \<and> d < ds + Second)"

definition sess_frame :: "string \<Rightarrow> token_store \<Rightarrow> bool" where
  "sess_frame ns st \<longleftrightarrow> keyed ns st
     \<and> (\<forall>h r d. stored ns st h r d \<longrightarrow> h \<noteq> [] \<and> rt_SessionID r \<noteq> []
          \<and> map_of st (sessionKey ns (rt_SessionID r)) \<noteq> None)
     \<and> (\<forall>s v d. map_of st (sessionKey ns s) = Some (v, d) \<longrightarrow> (\<exists>xs. v = TSet xs
          \<and> (\<forall>h \<in> set xs. map_of st (tokenKey ns h) \<noteq> None \<and> (\<forall>r e. stored ns st h r e \<longrightarrow> rt_SessionID r = s))))"

definition sess_inv :: "string \<Rightarrow> token_store \<Rightarrow> bool" where
  "sess_inv ns st \<longleftrightarrow> sess_frame ns st
     \<and> (\<forall>h r d. stored ns st h r d \<longrightarrow> \<not> rt_Revoked r \<longrightarrow> indexed ns st (rt_SessionID r) h d)
     \<and> (\<forall>s h h'. live_session ns st s h \<longrightarrow> live_session ns st s h' \<longrightarrow> h = h')"

definition others_ok :: "string \<Rightarrow> string \<Rightarrow> token_store \<Rightarrow> bool" where
  \<comment> \<open>the invariant for the sessions other than the one being revoked\<close>
  "others_ok ns s0 st \<longleftrightarrow>
     (\<forall>h r d. stored ns st h r d \<longrightarrow> \<not> rt_Revoked r \<longrightarrow> rt_SessionID r \<noteq> s0 \<longrightarrow> indexed ns st (rt_SessionID r) h d)
     \<and> (\<forall>s h h'. live_session ns st s h \<longrightarrow> live_session ns st s h' \<longrightarrow> h = h')"

definition revoking :: "string \<Rightarrow> string \<Rightarrow> time \<Rightarrow> string list \<Rightarrow> token_store \<Rightarrow> bool" where
  \<comment> \<open>the invariant of the loop of \<open>RevokeSession\<close> with the hashes left\<close>
  "revoking ns s0 now hs st \<longleftrightarrow> sess_frame ns st \<and> others_ok ns s0 st
     \<and> (\<exists>xs ds. map_of st (sessionKey ns s0) = Some (TSet xs, ds) \<and> now < ds \<and> set hs \<subseteq> set xs
          \<and> (\<forall>h r d. stored ns st h r d \<longrightarrow> \<not> rt_Revoked r \<longrightarrow> rt_SessionID r = s0 \<longrightarrow> h \<in> set xs \<and> (h \<in> set hs \<or> d \<le> now)))"

definition demo_user_deps :: user_deps where
  "demo_user_deps = \<lparr>dp_hash = Some, dp_compare = (=), dp_sign = (\<lambda>i n rs. Some n), dp_sha256 = (\<lambda>x. x), dp_ns = ''n'',
     dp_units = \<lparr>ru_px = (\<lambda>t. t), ru_ex = (\<lambda>t. t)\<rparr>, dp_accessTokenTTL = Minute, dp_refreshTokenTTL = Hour\<rparr>"

definition demo_token_env :: "time \<Rightarrow> string \<Rightarrow> token_env" where
  "demo_token_env t raw = \<lparr>te_check = t, te_issue = t, te_store = t, te_redis = t, te_fails = (\<lambda>_. False), te_lost = (\<lambda>_. False),
     te_raw = Some raw, te_session = Some ''s'', te_token = Some ''i''\<rparr>"

definition demo_accounts :: user_db where
  "demo_accounts = snd (Register demo_user_deps (healthy 0) \<lparr>ri_Username = ''ann'', ri_Email = ''a@b'', ri_Password = ''secret''\<rparr> seeded_user_db)"

definition demo_login :: session_op where
  "demo_login = OpLogin (healthy 0) (demo_token_env 0 ''a'') ''ann'' ''secret'' demo_accounts"

definition demo_tokens :: token_store where
  "demo_tokens = run_ops demo_user_deps [demo_login] []"

definition demo_refresh :: "(user_error + TokenPair) \<times> token_store" where
  "demo_refresh = RefreshToken demo_user_deps (healthy 1) (demo_token_env 1 ''b'') ''a'' demo_accounts demo_tokens"

definition demo_record :: RefreshTokenRecord where
  "demo_record = \<lparr>rt_UserID = 1, rt_SessionID = ''s'', rt_TokenID = ''i'', rt_TokenHash = ''61'', rt_CreatedAt = 0,
     rt_ExpiresAt = Hour, rt_LastUsedAt = 0, rt_RotatedFrom = [], rt_Revoked = False, rt_ReplayLocked = False\<rparr>"

definition demo_logout :: "user_error option \<times> token_store" where
  "demo_logout = Logout demo_user_deps (demo_token_env 1 ''b'') ''a'' demo_tokens"

section \<open>Lemmas\<close>

subsection \<open>Records in the store\<close>

lemma record_names:
  "to_lower ''UserID'' = ''userid''" "to_lower ''SessionID'' = ''sessionid''" "to_lower ''TokenID'' = ''tokenid''"
  "to_lower ''TokenHash'' = ''tokenhash''" "to_lower ''CreatedAt'' = ''createdat''" "to_lower ''ExpiresAt'' = ''expiresat''"
  "to_lower ''LastUsedAt'' = ''lastusedat''" "to_lower ''RotatedFrom'' = ''rotatedfrom''" "to_lower ''Revoked'' = ''revoked''"
  "to_lower ''ReplayLocked'' = ''replaylocked''"
  by code_simp+

lemma record_fields:
  fixes r :: RefreshTokenRecord
  defines "kvs \<equiv> [(''UserID'', JNum (rt_UserID r)), (''SessionID'', JStr (rt_SessionID r)),
        (''TokenID'', JStr (rt_TokenID r)), (''TokenHash'', JStr (rt_TokenHash r)),
        (''CreatedAt'', JTime (rt_CreatedAt r)), (''ExpiresAt'', JTime (rt_ExpiresAt r)),
        (''LastUsedAt'', JTime (rt_LastUsedAt r)), (''RotatedFrom'', JStr (rt_RotatedFrom r)),
        (''Revoked'', JBool (rt_Revoked r)), (''ReplayLocked'', JBool (rt_ReplayLocked r))]"
  shows "dec_field dec_int64 0 ''UserID'' kvs = dec_int64 (JNum (rt_UserID r))"
    "dec_field dec_str [] ''SessionID'' kvs = Some (rt_SessionID r)"
    "dec_field dec_str [] ''TokenID'' kvs = Some (rt_TokenID r)"
    "dec_field dec_str [] ''TokenHash'' kvs = Some (rt_TokenHash r)"
    "dec_field dec_time zero_time ''CreatedAt'' kvs = Some (rt_CreatedAt r)"
    "dec_field dec_time zero_time ''ExpiresAt'' kvs = Some (rt_ExpiresAt r)"
    "dec_field dec_time zero_time ''LastUsedAt'' kvs = Some (rt_LastUsedAt r)"
    "dec_field dec_str [] ''RotatedFrom'' kvs = Some (rt_RotatedFrom r)"
    "dec_field dec_bool False ''Revoked'' kvs = Some (rt_Revoked r)"
    "dec_field dec_bool False ''ReplayLocked'' kvs = Some (rt_ReplayLocked r)"
  unfolding kvs_def by (simp_all add: dec_field_def field_values_def equal_fold_def record_names)

lemma dec_RefreshTokenRecord_enc:
  assumes "enc_RefreshTokenRecord r = Some p"
  shows "dec_RefreshTokenRecord p = (if min_int64 \<le> rt_UserID r \<and> rt_UserID r \<le> max_int64 then Some r else None)"
proof -
  obtain kvs where p: "p = JObj kvs" and kvs: "kvs = [(''UserID'', JNum (rt_UserID r)), (''SessionID'', JStr (rt_SessionID r)),
        (''TokenID'', JStr (rt_TokenID r)), (''TokenHash'', JStr (rt_TokenHash r)),
        (''CreatedAt'', JTime (rt_CreatedAt r)), (''ExpiresAt'', JTime (rt_ExpiresAt r)),
        (''LastUsedAt'', JTime (rt_LastUsedAt r)), (''RotatedFrom'', JStr (rt_RotatedFrom r)),
        (''Revoked'', JBool (rt_Revoked r)), (''ReplayLocked'', JBool (rt_ReplayLocked r))]"
    using assms by (simp add: enc_RefreshTokenRecord_def split: if_splits)
  note f = record_fields [of r, folded kvs]
  show ?thesis
  proof (cases "min_int64 \<le> rt_UserID r \<and> rt_UserID r \<le> max_int64")
    case True
    then show ?thesis using f unfolding p by (cases r) (simp add: dec_RefreshTokenRecord_def)
  next
    case False
    then have "dec_int64 (JNum (rt_UserID r)) = None" by auto
    then show ?thesis using f False unfolding p by (simp add: dec_RefreshTokenRecord_def)
  qed
qed

lemma dec_enc_RefreshTokenRecord:
  "enc_RefreshTokenRecord r = Some p \<Longrightarrow> dec_RefreshTokenRecord p = Some r' \<Longrightarrow> r' = r"
  by (simp add: dec_RefreshTokenRecord_enc split: if_splits)

lemma keys_inj [simp]:
  "tokenKey ns h = tokenKey ns h' \<longleftrightarrow> h = h'" "sessionKey ns s = sessionKey ns s' \<longleftrightarrow> s = s'"
  "tokenKey ns h \<noteq> sessionKey ns s" "sessionKey ns s \<noteq> tokenKey ns h"
  by (simp_all add: tokenKey_def sessionKey_def)

lemma map_of_written:
  "map_of (written ns units now ttl r p st) (tokenKey ns h) =
     (if h = rt_TokenHash r then Some (TText p, now + ru_px units ttl) else map_of st (tokenKey ns h))"
  "map_of (written ns units now ttl r p st) (sessionKey ns s) =
     (if s = rt_SessionID r
      then Some (TSet (let xs = members now st (sessionKey ns s)
                       in if rt_TokenHash r \<in> set xs then xs else xs @ [rt_TokenHash r]), now + ru_ex units ttl)
      else map_of st (sessionKey ns s))"
  by (simp_all add: written_def Let_def)

lemma stored_written:
  assumes "enc_RefreshTokenRecord r = Some p" and "stored ns (written ns units now ttl r p st) h r' d"
  shows "(h = rt_TokenHash r \<and> r' = r \<and> d = now + ru_px units ttl) \<or> (h \<noteq> rt_TokenHash r \<and> stored ns st h r' d)"
  using assms by (auto simp: stored_def map_of_written split: if_splits dest: dec_enc_RefreshTokenRecord)

lemma save_cases:
  assumes "store_save ns units env i r st = (e, st')"
  obtains (same) "st' = st" and "e \<noteq> None"
  | (new) p ttl where "enc_RefreshTokenRecord r = Some p" and "0 < ttl"
      and "st' = written ns units (te_redis env) ttl r p st" and "e = None \<or> te_fails env i"
proof (cases "st' = st \<and> e \<noteq> None")
  case True
  then show ?thesis using same by blast
next
  case False
  let ?ttl = "time_sub (rt_ExpiresAt r) (te_store env)"
  from assms False obtain p where "enc_RefreshTokenRecord r = Some p" "0 < ?ttl"
    "st' = written ns units (te_redis env) ?ttl r p st" "e = None \<or> te_fails env i"
    by (auto simp: store_save_def Let_def split: if_splits option.splits)
  then show ?thesis by (rule new)
qed

lemma FindByHash_Inr:
  assumes "FindByHash ns env i h st = Inr r"
  obtains d where "stored ns st h r d" and "te_redis env < d" and "h \<noteq> []"
  using assms
  by (auto simp: FindByHash_def tlook_def stored_def split: if_splits option.splits token_value.splits)

subsection \<open>What the operations save\<close>

lemma Rotate_preserves:
  assumes "P st" and save: "\<And>j r st. P st \<Longrightarrow> Q r \<Longrightarrow> P (snd (store_save ns units env j r st))"
    and "\<And>old. FindByHash ns env i h st = Inr old \<Longrightarrow>
      Q (rotated_old env old) \<and> Q (rotated_next env old nxt) \<and> ((rt_Revoked old \<or> rt_ReplayLocked old) \<longrightarrow> Q (old\<lparr>rt_ReplayLocked := True\<rparr>))"
  shows "P (snd (Rotate ns units env i h nxt st))"
proof (cases "FindByHash ns env i h st")
  case (Inl e)
  then show ?thesis using assms(1) by (simp add: Rotate_def)
next
  case (Inr old)
  note q = assms(3) [OF Inr]
  obtain e st1 where s: "store_save ns units env (i + 1) (rotated_old env old) st = (e, st1)" by fastforce
  with save [OF assms(1), of "rotated_old env old" "i + 1"] q have "P st1" by simp
  then show ?thesis
    using Inr q s save [OF assms(1), of "old\<lparr>rt_ReplayLocked := True\<rparr>"] save [of st1 "rotated_next env old nxt"]
    by (auto simp: Rotate_def Let_def rotated_old_def rotated_next_def split: option.splits)
qed

lemma revoke_all_preserves:
  assumes "P st" and save: "\<And>j r st. P st \<Longrightarrow> Q r \<Longrightarrow> P (snd (store_save ns units env j r st))"
    and "\<And>r. Q (rotated_old env r)"
  shows "P (snd (revoke_all ns units env i hs st))"
  using assms(1)
proof (induction hs arbitrary: i st)
  case (Cons h hs)
  show ?case
  proof (cases "FindByHash ns env i h st")
    case (Inl e)
    then show ?thesis using Cons by simp
  next
    case (Inr r)
    obtain e st1 where s: "store_save ns units env (i + 1) (rotated_old env r) st = (e, st1)" by fastforce
    have "P st1" using save [OF Cons.prems assms(3), of "i + 1" r] s by simp
    then show ?thesis using Cons.IH Inr s by (auto simp: rotated_old_def split: option.splits)
  qed
qed simp

lemma Generate_Inr:
  assumes "Generate deps env u s f = Inr (raw, r)"
  shows "te_raw env = Some raw" and "rt_TokenHash r = token_Hash deps raw" and "rt_Revoked r = False"
    and "rt_SessionID r = (if s = [] then the (te_session env) else s)" and "s = [] \<Longrightarrow> te_session env \<noteq> None"
    and "rt_ReplayLocked r = False"
  using assms by (auto simp: Generate_def new_record_def split: if_splits option.splits)

lemma Login_preserves:
  assumes "P st" and "\<And>j r st. P st \<Longrightarrow> Q r \<Longrightarrow> P (snd (store_save (dp_ns deps) (dp_units deps) tenv j r st))"
    and "\<And>raw r u. Generate deps tenv u [] [] = Inr (raw, r) \<Longrightarrow> Q r"
  shows "P (snd (Login deps env tenv account password db st))"
proof -
  have "P (snd (store_Save (dp_ns deps) (dp_units deps) tenv 0 r st))" if "Q r" for r
    using assms(1) assms(2) [OF assms(1) that] by (simp add: store_Save_def)
  then show ?thesis
    using assms(1,3)
    by (auto simp: Login_def issueTokenPair_def split: sum.splits option.splits prod.splits) (metis snd_conv)+
qed

lemma RefreshToken_cases:
  assumes "RefreshToken deps env tenv raw db st = (res, st')"
  obtains (denied) "st' = st" and "\<And>pair. res \<noteq> Inr pair"
  | (rotated) r u nextRaw nxt e where "FindByHash (dp_ns deps) tenv 0 (token_Hash deps raw) st = Inr r"
      and "\<not> rt_Revoked r" and "\<not> rt_ReplayLocked r"
      and "Generate deps tenv u (rt_SessionID r) (rt_TokenID r) = Inr (nextRaw, nxt)"
      and "Rotate (dp_ns deps) (dp_units deps) tenv 1 (rt_TokenHash r) nxt st = (e, st')"
      and "\<And>pair. res = Inr pair \<Longrightarrow> e = None \<and> tp_RefreshToken pair = nextRaw"
  using assms
  by (auto simp: RefreshToken_def split: sum.splits if_splits option.splits prod.splits)

subsection \<open>Ended tokens stay ended\<close>

lemma save_keyed: "keyed ns st \<Longrightarrow> keyed ns (snd (store_save ns units env i r st))"
proof (cases "store_save ns units env i r st")
  case (Pair e st')
  assume k: "keyed ns st"
  from Pair show ?thesis
  proof (cases rule: save_cases)
    case (new p ttl)
    then show ?thesis using Pair k stored_written [OF new(1)] by (fastforce simp: keyed_def)
  qed (simp add: Pair k)
qed

lemma save_ended:
  assumes "ended ns now st h" and "rt_TokenHash r \<noteq> h \<or> rt_Revoked r"
  shows "ended ns now (snd (store_save ns units env i r st)) h"
proof (cases "store_save ns units env i r st")
  case (Pair e st')
  then show ?thesis
  proof (cases rule: save_cases)
    case (new p ttl)
    then show ?thesis using Pair assms stored_written [OF new(1)] by (fastforce simp: ended_def)
  qed (simp add: Pair assms(1))
qed

lemma run_op_keyed:
  assumes "keyed (dp_ns deps) st"
  shows "keyed (dp_ns deps) (run_op deps op st)"
proof (cases op)
  case (OpLogin env tenv account password db)
  show ?thesis unfolding OpLogin run_op.simps
    by (rule Login_preserves [where P = "keyed (dp_ns deps)" and Q = "\<lambda>_. True"]) (use assms save_keyed in auto)
next
  case (OpRefresh env tenv raw db)
  obtain res st' where r: "RefreshToken deps env tenv raw db st = (res, st')" by fastforce
  then show ?thesis
  proof (cases rule: RefreshToken_cases)
    case (rotated r u nextRaw nxt e)
    have "keyed (dp_ns deps) (snd (Rotate (dp_ns deps) (dp_units deps) tenv 1 (rt_TokenHash r) nxt st))"
      by (rule Rotate_preserves [where Q = "\<lambda>_. True"]) (use assms save_keyed in auto)
    then show ?thesis using rotated(5) by (simp add: OpRefresh r del: One_nat_def)
  qed (simp add: OpRefresh r assms)
next
  case (OpLogout tenv raw)
  have "keyed (dp_ns deps) (snd (revoke_all (dp_ns deps) (dp_units deps) tenv i hs st))" for i hs
    by (rule revoke_all_preserves [where Q = "\<lambda>_. True"]) (use assms save_keyed in auto)
  then show ?thesis using assms by (auto simp: OpLogout Logout_def RevokeSession_def split: sum.splits)
qed

lemma rotated_simps [simp]:
  "rt_Revoked (rotated_old env r) = True" "rt_TokenHash (rotated_old env r) = rt_TokenHash r"
  "rt_SessionID (rotated_old env r) = rt_SessionID r" "rt_TokenHash (rotated_next env r n) = rt_TokenHash n"
  "rt_Revoked (rotated_next env r n) = rt_Revoked n"
  by (simp_all add: rotated_old_def rotated_next_def)

lemma run_op_ended:
  assumes "keyed (dp_ns deps) st" and "ended (dp_ns deps) now st h" and "draws_other deps h (op_env op)"
    and "now \<le> te_redis (op_env op)"
  shows "ended (dp_ns deps) now (run_op deps op st) h"
proof (cases op)
  case (OpLogin env tenv account password db)
  show ?thesis unfolding OpLogin run_op.simps
  proof (rule Login_preserves [where Q = "\<lambda>r. rt_TokenHash r \<noteq> h"])
    show "rt_TokenHash r \<noteq> h" if "Generate deps tenv u [] [] = Inr (raw, r)" for raw r u
      using Generate_Inr(1,2) [OF that] assms(3) OpLogin by (simp add: draws_other_def)
  qed (use assms(2) save_ended in auto)
next
  case (OpRefresh env tenv raw db)
  obtain res st' where r: "RefreshToken deps env tenv raw db st = (res, st')" by fastforce
  then show ?thesis
  proof (cases rule: RefreshToken_cases)
    case (rotated r u nextRaw nxt e)
    let ?Q = "\<lambda>r. rt_TokenHash r \<noteq> h \<or> rt_Revoked r"
    have fresh: "rt_TokenHash nxt \<noteq> h"
      using assms(3) OpRefresh Generate_Inr(1,2) [OF rotated(4)] by (simp add: draws_other_def)
    have "ended (dp_ns deps) now (snd (Rotate (dp_ns deps) (dp_units deps) tenv 1 (rt_TokenHash r) nxt st)) h"
    proof (rule Rotate_preserves [where Q = ?Q])
      show "ended (dp_ns deps) now st h" by (fact assms(2))
      fix old
      assume "FindByHash (dp_ns deps) tenv 1 (rt_TokenHash r) st = Inr old"
      then obtain d where d: "stored (dp_ns deps) st (rt_TokenHash r) old d" "te_redis tenv < d"
        by (rule FindByHash_Inr)
      then have "rt_TokenHash old \<noteq> h \<or> rt_Revoked old"
        using assms(1,2,4) OpRefresh by (fastforce simp: keyed_def ended_def)
      then show "?Q (rotated_old tenv old) \<and> ?Q (rotated_next tenv old nxt)
          \<and> (rt_Revoked old \<or> rt_ReplayLocked old \<longrightarrow> ?Q (old\<lparr>rt_ReplayLocked := True\<rparr>))"
        using fresh by simp
    qed (rule save_ended)
    then show ?thesis using rotated(5) by (simp add: OpRefresh r del: One_nat_def)
  qed (simp add: OpRefresh r assms)
next
  case (OpLogout tenv raw)
  have "ended (dp_ns deps) now (snd (revoke_all (dp_ns deps) (dp_units deps) tenv i hs st)) h" for i hs
    by (rule revoke_all_preserves [where Q = "\<lambda>r. rt_TokenHash r \<noteq> h \<or> rt_Revoked r"])
      (use assms save_ended in auto)
  then show ?thesis using assms by (auto simp: OpLogout Logout_def RevokeSession_def split: sum.splits)
qed

lemma run_ops_ended:
  assumes "keyed (dp_ns deps) st" and "ended (dp_ns deps) now st h"
    and "\<forall>op \<in> set ops. draws_other deps h (op_env op) \<and> now \<le> te_redis (op_env op)"
  shows "ended (dp_ns deps) now (run_ops deps ops st) h \<and> keyed (dp_ns deps) (run_ops deps ops st)"
  using assms
proof (induction ops arbitrary: st)
  case (Cons op ops)
  then show ?case using run_op_keyed run_op_ended by (simp add: run_ops_def)
qed (simp add: run_ops_def)

lemma ended_denied:
  assumes "ended (dp_ns deps) now st (token_Hash deps raw)" and "now \<le> te_redis tenv"
  shows "RefreshToken deps env tenv raw db st = (Inl URefreshTokenDenied, st)"
proof (cases "FindByHash (dp_ns deps) tenv 0 (token_Hash deps raw) st")
  case (Inr r)
  then obtain d where "stored (dp_ns deps) st (token_Hash deps raw) r d" "te_redis tenv < d"
    by (rule FindByHash_Inr)
  then have "rt_Revoked r" using assms by (fastforce simp: ended_def)
  then show ?thesis using Inr by (simp add: RefreshToken_def)
qed (simp add: RefreshToken_def)

lemma run_ops_keyed: "keyed (dp_ns deps) (run_ops deps ops [])"
proof -
  have "keyed (dp_ns deps) st \<Longrightarrow> keyed (dp_ns deps) (run_ops deps ops st)" for st
    by (induction ops arbitrary: st) (simp_all add: run_ops_def run_op_keyed)
  moreover have "keyed (dp_ns deps) []" by (simp add: keyed_def stored_def)
  ultimately show ?thesis by blast
qed

lemma rotation_ends:
  assumes "keyed (dp_ns deps) st" and "RefreshToken deps env tenv raw db st = (Inr pair, st')"
    and "draws_other deps (token_Hash deps raw) tenv"
  shows "ended (dp_ns deps) now st' (token_Hash deps raw) \<and> keyed (dp_ns deps) st'"
proof -
  let ?ns = "dp_ns deps" and ?h = "token_Hash deps raw"
  have keyed: "keyed ?ns st'"
    using run_op_keyed [OF assms(1), of "OpRefresh env tenv raw db"] assms(2) by simp
  from assms(2) show ?thesis
  proof (cases rule: RefreshToken_cases)
    case (rotated r u nextRaw nxt e)
    have h: "rt_TokenHash r = ?h" using rotated(1) assms(1) by (auto simp: keyed_def elim!: FindByHash_Inr)
    have fresh: "rt_TokenHash nxt \<noteq> ?h"
      using assms(3) Generate_Inr(1,2) [OF rotated(4)] by (simp add: draws_other_def)
    have e: "e = None" using rotated(6) by simp
    from rotated(5) obtain old where old: "FindByHash ?ns tenv 1 ?h st = Inr old" "\<not> rt_Revoked old" "\<not> rt_ReplayLocked old"
      unfolding e h by (auto simp: Rotate_def split: sum.splits if_splits)
    then have oh: "rt_TokenHash old = ?h" using assms(1) by (auto simp: keyed_def elim!: FindByHash_Inr)
    from rotated(5) old obtain st1 where st1: "store_save ?ns (dp_units deps) tenv 2 (rotated_old tenv old) st = (None, st1)"
      and st': "store_save ?ns (dp_units deps) tenv 3 (rotated_next tenv old nxt) st1 = (None, st')"
      unfolding e h
      by (auto simp: Rotate_def Let_def rotated_old_def rotated_next_def numeral_eq_Suc split: prod.splits option.splits)
    have "ended ?ns now st1 ?h"
      using st1
    proof (cases rule: save_cases)
      case (new p ttl)
      then show ?thesis using stored_written [OF new(1)] by (fastforce simp: ended_def oh)
    qed simp
    then show ?thesis using save_ended [of ?ns now st1 ?h "rotated_next tenv old nxt" "dp_units deps" tenv 3] fresh st' keyed by simp
  qed blast
qed

section \<open>Sessions end\<close>

text \<open>
  The states reached when no logout fails: random values are fresh, refreshes may fail at any command, and
  each logout succeeds. In them a session has at most one usable token, and the session's index lists it
  and lives as long as the token up to a second.
\<close>

lemma written_frame:
  assumes fr: "sess_frame ns st" and enc: "enc_RefreshTokenRecord r = Some p"
    and X: "(\<exists>r0 d. stored ns st (rt_TokenHash r) r0 d \<and> rt_SessionID r0 = rt_SessionID r)
      \<or> map_of st (tokenKey ns (rt_TokenHash r)) = None"
    and ne: "rt_TokenHash r \<noteq> []" "rt_SessionID r \<noteq> []"
  shows "sess_frame ns (written ns units now ttl r p st)"
proof -
  let ?st = "written ns units now ttl r p st" and ?h = "rt_TokenHash r" and ?s = "rt_SessionID r"
  note sw = stored_written [OF enc, of ns units now ttl st]
  have k: "keyed ns ?st" using fr sw by (fastforce simp: sess_frame_def keyed_def)
  have e: "h \<noteq> [] \<and> rt_SessionID r' \<noteq> [] \<and> map_of ?st (sessionKey ns (rt_SessionID r')) \<noteq> None" if "stored ns ?st h r' d" for h r' d
    using sw [OF that] fr ne by (auto simp: sess_frame_def map_of_written) blast
  have tok: "map_of ?st (tokenKey ns h) \<noteq> None" if "map_of st (tokenKey ns h) \<noteq> None \<or> h = ?h" for h
    using that by (auto simp: map_of_written)
  have idx: "\<exists>xs. v = TSet xs \<and> (\<forall>h \<in> set xs. map_of ?st (tokenKey ns h) \<noteq> None \<and> (\<forall>r e. stored ns ?st h r e \<longrightarrow> rt_SessionID r = s))"
    if m: "map_of ?st (sessionKey ns s) = Some (v, d)" for s v d
  proof (cases "s = ?s")
    case True
    let ?xs = "members now st (sessionKey ns ?s)"
    from m True have v: "v = TSet (if ?h \<in> set ?xs then ?xs else ?xs @ [?h])" by (simp add: map_of_written Let_def)
    have "map_of st (tokenKey ns h) \<noteq> None \<and> (\<forall>r e. stored ns st h r e \<longrightarrow> rt_SessionID r = ?s)" if "h \<in> set ?xs" for h
      using that fr by (auto simp: members_def tlook_def sess_frame_def split: option.splits if_splits token_value.splits) blast+
    then show ?thesis using v sw tok True by (intro exI [of _ "if ?h \<in> set ?xs then ?xs else ?xs @ [?h]"]) (auto split: if_splits; metis)
  next
    case False
    with m have "map_of st (sessionKey ns s) = Some (v, d)" by (simp add: map_of_written)
    then have "\<exists>xs. v = TSet xs \<and> (\<forall>h \<in> set xs. map_of st (tokenKey ns h) \<noteq> None
        \<and> (\<forall>r e. stored ns st h r e \<longrightarrow> rt_SessionID r = s))"
      using fr unfolding sess_frame_def by blast
    then obtain xs where xs: "v = TSet xs"
      "\<And>h. h \<in> set xs \<Longrightarrow> map_of st (tokenKey ns h) \<noteq> None \<and> (\<forall>r e. stored ns st h r e \<longrightarrow> rt_SessionID r = s)"
      by blast
    have "?h \<notin> set xs" using X xs(2) False by metis
    then show ?thesis using xs sw tok by (intro exI [of _ xs]) (auto; metis)
  qed
  show ?thesis using k e idx unfolding sess_frame_def by blast
qed

lemma live_written:
  assumes "enc_RefreshTokenRecord r = Some p" and "live_session ns (written ns units now ttl r p st) s h"
  shows "(h = rt_TokenHash r \<and> s = rt_SessionID r \<and> \<not> rt_Revoked r) \<or> (h \<noteq> rt_TokenHash r \<and> live_session ns st s h)"
  using assms stored_written [OF assms(1)] by (fastforce simp: live_session_def)

lemma indexed_written:
  assumes "indexed ns st s h d" and "s \<noteq> rt_SessionID r"
  shows "indexed ns (written ns units now ttl r p st) s h d"
  using assms by (simp add: indexed_def map_of_written)

lemma written_inv:
  assumes inv: "sess_inv ns st" and enc: "enc_RefreshTokenRecord r = Some p"
    and X: "(\<exists>r0 d. stored ns st (rt_TokenHash r) r0 d \<and> rt_SessionID r0 = rt_SessionID r)
      \<or> map_of st (tokenKey ns (rt_TokenHash r)) = None"
    and ne: "rt_TokenHash r \<noteq> []" "rt_SessionID r \<noteq> []"
    and alone: "\<And>h. live_session ns st (rt_SessionID r) h \<Longrightarrow> h = rt_TokenHash r"
    and "units_ok units" and "0 < ttl"
  shows "sess_inv ns (written ns units now ttl r p st)"
proof -
  let ?st = "written ns units now ttl r p st" and ?h = "rt_TokenHash r" and ?s = "rt_SessionID r"
  have fr: "sess_frame ns ?st" using written_frame [OF _ enc X ne] inv by (simp add: sess_inv_def)
  have "indexed ns ?st (rt_SessionID r') h d" if r': "stored ns ?st h r' d" "\<not> rt_Revoked r'" for h r' d
    using stored_written [OF enc r'(1)]
  proof
    assume "h = ?h \<and> r' = r \<and> d = now + ru_px units ttl"
    then show ?thesis using assms(7,8) by (auto simp: indexed_def map_of_written units_ok_def Let_def)
  next
    assume o1: "h \<noteq> ?h \<and> stored ns st h r' d"
    then have "rt_SessionID r' \<noteq> ?s" using alone r'(2) by (auto simp: live_session_def)
    moreover have "indexed ns st (rt_SessionID r') h d" using inv o1 r'(2) by (auto simp: sess_inv_def)
    ultimately show ?thesis using indexed_written by blast
  qed
  moreover have "h = h'" if "live_session ns ?st s h" "live_session ns ?st s h'" for s h h'
    using live_written [OF enc that(1)] live_written [OF enc that(2)] alone inv unfolding sess_inv_def by metis
  ultimately show ?thesis using fr by (simp add: sess_inv_def)
qed

lemma save_inv:
  assumes "sess_inv ns st" and "store_save ns units env i r st = (e, st')"
    and "(\<exists>r0 d. stored ns st (rt_TokenHash r) r0 d \<and> rt_SessionID r0 = rt_SessionID r)
      \<or> map_of st (tokenKey ns (rt_TokenHash r)) = None"
    and "rt_TokenHash r \<noteq> []" and "rt_SessionID r \<noteq> []"
    and "\<And>h. live_session ns st (rt_SessionID r) h \<Longrightarrow> h = rt_TokenHash r" and "units_ok units"
  shows "sess_inv ns st'"
  using assms(2)
proof (cases rule: save_cases)
  case (new p ttl)
  show ?thesis unfolding new(3) by (rule written_inv) (use assms new in auto)
qed (simp add: assms(1))

lemma no_session_live:
  assumes "sess_frame ns st" and "map_of st (sessionKey ns s) = None"
  shows "\<not> live_session ns st s h"
  using assms by (fastforce simp: sess_frame_def live_session_def)

lemma Login_inv:
  assumes "sess_inv (dp_ns deps) st" and "fresh_token deps tenv st" and "units_ok (dp_units deps)"
  shows "sess_inv (dp_ns deps) (snd (Login deps env tenv account password db st))"
proof -
  have "sess_inv (dp_ns deps) (snd (store_Save (dp_ns deps) (dp_units deps) tenv 0 r st))"
    if g: "Generate deps tenv u [] [] = Inr (raw, r)" for u raw r
  proof (cases "rt_TokenHash r = [] \<or> rt_SessionID r = []")
    case False
    note gen = Generate_Inr [OF g]
    obtain e st' where s: "store_save (dp_ns deps) (dp_units deps) tenv 0 r st = (e, st')" by fastforce
    have f: "map_of st (tokenKey (dp_ns deps) (rt_TokenHash r)) = None" "map_of st (sessionKey (dp_ns deps) (rt_SessionID r)) = None"
      using assms(2) gen by (auto simp: fresh_token_def)
    have "sess_inv (dp_ns deps) st'"
      by (rule save_inv [OF assms(1) s]) (use f False assms no_session_live in \<open>auto simp: sess_inv_def\<close>)
    then show ?thesis using False s by (simp add: store_Save_def)
  qed (simp add: store_Save_def assms(1))
  then show ?thesis
    using assms(1)
    by (auto simp: Login_def issueTokenPair_def split: sum.splits option.splits prod.splits) (metis snd_conv)+
qed

lemma RefreshToken_inv:
  assumes inv: "sess_inv (dp_ns deps) st" and fresh: "fresh_token deps tenv st" and u: "units_ok (dp_units deps)"
  shows "sess_inv (dp_ns deps) (snd (RefreshToken deps env tenv raw db st))"
proof -
  let ?ns = "dp_ns deps"
  obtain res st' where rt: "RefreshToken deps env tenv raw db st = (res, st')" by fastforce
  from rt have "sess_inv ?ns st'"
  proof (cases rule: RefreshToken_cases)
    case (rotated r w nextRaw nxt e)
    from rotated(1) obtain d where d: "stored ?ns st (token_Hash deps raw) r d" by (rule FindByHash_Inr)
    have fr: "sess_frame ?ns st" using inv by (simp add: sess_inv_def)
    then have h: "rt_TokenHash r = token_Hash deps raw" "rt_TokenHash r \<noteq> []" "rt_SessionID r \<noteq> []"
      using d unfolding sess_frame_def keyed_def by metis+
    have live: "live_session ?ns st (rt_SessionID r) (rt_TokenHash r)"
      using d rotated(2) h(1) by (auto simp: live_session_def)
    then have alone: "h' = rt_TokenHash r" if "live_session ?ns st (rt_SessionID r) h'" for h'
      using inv that unfolding sess_inv_def by blast
    note gen = Generate_Inr [OF rotated(4)]
    have nxt: "rt_SessionID nxt = rt_SessionID r" "map_of st (tokenKey ?ns (rt_TokenHash nxt)) = None" "rt_TokenHash nxt \<noteq> []"
      using gen h fresh by (auto simp: fresh_token_def)
    have ne: "rt_TokenHash nxt \<noteq> rt_TokenHash r" using d h(1) nxt(2) by (auto simp: stored_def)
    show ?thesis
    proof (cases "te_fails tenv 1")
      case True
      then show ?thesis using rotated(5) h(2) inv by (simp add: Rotate_def FindByHash_def)
    next
      case False
      then have f1: "FindByHash ?ns tenv 1 (rt_TokenHash r) st = Inr r"
        using rotated(1) h by (simp add: FindByHash_def split: if_splits option.splits token_value.splits)
      obtain e1 st1 where st1: "store_save ?ns (dp_units deps) tenv (1 + 1) (rotated_old tenv r) st = (e1, st1)" by fastforce
      have i1: "sess_inv ?ns st1"
        by (rule save_inv [OF inv st1]) (use d h alone u in auto)
      have none: "map_of st1 (tokenKey ?ns (rt_TokenHash nxt)) = None"
        using st1 by (cases rule: save_cases) (use nxt(2) ne in \<open>auto simp: map_of_written\<close>)
      show ?thesis
      proof (cases e1)
        case None
        have dead: "\<not> live_session ?ns st1 (rt_SessionID r) h'" for h'
          using st1
        proof (cases rule: save_cases)
          case (new p ttl)
          show ?thesis
            using live_written [OF new(1)] alone unfolding new(3) by (metis rotated_simps(1,2))
        qed (simp add: None)
        obtain e2 st2 where st2: "store_save ?ns (dp_units deps) tenv (1 + 2) (rotated_next tenv r nxt) st1 = (e2, st2)" by fastforce
        have sid: "rt_SessionID (rotated_next tenv r nxt) = rt_SessionID r"
          using nxt(1) h(3) by (simp add: rotated_next_def)
        have "sess_inv ?ns st2"
          by (rule save_inv [OF i1 st2]) (use none nxt(3) sid h(3) dead u in auto)
        moreover have "st' = st2"
          using rotated(5) f1 rotated(2,3) st1 None st2 by (simp add: Rotate_def Let_def rotated_old_def rotated_next_def)
        ultimately show ?thesis by simp
      next
        case (Some e)
        then show ?thesis using rotated(5) f1 rotated(2,3) st1 i1 by (simp add: Rotate_def Let_def rotated_old_def)
      qed
    qed
  qed (simp add: inv)
  then show ?thesis by (simp add: rt)
qed

lemma FindByHash_expired:
  assumes "FindByHash ns env i h st = Inl e" and "te_fails env = (\<lambda>_. False)" and "stored ns st h r d" and "h \<noteq> []"
  shows "d \<le> te_redis env"
  using assms by (auto simp: FindByHash_def stored_def tlook_def split: if_splits)

lemma revoking_skip:
  assumes "revoking ns s0 (te_redis env) (h # hs) st" and "FindByHash ns env i h st = Inl e" and "te_fails env = (\<lambda>_. False)"
  shows "revoking ns s0 (te_redis env) hs st"
proof -
  obtain xs ds where x: "map_of st (sessionKey ns s0) = Some (TSet xs, ds)" "te_redis env < ds" "set (h # hs) \<subseteq> set xs"
    "\<And>g r d. stored ns st g r d \<Longrightarrow> \<not> rt_Revoked r \<Longrightarrow> rt_SessionID r = s0 \<Longrightarrow> g \<in> set xs \<and> (g \<in> set (h # hs) \<or> d \<le> te_redis env)"
    using assms(1) unfolding revoking_def by blast
  have "d \<le> te_redis env" if "stored ns st h r d" for r d
    using FindByHash_expired [OF assms(2,3) that] that assms(1) unfolding revoking_def sess_frame_def by blast
  then have "g \<in> set xs \<and> (g \<in> set hs \<or> d \<le> te_redis env)"
    if "stored ns st g r d" "\<not> rt_Revoked r" "rt_SessionID r = s0" for g r d
    using x(4) [OF that] that(1) by auto
  then show ?thesis using x(1-3) assms(1) unfolding revoking_def by auto
qed

lemma revoking_save:
  assumes rv: "revoking ns s0 now (h # hs) st" and r: "stored ns st h r d"
    and enc: "enc_RefreshTokenRecord (rotated_old env r) = Some p" and u: "units_ok units" "0 < ttl"
  shows "revoking ns s0 now hs (written ns units now ttl (rotated_old env r) p st)"
proof -
  let ?r = "rotated_old env r" and ?st = "written ns units now ttl (rotated_old env r) p st"
  obtain xs ds where x: "map_of st (sessionKey ns s0) = Some (TSet xs, ds)" "now < ds" "set (h # hs) \<subseteq> set xs"
    "\<And>g q d. stored ns st g q d \<Longrightarrow> \<not> rt_Revoked q \<Longrightarrow> rt_SessionID q = s0 \<Longrightarrow> g \<in> set xs \<and> (g \<in> set (h # hs) \<or> d \<le> now)"
    using rv unfolding revoking_def by blast
  have fr: "sess_frame ns st" and oth: "others_ok ns s0 st" using rv by (auto simp: revoking_def)
  have hr: "rt_TokenHash r = h" "h \<noteq> []" "rt_SessionID r \<noteq> []"
    using fr r unfolding sess_frame_def keyed_def by metis+
  have "\<exists>ys. TSet xs = TSet ys \<and> (\<forall>g \<in> set ys. map_of st (tokenKey ns g) \<noteq> None
      \<and> (\<forall>q e. stored ns st g q e \<longrightarrow> rt_SessionID q = s0))"
    using fr x(1) unfolding sess_frame_def by blast
  then have s0: "rt_SessionID r = s0" using x(3) r by auto
  have fr': "sess_frame ns ?st"
    by (rule written_frame [OF fr enc]) (use r hr in auto)
  have mem: "members now st (sessionKey ns s0) = xs" using x(1,2) by (simp add: members_def tlook_def)
  have sk: "map_of ?st (sessionKey ns s0) = Some (TSet xs, now + ru_ex units ttl)"
    using x(3) mem s0 hr(1) by (simp add: map_of_written)
  have ex: "now < now + ru_ex units ttl" using u by (simp add: units_ok_def)
  have st: "g \<noteq> h \<and> stored ns st g q d" if "stored ns ?st g q d" "\<not> rt_Revoked q" for g q d
    using stored_written [OF enc that(1)] that(2) hr(1) by auto
  have oth': "others_ok ns s0 ?st"
  proof -
    have "indexed ns ?st (rt_SessionID q) g d" if q: "stored ns ?st g q d" "\<not> rt_Revoked q" "rt_SessionID q \<noteq> s0" for g q d
      using indexed_written [of ns st "rt_SessionID q" g d ?r] st [OF q(1,2)] q oth s0 unfolding others_ok_def by auto
    moreover have "g = g'" if "live_session ns ?st s g" "live_session ns ?st s g'" for s g g'
      using live_written [OF enc that(1)] live_written [OF enc that(2)] oth unfolding others_ok_def by auto
    ultimately show ?thesis unfolding others_ok_def by blast
  qed
  have "g \<in> set xs \<and> (g \<in> set hs \<or> d \<le> now)" if "stored ns ?st g q d" "\<not> rt_Revoked q" "rt_SessionID q = s0" for g q d
    using st [OF that(1,2)] x(4) [of g q d] that(2,3) by auto
  then show ?thesis using fr' oth' sk ex x(3) unfolding revoking_def by auto
qed

lemma revoke_all_ends:
  assumes "revoking ns s0 (te_redis env) hs st" and "revoke_all ns units env i hs st = (None, st')"
    and "te_fails env = (\<lambda>_. False)" and "units_ok units"
  shows "revoking ns s0 (te_redis env) [] st'"
  using assms(1,2)
proof (induction hs arbitrary: i st)
  case (Cons h hs)
  show ?case
  proof (cases "FindByHash ns env i h st")
    case (Inl e)
    then show ?thesis using Cons revoking_skip [OF Cons.prems(1) Inl assms(3)] by simp
  next
    case (Inr r)
    then obtain d where d: "stored ns st h r d" by (rule FindByHash_Inr)
    from Cons.prems(2) Inr obtain st1 where st1: "store_save ns units env (i + 1) (rotated_old env r) st = (None, st1)"
      and rest: "revoke_all ns units env (i + 2) hs st1 = (None, st')"
      by (auto simp: rotated_old_def split: prod.splits option.splits)
    from st1 have "revoking ns s0 (te_redis env) hs st1"
    proof (cases rule: save_cases)
      case (new p ttl)
      then show ?thesis using revoking_save [OF Cons.prems(1) d new(1) assms(4) new(2)] by simp
    qed simp
    then show ?thesis using Cons.IH rest by blast
  qed
qed simp

lemma revoking_start:
  assumes "sess_inv ns st" and "map_of st (sessionKey ns s0) = Some (TSet xs, ds)" and "now < ds"
  shows "revoking ns s0 now (members now st (sessionKey ns s0)) st"
proof -
  have m: "members now st (sessionKey ns s0) = xs" using assms(2,3) by (simp add: members_def tlook_def)
  have "h \<in> set xs" if "stored ns st h r d" "\<not> rt_Revoked r" "rt_SessionID r = s0" for h r d
    using assms(1,2) that unfolding sess_inv_def indexed_def by fastforce
  then show ?thesis using assms m unfolding revoking_def others_ok_def sess_inv_def by auto
qed

lemma revoking_end:
  assumes "revoking ns s0 now [] st"
  shows "sess_inv ns st" and "stored ns st h r d \<Longrightarrow> rt_SessionID r = s0 \<Longrightarrow> ended ns now st h"
proof -
  obtain xs ds where x: "map_of st (sessionKey ns s0) = Some (TSet xs, ds)" "now < ds"
    "\<And>g q d. stored ns st g q d \<Longrightarrow> \<not> rt_Revoked q \<Longrightarrow> rt_SessionID q = s0 \<Longrightarrow> g \<in> set xs \<and> d \<le> now"
    using assms unfolding revoking_def by auto
  have "indexed ns st (rt_SessionID q) g d" if q: "stored ns st g q d" "\<not> rt_Revoked q" for g q d
  proof (cases "rt_SessionID q = s0")
    case True
    then show ?thesis using x(1,2) x(3) [OF q] by (auto simp: indexed_def Second_def)
  next
    case False
    then show ?thesis using assms q by (auto simp: revoking_def others_ok_def)
  qed
  then show "sess_inv ns st" using assms unfolding sess_inv_def revoking_def others_ok_def by blast
  assume r: "stored ns st h r d" "rt_SessionID r = s0"
  have "rt_Revoked r' \<or> d' \<le> now" if "stored ns st h r' d'" for r' d'
  proof -
    have "r' = r" using that r(1) by (auto simp: stored_def)
    then show ?thesis using x(3) [OF that] r(2) by blast
  qed
  then show "ended ns now st h" unfolding ended_def by blast
qed

lemma revoke_all_session:
  assumes "keyed ns st" and "\<And>r d. stored ns st h r d \<Longrightarrow> rt_SessionID r = s"
    and "revoke_all ns units env i hs st = (e, st')" and "stored ns st' h r d"
  shows "rt_SessionID r = s"
  using assms
proof (induction hs arbitrary: i st)
  case (Cons g hs)
  show ?case
  proof (cases "FindByHash ns env i g st")
    case (Inl x)
    then show ?thesis using Cons by simp
  next
    case (Inr q)
    then obtain c where c: "stored ns st g q c" by (rule FindByHash_Inr)
    obtain e1 st1 where st1: "store_save ns units env (i + 1) (rotated_old env q) st = (e1, st1)" by fastforce
    have k: "keyed ns st1" using save_keyed [OF Cons.prems(1), of units env "i + 1" "rotated_old env q"] st1 by simp
    have gq: "rt_TokenHash q = g" using Cons.prems(1) c by (auto simp: keyed_def)
    have ses: "rt_SessionID r' = s" if "stored ns st1 h r' d'" for r' d'
      using st1
    proof (cases rule: save_cases)
      case same
      then show ?thesis using Cons.prems(2) that by blast
    next
      case (new p ttl)
      then show ?thesis using stored_written [OF new(1), of ns units "te_redis env" ttl st h r' d'] that Cons.prems(2) c gq by auto
    qed
    show ?thesis
    proof (cases e1)
      case None
      then have "revoke_all ns units env (i + 2) hs st1 = (e, st')"
        using Cons.prems(3) Inr st1 by (simp add: rotated_old_def)
      show ?thesis by (rule Cons.IH [OF k _ \<open>revoke_all ns units env (i + 2) hs st1 = (e, st')\<close> Cons.prems(4)]) (rule ses)
    next
      case (Some x)
      then have "st' = st1" using Cons.prems(3) Inr st1 by (simp add: rotated_old_def)
      then show ?thesis using ses Cons.prems(4) by blast
    qed
  qed
qed auto

lemma Logout_ends:
  assumes inv: "sess_inv (dp_ns deps) st" and lo: "Logout deps tenv raw st = (None, st')"
    and nf: "te_fails tenv = (\<lambda>_. False)" and u: "units_ok (dp_units deps)"
  shows "sess_inv (dp_ns deps) st'
    \<and> (\<forall>r h r' d. FindByHash (dp_ns deps) tenv 0 (token_Hash deps raw) st = Inr r \<longrightarrow> stored (dp_ns deps) st h r' d
      \<longrightarrow> rt_SessionID r' = rt_SessionID r \<longrightarrow> te_redis tenv + Second \<le> d \<longrightarrow> ended (dp_ns deps) (te_redis tenv) st' h)"
proof (cases "FindByHash (dp_ns deps) tenv 0 (token_Hash deps raw) st")
  case (Inl e)
  then show ?thesis using lo inv by (simp add: Logout_def)
next
  case (Inr r)
  let ?ns = "dp_ns deps" and ?s = "rt_SessionID r" and ?now = "te_redis tenv"
  let ?hs = "members ?now st (sessionKey ?ns ?s)"
  have run: "revoke_all ?ns (dp_units deps) tenv 2 ?hs st = (None, st')"
    using lo Inr nf by (simp add: Logout_def RevokeSession_def numeral_2_eq_2 split: if_splits)
  from Inr obtain c where c: "stored ?ns st (token_Hash deps raw) r c" by (rule FindByHash_Inr)
  have fr: "sess_frame ?ns st" using inv by (simp add: sess_inv_def)
  then obtain v ds where "map_of st (sessionKey ?ns ?s) = Some (v, ds)"
    using c unfolding sess_frame_def by (metis not_None_eq surj_pair)
  moreover then obtain xs where "v = TSet xs" using fr unfolding sess_frame_def by blast
  ultimately have m: "map_of st (sessionKey ?ns ?s) = Some (TSet xs, ds)" by simp
  show ?thesis
  proof (cases "?now < ds")
    case True
    have rv: "revoking ?ns ?s ?now [] st'"
      by (rule revoke_all_ends [OF revoking_start [OF inv m True] run nf u])
    have "ended ?ns ?now st' h" if "stored ?ns st h r' d" "rt_SessionID r' = ?s" for h r' d
    proof -
      have "rt_SessionID q = ?s" if "stored ?ns st h q e" for q e using that \<open>stored ?ns st h r' d\<close> \<open>rt_SessionID r' = ?s\<close>
        by (auto simp: stored_def)
      then have "rt_SessionID q = ?s" if "stored ?ns st' h q e" for q e
        using revoke_all_session [OF _ _ run that, of ?s] fr by (auto simp: sess_frame_def)
      then show ?thesis using revoking_end(2) [OF rv] unfolding ended_def by blast
    qed
    then show ?thesis using revoking_end(1) [OF rv] Inr by auto
  next
    case False
    then have "?hs = []" using m by (simp add: members_def tlook_def)
    then have "st' = st" using run by simp
    moreover have "ended ?ns ?now st h" if h: "stored ?ns st h r' d" "rt_SessionID r' = ?s" "?now + Second \<le> d" for h r' d
    proof -
      have "rt_Revoked r'"
      proof (rule ccontr)
        assume "\<not> rt_Revoked r'"
        then have "indexed ?ns st ?s h d" using inv h unfolding sess_inv_def by metis
        then show False using m False h(3) by (simp add: indexed_def)
      qed
      then show ?thesis using h(1) by (auto simp: ended_def stored_def)
    qed
    ultimately show ?thesis using inv Inr by auto
  qed
qed

lemma calm_sessions_inv:
  assumes "calm_sessions deps st" and u: "units_ok (dp_units deps)"
  shows "sess_inv (dp_ns deps) st"
  using assms(1)
proof (induction rule: calm_sessions.induct)
  case start
  show ?case by (simp add: sess_inv_def sess_frame_def keyed_def stored_def live_session_def)
next
  case (login st tenv env account password db)
  then show ?case using Login_inv u by blast
next
  case (refresh st tenv env raw db)
  then show ?case using RefreshToken_inv u by blast
next
  case (logout st tenv raw st')
  then show ?case using Logout_ends u by blast
qed

section \<open>Examples\<close>

lemma demo_evaluated:
  "demo_tokens = written ''n'' (dp_units demo_user_deps) 0 Hour demo_record (the (enc_RefreshTokenRecord demo_record)) []"
  "token_Hash demo_user_deps ''a'' = ''61''" "token_Hash demo_user_deps ''b'' = ''62''"
  "user_FindByID (healthy 1) 1 demo_accounts = Inr \<lparr>us_ID = 1, us_Username = ''ann'', us_Email = ''a@b'',
     us_PasswordHash = ''secret'', us_Status = ''active'', us_Roles = [''user'']\<rparr>"
  by code_simp+

lemma demo_enc: "enc_RefreshTokenRecord demo_record = Some (the (enc_RefreshTokenRecord demo_record))"
  by (simp add: enc_RefreshTokenRecord_def demo_record_def time_json_ok_def Hour_def)

lemma demo_found:
  "FindByHash ''n'' (demo_token_env 1 x) i ''61'' demo_tokens = Inr demo_record"
  "stored ''n'' demo_tokens ''61'' demo_record Hour"
proof -
  have "dec_RefreshTokenRecord (the (enc_RefreshTokenRecord demo_record)) = Some demo_record"
    using dec_RefreshTokenRecord_enc [OF demo_enc] by (simp add: demo_record_def min_int64_def max_int64_def)
  moreover have m: "map_of demo_tokens (tokenKey ''n'' ''61'') = Some (TText (the (enc_RefreshTokenRecord demo_record)), Hour)"
    unfolding demo_evaluated(1) map_of_written by (simp add: demo_record_def demo_user_deps_def)
  ultimately show "FindByHash ''n'' (demo_token_env 1 x) i ''61'' demo_tokens = Inr demo_record"
    "stored ''n'' demo_tokens ''61'' demo_record Hour"
    by (simp_all add: FindByHash_def tlook_def stored_def demo_token_env_def Hour_def)
qed

lemma demo_env_simps:
  "te_check (demo_token_env t x) = t" "te_fails (demo_token_env t x) = (\<lambda>_. False)" "te_store (demo_token_env t x) = t"
  "te_redis (demo_token_env t x) = t" "te_issue (demo_token_env t x) = t"
  by (simp_all add: demo_token_env_def)

lemma demo_save:
  assumes "rt_ExpiresAt r > 1" "rt_ExpiresAt r \<le> Hour + 1" "rt_CreatedAt r \<in> {0..1}" "rt_LastUsedAt r \<in> {0..1}"
  shows "\<exists>st'. store_save ''n'' un (demo_token_env 1 x) i r st = (None, st')"
  using assms
  by (cases "store_save ''n'' un (demo_token_env 1 x) i r st")
    (auto simp: store_save_def Let_def demo_env_simps time_sub_def enc_RefreshTokenRecord_def time_json_ok_def Hour_def
      max_int64_def min_int64_def)

lemma demo_saved:
  "\<exists>st'. store_save ''n'' un (demo_token_env 1 x) i (demo_record\<lparr>rt_Revoked := True, rt_LastUsedAt := 1\<rparr>) st = (None, st')"
  "\<exists>st'. store_save ''n'' un (demo_token_env 1 x) i
     (new_record demo_user_deps (demo_token_env 1 x) 1 ''b'' ''s'' ''i'' ''i''\<lparr>rt_LastUsedAt := 1\<rparr>) st = (None, st')"
  by (rule demo_save; simp add: demo_record_def new_record_def demo_env_simps demo_user_deps_def Hour_def)+

lemma demo_refresh_ok:
  "demo_refresh = (Inr \<lparr>tp_AccessToken = ''ann'', tp_RefreshToken = ''b'', tp_ExpiresIn = Minute\<rparr>, snd demo_refresh)"
proof -
  have u: "rt_UserID demo_record = 1" "rt_Revoked demo_record = False" "rt_ReplayLocked demo_record = False"
    "rt_ExpiresAt demo_record = Hour" "rt_TokenHash demo_record = ''61''" "rt_SessionID demo_record = ''s''"
    by (simp_all add: demo_record_def)
  have g: "Generate demo_user_deps (demo_token_env 1 ''b'') 1 ''s'' ''i'' =
      Inr (''b'', new_record demo_user_deps (demo_token_env 1 ''b'') 1 ''b'' ''s'' ''i'' ''i'')"
    by (simp add: Generate_def demo_token_env_def)
  let ?n = "new_record demo_user_deps (demo_token_env 1 ''b'') 1 ''b'' ''s'' ''i'' ''i''"
  obtain st1 where s1: "store_save ''n'' (dp_units demo_user_deps) (demo_token_env 1 ''b'') (Suc (Suc 0))
      (demo_record\<lparr>rt_Revoked := True, rt_LastUsedAt := 1\<rparr>) demo_tokens = (None, st1)"
    using demo_saved(1) by blast
  obtain st2 where s2: "store_save ''n'' (dp_units demo_user_deps) (demo_token_env 1 ''b'') (Suc (Suc (Suc 0)))
      (?n\<lparr>rt_LastUsedAt := 1\<rparr>) st1 = (None, st2)"
    using demo_saved(2) by blast
  have n: "?n\<lparr>rt_LastUsedAt := 1, rt_SessionID := ''s'', rt_RotatedFrom := ''i''\<rparr> = ?n\<lparr>rt_LastUsedAt := 1\<rparr>"
    "rt_SessionID ?n = ''s''" "rt_RotatedFrom ?n = ''i''"
    by (simp_all add: new_record_def)
  have ns: "dp_ns demo_user_deps = ''n''" "dp_sign demo_user_deps = (\<lambda>i n rs. Some n)" "dp_accessTokenTTL demo_user_deps = Minute"
    by (simp_all add: demo_user_deps_def)
  have rot: "Rotate ''n'' (dp_units demo_user_deps) (demo_token_env 1 ''b'') (Suc 0) ''61'' ?n demo_tokens = (None, st2)"
    using s1 by (simp add: Rotate_def demo_found u demo_env_simps Let_def n(2,3)) (simp only: n(1) s2)
  have t: "rt_TokenID demo_record = ''i''" by (simp add: demo_record_def)
  show ?thesis
    by (simp add: demo_refresh_def RefreshToken_def ns demo_evaluated(2-4) demo_found u demo_env_simps User_IsActive_def UserStatusActive_def
        load_roles_def IssueAccessToken_def t g rot Hour_def)
qed

lemma demo_calm: "calm_sessions demo_user_deps demo_tokens"
proof -
  have "calm_sessions demo_user_deps (snd (Login demo_user_deps (healthy 0) (demo_token_env 0 ''a'') ''ann'' ''secret'' demo_accounts []))"
    by (rule calm_sessions.login [OF calm_sessions.start]) (simp add: fresh_token_def demo_token_env_def demo_evaluated(2))
  then show ?thesis by (simp add: demo_tokens_def run_ops_def demo_login_def)
qed

lemma demo_logout_ok: "demo_logout = (None, snd demo_logout)"
proof -
  have m: "members 1 demo_tokens (sessionKey ''n'' ''s'') = [''61'']"
    unfolding demo_evaluated(1) members_def tlook_def map_of_written
    by (simp add: demo_record_def demo_user_deps_def Hour_def)
  obtain st1 where s1: "store_save ''n'' (dp_units demo_user_deps) (demo_token_env 1 ''b'') (Suc (Suc (Suc 0)))
      (demo_record\<lparr>rt_Revoked := True, rt_LastUsedAt := 1\<rparr>) demo_tokens = (None, st1)"
    using demo_saved(1) by blast
  have u: "rt_SessionID demo_record = ''s''" "dp_ns demo_user_deps = ''n''" by (simp_all add: demo_record_def demo_user_deps_def)
  show ?thesis
    by (simp add: demo_logout_def Logout_def u demo_evaluated(2) demo_found RevokeSession_def demo_env_simps m s1)
qed

section \<open>Properties\<close>

text \<open>
  C37. A refresh token is used at most once. After a refresh succeeded, presenting the same token again is
  denied and changes nothing, after any further logins, refreshes and logouts, whatever of them fails, as
  long as the service draws other random tokens.
\<close>

theorem refresh_tokens_are_single_use:
  assumes "st = run_ops deps before []"
    and "RefreshToken deps env tenv raw db st = (Inr pair, st1)"
    and "draws_other deps (token_Hash deps raw) tenv"
    and "\<forall>op \<in> set ops. draws_other deps (token_Hash deps raw) (op_env op)"
  shows "RefreshToken deps env2 tenv2 raw db2 (run_ops deps ops st1) = (Inl URefreshTokenDenied, run_ops deps ops st1)
    \<and> tp_RefreshToken pair \<noteq> raw"
proof -
  let ?t = "Min (insert (te_redis tenv2) ((\<lambda>op. te_redis (op_env op)) ` set ops))"
  have st: "keyed (dp_ns deps) st" using run_ops_keyed assms(1) by blast
  have t: "?t \<le> te_redis tenv2" "\<forall>op \<in> set ops. ?t \<le> te_redis (op_env op)" by (auto intro: Min_le)
  have "ended (dp_ns deps) ?t st1 (token_Hash deps raw) \<and> keyed (dp_ns deps) st1"
    by (rule rotation_ends [OF st assms(2,3)])
  then have "ended (dp_ns deps) ?t (run_ops deps ops st1) (token_Hash deps raw)"
    using run_ops_ended assms(4) t(2) by blast
  then have "RefreshToken deps env2 tenv2 raw db2 (run_ops deps ops st1) = (Inl URefreshTokenDenied, run_ops deps ops st1)"
    using ended_denied t(1) by blast
  moreover have "tp_RefreshToken pair \<noteq> raw"
    using assms(2)
  proof (cases rule: RefreshToken_cases)
    case (rotated r u nextRaw nxt e)
    then show ?thesis using Generate_Inr(1) [OF rotated(4)] assms(3) by (auto simp: draws_other_def)
  qed blast
  ultimately show ?thesis by blast
qed

theorem refresh_tokens_are_single_use_witness:
  "fst (RefreshToken demo_user_deps (healthy 2) (demo_token_env 2 ''c'') ''a'' demo_accounts
     (run_ops demo_user_deps [OpLogout (demo_token_env 1 ''d'') ''b''] (snd demo_refresh))) = Inl URefreshTokenDenied"
proof -
  have d: "token_Hash demo_user_deps ''d'' \<noteq> ''61''" by code_simp
  have "RefreshToken demo_user_deps (healthy 1) (demo_token_env 1 ''b'') ''a'' demo_accounts demo_tokens =
      (Inr \<lparr>tp_AccessToken = ''ann'', tp_RefreshToken = ''b'', tp_ExpiresIn = Minute\<rparr>, snd demo_refresh)"
    using demo_refresh_ok unfolding demo_refresh_def .
  note single = refresh_tokens_are_single_use [OF demo_tokens_def this]
  show ?thesis
    using single [of "[OpLogout (demo_token_env 1 ''d'') ''b'']" "healthy 2" "demo_token_env 2 ''c''" demo_accounts]
    d by (simp add: draws_other_def demo_token_env_def demo_evaluated(2,3))
qed



end
