(* ===== verification/Problem_Store.thy ===== *)
theory Problem_Store
  imports Sql_Tx Manifest_Json
begin

text \<open>
  The stores of the problem service: the MySQL tables with their transactions
  (\<open>src/services/problem/internal/data/problem_repo.go\<close>, \<open>testcase_repo.go\<close>, keys and widths from
  \<open>src/migrations/problem\<close>), the bucket of immutable objects (\<open>object_store.go\<close>) and the Redis cache of
  problems (\<open>problem_cache.go\<close>).

  A \<open>problem_env\<close> says, for one operation, what the database, the object store and Redis do: which
  commands fail and whether a failed write took effect, the identifiers drawn and the clocks.
\<close>

section \<open>Definitions\<close>

subsection \<open>Problems and test cases\<close>

datatype problem_error = PInvalidArgument string | PNotFound string | PAlreadyExists | PPermissionDenied string
  | PInvalidStatus string | PInternal string | PStorageUnavailable string | PTestcaseAlreadyExists
  | PTestcaseNotFound string | PSql | PPanic string

type_synonym enum_names = "(int32 \<times> string) list"

definition ProblemDifficulty_name :: enum_names where
  "ProblemDifficulty_name = [(0, ''PROBLEM_DIFFICULTY_UNSPECIFIED''), (1, ''PROBLEM_DIFFICULTY_EASY''),
     (2, ''PROBLEM_DIFFICULTY_MEDIUM''), (3, ''PROBLEM_DIFFICULTY_HARD'')]"

definition ProblemStatus_name :: enum_names where
  "ProblemStatus_name = [(0, ''PROBLEM_STATUS_UNSPECIFIED''), (1, ''PROBLEM_STATUS_NORMAL''), (2, ''PROBLEM_STATUS_ARCHIVED'')]"

definition TestcaseStatus_name :: enum_names where
  "TestcaseStatus_name = [(0, ''TESTCASE_STATUS_UNSPECIFIED''), (1, ''TESTCASE_STATUS_ACTIVE''), (2, ''TESTCASE_STATUS_ARCHIVED'')]"

definition enum_String :: "enum_names \<Rightarrow> int32 \<Rightarrow> string" where
  "enum_String names v = (case map_of names v of None \<Rightarrow> format_int v | Some s \<Rightarrow> s)"

definition enum_value :: "enum_names \<Rightarrow> string \<Rightarrow> int32 option" where
  "enum_value names s = map_option fst (find (\<lambda>p. snd p = s) names)"

definition PROBLEM_STATUS_NORMAL :: int32 where
  "PROBLEM_STATUS_NORMAL = 1"

definition PROBLEM_STATUS_ARCHIVED :: int32 where
  "PROBLEM_STATUS_ARCHIVED = 2"

definition status_normal :: string where
  "status_normal = enum_String ProblemStatus_name PROBLEM_STATUS_NORMAL"

definition status_archived :: string where
  "status_archived = enum_String ProblemStatus_name PROBLEM_STATUS_ARCHIVED"

definition testcase_active :: string where
  "testcase_active = enum_String TestcaseStatus_name 1"

definition testcase_archived :: string where
  "testcase_archived = enum_String TestcaseStatus_name 2"

record ProblemSample =
  sm_Input :: string
  sm_Output :: string

record Tag =
  tg_ID :: int64
  tg_Name :: string

record Problem =
  pb_ID :: int64
  pb_Title :: string
  pb_Slug :: string
  pb_Description :: string
  pb_Constraints :: string
  pb_Samples :: "ProblemSample list"
  pb_Difficulty :: int32
  pb_TimeLimitMs :: int32
  pb_MemoryLimitKb :: int32
  pb_ActiveJudgeRevision :: string
  pb_Status :: int32
  pb_CreatedBy :: int64
  pb_Tags :: "Tag list"
  pb_CreatedAt :: time
  pb_UpdatedAt :: time

record Testcase =
  tc_ID :: int64
  tc_ProblemID :: int64
  tc_CaseNo :: int32
  tc_InputObjectKey :: string
  tc_OutputObjectKey :: string
  tc_InputSHA256 :: string
  tc_OutputSHA256 :: string
  tc_InputSizeBytes :: int64
  tc_OutputSizeBytes :: int64
  tc_Status :: int32
  tc_CreatedAt :: time
  tc_ArchivedAt :: "time option"

subsection \<open>Tables\<close>

record problem_row =
  pr_id :: int64
  pr_title :: string
  pr_slug :: string
  pr_description :: string
  pr_constraints_text :: string
  pr_samples_json :: json
  pr_difficulty :: string
  pr_time_limit_ms :: int32
  pr_memory_limit_kb :: int32
  pr_active_judge_revision :: "string option"
  pr_status :: string
  pr_created_by :: int64
  pr_created_at :: time
  pr_updated_at :: time

record testcase_row =
  tr_id :: int64
  tr_problem_id :: int64
  tr_case_no :: int32
  tr_input_object_key :: string
  tr_output_object_key :: string
  tr_input_sha256 :: string
  tr_output_sha256 :: string
  tr_input_size_bytes :: int64
  tr_output_size_bytes :: int64
  tr_status :: string
  tr_created_at :: time
  tr_archived_at :: "time option"
  tr_updated_at :: time

record problem_db =
  pd_problems :: "problem_row list"
  pd_tags :: "(int64 \<times> string) list"
  pd_problem_tags :: "(int64 \<times> int64) list" \<comment> \<open>problem and tag\<close>
  pd_testcases :: "testcase_row list"
  pd_next_problem :: int64
  pd_next_tag :: int64
  pd_next_testcase :: int64

definition empty_problem_db :: problem_db where
  "empty_problem_db = \<lparr>pd_problems = [], pd_tags = [], pd_problem_tags = [], pd_testcases = [],
     pd_next_problem = 1, pd_next_tag = 1, pd_next_testcase = 1\<rparr>"

record problem_env = db_env +
  pe_put_fails :: "string \<Rightarrow> bool" \<comment> \<open>by object key\<close>
  pe_put_lost :: "string \<Rightarrow> bool" \<comment> \<open>a failed write that took effect\<close>
  pe_get_fails :: "string \<Rightarrow> bool"
  pe_delete_fails :: "string \<Rightarrow> bool"
  pe_upload_id :: string \<comment> \<open>the identifier of \<open>newUploadID\<close>\<close>
  pe_revision :: string \<comment> \<open>the ULID of a new revision\<close>
  pe_cache_fails :: "string \<Rightarrow> bool" \<comment> \<open>by command\<close>
  pe_cache_lost :: bool
  pe_redis_now :: time

definition psql :: "problem_env \<Rightarrow> string \<Rightarrow> problem_error + 'b \<Rightarrow> problem_error + 'b" where
  "psql env label r = stmtE env PSql label r"

definition exec_auto :: "problem_env \<Rightarrow> string \<Rightarrow> problem_db \<Rightarrow> problem_db \<Rightarrow> problem_error option \<times> problem_db" where
  \<comment> \<open>a statement outside a transaction, from the first tables to the second\<close>
  "exec_auto env label db db' =
     (if fails env label then (Some PSql, if commit_lost env then db' else db) else (None, db'))"

definition find_problem :: "problem_db \<Rightarrow> int64 \<Rightarrow> problem_row option" where
  "find_problem db i = find (\<lambda>r. pr_id r = i) (pd_problems db)"

definition set_problem :: "int64 \<Rightarrow> problem_row \<Rightarrow> problem_db \<Rightarrow> problem_db" where
  "set_problem i row db = db\<lparr>pd_problems := map (\<lambda>r. if pr_id r = i then row else r) (pd_problems db)\<rparr>"

subsection \<open>Problem repository\<close>

definition enc_ProblemSample :: "ProblemSample \<Rightarrow> json" where
  "enc_ProblemSample s = JObj [(''input'', JStr (sm_Input s)), (''output'', JStr (sm_Output s))]"

definition dec_ProblemSample :: "json \<Rightarrow> ProblemSample option" where
  "dec_ProblemSample = dec_struct (\<lambda>kvs.
     case (dec_field dec_str [] ''input'' kvs, dec_field dec_str [] ''output'' kvs) of
       (Some i, Some out) \<Rightarrow> Some \<lparr>sm_Input = i, sm_Output = out\<rparr> | _ \<Rightarrow> None)"

definition encodeSamples :: "ProblemSample list \<Rightarrow> json" where
  "encodeSamples samples = JArr (map enc_ProblemSample samples)"

definition char_count :: "string \<Rightarrow> int" where
  \<comment> \<open>the characters of a UTF-8 text\<close>
  "char_count s = int (length (filter (\<lambda>c. \<not> (128 \<le> (of_char c :: nat) \<and> (of_char c :: nat) < 192)) s))"

definition problem_fits :: "Problem \<Rightarrow> bool" where
  \<comment> \<open>the widths of the columns: \<open>VARCHAR\<close> counts characters and \<open>TEXT\<close> bytes\<close>
  "problem_fits p \<longleftrightarrow> char_count (pb_Title p) \<le> 255 \<and> char_count (pb_Slug p) \<le> 255 \<and> int (length (pb_Description p)) \<le> 65535
     \<and> int (length (pb_Constraints p)) \<le> 65535"

definition slug_taken :: "string \<Rightarrow> int64 \<Rightarrow> problem_db \<Rightarrow> bool" where
  \<comment> \<open>by another problem than the given one\<close>
  "slug_taken slug i db \<longleftrightarrow> (\<exists>r \<in> set (pd_problems db). pr_id r \<noteq> i \<and> db_eq (pr_slug r) slug)"

definition insert_problem :: "problem_env \<Rightarrow> Problem \<Rightarrow> problem_db \<Rightarrow> problem_error + int64 \<times> problem_db" where
  "insert_problem env p db =
     psql env ''insert problem''
       (guardE (\<not> problem_fits p) PSql
          (let i = pd_next_problem db; now = utc_timestamp3 env
           in guardE (slug_taken (pb_Slug p) i db) PAlreadyExists
                (Inr (i, db\<lparr>pd_problems := pd_problems db @ [\<lparr>pr_id = i, pr_title = pb_Title p, pr_slug = pb_Slug p,
                          pr_description = pb_Description p, pr_constraints_text = pb_Constraints p,
                          pr_samples_json = encodeSamples (pb_Samples p),
                          pr_difficulty = enum_String ProblemDifficulty_name (pb_Difficulty p),
                          pr_time_limit_ms = pb_TimeLimitMs p, pr_memory_limit_kb = pb_MemoryLimitKb p,
                          pr_active_judge_revision = None, pr_status = enum_String ProblemStatus_name (pb_Status p),
                          pr_created_by = pb_CreatedBy p, pr_created_at = now, pr_updated_at = now\<rparr>],
                        pd_next_problem := i + 1\<rparr>))))"

definition findOrCreateTag :: "problem_env \<Rightarrow> string \<Rightarrow> problem_db \<Rightarrow> problem_error + Tag \<times> problem_db" where
  "findOrCreateTag env name db =
     psql env ''select tag''
       (case find (\<lambda>t. db_eq (snd t) name) (pd_tags db) of
          Some t \<Rightarrow> Inr (\<lparr>tg_ID = fst t, tg_Name = snd t\<rparr>, db)
        | None \<Rightarrow>
            psql env ''insert tag''
              (guardE (char_count name > 64) PSql
                 (let i = pd_next_tag db
                  in Inr (\<lparr>tg_ID = i, tg_Name = name\<rparr>,
                          db\<lparr>pd_tags := pd_tags db @ [(i, name)], pd_next_tag := i + 1\<rparr>))))"

fun link_tags :: "problem_env \<Rightarrow> int64 \<Rightarrow> string list \<Rightarrow> problem_db \<Rightarrow> problem_error + Tag list \<times> problem_db" where
  "link_tags env i [] db = Inr ([], db)"
| "link_tags env i (name # names) db =
     bindE (findOrCreateTag env name db) (\<lambda>(tag, db1).
       psql env ''insert problem tag''
         (guardE ((i, tg_ID tag) \<in> set (pd_problem_tags db1)) PAlreadyExists
            (bindE (link_tags env i names (db1\<lparr>pd_problem_tags := pd_problem_tags db1 @ [(i, tg_ID tag)]\<rparr>)) (\<lambda>(tags, db2).
               Inr (tag # tags, db2)))))"

definition create_problem_tx :: "problem_env \<Rightarrow> Problem \<Rightarrow> string list \<Rightarrow> problem_db \<Rightarrow> problem_error + Problem \<times> problem_db" where
  "create_problem_tx env p names db =
     bindE (insert_problem env p db) (\<lambda>(i, db1).
       bindE (link_tags env i names db1) (\<lambda>(tags, db2).
         psql env ''select problem times''
           (Inr (p\<lparr>pb_ID := i, pb_Tags := tags, pb_CreatedAt := utc_timestamp3 env, pb_UpdatedAt := utc_timestamp3 env\<rparr>, db2))))"

definition pstore_Create :: "problem_env \<Rightarrow> Problem \<Rightarrow> string list \<Rightarrow> problem_db \<Rightarrow> (problem_error + Problem) \<times> problem_db" where
  "pstore_Create env p names db = run_tx env PSql (create_problem_tx env p names) db"

definition delete_problem :: "int64 \<Rightarrow> problem_db \<Rightarrow> problem_db" where
  \<comment> \<open>with the cascades of the foreign keys\<close>
  "delete_problem i db = db\<lparr>pd_problems := filter (\<lambda>r. pr_id r \<noteq> i) (pd_problems db),
     pd_problem_tags := filter (\<lambda>x. fst x \<noteq> i) (pd_problem_tags db),
     pd_testcases := filter (\<lambda>r. tr_problem_id r \<noteq> i) (pd_testcases db)\<rparr>"

definition DeleteCreatedProblem :: "problem_env \<Rightarrow> int64 \<Rightarrow> problem_db \<Rightarrow> problem_error option \<times> problem_db" where
  "DeleteCreatedProblem env i db = exec_auto env ''delete problem'' db (delete_problem i db)"

definition problem_tags_of :: "problem_db \<Rightarrow> int64 \<Rightarrow> Tag list" where
  "problem_tags_of db i =
     map (\<lambda>t. \<lparr>tg_ID = fst t, tg_Name = snd t\<rparr>) (sort_key fst (filter (\<lambda>t. (i, fst t) \<in> set (pd_problem_tags db)) (pd_tags db)))"

definition pstore_FindByID :: "problem_env \<Rightarrow> int64 \<Rightarrow> problem_db \<Rightarrow> problem_error + Problem" where
  "pstore_FindByID env i db =
     psql env ''select problem''
       (case find_problem db i of None \<Rightarrow> Inl (PNotFound ''problem not found'')
        | Some r \<Rightarrow>
            (case enum_value ProblemDifficulty_name (pr_difficulty r) of
               None \<Rightarrow> Inl (PInternal ''invalid problem difficulty in database'')
             | Some difficulty \<Rightarrow>
            (case enum_value ProblemStatus_name (pr_status r) of
               None \<Rightarrow> Inl (PInternal ''invalid problem status in database'')
             | Some status \<Rightarrow>
            (case dec_array dec_ProblemSample (pr_samples_json r) of
               None \<Rightarrow> Inl (PInternal ''invalid problem samples in database'')
             | Some samples \<Rightarrow>
                 psql env ''select problem tags''
                   (Inr \<lparr>pb_ID = pr_id r, pb_Title = pr_title r, pb_Slug = pr_slug r, pb_Description = pr_description r,
                      pb_Constraints = pr_constraints_text r, pb_Samples = samples, pb_Difficulty = difficulty,
                      pb_TimeLimitMs = pr_time_limit_ms r, pb_MemoryLimitKb = pr_memory_limit_kb r,
                      pb_ActiveJudgeRevision = (case pr_active_judge_revision r of None \<Rightarrow> [] | Some v \<Rightarrow> v),
                      pb_Status = status, pb_CreatedBy = pr_created_by r, pb_Tags = problem_tags_of db i,
                      pb_CreatedAt = pr_created_at r, pb_UpdatedAt = pr_updated_at r\<rparr>)))))"

fun mapE :: "('a \<Rightarrow> 'e + 'b) \<Rightarrow> 'a list \<Rightarrow> 'e + 'b list" where
  \<comment> \<open>a loop that appends one result per element and returns at the first error\<close>
  "mapE f [] = Inr []"
| "mapE f (x # xs) = bindE (f x) (\<lambda>y. bindE (mapE f xs) (\<lambda>ys. Inr (y # ys)))"

definition empty_problem :: Problem where
  "empty_problem = \<lparr>pb_ID = 0, pb_Title = [], pb_Slug = [], pb_Description = [], pb_Constraints = [], pb_Samples = [],
     pb_Difficulty = 0, pb_TimeLimitMs = 0, pb_MemoryLimitKb = 0, pb_ActiveJudgeRevision = [], pb_Status = 0,
     pb_CreatedBy = 0, pb_Tags = [], pb_CreatedAt = zero_time, pb_UpdatedAt = zero_time\<rparr>"

definition summary_of_row :: "problem_row \<Rightarrow> problem_error + Problem" where
  "summary_of_row r =
     (case (enum_value ProblemDifficulty_name (pr_difficulty r), enum_value ProblemStatus_name (pr_status r)) of
        (Some difficulty, Some status) \<Rightarrow>
          Inr (empty_problem\<lparr>pb_ID := pr_id r, pb_Title := pr_title r, pb_Slug := pr_slug r,
                 pb_Difficulty := difficulty, pb_Status := status\<rparr>)
      | _ \<Rightarrow> Inl (PInternal ''invalid problem enum in database''))"

definition visible_row :: "bool \<Rightarrow> problem_row \<Rightarrow> bool" where
  "visible_row includeArchived r \<longleftrightarrow> includeArchived \<or> pr_status r = status_normal"

definition pstore_List :: "problem_env \<Rightarrow> int32 \<Rightarrow> int32 \<Rightarrow> bool \<Rightarrow> problem_db \<Rightarrow> problem_error + Problem list \<times> int64" where
  "pstore_List env page pageSize includeArchived db =
     psql env ''count problems''
       (let rows = filter (visible_row includeArchived) (pd_problems db); offset = wrap32 (wrap32 (page - 1) * pageSize)
        in psql env ''select problems''
             (guardE (offset < 0 \<or> pageSize < 0) PSql
                (bindE (mapE summary_of_row (take (nat pageSize) (drop (nat offset) (sort_key pr_id rows)))) (\<lambda>items.
                   Inr (items, int (length rows))))))"

definition updated_row :: "problem_env \<Rightarrow> Problem \<Rightarrow> problem_row \<Rightarrow> problem_row" where
  "updated_row env p r = r\<lparr>pr_title := pb_Title p, pr_slug := pb_Slug p, pr_description := pb_Description p,
     pr_constraints_text := pb_Constraints p, pr_samples_json := encodeSamples (pb_Samples p),
     pr_difficulty := enum_String ProblemDifficulty_name (pb_Difficulty p), pr_time_limit_ms := pb_TimeLimitMs p,
     pr_memory_limit_kb := pb_MemoryLimitKb p,
     pr_active_judge_revision := (if pb_ActiveJudgeRevision p = [] then None else Some (pb_ActiveJudgeRevision p)),
     pr_updated_at := utc_timestamp3 env\<rparr>"

definition revision_column_ok :: "string \<Rightarrow> bool" where
  \<comment> \<open>the check constraint of the column, for a text that is stored as NULL when empty\<close>
  "revision_column_ok v \<longleftrightarrow> v = [] \<or> length v = 26"

definition update_problem_tx :: "problem_env \<Rightarrow> Problem \<Rightarrow> string list \<Rightarrow> string \<Rightarrow> problem_db \<Rightarrow> problem_error + Problem \<times> problem_db" where
  "update_problem_tx env p names expected db =
     psql env ''update problem''
       (case find_problem db (pb_ID p) of
          None \<Rightarrow> Inl (PInvalidStatus ''problem or active judge revision changed concurrently'')
        | Some r \<Rightarrow>
            (let row = updated_row env p r
             in guardE (pr_status r \<noteq> status_normal
                    \<or> pr_active_judge_revision r \<noteq> (if expected = [] then None else Some expected))
                  (PInvalidStatus ''problem or active judge revision changed concurrently'')
                (guardE (\<not> problem_fits p \<or> \<not> revision_column_ok (pb_ActiveJudgeRevision p)) PSql
                (guardE (slug_taken (pb_Slug p) (pb_ID p) db) PAlreadyExists
                (guardE (row = r) (PInvalidStatus ''problem or active judge revision changed concurrently'')
                (psql env ''delete problem tags''
                   (let db1 = set_problem (pb_ID p) row db
                    in bindE (link_tags env (pb_ID p) names
                                (db1\<lparr>pd_problem_tags := filter (\<lambda>x. fst x \<noteq> pb_ID p) (pd_problem_tags db1)\<rparr>)) (\<lambda>(tags, db2).
                         psql env ''select updated_at''
                           (Inr (p\<lparr>pb_Tags := tags, pb_UpdatedAt := utc_timestamp3 env\<rparr>, db2))))))))))"

definition pstore_Update ::
  "problem_env \<Rightarrow> Problem \<Rightarrow> string list \<Rightarrow> string \<Rightarrow> problem_db \<Rightarrow> (problem_error + Problem) \<times> problem_db" where
  "pstore_Update env p names expected db = run_tx env PSql (update_problem_tx env p names expected) db"

definition pstore_Archive :: "problem_env \<Rightarrow> int64 \<Rightarrow> problem_db \<Rightarrow> (problem_error + Problem) \<times> problem_db" where
  "pstore_Archive env i db =
     (let match = (case find_problem db i of None \<Rightarrow> None | Some r \<Rightarrow> if pr_status r = status_normal then Some r else None);
          db' = (case match of None \<Rightarrow> db
                 | Some r \<Rightarrow> set_problem i (r\<lparr>pr_status := status_archived, pr_updated_at := utc_timestamp3 env\<rparr>) db)
      in case exec_auto env ''archive problem'' db db' of
           (Some e, db1) \<Rightarrow> (Inl e, db1)
         | (None, db1) \<Rightarrow>
             (if match = None then Inl (PNotFound ''problem not found'') else pstore_FindByID env i db1, db1))"

definition pstore_BatchGet :: "problem_env \<Rightarrow> int64 list \<Rightarrow> bool \<Rightarrow> problem_db \<Rightarrow> problem_error + Problem list" where
  "pstore_BatchGet env ids includeArchived db =
     (if ids = [] then Inr []
      else psql env ''select problems''
             (mapE summary_of_row
                (sort_key pr_id (filter (\<lambda>r. pr_id r \<in> set ids \<and> visible_row includeArchived r) (pd_problems db)))))"

end
