(* ===== verification/Problem_Testcases.thy ===== *)
theory Problem_Testcases
  imports Problem_Store
begin

text \<open>
  The test-case tables of the problem service (\<open>src/services/problem/internal/data/testcase_repo.go\<close>), the
  bucket (\<open>object_store.go\<close>) and the cache of problems (\<open>problem_cache.go\<close>).

  \<open>PutImmutable\<close> is a conditional PUT (\<open>If-None-Match: *\<close>): MinIO refuses it when the key exists. Redis keys
  have a deadline of the server's clock.
\<close>

section \<open>Definitions\<close>

subsection \<open>Test cases\<close>

definition scanTestcase :: "testcase_row \<Rightarrow> problem_error + Testcase" where
  "scanTestcase r =
     (case enum_value TestcaseStatus_name (tr_status r) of
        None \<Rightarrow> Inl (PInternal ''invalid testcase status in database'')
      | Some status \<Rightarrow>
          Inr \<lparr>tc_ID = tr_id r, tc_ProblemID = tr_problem_id r, tc_CaseNo = tr_case_no r,
               tc_InputObjectKey = tr_input_object_key r, tc_OutputObjectKey = tr_output_object_key r,
               tc_InputSHA256 = tr_input_sha256 r, tc_OutputSHA256 = tr_output_sha256 r,
               tc_InputSizeBytes = tr_input_size_bytes r, tc_OutputSizeBytes = tr_output_size_bytes r,
               tc_Status = status, tc_CreatedAt = tr_created_at r, tc_ArchivedAt = tr_archived_at r\<rparr>)"

definition testcase_rows :: "problem_db \<Rightarrow> int64 \<Rightarrow> bool \<Rightarrow> testcase_row list" where
  "testcase_rows db i includeArchived =
     sort_key tr_case_no (filter (\<lambda>r. tr_problem_id r = i \<and> (includeArchived \<or> tr_status r = testcase_active)) (pd_testcases db))"

definition pstore_ListTestcases :: "problem_env \<Rightarrow> int64 \<Rightarrow> bool \<Rightarrow> problem_db \<Rightarrow> problem_error + Testcase list" where
  "pstore_ListTestcases env i includeArchived db =
     psql env ''select testcases'' (mapE scanTestcase (testcase_rows db i includeArchived))"

definition lockPublishableProblem :: "problem_env \<Rightarrow> int64 \<Rightarrow> string \<Rightarrow> problem_db \<Rightarrow> problem_error option" where
  "lockPublishableProblem env i expected db =
     (if fails env ''lock problem'' then Some PSql
      else case find_problem db i of None \<Rightarrow> Some (PNotFound ''problem not found'')
      | Some r \<Rightarrow>
          (if pr_status r \<noteq> status_normal then Some (PInvalidStatus ''archived problem testcases cannot be changed'')
           else if (case pr_active_judge_revision r of None \<Rightarrow> [] | Some v \<Rightarrow> v) \<noteq> expected
           then Some (PInvalidStatus ''active judge revision changed; retry the testcase update'')
           else None))"

definition activateRevision :: "problem_env \<Rightarrow> int64 \<Rightarrow> string \<Rightarrow> problem_db \<Rightarrow> problem_error + problem_db" where
  "activateRevision env i revision db =
     psql env ''activate revision''
       (case find_problem db i of None \<Rightarrow> Inl (PNotFound ''problem not found'')
        | Some r \<Rightarrow>
            (let row = r\<lparr>pr_active_judge_revision := (if revision = [] then None else Some revision),
                         pr_updated_at := utc_timestamp3 env\<rparr>
             in guardE (\<not> revision_column_ok revision) PSql
                  (guardE (row = r) (PNotFound ''problem not found'') (Inr (set_problem i row db)))))"

definition testcase_fits :: "Testcase \<Rightarrow> bool" where
  "testcase_fits t \<longleftrightarrow> int (length (tc_InputObjectKey t)) \<le> 512 \<and> int (length (tc_OutputObjectKey t)) \<le> 512
     \<and> int (length (tc_InputSHA256 t)) \<le> 64 \<and> int (length (tc_OutputSHA256 t)) \<le> 64"

definition case_taken :: "Testcase \<Rightarrow> problem_db \<Rightarrow> bool" where
  \<comment> \<open>the unique key of problem and case number: archived rows keep their number\<close>
  "case_taken t db \<longleftrightarrow> (\<exists>r \<in> set (pd_testcases db). tr_problem_id r = tc_ProblemID t \<and> tr_case_no r = tc_CaseNo t)"

definition insert_testcase :: "problem_env \<Rightarrow> Testcase \<Rightarrow> problem_db \<Rightarrow> problem_error + int64 \<times> problem_db" where
  "insert_testcase env t db =
     psql env ''insert testcase''
       (guardE (\<not> testcase_fits t) PSql
          (guardE (case_taken t db) PTestcaseAlreadyExists
             (let i = pd_next_testcase db; now = utc_timestamp3 env
              in Inr (i, db\<lparr>pd_testcases := pd_testcases db @ [\<lparr>tr_id = i, tr_problem_id = tc_ProblemID t, tr_case_no = tc_CaseNo t,
                         tr_input_object_key = tc_InputObjectKey t, tr_output_object_key = tc_OutputObjectKey t,
                         tr_input_sha256 = tc_InputSHA256 t, tr_output_sha256 = tc_OutputSHA256 t,
                         tr_input_size_bytes = tc_InputSizeBytes t, tr_output_size_bytes = tc_OutputSizeBytes t,
                         tr_status = enum_String TestcaseStatus_name (tc_Status t), tr_created_at = now,
                         tr_archived_at = None, tr_updated_at = now\<rparr>], pd_next_testcase := i + 1\<rparr>))))"

definition commit_added_tx :: "problem_env \<Rightarrow> Testcase \<Rightarrow> string \<Rightarrow> string \<Rightarrow> problem_db \<Rightarrow> problem_error + Testcase \<times> problem_db" where
  "commit_added_tx env t revision expected db =
     errE (lockPublishableProblem env (tc_ProblemID t) expected db)
       (bindE (insert_testcase env t db) (\<lambda>(i, db1).
          bindE (activateRevision env (tc_ProblemID t) revision db1) (\<lambda>db2.
            psql env ''select created_at'' (Inr (t\<lparr>tc_ID := i, tc_CreatedAt := utc_timestamp3 env\<rparr>, db2)))))"

definition CommitAddedTestcase ::
  "problem_env \<Rightarrow> Testcase \<Rightarrow> string \<Rightarrow> string \<Rightarrow> problem_db \<Rightarrow> (problem_error + Testcase) \<times> problem_db" where
  "CommitAddedTestcase env t revision expected db = run_tx env PSql (commit_added_tx env t revision expected) db"

definition archive_row :: "problem_env \<Rightarrow> testcase_row \<Rightarrow> testcase_row" where
  "archive_row env r = r\<lparr>tr_status := testcase_archived,
     tr_archived_at := (case tr_archived_at r of None \<Rightarrow> Some (utc_timestamp3 env) | Some v \<Rightarrow> Some v),
     tr_updated_at := utc_timestamp3 env\<rparr>"

definition archives :: "int64 \<Rightarrow> int64 \<Rightarrow> testcase_row \<Rightarrow> bool" where
  "archives i testcaseID r \<longleftrightarrow> tr_id r = testcaseID \<and> tr_problem_id r = i \<and> tr_status r = testcase_active"

definition commit_archived_tx ::
  "problem_env \<Rightarrow> int64 \<Rightarrow> int64 \<Rightarrow> string \<Rightarrow> string \<Rightarrow> problem_db \<Rightarrow> problem_error + Testcase \<times> problem_db" where
  "commit_archived_tx env i testcaseID revision expected db =
     errE (lockPublishableProblem env i expected db)
       (psql env ''archive testcase''
          (guardE (length (filter (archives i testcaseID) (pd_testcases db)) \<noteq> 1) (PTestcaseNotFound ''active testcase not found'')
             (bindE (activateRevision env i revision
                       (db\<lparr>pd_testcases := map (\<lambda>r. if archives i testcaseID r then archive_row env r else r) (pd_testcases db)\<rparr>)) (\<lambda>db2.
                psql env ''select testcase''
                  (case find (\<lambda>r. tr_id r = testcaseID \<and> tr_problem_id r = i) (pd_testcases db2) of
                     None \<Rightarrow> Inl PSql
                   | Some r \<Rightarrow> bindE (scanTestcase r) (\<lambda>t. Inr (t, db2)))))))"

definition CommitArchivedTestcase ::
  "problem_env \<Rightarrow> int64 \<Rightarrow> int64 \<Rightarrow> string \<Rightarrow> string \<Rightarrow> problem_db \<Rightarrow> (problem_error + Testcase) \<times> problem_db" where
  "CommitArchivedTestcase env i testcaseID revision expected db =
     run_tx env PSql (commit_archived_tx env i testcaseID revision expected) db"

subsection \<open>Objects\<close>

type_synonym objects = "(string \<times> bytes) list"

definition object_Put :: "problem_env \<Rightarrow> string \<Rightarrow> bytes \<Rightarrow> objects \<Rightarrow> bool \<times> objects" where
  \<comment> \<open>not used by the service: it would replace objects\<close>
  "object_Put env key content objs =
     (if pe_put_fails env key then (False, if pe_put_lost env key then assoc_put key content objs else objs)
      else (True, assoc_put key content objs))"

definition PutImmutable :: "problem_env \<Rightarrow> string \<Rightarrow> bytes \<Rightarrow> objects \<Rightarrow> bool \<times> objects" where
  "PutImmutable env key content objs =
     (let stored = (if map_of objs key = None then (key, content) # objs else objs)
      in if pe_put_fails env key then (False, if pe_put_lost env key then stored else objs)
         else (map_of objs key = None, stored))"

definition object_Get :: "problem_env \<Rightarrow> string \<Rightarrow> objects \<Rightarrow> bytes option" where
  "object_Get env key objs = (if pe_get_fails env key then None else map_of objs key)"

definition object_Delete :: "problem_env \<Rightarrow> string \<Rightarrow> objects \<Rightarrow> objects" where
  \<comment> \<open>the error is ignored by every caller\<close>
  "object_Delete env key objs = (if pe_delete_fails env key then objs else filter (\<lambda>x. fst x \<noteq> key) objs)"

subsection \<open>Cache\<close>

type_synonym problem_cache = "(string \<times> json \<times> time) list"

definition enc_Tag :: "Tag \<Rightarrow> json" where
  "enc_Tag t = JObj [(''ID'', JNum (tg_ID t)), (''Name'', JStr (tg_Name t))]"

definition dec_Tag :: "json \<Rightarrow> Tag option" where
  "dec_Tag = dec_struct (\<lambda>kvs. case (dec_field dec_int64 0 ''ID'' kvs, dec_field dec_str [] ''Name'' kvs) of
     (Some i, Some n) \<Rightarrow> Some \<lparr>tg_ID = i, tg_Name = n\<rparr> | _ \<Rightarrow> None)"

definition enc_Problem :: "Problem \<Rightarrow> json option" where
  "enc_Problem p =
     (if time_json_ok (pb_CreatedAt p) \<and> time_json_ok (pb_UpdatedAt p)
      then Some (JObj [(''ID'', JNum (pb_ID p)), (''Title'', JStr (pb_Title p)), (''Slug'', JStr (pb_Slug p)),
        (''Description'', JStr (pb_Description p)), (''Constraints'', JStr (pb_Constraints p)),
        (''Samples'', JArr (map enc_ProblemSample (pb_Samples p))), (''Difficulty'', JNum (pb_Difficulty p)),
        (''TimeLimitMs'', JNum (pb_TimeLimitMs p)), (''MemoryLimitKb'', JNum (pb_MemoryLimitKb p)),
        (''ActiveJudgeRevision'', JStr (pb_ActiveJudgeRevision p)), (''Status'', JNum (pb_Status p)),
        (''CreatedBy'', JNum (pb_CreatedBy p)), (''Tags'', JArr (map enc_Tag (pb_Tags p))),
        (''CreatedAt'', JTime (pb_CreatedAt p)), (''UpdatedAt'', JTime (pb_UpdatedAt p))])
      else None)"

definition dec_Problem :: "json \<Rightarrow> Problem option" where
  "dec_Problem = dec_struct (\<lambda>kvs.
     case ((dec_field dec_int64 0 ''ID'' kvs, dec_field dec_str [] ''Title'' kvs, dec_field dec_str [] ''Slug'' kvs,
            dec_field dec_str [] ''Description'' kvs, dec_field dec_str [] ''Constraints'' kvs),
           (dec_field (dec_array dec_ProblemSample) [] ''Samples'' kvs, dec_field dec_int32 0 ''Difficulty'' kvs,
            dec_field dec_int32 0 ''TimeLimitMs'' kvs, dec_field dec_int32 0 ''MemoryLimitKb'' kvs,
            dec_field dec_str [] ''ActiveJudgeRevision'' kvs),
           (dec_field dec_int32 0 ''Status'' kvs, dec_field dec_int64 0 ''CreatedBy'' kvs,
            dec_field (dec_array dec_Tag) [] ''Tags'' kvs, dec_field dec_time zero_time ''CreatedAt'' kvs,
            dec_field dec_time zero_time ''UpdatedAt'' kvs))
     of ((Some i, Some t, Some s, Some d, Some c), (Some sm, Some df, Some tm, Some mem, Some r), (Some st, Some cb, Some tg, Some ca, Some ua)) \<Rightarrow>
          Some \<lparr>pb_ID = i, pb_Title = t, pb_Slug = s, pb_Description = d, pb_Constraints = c, pb_Samples = sm,
                pb_Difficulty = df, pb_TimeLimitMs = tm, pb_MemoryLimitKb = mem, pb_ActiveJudgeRevision = r,
                pb_Status = st, pb_CreatedBy = cb, pb_Tags = tg, pb_CreatedAt = ca, pb_UpdatedAt = ua\<rparr>
      | _ \<Rightarrow> None)"

definition problem_cache_ttl :: duration where
  "problem_cache_ttl = 10 * Minute"

definition problem_key :: "string \<Rightarrow> int64 \<Rightarrow> string" where
  "problem_key namespace i = namespace @ '':problem:'' @ format_int i"

definition pcache_Get :: "problem_env \<Rightarrow> string \<Rightarrow> int64 \<Rightarrow> problem_cache \<Rightarrow> Problem option" where
  \<comment> \<open>the error is ignored by the caller\<close>
  "pcache_Get env ns i cache =
     (if pe_cache_fails env ''get'' then None
      else case map_of cache (problem_key ns i) of None \<Rightarrow> None
      | Some (v, d) \<Rightarrow> if pe_redis_now env < d then dec_Problem v else None)"

definition pcache_Set :: "problem_env \<Rightarrow> string \<Rightarrow> Problem \<Rightarrow> problem_cache \<Rightarrow> problem_cache" where
  "pcache_Set env ns p cache =
     (case enc_Problem p of None \<Rightarrow> cache
      | Some v \<Rightarrow>
          (if pe_cache_fails env ''set'' \<and> \<not> pe_cache_lost env then cache
           else assoc_put (problem_key ns (pb_ID p)) (v, pe_redis_now env + problem_cache_ttl) cache))"

definition pcache_Delete :: "problem_env \<Rightarrow> string \<Rightarrow> int64 \<Rightarrow> problem_cache \<Rightarrow> problem_cache" where
  "pcache_Delete env ns i cache =
     (if pe_cache_fails env ''del'' \<and> \<not> pe_cache_lost env then cache
      else filter (\<lambda>x. fst x \<noteq> problem_key ns i) cache)"

end
