(* ===== verification/Problem_Usecase.thy ===== *)
theory Problem_Usecase
  imports Problem_Testcases
begin

text \<open>
  The use cases of the problem service, \<open>src/services/problem/internal/biz/problem.go\<close> and \<open>testcase.go\<close>,
  with all dependencies configured. SHA-256 and the text of a marshalled JSON value are arguments
  (\<open>problem_deps\<close>).

  A request that changes test cases reads the problem and its test cases before it commits. The mutex of
  \<open>lockProblem\<close> excludes other requests of the same process in between, not those of another instance of the
  service. The two reads see the tables \<open>db0\<close> and \<open>db1\<close> of earlier moments; the transaction acts on the
  current tables.
\<close>

section \<open>Definitions\<close>

subsection \<open>Requests\<close>

record problem_deps =
  pq_sha256 :: "bytes \<Rightarrow> bytes"
  pq_json_text :: "json \<Rightarrow> bytes"
  pq_namespace :: string

record problem_state =
  ps_db :: problem_db
  ps_objects :: objects
  ps_cache :: problem_cache

record rpc_context =
  rc_UserId :: int64
  rc_Roles :: "string list"

definition problem_requireAdmin :: "rpc_context option \<Rightarrow> problem_error option" where
  "problem_requireAdmin ctx =
     (case ctx of None \<Rightarrow> Some (PInvalidArgument ''invalid request context'')
      | Some c \<Rightarrow>
          (if rc_UserId c \<le> 0 then Some (PInvalidArgument ''invalid request context'')
           else if list_ex (\<lambda>role. equal_fold (trim_space role) ''admin'') (rc_Roles c) then None
           else Some (PPermissionDenied ''admin role required'')))"

definition requireTestcaseReader :: "rpc_context option \<Rightarrow> problem_error option" where
  "requireTestcaseReader ctx =
     (case ctx of None \<Rightarrow> Some (PInvalidArgument ''invalid request context'')
      | Some c \<Rightarrow>
          (if rc_UserId c \<le> 0 then Some (PInvalidArgument ''invalid request context'')
           else if list_ex (\<lambda>role. role = ''admin'' \<or> role = ''judge'') (rc_Roles c) then None
           else Some (PPermissionDenied ''testcase reader role required'')))"

fun normalize_tags :: "string list \<Rightarrow> string list \<Rightarrow> string list" where
  \<comment> \<open>the loop of \<open>normalizeTags\<close> with the tags seen\<close>
  "normalize_tags seen [] = []"
| "normalize_tags seen (value # values) =
     (let v = to_lower (trim_space value)
      in if v = [] \<or> v \<in> set seen then normalize_tags seen values else v # normalize_tags (v # seen) values)"

definition normalizeTags :: "string list \<Rightarrow> string list" where
  "normalizeTags values = normalize_tags [] values"

definition utf8_class :: "nat \<Rightarrow> (nat \<times> nat \<times> nat) option" where
  \<comment> \<open>of a first byte: how many bytes follow and the range of the first of them\<close>
  "utf8_class n =
     (if n < 128 then Some (0, 0, 0) else if n < 194 then None else if n < 224 then Some (1, 128, 191)
      else if n = 224 then Some (2, 160, 191) else if n = 237 then Some (2, 128, 159) else if n < 240 then Some (2, 128, 191)
      else if n = 240 then Some (3, 144, 191) else if n < 244 then Some (3, 128, 191) else if n = 244 then Some (3, 128, 143)
      else None)"

fun utf8_valid :: "bytes \<Rightarrow> bool" where
  "utf8_valid [] = True"
| "utf8_valid (b # bs) =
     (case utf8_class (of_char b) of None \<Rightarrow> False
      | Some (k, lo, hi) \<Rightarrow>
          (k = 0 \<or> (k \<le> length bs \<and> lo \<le> (of_char (hd bs) :: nat) \<and> of_char (hd bs) \<le> hi
             \<and> list_all (\<lambda>c. 128 \<le> (of_char c :: nat) \<and> (of_char c :: nat) \<le> 191) (take (k - 1) (tl bs))))
          \<and> utf8_valid (drop k bs))"

definition validateStatement :: "Problem \<Rightarrow> problem_error option" where
  "validateStatement p =
     (if \<not> utf8_valid (pb_Constraints p) \<or> int (length (pb_Constraints p)) > 10000
      then Some (PInvalidArgument ''constraints must be valid UTF-8 and at most 10000 bytes'')
      else if int (length (pb_Samples p)) > 3 then Some (PInvalidArgument ''at most 3 samples are allowed'')
      else if list_ex (\<lambda>s. \<not> utf8_valid (sm_Input s) \<or> \<not> utf8_valid (sm_Output s) \<or> int (length (sm_Input s)) > 65536
                 \<or> int (length (sm_Output s)) > 65536) (pb_Samples p)
      then Some (PInvalidArgument ''sample input and output must be valid UTF-8 and at most 65536 bytes each'')
      else None)"

subsection \<open>Judge revisions\<close>

definition readVerifiedObject :: "problem_deps \<Rightarrow> problem_env \<Rightarrow> string \<Rightarrow> string \<Rightarrow> int64 \<Rightarrow> objects \<Rightarrow> problem_error + bytes" where
  "readVerifiedObject deps env key wantHash wantSize objs =
     (case object_Get env key objs of
        None \<Rightarrow> Inl (PStorageUnavailable ''read testcase object'')
      | Some content \<Rightarrow>
          guardE (int (length content) \<noteq> wantSize \<or> hex_encode (pq_sha256 deps content) \<noteq> wantHash)
            (PStorageUnavailable ''testcase object integrity check failed'') (Inr content))"

definition revision_prefix :: "int64 \<Rightarrow> string \<Rightarrow> string" where
  "revision_prefix i revision = ''problem-'' @ format_int i @ ''/judge-revisions/'' @ revision"

definition manifest_entry :: "string \<Rightarrow> Testcase \<Rightarrow> ManifestTestcase" where
  "manifest_entry pre t =
     \<lparr>mt_CaseNo = tc_CaseNo t,
      mt_Input = \<lparr>ob_ObjectKey = pre @ ''/testcases/'' @ format_int (tc_CaseNo t) @ ''.in'', ob_SHA256 = tc_InputSHA256 t,
                   ob_SizeBytes = tc_InputSizeBytes t\<rparr>,
      mt_Output = \<lparr>ob_ObjectKey = pre @ ''/testcases/'' @ format_int (tc_CaseNo t) @ ''.out'', ob_SHA256 = tc_OutputSHA256 t,
                    ob_SizeBytes = tc_OutputSizeBytes t\<rparr>\<rparr>"

fun publish_cases ::
  "problem_deps \<Rightarrow> problem_env \<Rightarrow> string \<Rightarrow> Testcase list \<Rightarrow> objects \<Rightarrow> (problem_error + ManifestTestcase list) \<times> objects" where
  "publish_cases deps env pre [] objs = (Inr [], objs)"
| "publish_cases deps env pre (t # ts) objs =
     (case readVerifiedObject deps env (tc_InputObjectKey t) (tc_InputSHA256 t) (tc_InputSizeBytes t) objs of
        Inl e \<Rightarrow> (Inl e, objs)
      | Inr input \<Rightarrow>
     (case readVerifiedObject deps env (tc_OutputObjectKey t) (tc_OutputSHA256 t) (tc_OutputSizeBytes t) objs of
        Inl e \<Rightarrow> (Inl e, objs)
      | Inr out \<Rightarrow>
     (let entry = manifest_entry pre t
      in case PutImmutable env (ob_ObjectKey (mt_Input entry)) input objs of
           (False, objs1) \<Rightarrow> (Inl (PStorageUnavailable ''publish testcase input''), objs1)
         | (True, objs1) \<Rightarrow>
      (case PutImmutable env (ob_ObjectKey (mt_Output entry)) out objs1 of
           (False, objs2) \<Rightarrow> (Inl (PStorageUnavailable ''publish testcase output''), objs2)
         | (True, objs2) \<Rightarrow>
             (case publish_cases deps env pre ts objs2 of
                (Inl e, objs3) \<Rightarrow> (Inl e, objs3)
              | (Inr entries, objs3) \<Rightarrow> (Inr (entry # entries), objs3))))))"

definition publishRevision ::
  "problem_deps \<Rightarrow> problem_env \<Rightarrow> Problem \<Rightarrow> Testcase list \<Rightarrow> objects \<Rightarrow> (problem_error + string) \<times> objects" where
  "publishRevision deps env p items objs =
     (if items = [] then (Inl (PInvalidStatus ''cannot publish an empty testcase revision''), objs)
      else if pb_ID p \<le> 0 \<or> pb_TimeLimitMs p \<le> 0 \<or> pb_MemoryLimitKb p \<le> 0
      then (Inl (PInvalidArgument ''invalid judge revision limits''), objs)
      else
        (let revision = pe_revision env
         in case publish_cases deps env (revision_prefix (pb_ID p) revision) (sort_key tc_CaseNo items) objs of
              (Inl e, objs1) \<Rightarrow> (Inl e, objs1)
            | (Inr entries, objs1) \<Rightarrow>
                (let manifest = \<lparr>mf_ManifestVersion = ManifestVersion, mf_ProblemID = pb_ID p, mf_JudgeRevision = revision,
                                 mf_TimeLimitMS = pb_TimeLimitMs p, mf_MemoryLimitKB = pb_MemoryLimitKb p,
                                 mf_Testcases = entries\<rparr>
                 in case Manifest_Validate manifest of
                      Some e \<Rightarrow> (Inl (PInternal (''validate judge manifest: '' @ e)), objs1)
                    | None \<Rightarrow>
                        (case ManifestObjectKey (pb_ID p) revision of
                           Inl e \<Rightarrow> (Inl (PInternal (''build judge manifest key: '' @ e)), objs1)
                         | Inr key \<Rightarrow>
                             (case PutImmutable env key (pq_json_text deps (enc_Manifest manifest)) objs1 of
                                (False, objs2) \<Rightarrow> (Inl (PStorageUnavailable ''publish judge manifest''), objs2)
                              | (True, objs2) \<Rightarrow> (Inr revision, objs2))))))"

subsection \<open>Test cases\<close>

definition upload_key :: "int64 \<Rightarrow> int32 \<Rightarrow> string \<Rightarrow> string \<Rightarrow> string" where
  "upload_key i caseNo uploadID ext =
     ''problem-'' @ format_int i @ ''/testcases/'' @ format_int caseNo @ ''/'' @ uploadID @ ext"

definition new_testcase :: "problem_deps \<Rightarrow> problem_env \<Rightarrow> int64 \<Rightarrow> int32 \<Rightarrow> bytes \<Rightarrow> bytes \<Rightarrow> Testcase" where
  "new_testcase deps env i caseNo input out =
     \<lparr>tc_ID = 0, tc_ProblemID = i, tc_CaseNo = caseNo,
      tc_InputObjectKey = upload_key i caseNo (pe_upload_id env) ''.in'',
      tc_OutputObjectKey = upload_key i caseNo (pe_upload_id env) ''.out'',
      tc_InputSHA256 = hex_encode (pq_sha256 deps input), tc_OutputSHA256 = hex_encode (pq_sha256 deps out),
      tc_InputSizeBytes = int (length input), tc_OutputSizeBytes = int (length out),
      tc_Status = 1, tc_CreatedAt = zero_time, tc_ArchivedAt = None\<rparr>"

definition commit_testcase ::
  "problem_deps \<Rightarrow> problem_env \<Rightarrow> Problem \<Rightarrow> Testcase \<Rightarrow> problem_db \<Rightarrow> problem_state \<Rightarrow> (problem_error + Testcase) \<times> problem_state" where
  \<comment> \<open>from the list of test cases to the commit\<close>
  "commit_testcase deps env p t db1 st =
     (case pstore_ListTestcases env (pb_ID p) False db1 of
        Inl e \<Rightarrow> (Inl e, st)
      | Inr items \<Rightarrow>
          (if list_ex (\<lambda>item. tc_CaseNo item = tc_CaseNo t) items then (Inl PTestcaseAlreadyExists, st)
           else case publishRevision deps env p (items @ [t]) (ps_objects st) of
                  (Inl e, objs) \<Rightarrow> (Inl e, st\<lparr>ps_objects := objs\<rparr>)
                | (Inr revision, objs) \<Rightarrow>
                    (case CommitAddedTestcase env t revision (pb_ActiveJudgeRevision p) (ps_db st) of
                       (r, db) \<Rightarrow> (r, st\<lparr>ps_db := db, ps_objects := objs\<rparr>))))"

definition addTestcaseToProblem ::
  "problem_deps \<Rightarrow> problem_env \<Rightarrow> Problem \<Rightarrow> int32 \<Rightarrow> bytes \<Rightarrow> bytes \<Rightarrow> problem_db \<Rightarrow> problem_state \<Rightarrow> (problem_error + Testcase) \<times> problem_state" where
  "addTestcaseToProblem deps env p caseNo input out db1 st =
     (let t = new_testcase deps env (pb_ID p) caseNo input out;
          inputKey = tc_InputObjectKey t; outputKey = tc_OutputObjectKey t
      in case PutImmutable env inputKey input (ps_objects st) of
           (False, objs) \<Rightarrow> (Inl (PStorageUnavailable ''upload testcase input''), st\<lparr>ps_objects := objs\<rparr>)
         | (True, objs) \<Rightarrow>
             (case PutImmutable env outputKey out objs of
                (False, objs1) \<Rightarrow>
                  (Inl (PStorageUnavailable ''upload testcase output''), st\<lparr>ps_objects := object_Delete env inputKey objs1\<rparr>)
              | (True, objs1) \<Rightarrow>
                  (case commit_testcase deps env p t db1 (st\<lparr>ps_objects := objs1\<rparr>) of
                     (Inr t', st') \<Rightarrow> (Inr t', st')
                   | (Inl e, st') \<Rightarrow>
                       (Inl e, st'\<lparr>ps_objects := object_Delete env outputKey (object_Delete env inputKey (ps_objects st'))\<rparr>))))"

definition AddTestcase ::
  "problem_deps \<Rightarrow> problem_env \<Rightarrow> rpc_context option \<Rightarrow> int64 \<Rightarrow> int32 \<Rightarrow> bytes \<Rightarrow> bytes \<Rightarrow> problem_db \<Rightarrow> problem_db
     \<Rightarrow> problem_state \<Rightarrow> (problem_error + Testcase) \<times> problem_state" where
  "AddTestcase deps env ctx i caseNo input out db0 db1 st =
     (case problem_requireAdmin ctx of Some e \<Rightarrow> (Inl e, st)
      | None \<Rightarrow>
          (if i \<le> 0 \<or> caseNo \<le> 0 \<or> input = [] \<or> out = [] then (Inl (PInvalidArgument ''invalid testcase input''), st)
           else case pstore_FindByID env i db0 of Inl e \<Rightarrow> (Inl e, st)
                | Inr p \<Rightarrow>
                    (if pb_Status p \<noteq> PROBLEM_STATUS_NORMAL
                     then (Inl (PInvalidStatus ''archived problem testcases cannot be changed''), st)
                     else addTestcaseToProblem deps env p caseNo input out db1 st)))"

definition prob_ArchiveTestcase ::
  "problem_deps \<Rightarrow> problem_env \<Rightarrow> rpc_context option \<Rightarrow> int64 \<Rightarrow> int64 \<Rightarrow> problem_db \<Rightarrow> problem_db
     \<Rightarrow> problem_state \<Rightarrow> (problem_error + Testcase) \<times> problem_state" where
  "prob_ArchiveTestcase deps env ctx i testcaseID db0 db1 st =
     (case problem_requireAdmin ctx of Some e \<Rightarrow> (Inl e, st)
      | None \<Rightarrow>
     (case pstore_FindByID env i db0 of Inl e \<Rightarrow> (Inl e, st)
      | Inr p \<Rightarrow>
          (if pb_Status p \<noteq> PROBLEM_STATUS_NORMAL
           then (Inl (PInvalidStatus ''archived problem testcases cannot be changed''), st)
           else case pstore_ListTestcases env i False db1 of Inl e \<Rightarrow> (Inl e, st)
                | Inr items \<Rightarrow>
                    (let remaining = filter (\<lambda>t. tc_ID t \<noteq> testcaseID) items
                     in if items = [] then (Inl (PPanic ''makeslice: cap out of range''), st) \<comment> \<open>\<open>make\<close> with capacity -1\<close>
                        else if \<not> list_ex (\<lambda>t. tc_ID t = testcaseID) items then (Inl (PTestcaseNotFound ''testcase not found''), st)
                        else if remaining = []
                        then (case CommitArchivedTestcase env i testcaseID [] (pb_ActiveJudgeRevision p) (ps_db st) of
                                (r, db) \<Rightarrow> (r, st\<lparr>ps_db := db\<rparr>))
                        else case publishRevision deps env p remaining (ps_objects st) of
                               (Inl e, objs) \<Rightarrow> (Inl e, st\<lparr>ps_objects := objs\<rparr>)
                             | (Inr revision, objs) \<Rightarrow>
                                 (case CommitArchivedTestcase env i testcaseID revision (pb_ActiveJudgeRevision p) (ps_db st) of
                                    (r, db) \<Rightarrow> (r, st\<lparr>ps_db := db, ps_objects := objs\<rparr>))))))"

definition prob_ListTestcases ::
  "problem_env \<Rightarrow> rpc_context option \<Rightarrow> int64 \<Rightarrow> bool \<Rightarrow> problem_db \<Rightarrow> problem_error + Testcase list" where
  "prob_ListTestcases env ctx i includeArchived db =
     errE (requireTestcaseReader ctx)
       (bindE (pstore_FindByID env i db) (\<lambda>_. pstore_ListTestcases env i includeArchived db))"

subsection \<open>Problems\<close>

definition trimmed :: "Problem \<Rightarrow> Problem" where
  "trimmed p = p\<lparr>pb_Title := trim_space (pb_Title p), pb_Slug := trim_space (pb_Slug p),
     pb_Description := trim_space (pb_Description p), pb_Constraints := trim_space (pb_Constraints p)\<rparr>"

fun delete_uploads :: "problem_env \<Rightarrow> Testcase list \<Rightarrow> objects \<Rightarrow> objects" where
  "delete_uploads env [] objs = objs"
| "delete_uploads env (t # ts) objs =
     delete_uploads env ts (object_Delete env (tc_OutputObjectKey t) (object_Delete env (tc_InputObjectKey t) objs))"

record TestcaseContent =
  cn_CaseNo :: int32
  cn_Input :: bytes
  cn_Output :: bytes

fun create_cases ::
  "problem_deps \<Rightarrow> Testcase list \<Rightarrow> Problem \<Rightarrow> (problem_env \<times> TestcaseContent) list \<Rightarrow> problem_state
     \<Rightarrow> (problem_error + Problem) \<times> problem_state" where
  \<comment> \<open>the loop of \<open>Create\<close> over the test cases, each with what happens during it, and the ones stored\<close>
  "create_cases deps stored p [] st = (Inr p, st)"
| "create_cases deps stored p ((env, content) # rest) st =
     (case addTestcaseToProblem deps env p (cn_CaseNo content) (cn_Input content) (cn_Output content) (ps_db st) st of
        (Inl addErr, st1) \<Rightarrow>
          (case DeleteCreatedProblem env (pb_ID p) (ps_db st1) of
             (cleanupErr, db) \<Rightarrow>
               (Inl (case cleanupErr of None \<Rightarrow> addErr | Some _ \<Rightarrow> PInternal ''create problem cleanup failed''),
                st1\<lparr>ps_db := db, ps_objects := delete_uploads env stored (ps_objects st1),
                    ps_cache := pcache_Delete env (pq_namespace deps) (pb_ID p) (ps_cache st1)\<rparr>))
      | (Inr item, st1) \<Rightarrow>
          (case pstore_FindByID env (pb_ID p) (ps_db st1) of
             Inl e \<Rightarrow> (Inl e, st1)
           | Inr p1 \<Rightarrow> create_cases deps (stored @ [item]) p1 rest st1))"

definition prob_Create ::
  "problem_deps \<Rightarrow> problem_env \<Rightarrow> rpc_context option \<Rightarrow> Problem \<Rightarrow> string list \<Rightarrow> (problem_env \<times> TestcaseContent) list \<Rightarrow> problem_state
     \<Rightarrow> (problem_error + Problem) \<times> problem_state" where
  "prob_Create deps env ctx input tags contents st =
     (case problem_requireAdmin ctx of Some e \<Rightarrow> (Inl e, st)
      | None \<Rightarrow>
     (case validateStatement input of Some e \<Rightarrow> (Inl e, st)
      | None \<Rightarrow>
          (let p = (trimmed input)\<lparr>pb_Status := PROBLEM_STATUS_NORMAL, pb_CreatedBy := rc_UserId (the ctx)\<rparr>
           in case pstore_Create env p (normalizeTags tags) (ps_db st) of
                (Inl e, db) \<Rightarrow> (Inl e, st\<lparr>ps_db := db\<rparr>)
              | (Inr created, db) \<Rightarrow>
                  create_cases deps [] created contents
                    (st\<lparr>ps_db := db, ps_cache := pcache_Set env (pq_namespace deps) created (ps_cache st)\<rparr>))))"

definition merged_input :: "Problem \<Rightarrow> int64 \<Rightarrow> Problem \<Rightarrow> Problem" where
  "merged_input input i current =
     (trimmed (input\<lparr>pb_Constraints := (if trim_space (pb_Constraints input) = [] then pb_Constraints current else pb_Constraints input),
                     pb_Samples := (if pb_Samples input = [] then pb_Samples current else pb_Samples input)\<rparr>))
       \<lparr>pb_ID := i, pb_Status := pb_Status current, pb_CreatedBy := pb_CreatedBy current,
        pb_CreatedAt := pb_CreatedAt current, pb_ActiveJudgeRevision := pb_ActiveJudgeRevision current\<rparr>"

definition should_publish :: "Problem \<Rightarrow> Problem \<Rightarrow> bool" where
  "should_publish input current \<longleftrightarrow>
     ((pb_TimeLimitMs input \<noteq> pb_TimeLimitMs current \<or> pb_MemoryLimitKb input \<noteq> pb_MemoryLimitKb current)
        \<and> pb_ActiveJudgeRevision current \<noteq> [])
     \<or> pb_ActiveJudgeRevision current = []"

definition store_updated ::
  "problem_deps \<Rightarrow> problem_env \<Rightarrow> Problem \<Rightarrow> string list \<Rightarrow> string \<Rightarrow> problem_state \<Rightarrow> (problem_error + Problem) \<times> problem_state" where
  "store_updated deps env p tags expected st =
     (case pstore_Update env p (normalizeTags tags) expected (ps_db st) of
        (Inl e, db) \<Rightarrow> (Inl e, st\<lparr>ps_db := db\<rparr>)
      | (Inr u, db) \<Rightarrow> (Inr u, st\<lparr>ps_db := db, ps_cache := pcache_Delete env (pq_namespace deps) (pb_ID p) (ps_cache st)\<rparr>))"

definition prob_Update ::
  "problem_deps \<Rightarrow> problem_env \<Rightarrow> rpc_context option \<Rightarrow> int64 \<Rightarrow> Problem \<Rightarrow> string list \<Rightarrow> problem_db \<Rightarrow> problem_db
     \<Rightarrow> problem_state \<Rightarrow> (problem_error + Problem) \<times> problem_state" where
  "prob_Update deps env ctx i input tags db0 db1 st =
     (case problem_requireAdmin ctx of Some e \<Rightarrow> (Inl e, st)
      | None \<Rightarrow>
     (case validateStatement input of Some e \<Rightarrow> (Inl e, st)
      | None \<Rightarrow>
     (case pstore_FindByID env i db0 of Inl e \<Rightarrow> (Inl e, st)
      | Inr current \<Rightarrow>
          (if pb_Status current = PROBLEM_STATUS_ARCHIVED then (Inl (PInvalidStatus ''archived problem cannot be updated''), st)
           else
             (let p = merged_input input i current; expected = pb_ActiveJudgeRevision current
              in if \<not> should_publish p current then store_updated deps env p tags expected st
                 else case pstore_ListTestcases env i False db1 of Inl e \<Rightarrow> (Inl e, st)
                      | Inr items \<Rightarrow>
                          (if items = []
                           then (if expected \<noteq> [] then (Inl (PInvalidStatus ''active judge revision has no testcases''), st)
                                 else store_updated deps env p tags expected st)
                           else case publishRevision deps env p items (ps_objects st) of
                                  (Inl e, objs) \<Rightarrow> (Inl e, st\<lparr>ps_objects := objs\<rparr>)
                                | (Inr revision, objs) \<Rightarrow>
                                    store_updated deps env (p\<lparr>pb_ActiveJudgeRevision := revision\<rparr>) tags expected
                                      (st\<lparr>ps_objects := objs\<rparr>)))))))"

definition prob_Archive ::
  "problem_deps \<Rightarrow> problem_env \<Rightarrow> rpc_context option \<Rightarrow> int64 \<Rightarrow> problem_db \<Rightarrow> problem_state
     \<Rightarrow> (problem_error + Problem) \<times> problem_state" where
  "prob_Archive deps env ctx i db0 st =
     (case problem_requireAdmin ctx of Some e \<Rightarrow> (Inl e, st)
      | None \<Rightarrow>
     (case pstore_FindByID env i db0 of Inl e \<Rightarrow> (Inl e, st)
      | Inr p \<Rightarrow>
          (if pb_Status p = PROBLEM_STATUS_ARCHIVED then (Inr p, st)
           else case pstore_Archive env i (ps_db st) of
                  (Inl e, db) \<Rightarrow> (Inl e, st\<lparr>ps_db := db\<rparr>)
                | (Inr a, db) \<Rightarrow>
                    (Inr a, st\<lparr>ps_db := db, ps_cache := pcache_Delete env (pq_namespace deps) i (ps_cache st)\<rparr>))))"

record ProblemPage =
  pp_Items :: "Problem list"
  pp_Page :: int32
  pp_PageSize :: int32
  pp_Total :: int64

definition prob_List :: "problem_env \<Rightarrow> rpc_context option \<Rightarrow> int32 \<Rightarrow> int32 \<Rightarrow> problem_db \<Rightarrow> problem_error + ProblemPage" where
  "prob_List env ctx page pageSize db =
     (case ctx of None \<Rightarrow> Inl (PInvalidArgument ''invalid list problems request'')
      | Some c \<Rightarrow>
          guardE (rc_UserId c \<le> 0) (PInvalidArgument ''invalid list problems request'')
            (let pg = (if page \<le> 0 then 1 else page);
                 size1 = (if pageSize \<le> 0 then 20 else pageSize); sz = (if size1 > 100 then 100 else size1)
             in bindE (pstore_List env pg sz (problem_requireAdmin ctx = None) db) (\<lambda>(items, n).
                  Inr \<lparr>pp_Items = items, pp_Page = pg, pp_PageSize = sz, pp_Total = n\<rparr>)))"

definition cached_find ::
  "problem_deps \<Rightarrow> problem_env \<Rightarrow> int64 \<Rightarrow> problem_state \<Rightarrow> (problem_error + Problem) \<times> problem_state" where
  "cached_find deps env i st =
     (case pcache_Get env (pq_namespace deps) i (ps_cache st) of
        Some p \<Rightarrow> (Inr p, st)
      | None \<Rightarrow>
          (case pstore_FindByID env i (ps_db st) of Inl e \<Rightarrow> (Inl e, st)
           | Inr p \<Rightarrow> (Inr p, st\<lparr>ps_cache := pcache_Set env (pq_namespace deps) p (ps_cache st)\<rparr>)))"

definition prob_Get ::
  "problem_deps \<Rightarrow> problem_env \<Rightarrow> rpc_context option \<Rightarrow> int64 \<Rightarrow> problem_state \<Rightarrow> (problem_error + Problem) \<times> problem_state" where
  "prob_Get deps env ctx i st =
     (case ctx of None \<Rightarrow> (Inl (PInvalidArgument ''invalid get problem request''), st)
      | Some c \<Rightarrow>
          (if rc_UserId c \<le> 0 \<or> i \<le> 0 then (Inl (PInvalidArgument ''invalid get problem request''), st)
           else case cached_find deps env i st of
                  (Inl e, st') \<Rightarrow> (Inl e, st')
                | (Inr p, st') \<Rightarrow>
                    (if pb_Status p = PROBLEM_STATUS_ARCHIVED \<and> problem_requireAdmin ctx \<noteq> None
                     then Inl (PNotFound ''problem not found'') else Inr p, st')))"

definition prob_GetJudgeProfile :: "problem_env \<Rightarrow> int64 \<Rightarrow> problem_db \<Rightarrow> problem_db \<Rightarrow> problem_error + Problem" where
  "prob_GetJudgeProfile env i db0 db1 =
     guardE (i \<le> 0) (PInvalidArgument ''invalid problem id'')
       (bindE (pstore_FindByID env i db0) (\<lambda>p.
          guardE (pb_Status p \<noteq> PROBLEM_STATUS_NORMAL) (PInvalidStatus ''archived problem cannot be judged'')
            (guardE (pb_ActiveJudgeRevision p = []) (PInvalidStatus ''problem has no published judge revision'')
               (bindE (pstore_ListTestcases env i False db1) (\<lambda>items.
                  guardE (items = []) (PInvalidStatus ''problem has no active testcases'') (Inr p))))))"

definition prob_BatchGet :: "problem_env \<Rightarrow> rpc_context option \<Rightarrow> int64 list \<Rightarrow> problem_db \<Rightarrow> problem_error + Problem list" where
  "prob_BatchGet env ctx ids db =
     (case ctx of None \<Rightarrow> Inl (PPermissionDenied ''authenticated actor is required'')
      | Some c \<Rightarrow>
          guardE (rc_UserId c \<le> 0) (PPermissionDenied ''authenticated actor is required'')
            (guardE (ids = [] \<or> length ids > 100) (PInvalidArgument ''between 1 and 100 problem IDs required'')
               (guardE (\<not> distinct ids \<or> list_ex (\<lambda>i. i \<le> 0) ids) (PInvalidArgument ''problem IDs must be positive and unique'')
                  (pstore_BatchGet env ids (problem_requireAdmin ctx = None) db))))"

end
