(* ===== verification/Problem_Revision.thy ===== *)
theory Problem_Revision
  imports Problem_Usecase
begin

text \<open>
  Published judge revisions: which objects a revision consists of, that publishing writes exactly these and
  that no operation of the service changes or removes them again.
\<close>

section \<open>Definitions\<close>

text \<open>What the publication relies on: a store that never replaces an object.\<close>

locale immutable_store =
  fixes put :: "'k \<Rightarrow> 'c \<Rightarrow> 's \<Rightarrow> bool \<times> 's" and lookup :: "'s \<Rightarrow> 'k \<Rightarrow> 'c option"
  assumes put_keeps: "put k c s = (ok, s') \<Longrightarrow> lookup s x = Some v \<Longrightarrow> lookup s' x = Some v"
    and put_stores: "put k c s = (True, s') \<Longrightarrow> lookup s k = None \<and> lookup s' k = Some c"
begin

lemma put_refused: "lookup s k = Some v \<Longrightarrow> \<not> fst (put k c s)"
  using put_stores [of k c s] by (cases "put k c s") auto

lemma put_then_put:
  assumes "put k c s = (True, s1)" and "put k' c' s1 = (True, s2)"
  shows "k \<noteq> k' \<and> lookup s2 k = Some c \<and> lookup s2 k' = Some c'"
  using assms put_stores put_keeps put_refused [of s1 k c c'] by fastforce

end


definition manifest_key :: "int64 \<Rightarrow> string \<Rightarrow> string" where
  "manifest_key i revision = revision_prefix i revision @ ''/manifest.json''"

definition object_ok :: "problem_deps \<Rightarrow> objects \<Rightarrow> ManifestObject \<Rightarrow> bool" where
  \<comment> \<open>the object exists with the size and the digest it is listed with\<close>
  "object_ok deps objs ob \<longleftrightarrow> (\<exists>c. map_of objs (ob_ObjectKey ob) = Some c \<and> int (length c) = ob_SizeBytes ob
     \<and> hex_encode (pq_sha256 deps c) = ob_SHA256 ob)"

definition revision_manifest :: "int64 \<Rightarrow> string \<Rightarrow> int32 \<Rightarrow> int32 \<Rightarrow> Testcase list \<Rightarrow> Manifest" where
  "revision_manifest i revision timeLimit memoryLimit items =
     \<lparr>mf_ManifestVersion = ManifestVersion, mf_ProblemID = i, mf_JudgeRevision = revision, mf_TimeLimitMS = timeLimit,
      mf_MemoryLimitKB = memoryLimit, mf_Testcases = map (manifest_entry (revision_prefix i revision)) items\<rparr>"

definition published :: "problem_deps \<Rightarrow> objects \<Rightarrow> int64 \<Rightarrow> string \<Rightarrow> Manifest \<Rightarrow> bool" where
  \<comment> \<open>the bucket holds the manifest under the key of the revision, and all it lists\<close>
  "published deps objs i revision m \<longleftrightarrow>
     map_of objs (manifest_key i revision) = Some (pq_json_text deps (enc_Manifest m)) \<and> Manifest_Validate m = None
     \<and> mf_ProblemID m = i \<and> mf_JudgeRevision m = revision \<and> sorted (map mt_CaseNo (mf_Testcases m))
     \<and> (\<forall>t \<in> set (mf_Testcases m). object_ok deps objs (mt_Input t) \<and> object_ok deps objs (mt_Output t))
     \<and> (\<forall>t \<in> set (mf_Testcases m). \<exists>item. t = manifest_entry (revision_prefix i revision) item)"

definition revisions_kept :: "objects \<Rightarrow> objects \<Rightarrow> bool" where
  "revisions_kept objs objs' \<longleftrightarrow>
     (\<forall>i r x v. map_of objs (revision_prefix i r @ x) = Some v \<longrightarrow> map_of objs' (revision_prefix i r @ x) = Some v)"

definition manifest_text_inj :: "problem_deps \<Rightarrow> bool" where
  \<comment> \<open>different valid manifests of a revision are marshalled to different texts\<close>
  "manifest_text_inj deps \<longleftrightarrow>
     (\<forall>i r t m xs t' m' xs'. Manifest_Validate (revision_manifest i r t m xs) = None \<longrightarrow> Manifest_Validate (revision_manifest i r t' m' xs') = None
        \<longrightarrow> pq_json_text deps (enc_Manifest (revision_manifest i r t m xs)) = pq_json_text deps (enc_Manifest (revision_manifest i r t' m' xs'))
        \<longrightarrow> revision_manifest i r t m xs = revision_manifest i r t' m' xs')"

section \<open>Lemmas\<close>

subsection \<open>Keys\<close>

lemma decimal_digits_no_slash: "CHR ''/'' \<notin> set (decimal_digits n)"
proof (induction n rule: decimal_digits.induct)
  case (1 n)
  have c: "CHR ''/'' \<noteq> char_of (48 + k)" if "k < 10" for k :: nat
  proof
    assume "CHR ''/'' = char_of (48 + k)"
    then have "(of_char (char_of (48 + k) :: char) :: nat) = of_char (CHR ''/'')" by simp
    then show False using that by simp
  qed
  have "n mod 10 < 10" by simp
  then show ?case using 1 c [of n] c [of "n mod 10"] by (subst decimal_digits.simps) simp
qed

lemma format_int_no_slash: "CHR ''/'' \<notin> set (format_int i)"
  by (simp add: format_int_def decimal_digits_no_slash)

lemma upload_not_revision: "upload_key i n u e \<noteq> revision_prefix j r @ x"
proof
  assume "upload_key i n u e = revision_prefix j r @ x"
  then have e: "format_int i @ ''/testcases/'' @ format_int n @ ''/'' @ u @ e = format_int j @ ''/judge-revisions/'' @ r @ x"
    by (simp add: upload_key_def revision_prefix_def)
  let ?f = "dropWhile (\<lambda>c. c \<noteq> CHR ''/'')"
  have d: "?f (format_int k @ CHR ''/'' # y) = CHR ''/'' # y" for k y
    using format_int_no_slash [of k] by (subst dropWhile_append2) auto
  from arg_cong [OF e, of ?f] d [of i "''testcases/'' @ format_int n @ ''/'' @ u @ e"] d [of j "''judge-revisions/'' @ r @ x"]
  show False by simp
qed

lemma manifest_entry_keys:
  "ob_ObjectKey (mt_Input (manifest_entry pre t)) = pre @ ''/testcases/'' @ format_int (tc_CaseNo t) @ ''.in''"
  "ob_ObjectKey (mt_Output (manifest_entry pre t)) = pre @ ''/testcases/'' @ format_int (tc_CaseNo t) @ ''.out''"
  "mt_CaseNo (manifest_entry pre t) = tc_CaseNo t"
  by (simp_all add: manifest_entry_def)

lemma ManifestObjectKey_Inr: "ManifestObjectKey i r = Inr k \<Longrightarrow> k = manifest_key i r"
  by (simp add: ManifestObjectKey_def manifest_key_def revision_prefix_def split: if_splits)

subsection \<open>Objects\<close>

lemma revisions_kept_refl [simp]: "revisions_kept objs objs"
  by (simp add: revisions_kept_def)

lemma revisions_kept_trans: "revisions_kept a b \<Longrightarrow> revisions_kept b c \<Longrightarrow> revisions_kept a c"
  by (simp add: revisions_kept_def)

lemma PutImmutable_cases:
  assumes "PutImmutable env k c objs = (ok, objs')"
  shows "map_of objs x = Some v \<Longrightarrow> map_of objs' x = Some v" and "ok \<Longrightarrow> map_of objs k = None \<and> objs' = (k, c) # objs"
  using assms by (auto simp: PutImmutable_def Let_def split: if_splits)

interpretation bucket: immutable_store "PutImmutable env" map_of for env
  by unfold_locales (auto dest: PutImmutable_cases)

lemma PutImmutable_kept: "PutImmutable env k c objs = (ok, objs') \<Longrightarrow> revisions_kept objs objs'"
  using PutImmutable_cases(1) by (fastforce simp: revisions_kept_def)

lemma map_of_filter_key: "map_of (filter (\<lambda>x. fst x \<noteq> k) xs) y = (if y = k then None else map_of xs y)"
  by (induction xs) auto

lemma object_Delete_kept: "revisions_kept objs (object_Delete env (upload_key i n u e) objs)"
  using upload_not_revision [symmetric] by (auto simp: revisions_kept_def object_Delete_def map_of_filter_key)

lemma object_ok_mono:
  "object_ok deps objs ob \<Longrightarrow> (\<And>v. map_of objs (ob_ObjectKey ob) = Some v \<Longrightarrow> map_of objs' (ob_ObjectKey ob) = Some v)
     \<Longrightarrow> object_ok deps objs' ob"
  by (auto simp: object_ok_def)

lemma published_kept:
  assumes "published deps objs i r m" and "revisions_kept objs objs'"
  shows "published deps objs' i r m"
proof -
  have "object_ok deps objs' (mt_Input t) \<and> object_ok deps objs' (mt_Output t)" if t: "t \<in> set (mf_Testcases m)" for t
  proof -
    obtain item where "t = manifest_entry (revision_prefix i r) item" using assms(1) t by (auto simp: published_def)
    then show ?thesis
      using assms t object_ok_mono [of deps objs _ objs']
      unfolding published_def revisions_kept_def by (metis manifest_entry_keys(1,2))
  qed
  then show ?thesis using assms by (auto simp: published_def revisions_kept_def manifest_key_def)
qed

lemma published_form:
  assumes "published deps objs i r m"
  obtains xs where "m = revision_manifest i r (mf_TimeLimitMS m) (mf_MemoryLimitKB m) xs"
proof -
  obtain xs where "mf_Testcases m = map (manifest_entry (revision_prefix i r)) xs"
    using assms ex_map_conv [of "mf_Testcases m" "manifest_entry (revision_prefix i r)"] by (auto simp: published_def)
  moreover have "mf_ManifestVersion m = ManifestVersion" "mf_ProblemID m = i" "mf_JudgeRevision m = r"
    using assms by (auto simp: published_def Manifest_Validate_def split: if_splits)
  ultimately have "m = revision_manifest i r (mf_TimeLimitMS m) (mf_MemoryLimitKB m) xs"
    by (cases m) (simp add: revision_manifest_def)
  then show ?thesis by (rule that)
qed

lemma published_unique:
  assumes "manifest_text_inj deps" and "published deps objs i r m" and "published deps objs i r m'"
  shows "m = m'"
proof -
  obtain xs ys where "m = revision_manifest i r (mf_TimeLimitMS m) (mf_MemoryLimitKB m) xs"
    "m' = revision_manifest i r (mf_TimeLimitMS m') (mf_MemoryLimitKB m') ys"
    using published_form assms(2,3) by metis
  then show ?thesis using assms unfolding manifest_text_inj_def published_def by (metis option.inject)
qed

lemma published_revision: "published deps objs i r m \<Longrightarrow> length r = 26 \<and> r \<noteq> []"
  by (auto simp: published_def Manifest_Validate_def split: if_splits)

subsection \<open>Publishing\<close>

lemma readVerifiedObject_Inr:
  "readVerifiedObject deps env k h n objs = Inr c \<Longrightarrow> int (length c) = n \<and> hex_encode (pq_sha256 deps c) = h"
  by (auto simp: readVerifiedObject_def split: option.splits)

lemma publish_cases_mono:
  "publish_cases deps env pre ts objs = (res, objs') \<Longrightarrow> map_of objs x = Some v \<Longrightarrow> map_of objs' x = Some v"
proof (induction ts arbitrary: objs res objs')
  case (Cons t ts)
  from Cons.prems(1) show ?case
    apply (clarsimp simp: Let_def split: sum.splits prod.splits bool.splits)
    using Cons.prems(2) Cons.IH PutImmutable_cases(1) by (auto 4 4)
qed simp

lemma publish_cases_Inr:
  assumes "publish_cases deps env pre ts objs = (Inr entries, objs')"
  shows "entries = map (manifest_entry pre) ts
    \<and> (\<forall>t \<in> set entries. object_ok deps objs' (mt_Input t) \<and> object_ok deps objs' (mt_Output t))"
  using assms
proof (induction ts arbitrary: objs entries)
  case (Cons t ts)
  let ?e = "manifest_entry pre t"
  from Cons.prems obtain input out objs1 objs2 es where
    r: "readVerifiedObject deps env (tc_InputObjectKey t) (tc_InputSHA256 t) (tc_InputSizeBytes t) objs = Inr input"
      "readVerifiedObject deps env (tc_OutputObjectKey t) (tc_OutputSHA256 t) (tc_OutputSizeBytes t) objs = Inr out"
    and p1: "PutImmutable env (ob_ObjectKey (mt_Input ?e)) input objs = (True, objs1)"
    and p2: "PutImmutable env (ob_ObjectKey (mt_Output ?e)) out objs1 = (True, objs2)"
    and rest: "publish_cases deps env pre ts objs2 = (Inr es, objs')" and "entries = ?e # es"
    by (auto simp: Let_def split: sum.splits prod.splits bool.splits)
  have "map_of objs2 (ob_ObjectKey (mt_Input ?e)) = Some input" "map_of objs2 (ob_ObjectKey (mt_Output ?e)) = Some out"
    using bucket.put_then_put [OF p1 p2] by blast+
  then have "map_of objs' (ob_ObjectKey (mt_Input ?e)) = Some input" "map_of objs' (ob_ObjectKey (mt_Output ?e)) = Some out"
    using publish_cases_mono [OF rest] by blast+
  then have "object_ok deps objs' (mt_Input ?e)" "object_ok deps objs' (mt_Output ?e)"
    using r [THEN readVerifiedObject_Inr] by (auto simp: object_ok_def manifest_entry_def)
  then show ?case using Cons.IH [OF rest] \<open>entries = ?e # es\<close> by simp
qed simp

lemma publishRevision_kept:
  assumes "publishRevision deps env p items objs = (res, objs')"
  shows "map_of objs x = Some v \<Longrightarrow> map_of objs' x = Some v" and "revisions_kept objs objs'"
proof -
  show "map_of objs x = Some v \<Longrightarrow> map_of objs' x = Some v" for x v
    using assms
    by (auto simp: publishRevision_def Let_def split: if_splits sum.splits prod.splits bool.splits option.splits
        dest: publish_cases_mono PutImmutable_cases(1))
  then show "revisions_kept objs objs'" by (simp add: revisions_kept_def)
qed

lemma publishRevision_Inr:
  assumes "publishRevision deps env p items objs = (Inr r, objs')"
  defines "m \<equiv> revision_manifest (pb_ID p) r (pb_TimeLimitMs p) (pb_MemoryLimitKb p) (sort_key tc_CaseNo items)"
  shows "r = pe_revision env" and "published deps objs' (pb_ID p) r m" and "map_of objs (manifest_key (pb_ID p) r) = None"
    and "items \<noteq> []" and "length r = 26"
proof -
  from assms(1) obtain entries objs1 k where
    p: "publish_cases deps env (revision_prefix (pb_ID p) (pe_revision env)) (sort_key tc_CaseNo items) objs = (Inr entries, objs1)"
    and r: "r = pe_revision env"
    and v: "Manifest_Validate \<lparr>mf_ManifestVersion = ManifestVersion, mf_ProblemID = pb_ID p, mf_JudgeRevision = r,
                mf_TimeLimitMS = pb_TimeLimitMs p, mf_MemoryLimitKB = pb_MemoryLimitKb p, mf_Testcases = entries\<rparr> = None"
    and k: "ManifestObjectKey (pb_ID p) r = Inr k"
    and put: "PutImmutable env k (pq_json_text deps (enc_Manifest \<lparr>mf_ManifestVersion = ManifestVersion, mf_ProblemID = pb_ID p,
        mf_JudgeRevision = r, mf_TimeLimitMS = pb_TimeLimitMs p, mf_MemoryLimitKB = pb_MemoryLimitKb p, mf_Testcases = entries\<rparr>)) objs1
        = (True, objs')"
    and ne: "items \<noteq> []"
    by (auto simp: publishRevision_def Let_def split: if_splits sum.splits prod.splits bool.splits option.splits)
  note c = publish_cases_Inr [OF p]
  have m: "m = \<lparr>mf_ManifestVersion = ManifestVersion, mf_ProblemID = pb_ID p, mf_JudgeRevision = r,
                mf_TimeLimitMS = pb_TimeLimitMs p, mf_MemoryLimitKB = pb_MemoryLimitKb p, mf_Testcases = entries\<rparr>"
    using c r by (simp add: m_def revision_manifest_def)
  have srt: "sorted (map mt_CaseNo entries)" using c by (simp add: comp_def manifest_entry_keys)
  have ok: "object_ok deps objs' (mt_Input t) \<and> object_ok deps objs' (mt_Output t)" if "t \<in> set entries" for t
    using c that object_ok_mono PutImmutable_cases(1) [OF put] by blast
  show "r = pe_revision env" by (rule r)
  show "published deps objs' (pb_ID p) r m"
    using v put ok c srt PutImmutable_cases(2) [OF put] r unfolding published_def ManifestObjectKey_Inr [OF k] m by auto
  show "map_of objs (manifest_key (pb_ID p) r) = None"
    using PutImmutable_cases(2) [OF put] publish_cases_mono [OF p] unfolding ManifestObjectKey_Inr [OF k]
    by (cases "map_of objs (manifest_key (pb_ID p) r)") auto
  show "items \<noteq> []" by (rule ne)
  show "length r = 26" using v by (auto simp: Manifest_Validate_def split: if_splits)
qed

end
