(* ===== verification/Problem_Inv.thy ===== *)
theory Problem_Inv
  imports Problem_Revision
begin

text \<open>
  The invariant of the problem service: the active revision of a problem is published with exactly the
  active test cases and the limits of the problem. Requests that read the tables at an earlier moment keep
  it, because their commit fails unless the active revision is the one they read, and a revision is
  activated at most once.
\<close>

section \<open>Definitions\<close>

definition scanned :: "testcase_row \<Rightarrow> Testcase" where
  "scanned r = projr (scanTestcase r)"

definition items_of :: "problem_db \<Rightarrow> int64 \<Rightarrow> Testcase list" where
  \<comment> \<open>the active test cases of a problem by case number\<close>
  "items_of db i = map scanned (testcase_rows db i False)"

definition rows_ok :: "problem_db \<Rightarrow> bool" where
  "rows_ok db \<longleftrightarrow> distinct (map pr_id (pd_problems db)) \<and> (\<forall>p \<in> set (pd_problems db). pr_id p < pd_next_problem db)
     \<and> distinct (map tr_id (pd_testcases db))
     \<and> distinct (map (\<lambda>r. (tr_problem_id r, tr_case_no r)) (pd_testcases db))
     \<and> (\<forall>r \<in> set (pd_testcases db). tr_id r < pd_next_testcase db \<and> tr_problem_id r < pd_next_problem db
          \<and> tr_status r \<in> {testcase_active, testcase_archived})"

definition problem_ok :: "problem_deps \<Rightarrow> objects \<Rightarrow> problem_db \<Rightarrow> problem_row \<Rightarrow> bool" where
  "problem_ok deps objs db p =
     (case pr_active_judge_revision p of
        None \<Rightarrow> items_of db (pr_id p) = []
      | Some r \<Rightarrow> published deps objs (pr_id p) r
          (revision_manifest (pr_id p) r (pr_time_limit_ms p) (pr_memory_limit_kb p) (items_of db (pr_id p))))"

definition problems_ok :: "problem_deps \<Rightarrow> problem_db \<Rightarrow> objects \<Rightarrow> bool" where
  "problems_ok deps db objs \<longleftrightarrow> rows_ok db \<and> (\<forall>p \<in> set (pd_problems db). problem_ok deps objs db p)"

definition activated :: "problem_db \<Rightarrow> int64 \<Rightarrow> string \<Rightarrow> bool" where
  "activated db i r \<longleftrightarrow> (\<exists>p. find_problem db i = Some p \<and> pr_active_judge_revision p = Some r)"

definition same_case :: "testcase_row \<Rightarrow> testcase_row \<Rightarrow> bool" where
  "same_case x y \<longleftrightarrow> tr_id x = tr_id y \<and> tr_problem_id x = tr_problem_id y \<and> tr_case_no x = tr_case_no y"

definition evolves :: "problem_db \<Rightarrow> objects \<Rightarrow> problem_db \<Rightarrow> objects \<Rightarrow> bool" where
  "evolves db objs db' objs' \<longleftrightarrow> revisions_kept objs objs'
     \<and> (\<forall>i r. activated db' i r \<longrightarrow> activated db i r \<or> map_of objs (manifest_key i r) = None)
     \<and> pd_next_testcase db \<le> pd_next_testcase db'
     \<and> (\<forall>y \<in> set (pd_testcases db'). pd_next_testcase db \<le> tr_id y \<or> (\<exists>x \<in> set (pd_testcases db). same_case x y))"

definition reads_ok :: "problem_deps \<Rightarrow> problem_db \<Rightarrow> objects \<Rightarrow> problem_db \<Rightarrow> problem_db \<Rightarrow> bool" where
  \<comment> \<open>what a request knows that read the problem in \<open>db0\<close> and its test cases in \<open>db1\<close>\<close>
  "reads_ok deps db objs db0 db1 \<longleftrightarrow> rows_ok db1
     \<and> pd_next_testcase db1 \<le> pd_next_testcase db
     \<and> (\<forall>x \<in> set (pd_testcases db1). \<forall>y \<in> set (pd_testcases db). tr_id x = tr_id y \<longrightarrow> same_case x y)
     \<and> (\<forall>i p0 r. find_problem db0 i = Some p0 \<longrightarrow> pr_active_judge_revision p0 = Some r \<longrightarrow>
          (\<exists>m. published deps objs i r m \<and> mf_TimeLimitMS m = pr_time_limit_ms p0 \<and> mf_MemoryLimitKB m = pr_memory_limit_kb p0
             \<and> (activated db i r \<longrightarrow> mf_Testcases m = map (manifest_entry (revision_prefix i r)) (items_of db1 i))))"

section \<open>Lemmas\<close>

subsection \<open>Lists\<close>

lemma map_sort_key: "map f (sort_key (\<lambda>x. g (f x)) xs) = sort_key g (map f xs)"
proof -
  have "map f (insort_key (\<lambda>x. g (f x)) y ys) = insort_key g (f y) (map f ys)" for y ys
    by (induction ys) auto
  then show ?thesis by (induction xs) auto
qed

lemma sort_key_append: "sort_key f (sort_key f xs @ ys) = sort_key f (xs @ ys)"
proof (rule properties_for_sort_key)
  show "mset (sort_key f (xs @ ys)) = mset (sort_key f xs @ ys)" by simp
  have e: "(\<lambda>x. f k = f x) = (\<lambda>x. f x = f k)" for k by auto
  show "filter (\<lambda>x. f k = f x) (sort_key f (xs @ ys)) = filter (\<lambda>x. f k = f x) (sort_key f xs @ ys)" for k
    unfolding e sort_key_stable by (simp add: sort_key_stable)
qed simp

lemma sort_key_idem: "sort_key f (sort_key f xs) = sort_key f xs"
  using sort_key_append [of f xs "[]"] by simp

lemma sort_key_agree:
  assumes "\<And>x. x \<in> set xs \<Longrightarrow> f x = g x"
  shows "sort_key f xs = sort_key g xs"
proof -
  have "insort_key f x ys = insort_key g x ys" if "f x = g x" "\<forall>y \<in> set ys. f y = g y" for x ys
    using that by (induction ys) auto
  then show ?thesis using assms by (induction xs) auto
qed

lemma find_Some_in: "find P xs = Some x \<Longrightarrow> x \<in> set xs \<and> P x"
  by (induction xs) (auto split: if_splits)

lemma find_distinct:
  "distinct (map f xs) \<Longrightarrow> x \<in> set xs \<Longrightarrow> find (\<lambda>y. f y = f x) xs = Some x"
  by (induction xs) (auto simp: image_iff)

lemma manifest_entry_transfer:
  "map (manifest_entry pre) xs = map (manifest_entry pre) ys \<Longrightarrow> map (manifest_entry pre') xs = map (manifest_entry pre') ys"
proof (induction xs arbitrary: ys)
  case (Cons x xs)
  then obtain y zs where "ys = y # zs" by (cases ys) auto
  then show ?case using Cons by (auto simp: manifest_entry_def)
qed simp

subsection \<open>Rows\<close>

lemma find_problem_set:
  "pr_id row = i \<Longrightarrow> find_problem (set_problem i row db) j
     = (if j = i then map_option (\<lambda>_. row) (find_problem db i) else find_problem db j)"
proof -
  assume "pr_id row = i"
  then have "find (\<lambda>r. pr_id r = j) (map (\<lambda>r. if pr_id r = i then row else r) ps)
      = (if j = i then map_option (\<lambda>_. row) (find (\<lambda>r. pr_id r = i) ps) else find (\<lambda>r. pr_id r = j) ps)" for ps
    by (induction ps) auto
  then show ?thesis by (simp add: find_problem_def set_problem_def)
qed

lemma find_problem_Some: "find_problem db i = Some p \<Longrightarrow> p \<in> set (pd_problems db) \<and> pr_id p = i"
  by (auto simp: find_problem_def dest: find_Some_in)

lemma find_problem_in: "rows_ok db \<Longrightarrow> p \<in> set (pd_problems db) \<Longrightarrow> find_problem db (pr_id p) = Some p"
  by (simp add: find_problem_def find_distinct rows_ok_def)

lemma problems_ok_iff:
  "problems_ok deps db objs \<longleftrightarrow> rows_ok db \<and> (\<forall>i p. find_problem db i = Some p \<longrightarrow> problem_ok deps objs db p)"
  using find_problem_in [of db] find_problem_Some [of db] by (auto simp: problems_ok_def) blast

lemma statuses_distinct [simp]:
  "testcase_active \<noteq> testcase_archived" "testcase_archived \<noteq> testcase_active"
  "status_normal \<noteq> status_archived" "status_archived \<noteq> status_normal"
  by (simp_all add: testcase_active_def testcase_archived_def status_normal_def status_archived_def enum_String_def
      TestcaseStatus_name_def ProblemStatus_name_def PROBLEM_STATUS_NORMAL_def PROBLEM_STATUS_ARCHIVED_def)

lemma status_values [simp]:
  "enum_value TestcaseStatus_name testcase_active = Some 1" "enum_value TestcaseStatus_name testcase_archived = Some 2"
  "enum_value ProblemStatus_name status_normal = Some PROBLEM_STATUS_NORMAL"
  "enum_value ProblemStatus_name status_archived = Some PROBLEM_STATUS_ARCHIVED"
  "enum_String TestcaseStatus_name 1 = testcase_active" "enum_String ProblemStatus_name PROBLEM_STATUS_NORMAL = status_normal"
  by code_simp+

lemma scan_ok:
  assumes "tr_status r \<in> {testcase_active, testcase_archived}"
  shows "scanTestcase r = Inr (scanned r)"
  using assms by (auto simp: scanned_def scanTestcase_def)

lemma scanned_simps:
  assumes "tr_status r \<in> {testcase_active, testcase_archived}"
  shows "tc_ID (scanned r) = tr_id r" "tc_CaseNo (scanned r) = tr_case_no r" "tc_ProblemID (scanned r) = tr_problem_id r"
  using assms by (auto simp: scanned_def scanTestcase_def)

lemma mapE_Inr: "(\<And>x. x \<in> set xs \<Longrightarrow> f x = Inr (g x)) \<Longrightarrow> mapE f xs = Inr (map g xs)"
  by (induction xs) auto

lemma ListTestcases_Inr:
  assumes "pstore_ListTestcases env i False db = Inr items" and "rows_ok db"
  shows "items = items_of db i"
proof -
  have "mapE scanTestcase (testcase_rows db i False) = Inr (map scanned (testcase_rows db i False))"
    by (rule mapE_Inr) (use assms(2) in \<open>auto intro!: scan_ok simp: testcase_rows_def rows_ok_def\<close>)
  then show ?thesis using assms(1) by (simp add: pstore_ListTestcases_def psql_def items_of_def)
qed

lemma active_row_in:
  "r \<in> set (testcase_rows db i False) \<longleftrightarrow> r \<in> set (pd_testcases db) \<and> tr_problem_id r = i \<and> tr_status r = testcase_active"
  by (auto simp: testcase_rows_def)

lemma items_of_sorted: "sort_key tc_CaseNo (items_of db i) = items_of db i"
proof -
  let ?rs = "filter (\<lambda>r. tr_problem_id r = i \<and> tr_status r = testcase_active) (pd_testcases db)"
  have no: "tc_CaseNo (scanned r) = tr_case_no r" if "r \<in> set ?rs" for r using scanned_simps that by auto
  then have "sort_key tr_case_no ?rs = sort_key (\<lambda>r. tc_CaseNo (scanned r)) ?rs"
    by (intro sort_key_agree) (auto simp: no)
  then have "items_of db i = sort_key tc_CaseNo (map scanned ?rs)"
    by (simp add: items_of_def testcase_rows_def map_sort_key)
  then show ?thesis by (simp add: sort_key_idem)
qed


subsection \<open>What requests know\<close>

lemma current_revision:
  assumes "problems_ok deps db objs" and "find_problem db i = Some p" and "pr_active_judge_revision p = Some r"
  shows "published deps objs i r (revision_manifest i r (pr_time_limit_ms p) (pr_memory_limit_kb p) (items_of db i))"
proof -
  have "problem_ok deps objs db p" "pr_id p = i" using assms(1,2) find_problem_Some by (auto simp: problems_ok_iff)
  then show ?thesis using assms(3) by (simp add: problem_ok_def)
qed

lemma revision_manifest_simps [simp]:
  "mf_TimeLimitMS (revision_manifest i r t m items) = t" "mf_MemoryLimitKB (revision_manifest i r t m items) = m"
  "mf_Testcases (revision_manifest i r t m items) = map (manifest_entry (revision_prefix i r)) items"
  by (simp_all add: revision_manifest_def)

lemma reads_now:
  assumes "problems_ok deps db objs"
  shows "reads_ok deps db objs db db"
proof -
  have rows: "rows_ok db" using assms by (simp add: problems_ok_def)
  then have "same_case x y" if "x \<in> set (pd_testcases db)" "y \<in> set (pd_testcases db)" "tr_id x = tr_id y" for x y
    using that by (auto simp: rows_ok_def same_case_def distinct_map inj_on_def)
  moreover have "\<exists>m. published deps objs i r m \<and> mf_TimeLimitMS m = pr_time_limit_ms p \<and> mf_MemoryLimitKB m = pr_memory_limit_kb p
      \<and> mf_Testcases m = map (manifest_entry (revision_prefix i r)) (items_of db i)"
    if "find_problem db i = Some p" "pr_active_judge_revision p = Some r" for i p r
    using current_revision [OF assms that] revision_manifest_simps by blast
  ultimately show ?thesis using rows unfolding reads_ok_def by blast
qed

lemma reads_again:
  assumes ok: "problems_ok deps db objs" and rd: "reads_ok deps db objs db0 db1" and inj: "manifest_text_inj deps"
  shows "reads_ok deps db objs db0 db"
proof -
  note now = reads_now [OF ok]
  have "\<exists>m. published deps objs i r m \<and> mf_TimeLimitMS m = pr_time_limit_ms p0 \<and> mf_MemoryLimitKB m = pr_memory_limit_kb p0
      \<and> (activated db i r \<longrightarrow> mf_Testcases m = map (manifest_entry (revision_prefix i r)) (items_of db i))"
    if p0: "find_problem db0 i = Some p0" "pr_active_judge_revision p0 = Some r" for i p0 r
  proof -
    obtain m where m: "published deps objs i r m" "mf_TimeLimitMS m = pr_time_limit_ms p0" "mf_MemoryLimitKB m = pr_memory_limit_kb p0"
      using rd p0 unfolding reads_ok_def by blast
    moreover have "mf_Testcases m = map (manifest_entry (revision_prefix i r)) (items_of db i)" if "activated db i r"
    proof -
      from that obtain p where p: "find_problem db i = Some p" "pr_active_judge_revision p = Some r" by (auto simp: activated_def)
      show ?thesis using published_unique [OF inj m(1) current_revision [OF ok p]] by simp
    qed
    ultimately show ?thesis by blast
  qed
  then show ?thesis using now unfolding reads_ok_def by blast
qed

lemma reads_evolve:
  assumes rd: "reads_ok deps db objs db0 db1" and ev: "evolves db objs db' objs'"
  shows "reads_ok deps db' objs' db0 db1"
proof -
  have "same_case x y" if x: "x \<in> set (pd_testcases db1)" and y: "y \<in> set (pd_testcases db')" and e: "tr_id x = tr_id y" for x y
  proof -
    have "tr_id x < pd_next_testcase db1" "pd_next_testcase db1 \<le> pd_next_testcase db" using rd x by (auto simp: reads_ok_def rows_ok_def)
    then obtain z where "z \<in> set (pd_testcases db)" "same_case z y" using ev y e unfolding evolves_def by fastforce
    moreover then have "same_case x z" using rd x e unfolding reads_ok_def by (auto simp: same_case_def)
    ultimately show ?thesis by (auto simp: same_case_def)
  qed
  moreover have "\<exists>m. published deps objs' i r m \<and> mf_TimeLimitMS m = pr_time_limit_ms p0 \<and> mf_MemoryLimitKB m = pr_memory_limit_kb p0
      \<and> (activated db' i r \<longrightarrow> mf_Testcases m = map (manifest_entry (revision_prefix i r)) (items_of db1 i))"
    if p0: "find_problem db0 i = Some p0" "pr_active_judge_revision p0 = Some r" for i p0 r
  proof -
    obtain m where m: "published deps objs i r m" "mf_TimeLimitMS m = pr_time_limit_ms p0" "mf_MemoryLimitKB m = pr_memory_limit_kb p0"
      "activated db i r \<longrightarrow> mf_Testcases m = map (manifest_entry (revision_prefix i r)) (items_of db1 i)"
      using rd p0 unfolding reads_ok_def by blast
    have "published deps objs' i r m" using m(1) ev published_kept by (auto simp: evolves_def)
    moreover have "activated db i r" if "activated db' i r"
      using ev that m(1) unfolding evolves_def published_def by fastforce
    ultimately show ?thesis using m by blast
  qed
  ultimately show ?thesis using rd ev unfolding reads_ok_def evolves_def by fastforce
qed

lemma reads_current:
  assumes ok: "problems_ok deps db objs" and rd: "reads_ok deps db objs db0 db1" and inj: "manifest_text_inj deps"
    and "find_problem db0 i = Some p0" and "pr_active_judge_revision p0 = Some r"
    and "find_problem db i = Some p" and "pr_active_judge_revision p = Some r"
  shows "pr_time_limit_ms p0 = pr_time_limit_ms p" and "pr_memory_limit_kb p0 = pr_memory_limit_kb p"
    and "map (manifest_entry pre) (items_of db1 i) = map (manifest_entry pre) (items_of db i)"
proof -
  have act: "activated db i r" using assms(6,7) by (simp add: activated_def)
  then obtain m where m: "published deps objs i r m" "mf_TimeLimitMS m = pr_time_limit_ms p0" "mf_MemoryLimitKB m = pr_memory_limit_kb p0"
    "mf_Testcases m = map (manifest_entry (revision_prefix i r)) (items_of db1 i)"
    using rd assms(4,5) unfolding reads_ok_def by blast
  have "m = revision_manifest i r (pr_time_limit_ms p) (pr_memory_limit_kb p) (items_of db i)"
    by (rule published_unique [OF inj m(1) current_revision [OF ok assms(6,7)]])
  then show "pr_time_limit_ms p0 = pr_time_limit_ms p" "pr_memory_limit_kb p0 = pr_memory_limit_kb p"
    "map (manifest_entry pre) (items_of db1 i) = map (manifest_entry pre) (items_of db i)"
    using m(2-4) manifest_entry_transfer [of "revision_prefix i r" "items_of db1 i" "items_of db i" pre] by simp_all
qed

lemma evolves_refl: "revisions_kept objs objs' \<Longrightarrow> evolves db objs db objs'"
  by (auto simp: evolves_def same_case_def)

lemma evolves_trans:
  assumes a: "evolves db objs db1 objs1" and b: "evolves db1 objs1 db2 objs2"
  shows "evolves db objs db2 objs2"
proof -
  have "activated db i r \<or> map_of objs (manifest_key i r) = None" if "activated db2 i r" for i r
  proof (cases "activated db1 i r")
    case True
    then show ?thesis using a by (auto simp: evolves_def)
  next
    case False
    then have "map_of objs1 (manifest_key i r) = None" using b that by (auto simp: evolves_def)
    then show ?thesis using a unfolding evolves_def revisions_kept_def manifest_key_def by (metis option.exhaust)
  qed
  moreover have "pd_next_testcase db \<le> tr_id y \<or> (\<exists>x \<in> set (pd_testcases db). same_case x y)" if y: "y \<in> set (pd_testcases db2)" for y
  proof (cases "pd_next_testcase db \<le> tr_id y")
    case False
    then obtain z where "z \<in> set (pd_testcases db1)" "same_case z y" using a b y unfolding evolves_def by fastforce
    then show ?thesis using a False unfolding evolves_def same_case_def by fastforce
  qed simp
  ultimately show ?thesis using a b revisions_kept_trans unfolding evolves_def by (meson order_trans)
qed

end
