(* ===== verification/Problem_Steps.thy ===== *)
theory Problem_Steps
  imports Problem_Inv
begin

text \<open>
  Every request of the problem service keeps the invariant, whatever of it fails.
\<close>

section \<open>Definitions\<close>

definition steps :: "problem_deps \<Rightarrow> problem_db \<Rightarrow> objects \<Rightarrow> problem_db \<Rightarrow> objects \<Rightarrow> bool" where
  "steps deps db objs db' objs' \<longleftrightarrow> problems_ok deps db' objs' \<and> evolves db objs db' objs'"

definition revision_text :: "problem_row \<Rightarrow> string" where
  "revision_text r = (case pr_active_judge_revision r of None \<Rightarrow> [] | Some v \<Rightarrow> v)"

definition revision_of_text :: "string \<Rightarrow> string option" where
  "revision_of_text v = (if v = [] then None else Some v)"

definition reads_hold :: "int64 \<Rightarrow> problem_db \<Rightarrow> problem_db \<Rightarrow> problem_db \<Rightarrow> bool" where
  \<comment> \<open>a request on a problem without active revision acts on the tables it read\<close>
  "reads_hold i db0 db1 db \<longleftrightarrow> (\<exists>p r. find_problem db0 i = Some p \<and> pr_active_judge_revision p = Some r) \<or> (db0 = db \<and> db1 = db)"

section \<open>Lemmas\<close>

subsection \<open>Changes of the tables\<close>

lemma problem_ok_cong:
  "problem_ok deps objs db p \<Longrightarrow> revisions_kept objs objs' \<Longrightarrow> items_of db' (pr_id p) = items_of db (pr_id p)
     \<Longrightarrow> problem_ok deps objs' db' p"
  by (auto simp: problem_ok_def split: option.splits intro: published_kept)

lemma problems_ok_change:
  assumes "problems_ok deps db objs" and "revisions_kept objs objs'" and "rows_ok db'"
    and "\<And>j p. j \<noteq> i \<Longrightarrow> find_problem db' j = Some p \<Longrightarrow> find_problem db j = Some p \<and> items_of db' j = items_of db j"
    and "\<And>p. find_problem db' i = Some p \<Longrightarrow> problem_ok deps objs' db' p"
  shows "problems_ok deps db' objs'"
proof -
  have "problem_ok deps objs' db' p" if "find_problem db' j = Some p" for j p
  proof (cases "j = i")
    case False
    have "find_problem db j = Some p" "items_of db' j = items_of db j" using assms(4) [OF False that] by auto
    moreover have "pr_id p = j" using find_problem_Some [OF that] by simp
    ultimately show ?thesis using assms(1,2) problem_ok_cong [of deps objs db p objs' db'] by (auto simp: problems_ok_iff)
  qed (use assms(5) that in simp)
  then show ?thesis using assms(3) by (simp add: problems_ok_iff)
qed

lemma problems_ok_kept: "problems_ok deps db objs \<Longrightarrow> revisions_kept objs objs' \<Longrightarrow> problems_ok deps db objs'"
  by (auto simp: problems_ok_def intro: problem_ok_cong)

lemma steps_kept: "problems_ok deps db objs \<Longrightarrow> revisions_kept objs objs' \<Longrightarrow> steps deps db objs db objs'"
  by (simp add: steps_def problems_ok_kept evolves_refl)

lemma steps_trans: "steps deps db objs db1 objs1 \<Longrightarrow> steps deps db1 objs1 db2 objs2 \<Longrightarrow> steps deps db objs db2 objs2"
  by (auto simp: steps_def intro: evolves_trans)

lemma steps_objects: "steps deps db objs db' objs1 \<Longrightarrow> revisions_kept objs1 objs2 \<Longrightarrow> steps deps db objs db' objs2"
  using steps_trans steps_kept steps_def by metis

lemma steps_tx:
  assumes "run_tx env err body db = (res, db')" and "problems_ok deps db objs" and "revisions_kept objs objs'"
    and "\<And>a. body db = Inr (a, db') \<Longrightarrow> steps deps db objs db' objs'"
  shows "steps deps db objs db' objs'"
  using run_tx_atomic [OF assms(1)] assms steps_kept by blast

lemma set_problem_frame [simp]:
  "pd_testcases (set_problem i row db) = pd_testcases db" "pd_next_testcase (set_problem i row db) = pd_next_testcase db"
  "pd_next_problem (set_problem i row db) = pd_next_problem db"
  by (simp_all add: set_problem_def)

lemma rows_ok_set:
  assumes "rows_ok db" and "pr_id row = i"
  shows "rows_ok (set_problem i row db)"
proof -
  have "map pr_id (pd_problems (set_problem i row db)) = map pr_id (pd_problems db)" using assms(2) by (simp add: set_problem_def)
  moreover have "pr_id p < pd_next_problem db" if "p \<in> set (pd_problems (set_problem i row db))" for p
    using that assms by (auto simp: set_problem_def rows_ok_def split: if_splits)
  ultimately show ?thesis using assms(1) unfolding rows_ok_def by simp
qed

lemma rows_ok_append:
  assumes "rows_ok db" and "pd_problems db' = pd_problems db" and "pd_next_problem db' = pd_next_problem db"
    and "pd_testcases db' = pd_testcases db @ [row]" and "pd_next_testcase db' = pd_next_testcase db + 1"
    and "tr_id row = pd_next_testcase db" and "(tr_problem_id row, tr_case_no row) \<notin> (\<lambda>r. (tr_problem_id r, tr_case_no r)) ` set (pd_testcases db)"
    and "tr_problem_id row < pd_next_problem db" and "tr_status row = testcase_active"
  shows "rows_ok db'"
proof -
  have "tr_id r < pd_next_testcase db" if "r \<in> set (pd_testcases db)" for r using assms(1) that by (simp add: rows_ok_def)
  then have "pd_next_testcase db \<notin> tr_id ` set (pd_testcases db)" "\<forall>r \<in> set (pd_testcases db'). tr_id r < pd_next_testcase db'"
    using assms(4-6) by fastforce+
  then show ?thesis using assms unfolding rows_ok_def by simp
qed

lemma items_of_cong: "pd_testcases db' = pd_testcases db \<Longrightarrow> items_of db' i = items_of db i"
  by (simp add: items_of_def testcase_rows_def)

lemma rows_ok_cong:
  "rows_ok db \<Longrightarrow> pd_problems db' = pd_problems db \<Longrightarrow> pd_testcases db' = pd_testcases db \<Longrightarrow>
   pd_next_testcase db' = pd_next_testcase db \<Longrightarrow> pd_next_problem db' = pd_next_problem db \<Longrightarrow> rows_ok db'"
  by (simp add: rows_ok_def)

lemma find_problem_cong: "pd_problems db' = pd_problems db \<Longrightarrow> find_problem db' i = find_problem db i"
  by (simp add: find_problem_def)

lemma FindByID_Inr:
  assumes "pstore_FindByID env i db = Inr p"
  obtains r where "find_problem db i = Some r" and "pb_ID p = i" and "pb_TimeLimitMs p = pr_time_limit_ms r"
    and "pb_MemoryLimitKb p = pr_memory_limit_kb r" and "pb_ActiveJudgeRevision p = revision_text r"
    and "enum_value ProblemStatus_name (pr_status r) = Some (pb_Status p)"
  using assms find_problem_Some
  by (auto simp: pstore_FindByID_def psql_def revision_text_def split: option.splits)

lemma revision_text_Some:
  "problems_ok deps db objs \<Longrightarrow> find_problem db i = Some p \<Longrightarrow> pr_active_judge_revision p = revision_of_text (revision_text p)"
proof -
  assume a: "problems_ok deps db objs" "find_problem db i = Some p"
  have "r \<noteq> []" if "pr_active_judge_revision p = Some r" for r
    using current_revision [OF a that]
    by (auto simp: published_def Manifest_Validate_def revision_manifest_def split: if_splits)
  then show ?thesis by (auto simp: revision_text_def revision_of_text_def split: option.splits)
qed

lemma lock_None:
  "lockPublishableProblem env i expected db = None \<Longrightarrow>
     \<exists>p. find_problem db i = Some p \<and> pr_status p = status_normal \<and> revision_text p = expected"
  by (auto simp: lockPublishableProblem_def revision_text_def split: if_splits option.splits)

lemma activate_Inr:
  assumes "activateRevision env i revision db = Inr db'" and "find_problem db i = Some p"
  shows "db' = set_problem i (p\<lparr>pr_active_judge_revision := revision_of_text revision, pr_updated_at := utc_timestamp3 env\<rparr>) db"
  using assms by (auto simp: activateRevision_def psql_def revision_of_text_def Let_def)

lemma problem_ok_activated:
  assumes "published deps objs i revision m" and "m = revision_manifest i revision (pr_time_limit_ms p) (pr_memory_limit_kb p) (items_of db i)"
    and "pr_id p = i" and "pr_active_judge_revision p = Some revision"
  shows "problem_ok deps objs db p"
  using assms by (simp add: problem_ok_def)

lemma revision_manifest_cong:
  "map (manifest_entry (revision_prefix i r)) xs = map (manifest_entry (revision_prefix i r)) ys \<Longrightarrow>
   revision_manifest i r t m xs = revision_manifest i r t m ys"
  by (simp add: revision_manifest_def)

lemma map_entry_sort: "map (manifest_entry pre) (sort_key tc_CaseNo xs) = sort_key mt_CaseNo (map (manifest_entry pre) xs)"
  using map_sort_key [of "manifest_entry pre" mt_CaseNo xs] by (simp add: manifest_entry_keys)

lemma items_of_eq: "items_of db i = sort_key tc_CaseNo (map scanned (filter (\<lambda>r. tr_problem_id r = i \<and> tr_status r = testcase_active) (pd_testcases db)))"
proof -
  let ?rs = "filter (\<lambda>r. tr_problem_id r = i \<and> tr_status r = testcase_active) (pd_testcases db)"
  have "sort_key tr_case_no ?rs = sort_key (\<lambda>r. tc_CaseNo (scanned r)) ?rs"
    by (rule sort_key_agree) (simp add: scanned_simps)
  then show ?thesis by (simp add: items_of_def testcase_rows_def map_sort_key)
qed

subsection \<open>Adding a test case\<close>

lemma items_of_append:
  assumes "pd_testcases db' = pd_testcases db @ [row]" and "tr_status row = testcase_active"
  shows "items_of db' (tr_problem_id row) = sort_key tc_CaseNo (items_of db (tr_problem_id row) @ [scanned row])"
    and "j \<noteq> tr_problem_id row \<Longrightarrow> items_of db' j = items_of db j"
  using assms by (simp_all add: items_of_eq sort_key_append)

lemma commit_added_Inr:
  assumes "commit_added_tx env t revision expected db = Inr (t', db')" and "tc_Status t = 1"
  obtains p row where "find_problem db (tc_ProblemID t) = Some p" and "pr_status p = status_normal" and "revision_text p = expected"
    and "pd_testcases db' = pd_testcases db @ [row]" and "tr_status row = testcase_active" and "tr_problem_id row = tc_ProblemID t"
    and "tr_id row = pd_next_testcase db" and "\<And>pre. manifest_entry pre (scanned row) = manifest_entry pre t"
    and "\<not> case_taken t db" and "tr_case_no row = tc_CaseNo t"
    and "pd_next_testcase db' = pd_next_testcase db + 1" and "pd_next_problem db' = pd_next_problem db"
    and "pd_problems db' = pd_problems (set_problem (tc_ProblemID t)
           (p\<lparr>pr_active_judge_revision := revision_of_text revision, pr_updated_at := utc_timestamp3 env\<rparr>) db)"
    and "row = last (pd_testcases db')"
    and "tr_input_object_key row = tc_InputObjectKey t" and "tr_output_object_key row = tc_OutputObjectKey t"
proof -
  from assms(1) obtain i db1 where l: "lockPublishableProblem env (tc_ProblemID t) expected db = None"
    and ins: "insert_testcase env t db = Inr (i, db1)" and act: "activateRevision env (tc_ProblemID t) revision db1 = Inr db'"
    by (auto simp: commit_added_tx_def psql_def)
  obtain p where p: "find_problem db (tc_ProblemID t) = Some p" "pr_status p = status_normal" "revision_text p = expected"
    using lock_None [OF l] by blast
  define row where "row = \<lparr>tr_id = pd_next_testcase db, tr_problem_id = tc_ProblemID t, tr_case_no = tc_CaseNo t,
      tr_input_object_key = tc_InputObjectKey t, tr_output_object_key = tc_OutputObjectKey t,
      tr_input_sha256 = tc_InputSHA256 t, tr_output_sha256 = tc_OutputSHA256 t,
      tr_input_size_bytes = tc_InputSizeBytes t, tr_output_size_bytes = tc_OutputSizeBytes t,
      tr_status = testcase_active, tr_created_at = utc_timestamp3 env, tr_archived_at = None, tr_updated_at = utc_timestamp3 env\<rparr>"
  have db1: "db1 = db\<lparr>pd_testcases := pd_testcases db @ [row], pd_next_testcase := pd_next_testcase db + 1\<rparr>" and nt: "\<not> case_taken t db"
    using ins assms(2) by (auto simp: insert_testcase_def psql_def Let_def row_def)
  have p1: "find_problem db1 (tc_ProblemID t) = Some p" using p(1) db1 by (simp add: find_problem_def)
  note db' = activate_Inr [OF act p1]
  show ?thesis
  proof (rule that [OF p])
    show "manifest_entry pre (scanned row) = manifest_entry pre t" for pre
      by (simp add: row_def scanned_def scanTestcase_def manifest_entry_def)
  qed (simp_all add: db' db1 nt set_problem_def, simp_all add: row_def)
qed

lemma commit_added_steps:
  assumes ok: "problems_ok deps db objs" and c: "commit_added_tx env t r expected db = Inr (t', db')" and st: "tc_Status t = 1"
    and kept: "revisions_kept objs objs'" and absent: "map_of objs (manifest_key (tc_ProblemID t) r) = None" and len: "length r = 26"
    and pub: "\<And>p. find_problem db (tc_ProblemID t) = Some p \<Longrightarrow> revision_text p = expected \<Longrightarrow>
      \<exists>xs. map (manifest_entry (revision_prefix (tc_ProblemID t) r)) xs = map (manifest_entry (revision_prefix (tc_ProblemID t) r)) (items_of db (tc_ProblemID t))
        \<and> published deps objs' (tc_ProblemID t) r (revision_manifest (tc_ProblemID t) r (pr_time_limit_ms p) (pr_memory_limit_kb p) (sort_key tc_CaseNo (xs @ [t])))"
  shows "steps deps db objs db' objs'"
proof -
  let ?i = "tc_ProblemID t" and ?e = "manifest_entry (revision_prefix (tc_ProblemID t) r)"
  obtain p row where p: "find_problem db ?i = Some p" "revision_text p = expected"
    and tcs: "pd_testcases db' = pd_testcases db @ [row]" and row: "tr_status row = testcase_active" "tr_problem_id row = ?i"
      "tr_id row = pd_next_testcase db" "\<And>pre. manifest_entry pre (scanned row) = manifest_entry pre t" "tr_case_no row = tc_CaseNo t"
    and nt: "\<not> case_taken t db" and nx: "pd_next_testcase db' = pd_next_testcase db + 1" "pd_next_problem db' = pd_next_problem db"
    and pr: "pd_problems db' = pd_problems (set_problem ?i (p\<lparr>pr_active_judge_revision := revision_of_text r, pr_updated_at := utc_timestamp3 env\<rparr>) db)"
    by (rule commit_added_Inr [OF c st]) (rule that; assumption)
  have id: "pr_id p = ?i" "p \<in> set (pd_problems db)" using find_problem_Some [OF p(1)] by auto
  let ?p = "p\<lparr>pr_active_judge_revision := Some r, pr_updated_at := utc_timestamp3 env\<rparr>"
  have rt: "revision_of_text r = Some r" using len by (auto simp: revision_of_text_def)
  have f: "find_problem db' j = (if j = ?i then Some ?p else find_problem db j)" for j
    using find_problem_set [of ?p ?i db j] id p(1) pr rt by (simp add: find_problem_def)
  have rows: "rows_ok db" using ok by (simp add: problems_ok_def)
  then have set_rows: "rows_ok (set_problem ?i ?p db)" using rows_ok_set id by simp
  have "(tr_problem_id row, tr_case_no row) \<notin> (\<lambda>r. (tr_problem_id r, tr_case_no r)) ` set (pd_testcases db)"
    using nt row(2,5) by (auto simp: case_taken_def)
  moreover have "tr_problem_id row < pd_next_problem db" using rows id row(2) by (auto simp: rows_ok_def)
  ultimately have rows': "rows_ok db'"
    using rows_ok_append [OF set_rows, of db' row] pr rt tcs row(1,3) nx by simp
  obtain xs where xs: "map ?e xs = map ?e (items_of db ?i)"
    and pb: "published deps objs' ?i r (revision_manifest ?i r (pr_time_limit_ms p) (pr_memory_limit_kb p) (sort_key tc_CaseNo (xs @ [t])))"
    using pub [OF p] by blast
  have "map ?e (sort_key tc_CaseNo (xs @ [t])) = map ?e (items_of db' ?i)"
    using items_of_append(1) [OF tcs row(1)] row(2,4) xs by (simp add: map_entry_sort)
  note m = revision_manifest_cong [OF this]
  have "problem_ok deps objs' db' ?p"
    by (rule problem_ok_activated [OF pb]) (simp_all add: id m)
  then have "problems_ok deps db' objs'"
    using problems_ok_change [OF ok kept rows', of ?i] f items_of_append(2) [OF tcs row(1)] row(2) by auto
  moreover have "activated db j q \<or> map_of objs (manifest_key j q) = None" if "activated db' j q" for j q
    using that absent f by (auto simp: activated_def split: if_splits)
  ultimately show ?thesis
    using kept nx tcs row(3) by (auto simp: steps_def evolves_def same_case_def)
qed


lemma reads_agree:
  assumes ok: "problems_ok deps db objs" and rd: "reads_ok deps db objs db0 db1" and inj: "manifest_text_inj deps"
    and hold: "reads_hold i db0 db1 db" and p0: "find_problem db0 i = Some p0" and p: "find_problem db i = Some p"
    and e: "revision_text p = revision_text p0"
  shows "pr_time_limit_ms p0 = pr_time_limit_ms p \<and> pr_memory_limit_kb p0 = pr_memory_limit_kb p
    \<and> map (manifest_entry pre) (items_of db1 i) = map (manifest_entry pre) (items_of db i)"
proof (cases "db0 = db \<and> db1 = db")
  case True
  then show ?thesis using p0 p by simp
next
  case False
  then obtain r where r: "pr_active_judge_revision p0 = Some r" using hold p0 by (auto simp: reads_hold_def)
  then obtain m where "published deps objs i r m" using rd p0 unfolding reads_ok_def by blast
  then have "r \<noteq> []" using published_revision by blast
  then have "pr_active_judge_revision p = Some r"
    using r e by (auto simp: revision_text_def split: option.splits)
  note cur = reads_current [OF ok rd inj p0 r p this]
  show ?thesis by (intro conjI cur)
qed

lemma commit_testcase_cases:
  assumes "commit_testcase deps env p t db1 st = (res, st')"
  obtains (same) "ps_db st' = ps_db st" and "revisions_kept (ps_objects st) (ps_objects st')" and "\<And>x. res \<noteq> Inr x"
    and "ps_cache st' = ps_cache st"
  | (commit) items r where "pstore_ListTestcases env (pb_ID p) False db1 = Inr items"
      and "publishRevision deps env p (items @ [t]) (ps_objects st) = (Inr r, ps_objects st')"
      and "CommitAddedTestcase env t r (pb_ActiveJudgeRevision p) (ps_db st) = (res, ps_db st')"
      and "ps_cache st' = ps_cache st"
proof (cases "pstore_ListTestcases env (pb_ID p) False db1")
  case (Inl e)
  then show ?thesis using assms same by (auto simp: commit_testcase_def)
next
  case (Inr items)
  show ?thesis
  proof (cases "list_ex (\<lambda>item. tc_CaseNo item = tc_CaseNo t) items")
    case True
    then show ?thesis using assms Inr same by (auto simp: commit_testcase_def)
  next
    case False
    obtain pres objs where p: "publishRevision deps env p (items @ [t]) (ps_objects st) = (pres, objs)" by fastforce
    obtain r db where c: "CommitAddedTestcase env t (projr pres) (pb_ActiveJudgeRevision p) (ps_db st) = (r, db)" by fastforce
    show ?thesis
    proof (cases pres)
      case (Inl e)
      have "st' = st\<lparr>ps_objects := objs\<rparr>" "res = Inl e" using assms Inr False p Inl by (auto simp: commit_testcase_def)
      then show ?thesis using same publishRevision_kept(2) [OF p] by simp
    next
      case (Inr r')
      have "st' = st\<lparr>ps_db := db, ps_objects := objs\<rparr>" "res = r"
        using assms \<open>pstore_ListTestcases env (pb_ID p) False db1 = Inr items\<close> False p Inr c by (auto simp: commit_testcase_def)
      then show ?thesis using commit [of items r'] \<open>pstore_ListTestcases env (pb_ID p) False db1 = Inr items\<close> p Inr c by simp
    qed
  qed
qed

lemma addTestcase_cases:
  assumes "addTestcaseToProblem deps env p n input out db1 st = (res, st')"
  defines "t \<equiv> new_testcase deps env (pb_ID p) n input out"
  obtains (same) "ps_db st' = ps_db st" and "revisions_kept (ps_objects st) (ps_objects st')" and "\<And>x. res \<noteq> Inr x"
    and "ps_cache st' = ps_cache st"
  | (commit) objs items r objs' where "revisions_kept (ps_objects st) objs" and "pstore_ListTestcases env (pb_ID p) False db1 = Inr items"
      and "publishRevision deps env p (items @ [t]) objs = (Inr r, objs')"
      and "CommitAddedTestcase env t r (pb_ActiveJudgeRevision p) (ps_db st) = (res, ps_db st')"
      and "revisions_kept objs' (ps_objects st')" and "ps_cache st' = ps_cache st"
proof -
  let ?ik = "tc_InputObjectKey t" and ?ok = "tc_OutputObjectKey t"
  obtain a objs1 where a: "PutImmutable env ?ik input (ps_objects st) = (a, objs1)" by fastforce
  obtain b objs2 where b: "PutImmutable env ?ok out objs1 = (b, objs2)" by fastforce
  obtain cres cst where c: "commit_testcase deps env p t db1 (st\<lparr>ps_objects := objs2\<rparr>) = (cres, cst)" by fastforce
  have keys: "?ik = upload_key (pb_ID p) n (pe_upload_id env) ''.in''" "?ok = upload_key (pb_ID p) n (pe_upload_id env) ''.out''"
    by (simp_all add: t_def new_testcase_def)
  have del: "revisions_kept objs (object_Delete env ?ok (object_Delete env ?ik objs))" "revisions_kept objs (object_Delete env ?ik objs)" for objs
    unfolding keys using object_Delete_kept revisions_kept_trans by blast+
  have k1: "revisions_kept (ps_objects st) objs1" and k2: "revisions_kept objs1 objs2"
    using PutImmutable_kept a b by blast+
  have k: "revisions_kept (ps_objects st) objs2" by (rule revisions_kept_trans [OF k1 k2])
  consider (f1) "\<not> a" | (f2) "a" "\<not> b" | (ok) "a" "b" by blast
  then show ?thesis
  proof cases
    case f1
    then have "st' = st\<lparr>ps_objects := objs1\<rparr>" "\<And>x. res \<noteq> Inr x"
      using assms(1) a unfolding addTestcaseToProblem_def t_def [symmetric] by (auto simp: Let_def)
    then show ?thesis using same k1 by simp
  next
    case f2
    then have "st' = st\<lparr>ps_objects := object_Delete env ?ik objs2\<rparr>" "\<And>x. res \<noteq> Inr x"
      using assms(1) a b unfolding addTestcaseToProblem_def t_def [symmetric] by (auto simp: Let_def)
    then show ?thesis using same revisions_kept_trans [OF k del(2)] by simp
  next
    case ok
    have st': "st' = (case cres of Inr x \<Rightarrow> cst | Inl e \<Rightarrow> cst\<lparr>ps_objects := object_Delete env ?ok (object_Delete env ?ik (ps_objects cst))\<rparr>)"
      and res: "res = cres"
      using assms(1) a b c ok unfolding addTestcaseToProblem_def t_def [symmetric] by (auto simp: Let_def split: sum.splits)
    have kk: "ps_db st' = ps_db cst" "revisions_kept (ps_objects cst) (ps_objects st')" "ps_cache st' = ps_cache cst"
      using st' del by (auto split: sum.splits)
    from c show ?thesis
    proof (cases rule: commit_testcase_cases)
      case same
      then show ?thesis using that(1) kk res revisions_kept_trans [OF k] revisions_kept_trans [OF _ kk(2)] by auto
    next
      case (commit items r)
      then show ?thesis using that(2) [OF k, of items r] kk res by simp
    qed
  qed
qed

lemma add_steps:
  assumes ok: "problems_ok deps (ps_db st) (ps_objects st)" and rd: "reads_ok deps (ps_db st) (ps_objects st) db0 db1"
    and inj: "manifest_text_inj deps" and hold: "reads_hold i db0 db1 (ps_db st)"
    and p0: "find_problem db0 i = Some p0" and p: "pb_ID p = i" "pb_TimeLimitMs p = pr_time_limit_ms p0"
      "pb_MemoryLimitKb p = pr_memory_limit_kb p0" "pb_ActiveJudgeRevision p = revision_text p0"
    and add: "addTestcaseToProblem deps env p n input out db1 st = (res, st')"
  shows "steps deps (ps_db st) (ps_objects st) (ps_db st') (ps_objects st')"
  using add
proof (cases rule: addTestcase_cases)
  case same
  then show ?thesis using steps_kept [OF ok] by simp
next
  case (commit objs items r objs')
  let ?t = "new_testcase deps env (pb_ID p) n input out"
  have t: "tc_ProblemID ?t = i" "tc_Status ?t = 1" by (simp_all add: new_testcase_def p(1))
  note pubI = publishRevision_Inr [OF commit(3)]
  have items: "items = items_of db1 i" using ListTestcases_Inr commit(2) rd p(1) by (auto simp: reads_ok_def)
  have k: "revisions_kept objs objs'" "revisions_kept (ps_objects st) objs'"
    using publishRevision_kept(2) [OF commit(3)] commit(1) revisions_kept_trans by blast+
  have ok1: "problems_ok deps (ps_db st) objs" by (rule problems_ok_kept [OF ok commit(1)])
  have rd1: "reads_ok deps (ps_db st) objs db0 db1" by (rule reads_evolve [OF rd evolves_refl [OF commit(1)]])
  have "steps deps (ps_db st) objs (ps_db st') objs'"
  proof (rule steps_tx [OF commit(4) [unfolded CommitAddedTestcase_def] ok1 k(1)])
    fix a assume tx: "commit_added_tx env ?t r (pb_ActiveJudgeRevision p) (ps_db st) = Inr (a, ps_db st')"
    show "steps deps (ps_db st) objs (ps_db st') objs'"
    proof (rule commit_added_steps [OF ok1 tx t(2) k(1)], unfold t(1))
      show "map_of objs (manifest_key i r) = None" "length r = 26" using pubI(3,5) p(1) by simp_all
      fix pc assume pc: "find_problem (ps_db st) i = Some pc" "revision_text pc = pb_ActiveJudgeRevision p"
      have agree: "pr_time_limit_ms p0 = pr_time_limit_ms pc \<and> pr_memory_limit_kb p0 = pr_memory_limit_kb pc
          \<and> map (manifest_entry (revision_prefix i r)) (items_of db1 i) = map (manifest_entry (revision_prefix i r)) (items_of (ps_db st) i)"
        by (rule reads_agree [OF ok1 rd1 inj hold p0 pc(1)]) (simp add: pc(2) p(4))
      then show "\<exists>xs. map (manifest_entry (revision_prefix i r)) xs = map (manifest_entry (revision_prefix i r)) (items_of (ps_db st) i)
        \<and> published deps objs' i r (revision_manifest i r (pr_time_limit_ms pc) (pr_memory_limit_kb pc) (sort_key tc_CaseNo (xs @ [?t])))"
        using pubI(2) p items by (intro exI [of _ "items_of db1 i"]) simp
    qed
  qed
  then have "steps deps (ps_db st) objs (ps_db st') (ps_objects st')" using steps_objects commit(5) by blast
  then show ?thesis using steps_trans [OF steps_kept [OF ok commit(1)]] by blast
qed

end
