(* ===== verification/Problem_Changes.thy ===== *)
theory Problem_Changes
  imports Problem_Steps
begin

text \<open>
  Archiving test cases, creating, updating and archiving problems keep the invariant.
\<close>

section \<open>Definitions\<close>

definition row_read :: "Problem \<Rightarrow> problem_row \<Rightarrow> bool" where
  \<comment> \<open>what a request uses of the problem it read\<close>
  "row_read p r \<longleftrightarrow> pb_ID p = pr_id r \<and> pb_TimeLimitMs p = pr_time_limit_ms r \<and> pb_MemoryLimitKb p = pr_memory_limit_kb r
     \<and> pb_ActiveJudgeRevision p = revision_text r"

definition same_cases :: "problem_db \<Rightarrow> problem_db \<Rightarrow> bool" where
  "same_cases db db' \<longleftrightarrow> pd_testcases db' = pd_testcases db \<and> pd_next_testcase db' = pd_next_testcase db \<and> pd_next_problem db' = pd_next_problem db"

section \<open>Lemmas\<close>

subsection \<open>A changed problem\<close>

lemma steps_changed:
  assumes ok: "problems_ok deps db objs" and kept: "revisions_kept objs objs'" and p: "find_problem db i = Some p" and id: "pr_id q = i"
    and rows: "rows_ok db'" and pr: "pd_problems db' = pd_problems (set_problem i q db)"
    and others: "\<And>j. j \<noteq> i \<Longrightarrow> items_of db' j = items_of db j" and q: "problem_ok deps objs' db' q"
    and new: "\<And>r. pr_active_judge_revision q = Some r \<Longrightarrow> pr_active_judge_revision p = Some r \<or> map_of objs (manifest_key i r) = None"
    and nx: "pd_next_testcase db' = pd_next_testcase db"
    and cases: "\<And>y. y \<in> set (pd_testcases db') \<Longrightarrow> \<exists>x \<in> set (pd_testcases db). same_case x y"
  shows "steps deps db objs db' objs'"
proof -
  have f: "find_problem db' j = (if j = i then Some q else find_problem db j)" for j
    using find_problem_set [of q i db j] id p pr by (simp add: find_problem_def)
  have "problems_ok deps db' objs'"
    using problems_ok_change [OF ok kept rows, of i] f others q by auto
  moreover have "activated db j r \<or> map_of objs (manifest_key j r) = None" if "activated db' j r" for j r
    using that new p f by (auto simp: activated_def split: if_splits)
  ultimately show ?thesis
    using kept nx cases by (auto simp: steps_def evolves_def)
qed

lemma same_case_refl: "same_case x x"
  by (simp add: same_case_def)

lemma row_readI: "pstore_FindByID env i db = Inr p \<Longrightarrow> \<exists>r. find_problem db i = Some r \<and> row_read p r \<and> pr_id r = i
    \<and> enum_value ProblemStatus_name (pr_status r) = Some (pb_Status p)"
  by (erule FindByID_Inr) (auto simp: row_read_def dest: find_problem_Some)

subsection \<open>Archiving a test case\<close>

lemma items_of_archive:
  assumes "pd_testcases db' = map (\<lambda>r. if archives i tid r then archive_row env r else r) (pd_testcases db)"
  shows "items_of db' i = filter (\<lambda>t. tc_ID t \<noteq> tid) (items_of db i)" and "j \<noteq> i \<Longrightarrow> items_of db' j = items_of db j"
proof -
  let ?f = "\<lambda>r. if archives i tid r then archive_row env r else r"
  let ?act = "\<lambda>j r. tr_problem_id r = j \<and> tr_status r = testcase_active"
  have "filter (?act i) (map ?f rs) = filter (\<lambda>r. ?act i r \<and> tr_id r \<noteq> tid) rs" for rs
    by (induction rs) (auto simp: archives_def archive_row_def)
  moreover have "filter (\<lambda>t. tc_ID t \<noteq> tid) (map scanned (filter (?act i) rs)) = map scanned (filter (\<lambda>r. ?act i r \<and> tr_id r \<noteq> tid) rs)" for rs
    by (induction rs) (auto simp: scanned_simps)
  ultimately show "items_of db' i = filter (\<lambda>t. tc_ID t \<noteq> tid) (items_of db i)"
    by (simp add: items_of_eq assms filter_sort)
  have "filter (?act j) (map ?f rs) = filter (?act j) rs" if "j \<noteq> i" for rs
    using that by (induction rs) (auto simp: archives_def archive_row_def)
  then show "j \<noteq> i \<Longrightarrow> items_of db' j = items_of db j" by (simp add: items_of_eq assms)
qed

lemma rows_ok_archive:
  assumes "rows_ok db" and "pd_testcases db' = map (\<lambda>r. if archives i tid r then archive_row env r else r) (pd_testcases db)"
    and "pd_problems db' = pd_problems db" and "pd_next_problem db' = pd_next_problem db" and "pd_next_testcase db' = pd_next_testcase db"
  shows "rows_ok db'"
proof -
  let ?f = "\<lambda>r. if archives i tid r then archive_row env r else r"
  have "tr_id \<circ> ?f = tr_id" "(\<lambda>r. (tr_problem_id r, tr_case_no r)) \<circ> ?f = (\<lambda>r. (tr_problem_id r, tr_case_no r))"
    by (auto simp: archive_row_def fun_eq_iff)
  then have "map tr_id (pd_testcases db') = map tr_id (pd_testcases db)"
    "map (\<lambda>r. (tr_problem_id r, tr_case_no r)) (pd_testcases db') = map (\<lambda>r. (tr_problem_id r, tr_case_no r)) (pd_testcases db)"
    unfolding assms(2) map_map by simp_all
  moreover have "\<forall>r \<in> set (pd_testcases db'). tr_id r < pd_next_testcase db \<and> tr_problem_id r < pd_next_problem db
      \<and> tr_status r \<in> {testcase_active, testcase_archived}"
    using assms(1) unfolding assms(2) rows_ok_def by (auto simp: archive_row_def)
  ultimately show ?thesis using assms(1,3-5) unfolding rows_ok_def by simp
qed

lemma items_by_number:
  assumes "rows_ok db" and "x \<in> set (pd_testcases db)" and "tr_problem_id x = i"
  shows "filter (\<lambda>t. tc_ID t \<noteq> tr_id x) (items_of db i) = filter (\<lambda>t. tc_CaseNo t \<noteq> tr_case_no x) (items_of db i)"
proof (rule filter_cong [OF refl])
  fix t assume "t \<in> set (items_of db i)"
  then obtain r where r: "r \<in> set (pd_testcases db)" "tr_problem_id r = i" "tr_status r = testcase_active" "t = scanned r"
    by (auto simp: items_of_def active_row_in)
  have "tr_id r = tr_id x \<longleftrightarrow> tr_case_no r = tr_case_no x"
    using assms r by (auto simp: rows_ok_def distinct_map inj_on_def)
  then show "tc_ID t \<noteq> tr_id x \<longleftrightarrow> tc_CaseNo t \<noteq> tr_case_no x" using r by (simp add: scanned_simps)
qed

lemma remaining_agree:
  assumes rd: "reads_ok deps db objs db0 db1" and rows: "rows_ok db"
    and e: "map (manifest_entry pre) (items_of db1 i) = map (manifest_entry pre) (items_of db i)"
    and x: "\<exists>t \<in> set (items_of db1 i). tc_ID t = tid" and y: "y \<in> set (pd_testcases db)" "archives i tid y"
  shows "map (manifest_entry pre) (filter (\<lambda>t. tc_ID t \<noteq> tid) (items_of db1 i)) = map (manifest_entry pre) (filter (\<lambda>t. tc_ID t \<noteq> tid) (items_of db i))"
proof -
  obtain r where r: "r \<in> set (pd_testcases db1)" "tr_problem_id r = i" "tr_id r = tid"
    using x by (auto simp: items_of_def active_row_in scanned_simps)
  have y': "tr_id y = tid" "tr_problem_id y = i" using y(2) by (auto simp: archives_def)
  have "same_case r y" using rd r(1,3) y(1) y'(1) unfolding reads_ok_def by simp
  then have no: "tr_case_no r = tr_case_no y" by (simp add: same_case_def)
  have rows1: "rows_ok db1" using rd by (simp add: reads_ok_def)
  have m: "map (manifest_entry pre) (filter (\<lambda>t. tc_CaseNo t \<noteq> n) xs) = filter (\<lambda>t. mt_CaseNo t \<noteq> n) (map (manifest_entry pre) xs)" for n xs
    by (induction xs) (simp_all add: manifest_entry_keys)
  show ?thesis
    using items_by_number [OF rows1 r(1,2)] items_by_number [OF rows y(1) y'(2)] r(3) y'(1) no e by (simp add: m)
qed

lemma commit_archived_Inr:
  assumes "commit_archived_tx env i tid revision expected db = Inr (t, db')"
  obtains p y where "find_problem db i = Some p" and "revision_text p = expected" and "y \<in> set (pd_testcases db)" and "archives i tid y"
    and "pd_testcases db' = map (\<lambda>r. if archives i tid r then archive_row env r else r) (pd_testcases db)"
    and "pd_problems db' = pd_problems (set_problem i (p\<lparr>pr_active_judge_revision := revision_of_text revision, pr_updated_at := utc_timestamp3 env\<rparr>) db)"
    and "pd_next_testcase db' = pd_next_testcase db" and "pd_next_problem db' = pd_next_problem db"
proof -
  let ?db1 = "db\<lparr>pd_testcases := map (\<lambda>r. if archives i tid r then archive_row env r else r) (pd_testcases db)\<rparr>"
  from assms have l: "lockPublishableProblem env i expected db = None" and n: "length (filter (archives i tid) (pd_testcases db)) = 1"
    and act: "activateRevision env i revision ?db1 = Inr db'"
    by (auto simp: commit_archived_tx_def psql_def split: option.splits)
  obtain p where p: "find_problem db i = Some p" "revision_text p = expected" using lock_None [OF l] by blast
  have "filter (archives i tid) (pd_testcases db) \<noteq> []" using n by auto
  then obtain y where y: "y \<in> set (pd_testcases db)" "archives i tid y" by (auto simp: filter_empty_conv)
  have "find_problem ?db1 i = Some p" using p(1) by (simp add: find_problem_def)
  note db' = activate_Inr [OF act this]
  show ?thesis by (rule that [OF p y]) (simp_all add: db' set_problem_def)
qed

lemma commit_archived_steps:
  assumes ok: "problems_ok deps db objs" and rd: "reads_ok deps db objs db0 db1" and inj: "manifest_text_inj deps"
    and hold: "reads_hold i db0 db1 db" and p0: "find_problem db0 i = Some p0"
    and c: "commit_archived_tx env i tid r (revision_text p0) db = Inr (t, db')" and kept: "revisions_kept objs objs'"
    and x: "\<exists>t \<in> set (items_of db1 i). tc_ID t = tid"
  defines "rest \<equiv> filter (\<lambda>t. tc_ID t \<noteq> tid) (items_of db1 i)"
  assumes pub: "if rest = [] then r = []
      else map_of objs (manifest_key i r) = None \<and> length r = 26
        \<and> published deps objs' i r (revision_manifest i r (pr_time_limit_ms p0) (pr_memory_limit_kb p0) rest)"
  shows "steps deps db objs db' objs'"
proof -
  obtain p y where p: "find_problem db i = Some p" "revision_text p = revision_text p0" and y: "y \<in> set (pd_testcases db)" "archives i tid y"
    and tcs: "pd_testcases db' = map (\<lambda>r. if archives i tid r then archive_row env r else r) (pd_testcases db)"
    and pr: "pd_problems db' = pd_problems (set_problem i (p\<lparr>pr_active_judge_revision := revision_of_text r, pr_updated_at := utc_timestamp3 env\<rparr>) db)"
    and nx: "pd_next_testcase db' = pd_next_testcase db" "pd_next_problem db' = pd_next_problem db"
    by (rule commit_archived_Inr [OF c]) (rule that; assumption)
  let ?q = "p\<lparr>pr_active_judge_revision := revision_of_text r, pr_updated_at := utc_timestamp3 env\<rparr>"
  have id: "pr_id p = i" using find_problem_Some [OF p(1)] by simp
  have rows: "rows_ok db" using ok by (simp add: problems_ok_def)
  have agree: "pr_time_limit_ms p0 = pr_time_limit_ms p \<and> pr_memory_limit_kb p0 = pr_memory_limit_kb p
      \<and> map (manifest_entry pre) (items_of db1 i) = map (manifest_entry pre) (items_of db i)" for pre
    by (rule reads_agree [OF ok rd inj hold p0 p])
  have same: "map (manifest_entry pre) rest = map (manifest_entry pre) (items_of db' i)" for pre
    unfolding rest_def items_of_archive(1) [OF tcs] using remaining_agree [OF rd rows _ x y] agree by blast
  have q: "problem_ok deps objs' db' ?q"
  proof (cases "rest = []")
    case True
    then have "items_of db' i = []" using same by simp
    then show ?thesis using True pub id by (simp add: problem_ok_def revision_of_text_def)
  next
    case False
    then have "revision_of_text r = Some r" using pub by (auto simp: revision_of_text_def)
    then show ?thesis
      using False pub id agree revision_manifest_cong [OF same] by (simp add: problem_ok_def)
  qed
  have rows': "rows_ok db'"
    by (rule rows_ok_archive [OF rows_ok_set [OF rows, of ?q i], of db' i tid env]) (simp_all add: tcs pr nx id)
  show ?thesis
  proof (rule steps_changed [OF ok kept p(1) _ rows' pr])
    show "pr_active_judge_revision p = Some v \<or> map_of objs (manifest_key i v) = None" if "pr_active_judge_revision ?q = Some v" for v
      using that pub by (auto simp: revision_of_text_def split: if_splits)
    show "\<exists>x \<in> set (pd_testcases db). same_case x y" if "y \<in> set (pd_testcases db')" for y
      using that unfolding tcs by (auto simp: archive_row_def same_case_def)
  qed (simp_all add: id q nx items_of_archive(2) [OF tcs])
qed

lemma archive_testcase_steps:
  assumes ok: "problems_ok deps (ps_db st) (ps_objects st)" and rd: "reads_ok deps (ps_db st) (ps_objects st) db0 db1"
    and inj: "manifest_text_inj deps" and hold: "reads_hold i db0 db1 (ps_db st)"
    and op: "prob_ArchiveTestcase deps env ctx i tid db0 db1 st = (res, st')"
  shows "steps deps (ps_db st) (ps_objects st) (ps_db st') (ps_objects st')"
proof -
  let ?rest = "filter (\<lambda>t. tc_ID t \<noteq> tid) (items_of db1 i)"
  have rows1: "rows_ok db1" using rd by (simp add: reads_ok_def)
  have srt: "sort_key tc_CaseNo ?rest = ?rest" by (metis filter_sort items_of_sorted)
  have refl: "steps deps (ps_db st) (ps_objects st) (ps_db st) (ps_objects st)" by (rule steps_kept [OF ok revisions_kept_refl])
  consider (none) "st' = st"
    | (commit) p items where "pstore_FindByID env i db0 = Inr p" "pstore_ListTestcases env i False db1 = Inr items"
        "list_ex (\<lambda>t. tc_ID t = tid) items"
        "(if filter (\<lambda>t. tc_ID t \<noteq> tid) items = []
          then ps_objects st' = ps_objects st \<and> (\<exists>r. CommitArchivedTestcase env i tid [] (pb_ActiveJudgeRevision p) (ps_db st) = (r, ps_db st'))
          else \<exists>pres. publishRevision deps env p (filter (\<lambda>t. tc_ID t \<noteq> tid) items) (ps_objects st) = (pres, ps_objects st')
            \<and> (case pres of Inl _ \<Rightarrow> ps_db st' = ps_db st
               | Inr v \<Rightarrow> \<exists>r. CommitArchivedTestcase env i tid v (pb_ActiveJudgeRevision p) (ps_db st) = (r, ps_db st')))"
    using op
    by (auto simp: prob_ArchiveTestcase_def Let_def split: option.splits sum.splits if_splits prod.splits)
  then show ?thesis
  proof cases
    case none
    then show ?thesis using refl by simp
  next
    case commit
    obtain p0 where p0: "find_problem db0 i = Some p0" "row_read p p0" "pr_id p0 = i" using row_readI [OF commit(1)] by blast
    have items: "items = items_of db1 i" by (rule ListTestcases_Inr [OF commit(2) rows1])
    then have x: "\<exists>t \<in> set (items_of db1 i). tc_ID t = tid" using commit(3) by (simp add: list_ex_iff)
    note step = commit_archived_steps [OF ok rd inj hold p0(1) _ _ x]
    show ?thesis
    proof (cases "?rest = []")
      case True
      then obtain r where c: "CommitArchivedTestcase env i tid [] (pb_ActiveJudgeRevision p) (ps_db st) = (r, ps_db st')"
        and o: "ps_objects st' = ps_objects st" using commit(4) items by auto
      show ?thesis unfolding o
        by (rule steps_tx [OF c [unfolded CommitArchivedTestcase_def] ok revisions_kept_refl])
          (use step True p0(2) in \<open>auto simp: row_read_def\<close>)
    next
      case False
      then obtain pres where pb: "publishRevision deps env p ?rest (ps_objects st) = (pres, ps_objects st')"
        and c: "case pres of Inl _ \<Rightarrow> ps_db st' = ps_db st
               | Inr v \<Rightarrow> \<exists>r. CommitArchivedTestcase env i tid v (pb_ActiveJudgeRevision p) (ps_db st) = (r, ps_db st')"
        using commit(4) items by auto
      have k: "revisions_kept (ps_objects st) (ps_objects st')" by (rule publishRevision_kept(2) [OF pb])
      show ?thesis
      proof (cases pres)
        case (Inl e)
        then show ?thesis using c steps_kept [OF ok k] by simp
      next
        case (Inr v)
        then obtain r where c': "CommitArchivedTestcase env i tid v (pb_ActiveJudgeRevision p) (ps_db st) = (r, ps_db st')" using c by auto
        note pubI = publishRevision_Inr [OF pb [unfolded Inr]]
        show ?thesis
          by (rule steps_tx [OF c' [unfolded CommitArchivedTestcase_def] ok k])
            (use step [OF _ k] False p0(2,3) pubI srt in \<open>auto simp: row_read_def\<close>)
      qed
    qed
  qed
qed

subsection \<open>Updating a problem\<close>

lemma link_tags_frame:
  "link_tags env i names db = Inr (tags, db') \<Longrightarrow> same_cases db db' \<and> pd_problems db' = pd_problems db"
proof (induction names arbitrary: db tags)
  case (Cons name names)
  have t: "same_cases db db1 \<and> pd_problems db1 = pd_problems db" if "findOrCreateTag env name db = Inr (tag, db1)" for tag db1
    using that by (auto simp: findOrCreateTag_def psql_def Let_def same_cases_def split: option.splits)
  from Cons.prems obtain tag db1 rest where "findOrCreateTag env name db = Inr (tag, db1)"
    "link_tags env i names (db1\<lparr>pd_problem_tags := pd_problem_tags db1 @ [(i, tg_ID tag)]\<rparr>) = Inr (rest, db')"
    by (auto simp: psql_def)
  then show ?case using t Cons.IH by (fastforce simp: same_cases_def)
qed (simp add: same_cases_def)

lemma steps_row:
  assumes ok: "problems_ok deps db objs" and kept: "revisions_kept objs objs'" and p: "find_problem db i = Some p" and id: "pr_id q = i"
    and fr: "same_cases db db'" and pr: "pd_problems db' = pd_problems (set_problem i q db)" and q: "problem_ok deps objs' db q"
    and new: "\<And>r. pr_active_judge_revision q = Some r \<Longrightarrow> pr_active_judge_revision p = Some r \<or> map_of objs (manifest_key i r) = None"
  shows "steps deps db objs db' objs'"
proof -
  have "rows_ok db" using ok by (simp add: problems_ok_def)
  then have rows: "rows_ok db'" using rows_ok_cong [OF rows_ok_set [of db q i], of db'] id fr pr by (simp add: same_cases_def)
  have items: "items_of db' j = items_of db j" for j using fr by (intro items_of_cong) (simp add: same_cases_def)
  show ?thesis
    by (rule steps_changed [OF ok kept p id rows pr items problem_ok_cong [OF q revisions_kept_refl items] new])
      (use fr same_case_refl in \<open>auto simp: same_cases_def\<close>)
qed

lemma update_Inr:
  assumes "update_problem_tx env p names expected db = Inr (u, db')"
  obtains r where "find_problem db (pb_ID p) = Some r" and "revision_text r = expected" and "same_cases db db'"
    and "pd_problems db' = pd_problems (set_problem (pb_ID p) (updated_row env p r) db)"
proof -
  from assms obtain r tags where r: "find_problem db (pb_ID p) = Some r" "pr_active_judge_revision r = revision_of_text expected"
    and l: "link_tags env (pb_ID p) names (set_problem (pb_ID p) (updated_row env p r) db
       \<lparr>pd_problem_tags := filter (\<lambda>x. fst x \<noteq> pb_ID p) (pd_problem_tags (set_problem (pb_ID p) (updated_row env p r) db))\<rparr>) = Inr (tags, db')"
    by (auto simp: update_problem_tx_def psql_def Let_def revision_of_text_def split: option.splits)
  have "revision_text r = expected" using r(2) by (auto simp: revision_text_def revision_of_text_def)
  then show ?thesis
    using that [OF r(1)] link_tags_frame [OF l] by (simp add: same_cases_def)
qed

lemma updated_row_simps:
  "pr_id (updated_row env p r) = pr_id r" "pr_time_limit_ms (updated_row env p r) = pb_TimeLimitMs p"
  "pr_memory_limit_kb (updated_row env p r) = pb_MemoryLimitKb p"
  "pr_active_judge_revision (updated_row env p r) = revision_of_text (pb_ActiveJudgeRevision p)"
  by (simp_all add: updated_row_def revision_of_text_def)

lemma store_updated_cases:
  assumes "store_updated deps env p tags expected st = (res, st')"
  shows "ps_objects st' = ps_objects st \<and> (\<exists>r. pstore_Update env p (normalizeTags tags) expected (ps_db st) = (r, ps_db st'))"
  using assms by (auto simp: store_updated_def split: sum.splits prod.splits)

lemma store_unpublished_steps:
  assumes ok: "problems_ok deps (ps_db st) (ps_objects st)" and up: "store_updated deps env p tags (pb_ActiveJudgeRevision p) st = (res, st')"
    and lim: "\<And>r. find_problem (ps_db st) (pb_ID p) = Some r \<Longrightarrow> revision_text r = pb_ActiveJudgeRevision p \<Longrightarrow> pb_ActiveJudgeRevision p \<noteq> [] \<Longrightarrow>
      pb_TimeLimitMs p = pr_time_limit_ms r \<and> pb_MemoryLimitKb p = pr_memory_limit_kb r"
  shows "steps deps (ps_db st) (ps_objects st) (ps_db st') (ps_objects st')"
proof -
  obtain r where o: "ps_objects st' = ps_objects st"
    and c: "pstore_Update env p (normalizeTags tags) (pb_ActiveJudgeRevision p) (ps_db st) = (r, ps_db st')"
    using store_updated_cases [OF up] by auto
  show ?thesis unfolding o
  proof (rule steps_tx [OF c [unfolded pstore_Update_def] ok revisions_kept_refl], erule update_Inr)
    fix r assume r: "find_problem (ps_db st) (pb_ID p) = Some r" "revision_text r = pb_ActiveJudgeRevision p"
      and fr: "same_cases (ps_db st) (ps_db st')"
      and pr: "pd_problems (ps_db st') = pd_problems (set_problem (pb_ID p) (updated_row env p r) (ps_db st))"
    have id: "pr_id r = pb_ID p" using find_problem_Some [OF r(1)] by simp
    have rt: "pr_active_judge_revision r = revision_of_text (pb_ActiveJudgeRevision p)" using revision_text_Some [OF ok r(1)] r(2) by simp
    have "problem_ok deps (ps_objects st) (ps_db st) r" using ok r(1) by (auto simp: problems_ok_iff)
    then have "problem_ok deps (ps_objects st) (ps_db st) (updated_row env p r)"
      using lim [OF r] rt by (auto simp: problem_ok_def updated_row_simps revision_of_text_def)
    then show "steps deps (ps_db st) (ps_objects st) (ps_db st') (ps_objects st)"
      by (intro steps_row [OF ok revisions_kept_refl r(1) _ fr pr]) (simp_all add: updated_row_simps id rt)
  qed
qed

lemma store_published_steps:
  assumes ok: "problems_ok deps (ps_db st) objs" and k: "revisions_kept objs (ps_objects st)"
    and up: "store_updated deps env (p\<lparr>pb_ActiveJudgeRevision := v\<rparr>) tags expected st = (res, st')"
    and absent: "map_of objs (manifest_key (pb_ID p) v) = None"
    and pub: "published deps (ps_objects st) (pb_ID p) v (revision_manifest (pb_ID p) v (pb_TimeLimitMs p) (pb_MemoryLimitKb p) xs)"
    and items: "\<And>r. find_problem (ps_db st) (pb_ID p) = Some r \<Longrightarrow> revision_text r = expected \<Longrightarrow>
      map (manifest_entry (revision_prefix (pb_ID p) v)) xs = map (manifest_entry (revision_prefix (pb_ID p) v)) (items_of (ps_db st) (pb_ID p))"
  shows "steps deps (ps_db st) objs (ps_db st') (ps_objects st')"
proof -
  let ?p = "p\<lparr>pb_ActiveJudgeRevision := v\<rparr>"
  obtain r where o: "ps_objects st' = ps_objects st"
    and c: "pstore_Update env ?p (normalizeTags tags) expected (ps_db st) = (r, ps_db st')"
    using store_updated_cases [OF up] by auto
  have v: "revision_of_text v = Some v" using published_revision [OF pub] by (simp add: revision_of_text_def)
  show ?thesis unfolding o
  proof (rule steps_tx [OF c [unfolded pstore_Update_def] ok k], erule update_Inr)
    fix r assume r: "find_problem (ps_db st) (pb_ID ?p) = Some r" "revision_text r = expected"
      and fr: "same_cases (ps_db st) (ps_db st')"
      and pr: "pd_problems (ps_db st') = pd_problems (set_problem (pb_ID ?p) (updated_row env ?p r) (ps_db st))"
    have id: "pr_id r = pb_ID p" using find_problem_Some [OF r(1)] by simp
    have "revision_manifest (pb_ID p) v (pb_TimeLimitMs p) (pb_MemoryLimitKb p) xs
        = revision_manifest (pb_ID p) v (pb_TimeLimitMs p) (pb_MemoryLimitKb p) (items_of (ps_db st) (pb_ID p))"
      using items r by (intro revision_manifest_cong) simp
    then have "problem_ok deps (ps_objects st) (ps_db st) (updated_row env ?p r)"
      using pub v id by (simp add: problem_ok_def updated_row_simps)
    then show "steps deps (ps_db st) objs (ps_db st') (ps_objects st)"
      using r(1) absent by (intro steps_row [OF ok k _ _ fr pr]) (simp_all add: updated_row_simps id v)
  qed
qed

lemma merged_simps:
  "pb_ID (merged_input input i c) = i" "pb_ActiveJudgeRevision (merged_input input i c) = pb_ActiveJudgeRevision c"
  by (simp_all add: merged_input_def)

lemma update_steps:
  assumes ok: "problems_ok deps (ps_db st) (ps_objects st)" and rd: "reads_ok deps (ps_db st) (ps_objects st) db0 db1"
    and inj: "manifest_text_inj deps" and hold: "reads_hold i db0 db1 (ps_db st)"
    and op: "prob_Update deps env ctx i input tags db0 db1 st = (res, st')"
  shows "steps deps (ps_db st) (ps_objects st) (ps_db st') (ps_objects st')"
proof -
  have rows1: "rows_ok db1" using rd by (simp add: reads_ok_def)
  consider (none) "st' = st"
    | (store) c where "pstore_FindByID env i db0 = Inr c"
        "should_publish (merged_input input i c) c \<longrightarrow> pb_ActiveJudgeRevision c = []"
        "store_updated deps env (merged_input input i c) tags (pb_ActiveJudgeRevision c) st = (res, st')"
    | (publish) c items where "pstore_FindByID env i db0 = Inr c" "pstore_ListTestcases env i False db1 = Inr items"
        "\<exists>pres objs. publishRevision deps env (merged_input input i c) items (ps_objects st) = (pres, objs)
           \<and> (case pres of Inl _ \<Rightarrow> st' = st\<lparr>ps_objects := objs\<rparr>
              | Inr v \<Rightarrow> store_updated deps env ((merged_input input i c)\<lparr>pb_ActiveJudgeRevision := v\<rparr>) tags (pb_ActiveJudgeRevision c)
                   (st\<lparr>ps_objects := objs\<rparr>) = (res, st'))"
    using op by (auto simp: prob_Update_def Let_def split: option.splits sum.splits if_splits prod.splits)
  then show ?thesis
  proof cases
    case none
    then show ?thesis using steps_kept [OF ok revisions_kept_refl] by simp
  next
    case store
    let ?p = "merged_input input i c"
    obtain p0 where p0: "find_problem db0 i = Some p0" "row_read c p0" using row_readI [OF store(1)] by blast
    have "pb_TimeLimitMs ?p = pr_time_limit_ms r \<and> pb_MemoryLimitKb ?p = pr_memory_limit_kb r"
      if r: "find_problem (ps_db st) i = Some r" "revision_text r = pb_ActiveJudgeRevision c" "pb_ActiveJudgeRevision c \<noteq> []" for r
    proof -
      have "revision_text r = revision_text p0" using r(2) p0(2) by (simp add: row_read_def)
      then have "pr_time_limit_ms p0 = pr_time_limit_ms r \<and> pr_memory_limit_kb p0 = pr_memory_limit_kb r"
        using reads_agree [OF ok rd inj hold p0(1) r(1)] by blast
      then show ?thesis using store(2) r(3) p0(2) by (auto simp: should_publish_def merged_simps row_read_def)
    qed
    then show ?thesis using store_unpublished_steps [of deps st env ?p tags res st'] ok store(3) by (simp add: merged_simps)
  next
    case publish
    let ?p = "merged_input input i c"
    obtain p0 where p0: "find_problem db0 i = Some p0" "row_read c p0" using row_readI [OF publish(1)] by blast
    have items: "items = items_of db1 i" by (rule ListTestcases_Inr [OF publish(2) rows1])
    obtain pres objs where pb: "publishRevision deps env ?p items (ps_objects st) = (pres, objs)"
      and c: "case pres of Inl _ \<Rightarrow> st' = st\<lparr>ps_objects := objs\<rparr>
              | Inr v \<Rightarrow> store_updated deps env (?p\<lparr>pb_ActiveJudgeRevision := v\<rparr>) tags (pb_ActiveJudgeRevision c)
                   (st\<lparr>ps_objects := objs\<rparr>) = (res, st')"
      using publish(3) by blast
    have k: "revisions_kept (ps_objects st) objs" by (rule publishRevision_kept(2) [OF pb])
    show ?thesis
    proof (cases pres)
      case (Inl e)
      then show ?thesis using c steps_kept [OF ok k] by simp
    next
      case (Inr v)
      note pubI = publishRevision_Inr [OF pb [unfolded Inr], unfolded merged_simps items items_of_sorted]
      have "map (manifest_entry (revision_prefix i v)) (items_of db1 i) = map (manifest_entry (revision_prefix i v)) (items_of (ps_db st) i)"
        if r: "find_problem (ps_db st) i = Some r" "revision_text r = pb_ActiveJudgeRevision c" for r
        using reads_agree [OF ok rd inj hold p0(1) r(1)] r(2) p0(2) by (simp add: row_read_def)
      moreover have "store_updated deps env (?p\<lparr>pb_ActiveJudgeRevision := v\<rparr>) tags (pb_ActiveJudgeRevision c) (st\<lparr>ps_objects := objs\<rparr>) = (res, st')"
        using c Inr by simp
      ultimately show ?thesis
        using store_published_steps [of deps "st\<lparr>ps_objects := objs\<rparr>" "ps_objects st" env v ?p tags "pb_ActiveJudgeRevision c" res st' "items_of db1 i"]
          ok k pubI(2,3) by (simp add: merged_simps)
    qed
  qed
qed

subsection \<open>Archiving and creating a problem\<close>

lemma archive_problem_steps:
  assumes ok: "problems_ok deps (ps_db st) (ps_objects st)" and op: "prob_Archive deps env ctx i db0 st = (res, st')"
  shows "steps deps (ps_db st) (ps_objects st) (ps_db st') (ps_objects st')"
proof -
  have o: "ps_objects st' = ps_objects st" and d: "ps_db st' = ps_db st \<or> (\<exists>r. pstore_Archive env i (ps_db st) = (r, ps_db st'))"
    using op by (auto simp: prob_Archive_def split: option.splits sum.splits if_splits prod.splits)
  have refl: "steps deps (ps_db st) (ps_objects st) (ps_db st) (ps_objects st)" by (rule steps_kept [OF ok revisions_kept_refl])
  have "ps_db st' = ps_db st \<or> (\<exists>p. find_problem (ps_db st) i = Some p
      \<and> ps_db st' = set_problem i (p\<lparr>pr_status := status_archived, pr_updated_at := utc_timestamp3 env\<rparr>) (ps_db st))"
    using d by (auto simp: pstore_Archive_def exec_auto_def Let_def split: option.splits if_splits)
  then show ?thesis
  proof (elim disjE exE conjE)
    fix p assume p: "find_problem (ps_db st) i = Some p"
      and d: "ps_db st' = set_problem i (p\<lparr>pr_status := status_archived, pr_updated_at := utc_timestamp3 env\<rparr>) (ps_db st)"
    have "problem_ok deps (ps_objects st) (ps_db st) p" using ok p by (auto simp: problems_ok_iff)
    then have q: "problem_ok deps (ps_objects st) (ps_db st) (p\<lparr>pr_status := status_archived, pr_updated_at := utc_timestamp3 env\<rparr>)"
      by (simp add: problem_ok_def split: option.splits)
    show ?thesis unfolding o
      by (rule steps_row [OF ok revisions_kept_refl p _ _ _ q]) (use find_problem_Some [OF p] d in \<open>simp_all add: same_cases_def\<close>)
  qed (simp add: o refl)
qed

lemma delete_created_steps:
  assumes ok: "problems_ok deps db objs" and d: "DeleteCreatedProblem env i db = (e, db')" and k: "revisions_kept objs objs'"
  shows "steps deps db objs db' objs'"
proof -
  have "db' = db \<or> db' = delete_problem i db" using d by (auto simp: DeleteCreatedProblem_def exec_auto_def split: if_splits)
  moreover have "steps deps db objs (delete_problem i db) objs'"
  proof -
    let ?db = "delete_problem i db"
    have rows: "rows_ok db" using ok by (simp add: problems_ok_def)
    have sub: "set (pd_problems ?db) \<subseteq> set (pd_problems db)" "set (pd_testcases ?db) \<subseteq> set (pd_testcases db)"
      by (auto simp: delete_problem_def)
    have "distinct (map f (filter P xs))" if "distinct (map f xs)" for f :: "'a \<Rightarrow> 'b" and P xs
      using that by (rule distinct_map_filter)
    then have rows': "rows_ok ?db" using rows unfolding rows_ok_def delete_problem_def by (auto simp: distinct_map_filter)
    have f: "find_problem ?db j = (if j = i then None else find_problem db j)" for j
    proof -
      have "find (\<lambda>r. pr_id r = j) (filter (\<lambda>r. pr_id r \<noteq> i) ps) = (if j = i then None else find (\<lambda>r. pr_id r = j) ps)" for ps
        by (induction ps) auto
      moreover have "pd_problems ?db = filter (\<lambda>r. pr_id r \<noteq> i) (pd_problems db)" by (simp add: delete_problem_def)
      ultimately show ?thesis by (simp only: find_problem_def)
    qed
    have items: "items_of ?db j = items_of db j" if "j \<noteq> i" for j
    proof -
      have "filter (\<lambda>r. tr_problem_id r = j \<and> tr_status r = testcase_active) (pd_testcases ?db)
          = filter (\<lambda>r. tr_problem_id r = j \<and> tr_status r = testcase_active) (pd_testcases db)"
        using that by (auto simp: delete_problem_def intro!: filter_cong)
      then show ?thesis by (simp add: items_of_eq)
    qed
    have "problems_ok deps ?db objs'"
      by (rule problems_ok_change [OF ok k rows', of i]) (auto simp: f items split: if_splits)
    moreover have "evolves db objs ?db objs'"
      using k sub same_case_refl by (auto simp: evolves_def activated_def f split: if_splits) (simp_all add: delete_problem_def)
    ultimately show ?thesis by (simp add: steps_def)
  qed
  ultimately show ?thesis using steps_kept [OF ok k] by auto
qed

lemma insert_problem_Inr:
  assumes "create_problem_tx env p names db = Inr (c, db')"
  obtains row where "pd_problems db' = pd_problems db @ [row]" and "pr_id row = pd_next_problem db" and "pr_active_judge_revision row = None"
    and "pd_testcases db' = pd_testcases db" and "pd_next_testcase db' = pd_next_testcase db" and "pd_next_problem db' = pd_next_problem db + 1"
    and "pb_ID c = pr_id row" and "pb_TimeLimitMs c = pr_time_limit_ms row" and "pb_MemoryLimitKb c = pr_memory_limit_kb row"
    and "pb_ActiveJudgeRevision c = pb_ActiveJudgeRevision p"
proof -
  from assms obtain i db1 tags where ins: "insert_problem env p db = Inr (i, db1)" and l: "link_tags env i names db1 = Inr (tags, db')"
    and c: "c = p\<lparr>pb_ID := i, pb_Tags := tags, pb_CreatedAt := utc_timestamp3 env, pb_UpdatedAt := utc_timestamp3 env\<rparr>"
    by (auto simp: create_problem_tx_def psql_def)
  define row where "row = last (pd_problems db1)"
  have "pd_problems db1 = pd_problems db @ [row] \<and> pr_id row = pd_next_problem db \<and> pr_active_judge_revision row = None
    \<and> pd_testcases db1 = pd_testcases db \<and> pd_next_testcase db1 = pd_next_testcase db \<and> pd_next_problem db1 = pd_next_problem db + 1
    \<and> i = pr_id row \<and> pb_TimeLimitMs p = pr_time_limit_ms row \<and> pb_MemoryLimitKb p = pr_memory_limit_kb row"
    using ins by (auto simp: insert_problem_def psql_def Let_def row_def)
  then show ?thesis using that [of row] link_tags_frame [OF l] c by (simp add: same_cases_def)
qed

lemma create_row_steps:
  assumes ok: "problems_ok deps db objs" and c: "create_problem_tx env p names db = Inr (c, db')"
  shows "steps deps db objs db' objs" and "pb_ActiveJudgeRevision p = [] \<Longrightarrow> \<exists>row. find_problem db' (pb_ID c) = Some row \<and> row_read c row"
proof -
  obtain row where pr: "pd_problems db' = pd_problems db @ [row]" and row: "pr_id row = pd_next_problem db" "pr_active_judge_revision row = None"
    and tcs: "pd_testcases db' = pd_testcases db" and nx: "pd_next_testcase db' = pd_next_testcase db" "pd_next_problem db' = pd_next_problem db + 1"
    and cr: "pb_ID c = pr_id row" "pb_TimeLimitMs c = pr_time_limit_ms row" "pb_MemoryLimitKb c = pr_memory_limit_kb row"
      "pb_ActiveJudgeRevision c = pb_ActiveJudgeRevision p"
    by (rule insert_problem_Inr [OF c]) (rule that; assumption)
  have rows: "rows_ok db" using ok by (simp add: problems_ok_def)
  then have fresh: "pr_id r < pd_next_problem db" if "r \<in> set (pd_problems db)" for r using that by (simp add: rows_ok_def)
  then have "pd_next_problem db \<notin> pr_id ` set (pd_problems db)" by force
  then have d: "distinct (map pr_id (pd_problems db'))" using rows pr row(1) by (simp add: rows_ok_def)
  have lt: "\<forall>p \<in> set (pd_problems db'). pr_id p < pd_next_problem db'" using fresh pr row(1) nx(2) by force
  have "tr_problem_id r < pd_next_problem db'" if "r \<in> set (pd_testcases db)" for r
    using rows that nx(2) by (fastforce simp: rows_ok_def)
  then have rows': "rows_ok db'" using rows d lt tcs nx(1) by (simp add: rows_ok_def)
  have none: "find_problem db (pd_next_problem db) = None"
    using find_problem_Some [of db "pd_next_problem db"] fresh by (cases "find_problem db (pd_next_problem db)") force+
  have f: "find_problem db' j = (if j = pr_id row then Some row else find_problem db j)" for j
  proof -
    have "find (\<lambda>r. pr_id r = j) (ps @ [row]) = (case find (\<lambda>r. pr_id r = j) ps of None \<Rightarrow> if pr_id row = j then Some row else None | Some r \<Rightarrow> Some r)" for ps
      by (induction ps) auto
    then show ?thesis using none row(1) by (auto simp: find_problem_def pr split: option.splits)
  qed
  have items: "items_of db' j = items_of db j" for j using tcs by (rule items_of_cong)
  have "testcase_rows db (pr_id row) False = []"
    using rows row(1) active_row_in [of _ db "pr_id row"] by (fastforce simp: rows_ok_def intro!: equals0I simp flip: set_empty)
  then have "problem_ok deps objs db' row" using row items by (simp add: problem_ok_def items_of_def)
  then have "problems_ok deps db' objs"
    by (intro problems_ok_change [OF ok revisions_kept_refl rows', of "pr_id row"]) (auto simp: f items)
  moreover have "evolves db objs db' objs"
    using tcs nx row f same_case_refl by (auto simp: evolves_def activated_def split: if_splits)
  ultimately show "steps deps db objs db' objs" by (simp add: steps_def)
  show "pb_ActiveJudgeRevision p = [] \<Longrightarrow> \<exists>row. find_problem db' (pb_ID c) = Some row \<and> row_read c row"
    using f cr row(2) by (auto simp: row_read_def revision_text_def)
qed

lemma delete_uploads_kept:
  assumes "\<forall>t \<in> set ts. \<exists>i n u. tc_InputObjectKey t = upload_key i n u ''.in'' \<and> tc_OutputObjectKey t = upload_key i n u ''.out''"
  shows "revisions_kept objs (delete_uploads env ts objs)"
  using assms
proof (induction ts arbitrary: objs)
  case (Cons t ts)
  then obtain i n u where k: "tc_InputObjectKey t = upload_key i n u ''.in''" "tc_OutputObjectKey t = upload_key i n u ''.out''" by auto
  have "revisions_kept objs (object_Delete env (tc_OutputObjectKey t) (object_Delete env (tc_InputObjectKey t) objs))"
    unfolding k using object_Delete_kept revisions_kept_trans by blast
  then show ?case using Cons revisions_kept_trans by auto
qed simp

lemma add_keys:
  assumes "addTestcaseToProblem deps env p n input out db1 st = (Inr t, st')"
  shows "tc_InputObjectKey t = upload_key (pb_ID p) n (pe_upload_id env) ''.in'' \<and> tc_OutputObjectKey t = upload_key (pb_ID p) n (pe_upload_id env) ''.out''"
  using assms
proof (cases rule: addTestcase_cases)
  case (commit objs items r objs')
  then show ?thesis
    by (auto simp: CommitAddedTestcase_def run_tx_ok commit_added_tx_def psql_def new_testcase_def)
qed blast

lemma create_cases_steps:
  assumes "problems_ok deps (ps_db st) (ps_objects st)" and "manifest_text_inj deps"
    and "find_problem (ps_db st) (pb_ID p) = Some row" and "row_read p row"
    and "\<forall>t \<in> set stored. \<exists>i n u. tc_InputObjectKey t = upload_key i n u ''.in'' \<and> tc_OutputObjectKey t = upload_key i n u ''.out''"
    and "create_cases deps stored p contents st = (res, st')"
  shows "steps deps (ps_db st) (ps_objects st) (ps_db st') (ps_objects st')"
  using assms
proof (induction deps stored p contents st arbitrary: row rule: create_cases.induct)
  case (1 deps stored p st)
  then show ?case using steps_kept [OF _ revisions_kept_refl] by simp
next
  case (2 deps stored p env content rest st)
  obtain a st1 where a: "addTestcaseToProblem deps env p (cn_CaseNo content) (cn_Input content) (cn_Output content) (ps_db st) st = (a, st1)"
    by fastforce
  have s1: "steps deps (ps_db st) (ps_objects st) (ps_db st1) (ps_objects st1)"
    by (rule add_steps [OF "2.prems"(1) reads_now [OF "2.prems"(1)] "2.prems"(2) _ "2.prems"(3) refl _ _ _ a])
      (use "2.prems"(4) in \<open>simp_all add: row_read_def reads_hold_def\<close>)
  then have ok1: "problems_ok deps (ps_db st1) (ps_objects st1)" by (simp add: steps_def)
  show ?case
  proof (cases a)
    case (Inl e)
    obtain ce db where d: "DeleteCreatedProblem env (pb_ID p) (ps_db st1) = (ce, db)" by fastforce
    have "ps_db st' = db" "ps_objects st' = delete_uploads env stored (ps_objects st1)" using "2.prems"(6) a Inl d by auto
    then have "steps deps (ps_db st1) (ps_objects st1) (ps_db st') (ps_objects st')"
      using delete_created_steps [OF ok1 d delete_uploads_kept [OF "2.prems"(5)]] by simp
    then show ?thesis by (rule steps_trans [OF s1])
  next
    case (Inr item)
    note keys = add_keys [OF a [unfolded Inr]]
    show ?thesis
    proof (cases "pstore_FindByID env (pb_ID p) (ps_db st1)")
      case (Inl e)
      then show ?thesis using s1 "2.prems"(6) a Inr by auto
    next
      case (Inr p1)
      obtain row1 where r1: "find_problem (ps_db st1) (pb_ID p) = Some row1" "row_read p1 row1" "pr_id row1 = pb_ID p" using row_readI [OF Inr] by blast
      have "steps deps (ps_db st1) (ps_objects st1) (ps_db st') (ps_objects st')"
        by (rule "2.IH" [OF a [symmetric] \<open>a = Inr item\<close> Inr ok1 "2.prems"(2), of row1])
          (use r1 keys "2.prems"(5,6) a \<open>a = Inr item\<close> Inr in \<open>auto simp: row_read_def\<close>)
      then show ?thesis by (rule steps_trans [OF s1])
    qed
  qed
qed

lemma create_steps:
  assumes ok: "problems_ok deps (ps_db st) (ps_objects st)" and inj: "manifest_text_inj deps" and r: "pb_ActiveJudgeRevision input = []"
    and op: "prob_Create deps env ctx input tags contents st = (res, st')"
  shows "steps deps (ps_db st) (ps_objects st) (ps_db st') (ps_objects st')"
proof -
  let ?p = "(trimmed input)\<lparr>pb_Status := PROBLEM_STATUS_NORMAL, pb_CreatedBy := rc_UserId (the ctx)\<rparr>"
  have refl: "steps deps (ps_db st) (ps_objects st) (ps_db st) (ps_objects st)" by (rule steps_kept [OF ok revisions_kept_refl])
  obtain a db where c: "pstore_Create env ?p (normalizeTags tags) (ps_db st) = (a, db)" by fastforce
  have s: "steps deps (ps_db st) (ps_objects st) db (ps_objects st)"
    by (rule steps_tx [OF c [unfolded pstore_Create_def] ok revisions_kept_refl]) (rule create_row_steps(1) [OF ok])
  show ?thesis
  proof (cases "problem_requireAdmin ctx = None \<and> validateStatement input = None")
    case False
    then have "st' = st" using op by (auto simp: prob_Create_def split: option.splits)
    then show ?thesis using refl by simp
  next
    case True
    show ?thesis
    proof (cases a)
      case (Inl e)
      then show ?thesis using op True c s by (auto simp: prob_Create_def Let_def)
    next
      case (Inr created)
      let ?st = "st\<lparr>ps_db := db, ps_cache := pcache_Set env (pq_namespace deps) created (ps_cache st)\<rparr>"
      have cc: "create_cases deps [] created contents ?st = (res, st')" using op True c Inr by (simp add: prob_Create_def Let_def)
      have "create_problem_tx env ?p (normalizeTags tags) (ps_db st) = Inr (created, db)"
        using c Inr by (simp add: pstore_Create_def run_tx_ok)
      then obtain row where row: "find_problem db (pb_ID created) = Some row" "row_read created row"
        using create_row_steps(2) [OF ok, of env ?p "normalizeTags tags" created db] r by (auto simp: trimmed_def)
      have "steps deps (ps_db ?st) (ps_objects ?st) (ps_db st') (ps_objects st')"
        by (rule create_cases_steps [OF _ inj _ row(2) _ cc]) (use s row in \<open>simp_all add: steps_def\<close>)
      then show ?thesis using steps_trans [OF s] by simp
    qed
  qed
qed

end
