(* ===== verification/Problem_Run.thy ===== *)
theory Problem_Run
  imports Problem_Changes
begin

text \<open>
  Runs of the problem service: requests of any number of instances on one database and one bucket. A request
  reads tables that others may change before it commits; what it read is kept in the set of the run until
  then. The uploads and the publication of a request happen together with its commit; since objects are
  written only when the key is free, an earlier upload is not distinguishable.
\<close>

section \<open>Definitions\<close>

definition problem_start :: problem_state where
  "problem_start = \<lparr>ps_db = empty_problem_db, ps_objects = [], ps_cache = []\<rparr>"

inductive problem_run :: "problem_deps \<Rightarrow> problem_state \<Rightarrow> (problem_db \<times> problem_db) set \<Rightarrow> bool" for deps where
  start: "problem_run deps problem_start {}"
| read_problem: "problem_run deps st R \<Longrightarrow> problem_run deps st (insert (ps_db st, ps_db st) R)"
| read_testcases: "problem_run deps st R \<Longrightarrow> (db0, db1) \<in> R \<Longrightarrow> problem_run deps st (insert (db0, ps_db st) R)"
| create: "problem_run deps st R \<Longrightarrow> pb_ActiveJudgeRevision input = [] \<Longrightarrow>
    prob_Create deps env ctx input tags contents st = (res, st') \<Longrightarrow> problem_run deps st' R"
| add: "problem_run deps st R \<Longrightarrow> (db0, db1) \<in> R \<Longrightarrow> reads_hold i db0 db1 (ps_db st) \<Longrightarrow>
    AddTestcase deps env ctx i caseNo content expected db0 db1 st = (tres, st') \<Longrightarrow> problem_run deps st' R"
| archive_testcase: "problem_run deps st R \<Longrightarrow> (db0, db1) \<in> R \<Longrightarrow> reads_hold i db0 db1 (ps_db st) \<Longrightarrow>
    prob_ArchiveTestcase deps env ctx i testcaseID db0 db1 st = (tres, st') \<Longrightarrow> problem_run deps st' R"
| update: "problem_run deps st R \<Longrightarrow> (db0, db1) \<in> R \<Longrightarrow> reads_hold i db0 db1 (ps_db st) \<Longrightarrow>
    prob_Update deps env ctx i input tags db0 db1 st = (res, st') \<Longrightarrow> problem_run deps st' R"
| archive: "problem_run deps st R \<Longrightarrow> (db0, db1) \<in> R \<Longrightarrow>
    prob_Archive deps env ctx i db0 st = (res, st') \<Longrightarrow> problem_run deps st' R"
| get: "problem_run deps st R \<Longrightarrow> prob_Get deps env ctx i st = (res, st') \<Longrightarrow> problem_run deps st' R"

definition run_inv :: "problem_deps \<Rightarrow> problem_state \<Rightarrow> (problem_db \<times> problem_db) set \<Rightarrow> bool" where
  "run_inv deps st R \<longleftrightarrow> problems_ok deps (ps_db st) (ps_objects st)
     \<and> (\<forall>(db0, db1) \<in> R. reads_ok deps (ps_db st) (ps_objects st) db0 db1)"

section \<open>Lemmas\<close>

lemma AddTestcase_steps:
  assumes ok: "problems_ok deps (ps_db st) (ps_objects st)" and rd: "reads_ok deps (ps_db st) (ps_objects st) db0 db1"
    and inj: "manifest_text_inj deps" and hold: "reads_hold i db0 db1 (ps_db st)"
    and op: "AddTestcase deps env ctx i n input out db0 db1 st = (res, st')"
  shows "steps deps (ps_db st) (ps_objects st) (ps_db st') (ps_objects st')"
proof -
  consider (none) "st' = st"
    | (add) p where "pstore_FindByID env i db0 = Inr p" "addTestcaseToProblem deps env p n input out db1 st = (res, st')"
    using op by (auto simp: AddTestcase_def split: option.splits sum.splits if_splits)
  then show ?thesis
  proof cases
    case none
    then show ?thesis using steps_kept [OF ok revisions_kept_refl] by simp
  next
    case add
    obtain r where r: "find_problem db0 i = Some r" "row_read p r" "pr_id r = i" using row_readI [OF add(1)] by blast
    show ?thesis
      by (rule add_steps [OF ok rd inj hold r(1) _ _ _ _ add(2)]) (use r(2,3) in \<open>simp_all add: row_read_def\<close>)
  qed
qed

lemma Get_frame: "prob_Get deps env ctx i st = (res, st') \<Longrightarrow> ps_db st' = ps_db st \<and> ps_objects st' = ps_objects st"
  by (auto simp: prob_Get_def cached_find_def split: option.splits sum.splits if_splits prod.splits)

lemma problems_ok_start: "problems_ok deps (ps_db problem_start) (ps_objects problem_start)"
  by (simp add: problem_start_def problems_ok_def rows_ok_def empty_problem_db_def)

lemma run_step:
  assumes "run_inv deps st R" and "steps deps (ps_db st) (ps_objects st) (ps_db st') (ps_objects st')"
  shows "run_inv deps st' R"
  using assms reads_evolve unfolding steps_def run_inv_def by blast

lemma run_ok:
  assumes "problem_run deps st R" and inj: "manifest_text_inj deps"
  shows "run_inv deps st R"
  using assms(1)
proof induction
  case start
  then show ?case using problems_ok_start by (simp add: run_inv_def)
next
  case (read_problem st R)
  then show ?case using reads_now by (auto simp: run_inv_def)
next
  case (read_testcases st R db0 db1)
  then show ?case using reads_again [OF _ _ inj] by (auto simp: run_inv_def)
next
  case (create st R input env ctx tags contents res st')
  show ?case
    by (rule run_step [OF create.IH create_steps [OF _ inj create.hyps(2,3)]]) (use create.IH in \<open>simp add: run_inv_def\<close>)
next
  case (add st R db0 db1 i env ctx caseNo content expected tres st')
  show ?case
    by (rule run_step [OF add.IH AddTestcase_steps [OF _ _ inj add.hyps(3,4)]]) (use add.IH add.hyps(2) in \<open>auto simp: run_inv_def\<close>)
next
  case (archive_testcase st R db0 db1 i env ctx testcaseID tres st')
  show ?case
    by (rule run_step [OF archive_testcase.IH archive_testcase_steps [OF _ _ inj archive_testcase.hyps(3,4)]])
      (use archive_testcase.IH archive_testcase.hyps(2) in \<open>auto simp: run_inv_def\<close>)
next
  case (update st R db0 db1 i env ctx input tags res st')
  show ?case
    by (rule run_step [OF update.IH update_steps [OF _ _ inj update.hyps(3,4)]]) (use update.IH update.hyps(2) in \<open>auto simp: run_inv_def\<close>)
next
  case (archive st R db0 db1 env ctx i res st')
  show ?case
    by (rule run_step [OF archive.IH archive_problem_steps [OF _ archive.hyps(3)]]) (use archive.IH in \<open>simp add: run_inv_def\<close>)
next
  case (get st R env ctx i res st')
  then show ?case using Get_frame by (simp add: run_inv_def)
qed

end
