(* ===== verification/Problem_Examples.thy ===== *)
theory Problem_Examples
  imports Problem_Run Worker_Loader
begin

text \<open>
  A small world for the problem service, used by the witnesses: a prefix code in the place of the JSON text,
  and a problem that is created with one test case.
\<close>

section \<open>Definitions\<close>

fun code_nat :: "nat \<Rightarrow> string" where
  "code_nat 0 = ''0''"
| "code_nat (Suc n) = CHR ''1'' # code_nat n"

definition code_int :: "int \<Rightarrow> string" where
  "code_int i = code_nat (nat i) @ code_nat (nat (- i))"

fun code_string :: "string \<Rightarrow> string" where
  "code_string [] = ''0''"
| "code_string (c # cs) = CHR ''1'' # c # code_string cs"

fun code_json :: "json \<Rightarrow> string" and code_jsons :: "json list \<Rightarrow> string" and code_fields :: "(string \<times> json) list \<Rightarrow> string" where
  "code_json JNull = ''n''"
| "code_json (JBool b) = (if b then ''t'' else ''f'')"
| "code_json (JNum i) = CHR ''i'' # code_int i"
| "code_json (JFrac s) = CHR ''r'' # code_string s"
| "code_json (JStr s) = CHR ''s'' # code_string s"
| "code_json (JTime t) = CHR ''d'' # code_int t"
| "code_json (JArr xs) = CHR ''a'' # code_jsons xs"
| "code_json (JObj kvs) = CHR ''o'' # code_fields kvs"
| "code_jsons [] = ''0''"
| "code_jsons (x # xs) = CHR ''1'' # code_json x @ code_jsons xs"
| "code_fields [] = ''0''"
| "code_fields ((k, v) # kvs) = CHR ''1'' # code_string k @ code_json v @ code_fields kvs"

definition bucket_served :: "problem_deps \<Rightarrow> objects \<Rightarrow> loader_env \<Rightarrow> Loader \<Rightarrow> bool" where
  \<comment> \<open>the worker reads the bucket of the problem service, with the same digest, and its tokeniser reads the manifests
      that are in it; their integers are those of the Go types\<close>
  "bucket_served deps objs lenv l \<longleftrightarrow> le_sha256 lenv = pq_sha256 deps
     \<and> (\<forall>k c. map_of objs k = Some c \<longrightarrow> le_get_object lenv (ld_problemBucket l) k = Inr c \<and> int (length c) \<le> maxObjectSize)
     \<and> (\<forall>i r m. map_of objs (manifest_key i r) = Some (pq_json_text deps (enc_Manifest m)) \<longrightarrow>
          manifest_ranges m \<and> le_json lenv (pq_json_text deps (enc_Manifest m)) = Some (enc_Manifest m))"

definition source_ready :: "loader_env \<Rightarrow> Loader \<Rightarrow> JudgeTask \<Rightarrow> bool" where
  "source_ready lenv l task \<longleftrightarrow> JudgeTask_Validate task = None
     \<and> validateSourceKey lenv (jt_SourceObjectKey task) (jt_Language task) = None \<and> jt_SourceSizeBytes task \<le> maxSourceSize
     \<and> (\<exists>source. loader_read lenv (ld_sourceBucket l) (jt_SourceObjectKey task) = Inr source
          \<and> verifyObject lenv source (jt_SourceSHA256 task) (jt_SourceSizeBytes task) = None)"

definition ex_deps :: problem_deps where
  "ex_deps = \<lparr>pq_sha256 = (\<lambda>b. replicate 32 (CHR 0x00)), pq_json_text = code_json, pq_namespace = ''oj''\<rparr>"

definition ex_env :: "string \<Rightarrow> problem_env" where
  \<comment> \<open>nothing fails; the revision drawn is given\<close>
  "ex_env revision = \<lparr>fails = (\<lambda>l. False), commit_lost = False, app_now = 5000000, db_now = 5000000,
     pe_put_fails = (\<lambda>k. False), pe_put_lost = (\<lambda>k. False), pe_get_fails = (\<lambda>k. False), pe_delete_fails = (\<lambda>k. False),
     pe_upload_id = ''U'' @ revision, pe_revision = revision, pe_cache_fails = (\<lambda>c. False), pe_cache_lost = False, pe_redis_now = 5000000\<rparr>"

definition ex_revision :: "char \<Rightarrow> string" where
  "ex_revision c = replicate 26 c"

definition ex_admin :: rpc_context where
  "ex_admin = \<lparr>rc_UserId = 1, rc_Roles = [''admin'']\<rparr>"

definition ex_input :: Problem where
  "ex_input = empty_problem\<lparr>pb_Title := ''Sum'', pb_Slug := ''sum'', pb_Description := ''Add'', pb_Difficulty := 1,
     pb_TimeLimitMs := 2, pb_MemoryLimitKb := 3\<rparr>"

definition ex_created :: problem_state where
  "ex_created = snd (prob_Create ex_deps (ex_env []) (Some ex_admin) ex_input [''math'']
     [(ex_env (ex_revision CHR ''A''), \<lparr>cn_CaseNo = 1, cn_Input = ''i'', cn_Output = ''42''\<rparr>)] problem_start)"

definition ex_empty :: problem_state where
  "ex_empty = snd (prob_Create ex_deps (ex_env []) (Some ex_admin) ex_input [''math''] [] problem_start)"

definition ex_archive_case :: "problem_state \<Rightarrow> problem_state" where
  "ex_archive_case st = snd (prob_ArchiveTestcase ex_deps (ex_env (ex_revision CHR ''B'')) (Some ex_admin) 1 1 (ps_db st) (ps_db st) st)"

definition ex_relimit :: "problem_state \<Rightarrow> problem_state" where
  \<comment> \<open>other limits for the problem without test cases\<close>
  "ex_relimit st = snd (prob_Update ex_deps (ex_env []) (Some ex_admin) 1 (ex_input\<lparr>pb_TimeLimitMs := 4, pb_MemoryLimitKb := 5\<rparr>) []
     (ps_db st) (ps_db st) st)"

definition ex_lost :: problem_env where
  \<comment> \<open>the commit takes effect, but its answer is lost\<close>
  "ex_lost = (ex_env (ex_revision CHR ''C''))\<lparr>fails := (\<lambda>l. l = ''commit''), commit_lost := True\<rparr>"

definition ex_add :: "problem_env \<Rightarrow> int32 \<Rightarrow> problem_db \<Rightarrow> problem_state \<Rightarrow> (problem_error + Testcase) \<times> problem_state" where
  "ex_add env n db st = AddTestcase ex_deps env (Some ex_admin) 1 n ''x'' ''y'' db db st"

definition ex_archive :: "problem_state \<Rightarrow> problem_state" where
  "ex_archive st = snd (prob_Archive ex_deps (ex_env []) (Some ex_admin) 1 (ps_db st) st)"

definition ex_user :: rpc_context where
  "ex_user = \<lparr>rc_UserId = 2, rc_Roles = [''user'']\<rparr>"

definition ex_manifest :: Manifest where
  "ex_manifest = revision_manifest 1 (ex_revision CHR ''A'') 2 3 [new_testcase ex_deps (ex_env (ex_revision CHR ''A'')) 1 1 ''i'' ''42'']"

definition ex_loader :: loader_env where
  "ex_loader = \<lparr>le_get_object = (\<lambda>b k. if b = ''src'' then Inr ''main''
       else case map_of (ps_objects ex_created) k of None \<Rightarrow> Inl ''no such key'' | Some c \<Rightarrow> Inr c),
     le_sha256 = pq_sha256 ex_deps, le_ulid_ok = (\<lambda>s. True), le_json = (\<lambda>b. Some (enc_Manifest ex_manifest))\<rparr>"

definition ex_buckets :: Loader where
  "ex_buckets = \<lparr>ld_sourceBucket = ''src'', ld_problemBucket = ''prob''\<rparr>"

definition ex_task :: JudgeTask where
  "ex_task = \<lparr>jt_SubmissionID = 7, jt_ProblemID = 1, jt_Language = ''c'', jt_JudgeRevision = ex_revision CHR ''A'',
     jt_SourceObjectKey = ''sources/X/source.c'', jt_SourceSHA256 = replicate 64 (CHR ''0''), jt_SourceSizeBytes = 4,
     jt_JudgeDeadlineAt = 1000, jt_Attempt = 0\<rparr>"

definition ex_profile :: "problem_state \<Rightarrow> problem_error + Problem" where
  "ex_profile st = prob_GetJudgeProfile (ex_env []) 1 (ps_db st) (ps_db st)"

definition ex_problems :: "problem_state \<Rightarrow> (int64 \<times> int32 \<times> int32 \<times> string option \<times> string) list" where
  "ex_problems st = map (\<lambda>p. (pr_id p, pr_time_limit_ms p, pr_memory_limit_kb p, pr_active_judge_revision p, pr_status p)) (pd_problems (ps_db st))"

definition ex_cases :: "problem_state \<Rightarrow> (int64 \<times> int32 \<times> string) list" where
  "ex_cases st = map (\<lambda>r. (tr_problem_id r, tr_case_no r, tr_status r)) (pd_testcases (ps_db st))"

definition ex_failed :: "(problem_error + 'a) \<times> problem_state \<Rightarrow> bool \<times> nat" where
  \<comment> \<open>whether a request failed, and the number of test cases after it\<close>
  "ex_failed r = (isl (fst r), length (pd_testcases (ps_db (snd r))))"

definition ex_check :: "problem_state \<Rightarrow> bool" where
  "ex_check st \<longleftrightarrow> ex_problems st = [(1, 2, 3, Some (ex_revision CHR ''A''), status_normal)]
     \<and> map snd (ps_objects st) = [code_json (enc_Manifest ex_manifest), ''42'', ''i'', ''42'', ''i'']
     \<and> (case ex_profile st of Inl _ \<Rightarrow> False | Inr p \<Rightarrow> pb_ActiveJudgeRevision p = ex_revision CHR ''A'')
     \<and> ex_cases st = [(1, 1, testcase_active)] \<and> ex_cases (ex_archive_case st) = [(1, 1, testcase_archived)]
     \<and> ex_problems (ex_archive st) = [(1, 2, 3, Some (ex_revision CHR ''A''), status_archived)] \<and> ps_cache (ex_archive st) = []
     \<and> ex_failed (ex_add ex_lost 2 (ps_db st) st) = (True, 2)"

definition ex_check_race :: "problem_state \<Rightarrow> bool" where
  "ex_check_race st \<longleftrightarrow> (case pstore_FindByID (ex_env []) 1 (ps_db st) of Inl _ \<Rightarrow> False | Inr p \<Rightarrow> Problem.pb_Status p = 1)
     \<and> ex_problems st = [(1, 2, 3, None, status_normal)] \<and> ex_problems (ex_relimit st) = [(1, 4, 5, None, status_normal)]
     \<and> ex_failed (ex_add (ex_env (ex_revision CHR ''A'')) 1 (ps_db st) (ex_relimit st)) = (False, 1)"

section \<open>Lemmas\<close>

lemma code_nat_prefix: "code_nat m @ x = code_nat n @ y \<longleftrightarrow> m = n \<and> x = y"
proof (induction m arbitrary: n)
  case 0
  show ?case by (cases n) auto
next
  case (Suc m)
  then show ?case by (cases n) auto
qed

lemma code_int_prefix: "code_int i @ x = code_int j @ y \<longleftrightarrow> i = j \<and> x = y"
  by (auto simp: code_int_def code_nat_prefix)

lemma code_string_prefix: "code_string s @ x = code_string t @ y \<longleftrightarrow> s = t \<and> x = y"
proof (induction s arbitrary: t)
  case Nil
  show ?case by (cases t) auto
next
  case (Cons c s)
  then show ?case by (cases t) auto
qed

lemma code_json_prefix:
  "code_json j @ x = code_json k @ y \<Longrightarrow> j = k \<and> x = y"
  "code_jsons js @ x = code_jsons ks @ y \<Longrightarrow> js = ks \<and> x = y"
  "code_fields fs @ x = code_fields gs @ y \<Longrightarrow> fs = gs \<and> x = y"
proof (induction j and js and fs arbitrary: k x y and ks x y and gs x y rule: code_json_code_jsons_code_fields.induct)
  case 1
  then show ?case by (cases k) (auto split: if_splits)
next
  case (2 b)
  then show ?case by (cases k) (auto split: if_splits)
next
  case (3 i)
  then show ?case by (cases k) (auto simp: code_int_prefix split: if_splits)
next
  case (4 s)
  then show ?case by (cases k) (auto simp: code_string_prefix split: if_splits)
next
  case (5 s)
  then show ?case by (cases k) (auto simp: code_string_prefix split: if_splits)
next
  case (6 t)
  then show ?case by (cases k) (auto simp: code_int_prefix split: if_splits)
next
  case (7 xs)
  from "7.prems" show ?case by (cases k) (auto split: if_splits dest!: "7.IH")
next
  case (8 kvs)
  from "8.prems" show ?case by (cases k) (auto split: if_splits dest!: "8.IH")
next
  case 9
  then show ?case by (cases ks) auto
next
  case (10 a as)
  from "10.prems" show ?case by (cases ks) (auto dest!: "10.IH")
next
  case 11
  then show ?case by (cases gs) auto
next
  case (12 k v kvs)
  from "12.prems" show ?case by (cases gs) (auto simp: code_string_prefix dest!: "12.IH")
qed

lemma code_json_inj: "code_json j = code_json k \<Longrightarrow> j = k"
  using code_json_prefix(1) [of j "[]" k "[]"] by simp

lemma enc_Manifest_inj: "enc_Manifest m = enc_Manifest m' \<Longrightarrow> m = m'"
proof -
  assume e: "enc_Manifest m = enc_Manifest m'"
  have o: "enc_Object a = enc_Object b \<Longrightarrow> a = b" for a b by (cases a; cases b) (simp add: enc_Object_def)
  have t: "enc_Testcase a = enc_Testcase b \<Longrightarrow> a = b" for a b using o by (cases a; cases b) (simp add: enc_Testcase_def)
  have "inj enc_Testcase" using t by (simp add: inj_def)
  then show ?thesis using e by (cases m; cases m') (simp add: enc_Manifest_def inj_map_eq_map)
qed

lemma ex_text_inj: "manifest_text_inj ex_deps"
  unfolding manifest_text_inj_def ex_deps_def using code_json_inj enc_Manifest_inj by simp

lemma ex_created_run: "problem_run ex_deps ex_created {}"
  unfolding ex_created_def by (rule problem_run.create [OF problem_run.start, OF _ prod.collapse [symmetric]]) (simp add: ex_input_def empty_problem_def)

lemma ex_empty_run: "problem_run ex_deps ex_empty {}"
  unfolding ex_empty_def by (rule problem_run.create [OF problem_run.start, OF _ prod.collapse [symmetric]]) (simp add: ex_input_def empty_problem_def)

lemma ex_created_check: "ex_check ex_created"
  by code_simp

lemma ex_empty_check: "ex_check_race ex_empty"
  by code_simp

lemma ex_contents: "map snd (ps_objects ex_created) = [code_json (enc_Manifest ex_manifest), ''42'', ''i'', ''42'', ''i'']"
  using ex_created_check by (simp add: ex_check_def)

lemma ex_text_length: "int (length (code_json (enc_Manifest ex_manifest))) \<le> maxObjectSize"
  by code_simp

lemma ex_manifest_ranges: "manifest_ranges ex_manifest"
  by (simp add: manifest_ranges_def ex_manifest_def revision_manifest_def testcase_ranges_def manifest_entry_def new_testcase_def
      ManifestVersion_def max_int32_def max_int64_def min_int64_def)

lemma ex_served: "bucket_served ex_deps (ps_objects ex_created) ex_loader ex_buckets"
  unfolding bucket_served_def
proof (intro conjI allI impI)
  have c: "c \<in> {code_json (enc_Manifest ex_manifest), ''42'', ''i''}" if "map_of (ps_objects ex_created) k = Some c" for k c
    using map_of_SomeD [OF that] ex_contents by (force simp: image_iff dest: arg_cong [of _ _ set])
  show "le_get_object ex_loader (ld_problemBucket ex_buckets) k = Inr c" if "map_of (ps_objects ex_created) k = Some c" for k c
    using that by (simp add: ex_loader_def ex_buckets_def)
  show "int (length c) \<le> maxObjectSize" if "map_of (ps_objects ex_created) k = Some c" for k c
    using c [OF that] ex_text_length by (auto simp: maxObjectSize_def)
  show "manifest_ranges m" "le_json ex_loader (pq_json_text ex_deps (enc_Manifest m)) = Some (enc_Manifest m)"
    if "map_of (ps_objects ex_created) (manifest_key i r) = Some (pq_json_text ex_deps (enc_Manifest m))" for i r m
  proof -
    have "code_json (enc_Manifest m) = code_json (enc_Manifest ex_manifest)"
      using c [OF that] by (auto simp: ex_deps_def enc_Manifest_def)
    then have "m = ex_manifest" using code_json_inj enc_Manifest_inj by blast
    then show "manifest_ranges m" "le_json ex_loader (pq_json_text ex_deps (enc_Manifest m)) = Some (enc_Manifest m)"
      using ex_manifest_ranges by (simp_all add: ex_loader_def)
  qed
qed (simp add: ex_loader_def)

lemma ex_source: "source_ready ex_loader ex_buckets ex_task"
proof -
  have "validateSourceKey ex_loader ''sources/X/source.c'' ''c'' = None" by code_simp
  moreover have "JudgeTask_Validate ex_task = None" by code_simp
  moreover have "hex_encode (pq_sha256 ex_deps ''main'') = replicate 64 (CHR ''0'')" by code_simp
  moreover have "loader_read ex_loader ''src'' ''sources/X/source.c'' = Inr ''main''"
    by (simp add: loader_read_def MinIOReader_Get_def ex_loader_def limit_read_def maxObjectSize_def)
  ultimately show ?thesis
    by (simp add: source_ready_def ex_task_def ex_buckets_def verifyObject_def ex_loader_def maxSourceSize_def)
qed

lemma ex_problem:
  assumes "ex_problems st = [(i, t, m, r, s)]"
  obtains p where "pd_problems (ps_db st) = [p]" and "find_problem (ps_db st) i = Some p" and "pr_id p = i" and "pr_time_limit_ms p = t"
    and "pr_memory_limit_kb p = m" and "pr_active_judge_revision p = r" and "pr_status p = s"
  using assms by (auto simp: ex_problems_def find_problem_def)

lemma ex_archive_run: "problem_run ex_deps (ex_archive ex_created) {(ps_db ex_created, ps_db ex_created)}"
  unfolding ex_archive_def
  by (rule problem_run.archive [OF problem_run.read_problem [OF ex_created_run] _ prod.collapse [symmetric]]) simp

lemma ex_archive_rows: "rows_ok (ps_db (ex_archive ex_created))"
  using run_ok [OF ex_archive_run ex_text_inj] by (simp add: run_inv_def problems_ok_def)

end
