(* ===== verification/Problem_Properties.thy ===== *)
theory Problem_Properties
  imports Problem_Examples
begin

text \<open>
  What the problem service promises its clients: the active revision of a problem is complete and in step with
  its test cases, the worker can load every revision the judge was told of, archived problems are frozen and
  hidden. Then the cases the code does not handle.
\<close>

section \<open>Lemmas\<close>

subsection \<open>Loading a published revision\<close>

lemma served_read:
  "bucket_served deps objs lenv l \<Longrightarrow> map_of objs k = Some c \<Longrightarrow> loader_read lenv (ld_problemBucket l) k = Inr c"
proof -
  assume "bucket_served deps objs lenv l" "map_of objs k = Some c"
  then have "le_get_object lenv (ld_problemBucket l) k = Inr c" "int (length c) \<le> maxObjectSize" by (auto simp: bucket_served_def)
  then show ?thesis by (simp add: loader_read_def MinIOReader_Get_def limit_read_def Let_def)
qed

lemma served_object: "bucket_served deps objs lenv l \<Longrightarrow> object_ok deps objs ob \<Longrightarrow> \<exists>c. load_object lenv (ld_problemBucket l) ob = Inr c"
proof -
  assume s: "bucket_served deps objs lenv l" and "object_ok deps objs ob"
  then obtain c where c: "map_of objs (ob_ObjectKey ob) = Some c" "int (length c) = ob_SizeBytes ob" "hex_encode (pq_sha256 deps c) = ob_SHA256 ob"
    by (auto simp: object_ok_def)
  have "verifyObject lenv c (ob_SHA256 ob) (ob_SizeBytes ob) = None"
    using s c by (auto simp: verifyObject_def bucket_served_def)
  then show ?thesis using served_read [OF s c(1)] by (simp add: load_object_def)
qed

lemma validate_distinct:
  "validate_testcases seen ts = None \<Longrightarrow> distinct (map mt_CaseNo ts) \<and> set (map mt_CaseNo ts) \<inter> set seen = {}"
proof (induction seen ts rule: validate_testcases.induct)
  case (2 seen t ts)
  then show ?case by (auto split: if_splits option.splits)
qed simp

lemma published_cases_load:
  assumes s: "bucket_served deps objs lenv l" and keys: "testcase_prefix task = revision_prefix i r @ ''/testcases/''"
    and "\<forall>t \<in> set ts. object_ok deps objs (mt_Input t) \<and> object_ok deps objs (mt_Output t)"
    and "\<forall>t \<in> set ts. \<exists>item. t = manifest_entry (revision_prefix i r) item"
    and "sorted (map mt_CaseNo ts)" and "distinct (map mt_CaseNo ts)"
    and "case prev of None \<Rightarrow> True | Some n \<Rightarrow> \<forall>t \<in> set ts. n < mt_CaseNo t"
  shows "\<exists>cases. load_cases lenv l task prev ts = Inr cases \<and> map lc_CaseNo cases = map mt_CaseNo ts"
  using assms(3-)
proof (induction ts arbitrary: prev)
  case (Cons t ts)
  obtain a b where ab: "load_object lenv (ld_problemBucket l) (mt_Input t) = Inr a" "load_object lenv (ld_problemBucket l) (mt_Output t) = Inr b"
    using served_object [OF s] Cons.prems(1) by fastforce
  have "ob_ObjectKey (mt_Input t) = testcase_prefix task @ format_int (mt_CaseNo t) @ ''.in''"
    "ob_ObjectKey (mt_Output t) = testcase_prefix task @ format_int (mt_CaseNo t) @ ''.out''"
    using Cons.prems(2) keys by (auto simp: manifest_entry_def)
  moreover have "\<forall>u \<in> set ts. mt_CaseNo t < mt_CaseNo u" using Cons.prems(3,4) by (force simp: less_le)
  then obtain cases where "load_cases lenv l task (Some (mt_CaseNo t)) ts = Inr cases" "map lc_CaseNo cases = map mt_CaseNo ts"
    using Cons.IH [of "Some (mt_CaseNo t)"] Cons.prems by auto
  moreover have "\<not> (case prev of None \<Rightarrow> False | Some p \<Rightarrow> p \<ge> mt_CaseNo t)" using Cons.prems(5) by (auto split: option.splits)
  ultimately show ?case using ab by (simp add: Let_def)
qed simp

lemma published_loads:
  assumes s: "bucket_served deps objs lenv l" and p: "published deps objs i r m" and src: "source_ready lenv l task"
    and task: "jt_ProblemID task = i" "jt_JudgeRevision task = r"
  shows "\<exists>loaded. Loader_Load lenv l task = Inr loaded \<and> lt_Manifest loaded = m \<and> map lc_CaseNo (lt_Cases loaded) = map mt_CaseNo (mf_Testcases m)"
proof -
  have v: "Manifest_Validate m = None" and id: "mf_ProblemID m = i" "mf_JudgeRevision m = r"
    and obj: "map_of objs (manifest_key i r) = Some (pq_json_text deps (enc_Manifest m))"
    using p by (auto simp: published_def)
  have k: "ManifestObjectKey i r = Inr (manifest_key i r)"
    using v id by (auto simp: ManifestObjectKey_def manifest_key_def revision_prefix_def Manifest_Validate_def split: if_splits)
  have rg: "manifest_ranges m \<and> le_json lenv (pq_json_text deps (enc_Manifest m)) = Some (enc_Manifest m)"
    using s obj unfolding bucket_served_def by blast
  have mf: "load_manifest lenv l task = Inr m"
    using k v id task served_read [OF s obj] rg by (simp add: load_manifest_def dec_enc_Manifest)
  have "distinct (map mt_CaseNo (mf_Testcases m))"
    using v validate_distinct by (auto simp: Manifest_Validate_def split: if_splits)
  then have "\<exists>cases. load_cases lenv l task None (mf_Testcases m) = Inr cases \<and> map lc_CaseNo cases = map mt_CaseNo (mf_Testcases m)"
    using p task by (intro published_cases_load [OF s, of task i r]) (auto simp: published_def testcase_prefix_def revision_prefix_def)
  then show ?thesis using src mf by (auto simp: Loader_Load_def source_ready_def)
qed

subsection \<open>Adding a test case\<close>

lemma AddTestcase_cases:
  assumes "AddTestcase deps env ctx i n input out db0 db1 st = (res, st')"
  obtains (refused) "st' = st" and "\<And>t. res \<noteq> Inr t"
  | (add) p p0 where "find_problem db0 i = Some p0" and "row_read p p0" and "pb_ID p = i"
      and "addTestcaseToProblem deps env p n input out db1 st = (res, st')"
proof -
  from assms consider (none) "st' = st" "\<And>t. res \<noteq> Inr t"
    | (add) p where "pstore_FindByID env i db0 = Inr p" "addTestcaseToProblem deps env p n input out db1 st = (res, st')"
    by (auto simp: AddTestcase_def split: option.splits sum.splits if_splits)
  then show ?thesis
  proof cases
    case none
    then show ?thesis by (rule refused)
  next
    case (add p)
    obtain p0 where "find_problem db0 i = Some p0" "row_read p p0" "pr_id p0 = i" using row_readI [OF add(1)] by blast
    then show ?thesis using that(2) [of p0 p] add(2) by (simp add: row_read_def)
  qed
qed

lemma PutImmutable_other: "PutImmutable env key c objs = (b, objs') \<Longrightarrow> k \<noteq> key \<Longrightarrow> map_of objs' k = map_of objs k"
  by (auto simp: PutImmutable_def Let_def split: if_splits)

lemma missing_upload_fails:
  "\<exists>i n u e. k = upload_key i n u e \<Longrightarrow> t \<in> set ts \<Longrightarrow> tc_InputObjectKey t = k \<Longrightarrow> map_of objs k = None \<Longrightarrow>
     \<exists>e. fst (publish_cases deps env (revision_prefix j r) ts objs) = Inl e"
proof (induction ts arbitrary: objs)
  case (Cons a ts)
  let ?pre = "revision_prefix j r"
  show ?case
  proof (cases "t = a")
    case True
    then have "\<exists>e. readVerifiedObject deps env (tc_InputObjectKey a) (tc_InputSHA256 a) (tc_InputSizeBytes a) objs = Inl e"
      using Cons.prems by (simp add: readVerifiedObject_def object_Get_def)
    then show ?thesis by auto
  next
    case False
    have other: "k \<noteq> revision_prefix j r @ x" for x using Cons.prems(1) upload_not_revision by auto
    have put: "map_of objs2 k = None"
      if "PutImmutable env (ob_ObjectKey (mt_Input (manifest_entry ?pre a))) c objs = (b1, objs1)"
        "PutImmutable env (ob_ObjectKey (mt_Output (manifest_entry ?pre a))) d objs1 = (b2, objs2)" for c d b1 b2 objs1 objs2
      using PutImmutable_other [OF that(1)] PutImmutable_other [OF that(2)] Cons.prems(4) other by (simp add: manifest_entry_keys)
    have ih: "\<exists>e. fst (publish_cases deps env ?pre ts objs2) = Inl e" if "map_of objs2 k = None" for objs2
      using Cons.IH [OF Cons.prems(1) _ Cons.prems(3) that] Cons.prems(2) False by simp
    show ?thesis
    proof (rule ccontr)
      assume "\<nexists>e. fst (publish_cases deps env ?pre (a # ts) objs) = Inl e"
      then obtain es objs3 where "publish_cases deps env ?pre (a # ts) objs = (Inr es, objs3)" by (metis old.sum.exhaust prod.collapse)
      then obtain c d objs1 objs2 es' where st: "PutImmutable env (ob_ObjectKey (mt_Input (manifest_entry ?pre a))) c objs = (True, objs1)"
        "PutImmutable env (ob_ObjectKey (mt_Output (manifest_entry ?pre a))) d objs1 = (True, objs2)"
        "publish_cases deps env ?pre ts objs2 = (Inr es', objs3)"
        by (auto simp: Let_def split: sum.splits prod.splits bool.splits)
      show False using ih [OF put [OF st(1,2)]] st(3) by simp
    qed
  qed
qed simp

lemma missing_upload_unpublishable:
  assumes "k = upload_key i n u e" and "t \<in> set items" and "tc_InputObjectKey t = k" and "map_of objs k = None"
  shows "\<exists>err. fst (publishRevision deps env p items objs) = Inl err"
proof -
  have "\<exists>e. fst (publish_cases deps env (revision_prefix (pb_ID p) (pe_revision env)) (sort_key tc_CaseNo items) objs) = Inl e"
    by (rule missing_upload_fails [of k t]) (use assms in auto)
  then show ?thesis by (auto simp: publishRevision_def Let_def split: sum.splits prod.splits)
qed

subsection \<open>Archived problems\<close>

lemma mapE_images: "mapE f xs = Inr ys \<Longrightarrow> y \<in> set ys \<Longrightarrow> \<exists>x \<in> set xs. f x = Inr y"
  by (induction xs arbitrary: ys) (auto simp: bindE_def split: sum.splits)

lemma summary_id: "summary_of_row r = Inr p \<Longrightarrow> pb_ID p = pr_id r"
  by (auto simp: summary_of_row_def split: option.splits)

lemma run_tx_refused:
  "(\<And>a s'. body s \<noteq> Inr (a, s')) \<Longrightarrow> snd (run_tx env err body s) = s \<and> (\<exists>e. fst (run_tx env err body s) = Inl e)"
  by (auto simp: run_tx_def split: sum.splits prod.splits)

section \<open>Properties\<close>





text \<open>
  A test case number of a problem is used once: a request that adds a test case with a number the problem
  ever had, archived ones included, is refused and the tables stay as they are. The check before the commit
  looks at active test cases only, so the whole publication is done first.
\<close>

theorem case_number_never_reused:
  assumes "r \<in> set (pd_testcases (ps_db st))" and "tr_problem_id r = i" and "tr_case_no r = n"
  shows "(\<exists>e. fst (AddTestcase deps env ctx i n input out db0 db1 st) = Inl e) \<and> ps_db (snd (AddTestcase deps env ctx i n input out db0 db1 st)) = ps_db st"
proof -
  obtain res st' where a: "AddTestcase deps env ctx i n input out db0 db1 st = (res, st')" by fastforce
  have "(\<exists>e. res = Inl e) \<and> ps_db st' = ps_db st"
  proof (cases rule: AddTestcase_cases [OF a])
    case 1
    then show ?thesis by (cases res) auto
  next
    case (2 p p0)
    from 2(4) show ?thesis
    proof (cases rule: addTestcase_cases)
      case same
      then show ?thesis by (cases res) auto
    next
      case (commit objs items v objs')
      let ?t = "new_testcase deps env (pb_ID p) n input out"
      have "case_taken ?t (ps_db st)" using assms 2(3) by (auto simp: case_taken_def new_testcase_def)
      then have "commit_added_tx env ?t v (pb_ActiveJudgeRevision p) (ps_db st) \<noteq> Inr (x, db')" for x db'
        by (auto simp: commit_added_tx_def insert_testcase_def psql_def)
      then show ?thesis using run_tx_refused commit(4) unfolding CommitAddedTestcase_def by (metis fst_conv snd_conv)
    qed
  qed
  then show ?thesis using a by simp
qed

theorem case_number_never_reused_witness:
  "(\<exists>e. fst (ex_add (ex_env (ex_revision CHR ''C'')) 1 (ps_db ex_created) (ex_archive_case ex_created)) = Inl e)
     \<and> ex_cases (ex_archive_case ex_created) = [(1, 1, testcase_archived)]"
proof -
  have c: "ex_cases (ex_archive_case ex_created) = [(1, 1, testcase_archived)]" using ex_created_check by (simp add: ex_check_def)
  then obtain r where "r \<in> set (pd_testcases (ps_db (ex_archive_case ex_created)))" "tr_problem_id r = 1" "tr_case_no r = 1"
    by (auto simp: ex_cases_def)
  from case_number_never_reused [OF this] c show ?thesis by (simp add: ex_add_def)
qed

text \<open>
  C36. The revision that a new test case activates has the limits the request read, while the problem keeps the
  limits of the moment of the commit. They agree when the revision was active at the read; a problem without
  active revision can get another limit in between by a request to another instance.
\<close>

theorem published_limits_are_those_read:
  assumes add: "AddTestcase deps env ctx i n input out db0 db1 st = (Inr t, st')"
    and p0: "find_problem db0 i = Some p0" and p: "find_problem (ps_db st) i = Some p"
  shows "\<exists>p' r m. find_problem (ps_db st') i = Some p' \<and> pr_active_judge_revision p' = Some r
    \<and> pr_time_limit_ms p' = pr_time_limit_ms p \<and> pr_memory_limit_kb p' = pr_memory_limit_kb p
    \<and> published deps (ps_objects st') i r m \<and> mf_TimeLimitMS m = pr_time_limit_ms p0 \<and> mf_MemoryLimitKB m = pr_memory_limit_kb p0"
proof (cases rule: AddTestcase_cases [OF add])
  case 1
  then show ?thesis by blast
next
  case (2 q q0)
  from 2(4) show ?thesis
  proof (cases rule: addTestcase_cases)
    case same
    then show ?thesis by blast
  next
    case (commit objs items r objs')
    let ?t = "new_testcase deps env (pb_ID q) n input out"
    have t: "tc_ProblemID ?t = i" "tc_Status ?t = 1" by (simp_all add: new_testcase_def 2(3))
    note pubI = publishRevision_Inr [OF commit(3)]
    have "commit_added_tx env ?t r (pb_ActiveJudgeRevision q) (ps_db st) = Inr (t, ps_db st')"
      using commit(4) by (simp add: CommitAddedTestcase_def run_tx_ok)
    then obtain pc where pc: "find_problem (ps_db st) i = Some pc"
      and pr: "pd_problems (ps_db st') = pd_problems (set_problem i (pc\<lparr>pr_active_judge_revision := revision_of_text r, pr_updated_at := utc_timestamp3 env\<rparr>) (ps_db st))"
      by (rule commit_added_Inr [OF _ t(2), unfolded t(1)]) (rule that; assumption)
    have "find_problem (ps_db st') i = Some (p\<lparr>pr_active_judge_revision := Some r, pr_updated_at := utc_timestamp3 env\<rparr>)"
      using find_problem_set [of "pc\<lparr>pr_active_judge_revision := revision_of_text r, pr_updated_at := utc_timestamp3 env\<rparr>" i "ps_db st" i]
        find_problem_Some [OF pc] pc p pr pubI(5) by (auto simp: find_problem_def revision_of_text_def)
    moreover have "published deps (ps_objects st') i r (revision_manifest i r (pr_time_limit_ms p0) (pr_memory_limit_kb p0) (sort_key tc_CaseNo (items @ [?t])))"
      using published_kept [OF pubI(2) commit(5)] 2(1-3) p0 by (simp add: row_read_def)
    ultimately show ?thesis
      by (intro exI [of _ "p\<lparr>pr_active_judge_revision := Some r, pr_updated_at := utc_timestamp3 env\<rparr>"] exI [of _ r]
          exI [of _ "revision_manifest i r (pr_time_limit_ms p0) (pr_memory_limit_kb p0) (sort_key tc_CaseNo (items @ [?t]))"]) simp
  qed
qed

theorem published_limits_are_those_read_witness:
  "\<exists>(st :: problem_state) p r m. find_problem (ps_db st) 1 = Some p \<and> pr_active_judge_revision p = Some r \<and> pr_time_limit_ms p = 4
     \<and> published ex_deps (ps_objects st) 1 r m \<and> mf_TimeLimitMS m = 2"
proof -
  note chk = ex_empty_check [unfolded ex_check_race_def]
  obtain p0 where p0: "find_problem (ps_db ex_empty) 1 = Some p0" "pr_time_limit_ms p0 = 2" using chk by (blast elim: ex_problem)
  obtain p where p: "find_problem (ps_db (ex_relimit ex_empty)) 1 = Some p" "pr_time_limit_ms p = 4" using chk by (blast elim: ex_problem)
  obtain t st where a: "ex_add (ex_env (ex_revision CHR ''A'')) 1 (ps_db ex_empty) (ex_relimit ex_empty) = (Inr t, st)"
    using chk unfolding ex_failed_def by (metis Pair_inject isl_def old.sum.exhaust prod.collapse)
  from published_limits_are_those_read [OF a [unfolded ex_add_def] p0(1) p(1)] show ?thesis unfolding p0(2) p(2) by blast
qed

text \<open>
  C34. When the commit of a new test case reports an error although it took effect, the request deletes the
  uploads of the test case that is now active: its input is gone, and every later revision that contains the
  test case cannot be published, until it is archived.
\<close>

theorem lost_commit_loses_uploads:
  assumes add: "AddTestcase deps env ctx i n input out db0 db1 st = (Inl e, st')" and changed: "ps_db st' \<noteq> ps_db st"
    and deletes: "\<And>k. \<not> pe_delete_fails env k"
  shows "\<exists>row \<in> set (pd_testcases (ps_db st')). tr_problem_id row = i \<and> tr_case_no row = n \<and> tr_status row = testcase_active
    \<and> map_of (ps_objects st') (tr_input_object_key row) = None
    \<and> (\<forall>env' p items objs. scanned row \<in> set items \<longrightarrow> map_of objs (tr_input_object_key row) = None \<longrightarrow>
         (\<exists>err. fst (publishRevision deps env' p items objs) = Inl err))"
proof (cases rule: AddTestcase_cases [OF add])
  case 1
  then show ?thesis using changed by simp
next
  case (2 p p0)
  let ?t = "new_testcase deps env (pb_ID p) n input out"
  let ?k = "upload_key i n (pe_upload_id env) ''.in''"
  have gone: "map_of (ps_objects st') ?k = None"
    using 2(3,4) deletes changed
    by (auto simp: addTestcaseToProblem_def new_testcase_def Let_def object_Delete_def map_of_filter_key simp del: filter_filter split: prod.splits bool.splits sum.splits)
  from 2(4) show ?thesis
  proof (cases rule: addTestcase_cases)
    case same
    then show ?thesis using changed by simp
  next
    case (commit objs items r objs')
    have t: "tc_Status ?t = 1" by (simp add: new_testcase_def)
    obtain x where "commit_added_tx env ?t r (pb_ActiveJudgeRevision p) (ps_db st) = Inr (x, ps_db st')"
      using run_tx_atomic [OF commit(4) [unfolded CommitAddedTestcase_def]] changed by auto
    then obtain row where row: "pd_testcases (ps_db st') = pd_testcases (ps_db st) @ [row]" "tr_status row = testcase_active"
      "tr_problem_id row = tc_ProblemID ?t" "tr_case_no row = tc_CaseNo ?t" "tr_input_object_key row = tc_InputObjectKey ?t"
      by (rule commit_added_Inr [OF _ t]) (rule that; assumption)
    have k: "tr_input_object_key row = ?k" "tr_problem_id row = i" "tr_case_no row = n" using row(3-5) 2(3) by (simp_all add: new_testcase_def)
    have "tc_InputObjectKey (scanned row) = ?k" using row(2) k(1) by (simp add: scanned_def scanTestcase_def)
    then show ?thesis using row(1,2) k gone missing_upload_unpublishable [of ?k i n "pe_upload_id env" "''.in''" "scanned row"]
      by (intro bexI [of _ row]) auto
  qed
qed

theorem lost_commit_loses_uploads_witness:
  "\<exists>row \<in> set (pd_testcases (ps_db (snd (ex_add ex_lost 2 (ps_db ex_created) ex_created)))). tr_case_no row = 2 \<and> tr_status row = testcase_active
     \<and> map_of (ps_objects (snd (ex_add ex_lost 2 (ps_db ex_created) ex_created))) (tr_input_object_key row) = None"
proof -
  note chk = ex_created_check [unfolded ex_check_def]
  obtain e st where a: "ex_add ex_lost 2 (ps_db ex_created) ex_created = (Inl e, st)" and n: "length (pd_testcases (ps_db st)) = 2"
    using chk unfolding ex_failed_def by (metis Pair_inject isl_def prod.collapse)
  have "length (ex_cases ex_created) = 1" using chk by simp
  then have "ps_db st \<noteq> ps_db ex_created" using n by (auto simp: ex_cases_def)
  moreover have "\<not> pe_delete_fails ex_lost k" for k by (simp add: ex_lost_def ex_env_def)
  ultimately show ?thesis using lost_commit_loses_uploads [OF a [unfolded ex_add_def]] a by fastforce
qed

text \<open>
  C35. Archiving a test case of a problem that has no active test case panics: in every reached state, for a problem
  without active revision, the request allocates a slice with capacity -1. The server has no recovery handler, so a
  repeated archive request for the last test case ends the process.
\<close>

theorem archive_without_testcases_panics:
  assumes run: "problem_run deps st R" and inj: "manifest_text_inj deps"
    and row: "find_problem (ps_db st) i = Some row" "pr_active_judge_revision row = None"
    and admin: "problem_requireAdmin ctx = None" and reads: "\<not> fails env ''select testcases''"
    and p: "pstore_FindByID env i (ps_db st) = Inr p" "Problem.pb_Status p = PROBLEM_STATUS_NORMAL"
  shows "prob_ArchiveTestcase deps env ctx i testcaseID (ps_db st) (ps_db st) st = (Inl (PPanic ''makeslice: cap out of range''), st)"
proof -
  have ok: "problems_ok deps (ps_db st) (ps_objects st)" using run_ok [OF run inj] by (simp add: run_inv_def)
  then have "problem_ok deps (ps_objects st) (ps_db st) row" using row(1) by (auto simp: problems_ok_iff)
  then have "items_of (ps_db st) i = []" using row find_problem_Some [OF row(1)] by (simp add: problem_ok_def)
  then have "pstore_ListTestcases env i False (ps_db st) = Inr []"
    using reads by (simp add: pstore_ListTestcases_def psql_def stmtE_def items_of_def)
  then show ?thesis using admin p by (simp add: prob_ArchiveTestcase_def)
qed

theorem archive_without_testcases_panics_witness:
  "prob_ArchiveTestcase ex_deps (ex_env []) (Some ex_admin) 1 1 (ps_db ex_empty) (ps_db ex_empty) ex_empty
     = (Inl (PPanic ''makeslice: cap out of range''), ex_empty)"
proof -
  note chk = ex_empty_check [unfolded ex_check_race_def]
  obtain row where row: "find_problem (ps_db ex_empty) 1 = Some row" "pr_active_judge_revision row = None" using chk by (blast elim: ex_problem)
  obtain p where p: "pstore_FindByID (ex_env []) 1 (ps_db ex_empty) = Inr p" "Problem.pb_Status p = PROBLEM_STATUS_NORMAL"
    using chk by (auto simp: PROBLEM_STATUS_NORMAL_def split: sum.splits)
  have admin: "problem_requireAdmin (Some ex_admin) = None" by code_simp
  show ?thesis
    by (rule archive_without_testcases_panics [OF ex_empty_run ex_text_inj row admin _ p]) (simp add: ex_env_def)
qed

text \<open>
  C32. An archived problem is frozen: whatever a request read before, no change of its test cases, its statement
  or its status reaches the tables.
\<close>

theorem archived_problem_is_frozen:
  assumes p: "find_problem (ps_db st) i = Some p" and archived: "pr_status p = status_archived"
  shows "ps_db (snd (AddTestcase deps env ctx i n input out db0 db1 st)) = ps_db st
    \<and> ps_db (snd (prob_ArchiveTestcase deps env ctx i testcaseID db0 db1 st)) = ps_db st
    \<and> ps_db (snd (prob_Update deps env ctx i problem tags db0 db1 st)) = ps_db st
    \<and> ps_db (snd (prob_Archive deps env ctx i db0 st)) = ps_db st"
proof -
  have lock: "lockPublishableProblem env i x (ps_db st) \<noteq> None" for x using p archived by (simp add: lockPublishableProblem_def)
  have c: "snd (CommitArchivedTestcase env i testcaseID v x (ps_db st)) = ps_db st" for v x
    using lock [of x] by (auto simp: CommitArchivedTestcase_def commit_archived_tx_def errE_def run_tx_def)
  have a: "snd (CommitAddedTestcase env t v x (ps_db st)) = ps_db st" if "tc_ProblemID t = i" for t v x
    using lock [of x] that by (auto simp: CommitAddedTestcase_def commit_added_tx_def errE_def run_tx_def)
  have u: "snd (pstore_Update env q tgs x (ps_db st)) = ps_db st" if "pb_ID q = i" for q tgs x
    using run_tx_refused [of "update_problem_tx env q tgs x" "ps_db st" env PSql] p archived that
    by (auto simp: pstore_Update_def update_problem_tx_def psql_def Let_def)
  have su: "ps_db (snd (store_updated deps env q tgs x s)) = ps_db st" if "pb_ID q = i" "ps_db s = ps_db st" for q tgs x s
    using u [OF that(1), of "normalizeTags tgs" x] that(2) by (auto simp: store_updated_def split: prod.splits sum.splits)
  obtain res st' where add: "AddTestcase deps env ctx i n input out db0 db1 st = (res, st')" by fastforce
  have "ps_db st' = ps_db st"
  proof (cases rule: AddTestcase_cases [OF add])
    case (2 q q0)
    from 2(4) show ?thesis
    proof (cases rule: addTestcase_cases)
      case (commit objs items r objs')
      then show ?thesis using a [of "new_testcase deps env (pb_ID q) n input out" r "pb_ActiveJudgeRevision q"] 2(3)
        by (simp add: new_testcase_def)
    qed
  qed simp
  moreover have "ps_db (snd (prob_ArchiveTestcase deps env ctx i testcaseID db0 db1 st)) = ps_db st"
    using c by (auto simp: prob_ArchiveTestcase_def Let_def split: option.splits sum.splits prod.splits) (metis snd_conv)+
  moreover have "ps_db (snd (prob_Update deps env ctx i problem tags db0 db1 st)) = ps_db st"
    using su by (auto simp: prob_Update_def Let_def merged_simps split: option.splits sum.splits prod.splits)
  moreover have "ps_db (snd (prob_Archive deps env ctx i db0 st)) = ps_db st"
    using p archived by (auto simp: prob_Archive_def pstore_Archive_def exec_auto_def Let_def split: option.splits sum.splits prod.splits)
  ultimately show ?thesis using add by simp
qed

theorem archived_problem_is_frozen_witness:
  "ps_db (snd (ex_add (ex_env (ex_revision CHR ''B'')) 2 (ps_db ex_created) (ex_archive ex_created))) = ps_db (ex_archive ex_created)"
proof -
  obtain p where p: "find_problem (ps_db (ex_archive ex_created)) 1 = Some p" "pr_status p = status_archived"
    using ex_created_check unfolding ex_check_def by (blast elim: ex_problem)
  show ?thesis unfolding ex_add_def by (rule conjunct1 [OF archived_problem_is_frozen [OF p]])
qed

text \<open>
  C33. An archived problem is hidden from users without the admin role: neither the list nor a batch contains it,
  the judge gets no profile of it, and a single read answers "not found" or another error unless the cache still
  has an entry of it.
\<close>

theorem archived_problem_is_hidden:
  assumes rows: "rows_ok (ps_db st)" and p: "find_problem (ps_db st) i = Some p" and archived: "pr_status p = status_archived"
    and user: "problem_requireAdmin ctx \<noteq> None"
  shows "(\<forall>env page pageSize pg. prob_List env ctx page pageSize (ps_db st) = Inr pg \<longrightarrow> i \<notin> pb_ID ` set (pp_Items pg))
    \<and> (\<forall>env ids items. prob_BatchGet env ctx ids (ps_db st) = Inr items \<longrightarrow> i \<notin> pb_ID ` set items)
    \<and> (\<forall>env db1. \<exists>e. prob_GetJudgeProfile env i (ps_db st) db1 = Inl e)
    \<and> (map_of (ps_cache st) (problem_key (pq_namespace deps) i) = None \<longrightarrow> (\<exists>e. fst (prob_Get deps env ctx i st) = Inl e))"
proof -
  have only: "r = p" if "r \<in> set (pd_problems (ps_db st))" "pr_id r = i" for r
    using find_problem_in [OF rows that(1)] that(2) p by simp
  have invisible: "i \<notin> pb_ID ` set items" if m: "mapE summary_of_row rs = Inr items"
    and v: "\<And>r. r \<in> set rs \<Longrightarrow> r \<in> set (pd_problems (ps_db st)) \<and> visible_row False r" for rs items
  proof
    assume "i \<in> pb_ID ` set items"
    then obtain x where x: "x \<in> set items" "pb_ID x = i" by auto
    then obtain r where "r \<in> set rs" "summary_of_row r = Inr x" using mapE_images [OF m] by blast
    then show False using v only summary_id x(2) archived by (fastforce simp: visible_row_def)
  qed
  have status: "enum_value ProblemStatus_name (pr_status r) = Some (Problem.pb_Status q)" "r = p"
    if "pstore_FindByID env i (ps_db st) = Inr q" "find_problem (ps_db st) i = Some r" for env q r
    using row_readI [OF that(1)] that(2) p by auto
  have found: "Problem.pb_Status q = PROBLEM_STATUS_ARCHIVED" if "pstore_FindByID env i (ps_db st) = Inr q" for env q
    using status [OF that p] archived by simp
  have l: "i \<notin> pb_ID ` set (pp_Items pg)" if "prob_List env ctx page pageSize (ps_db st) = Inr pg" for env page pageSize pg
  proof -
    note list = that
    obtain c where c: "ctx = Some c" using list by (cases ctx) (simp_all add: prob_List_def)
    obtain a b n where "pstore_List env a b False (ps_db st) = Inr (pp_Items pg, n)"
      using list user by (auto simp: c prob_List_def Let_def)
    then obtain k m where "mapE summary_of_row (take k (drop m (sort_key pr_id (filter (visible_row False) (pd_problems (ps_db st)))))) = Inr (pp_Items pg)"
      by (auto simp: pstore_List_def psql_def Let_def)
    note inv = invisible [OF this]
    show ?thesis by (rule inv) (auto dest!: in_set_takeD in_set_dropD)
  qed
  have b: "i \<notin> pb_ID ` set items" if "prob_BatchGet env ctx ids (ps_db st) = Inr items" for env ids items
    using that user by (auto simp: prob_BatchGet_def pstore_BatchGet_def psql_def split: option.splits if_splits dest!: invisible)
  have g: "\<exists>e. prob_GetJudgeProfile env i (ps_db st) db1 = Inl e" for env db1
    using found [of env] by (cases "pstore_FindByID env i (ps_db st)") (auto simp: prob_GetJudgeProfile_def PROBLEM_STATUS_ARCHIVED_def PROBLEM_STATUS_NORMAL_def guardE_def)
  have get: "\<exists>e. fst (prob_Get deps env ctx i st) = Inl e" if "map_of (ps_cache st) (problem_key (pq_namespace deps) i) = None"
    using found [of env] that user
    by (cases "pstore_FindByID env i (ps_db st)") (auto simp: prob_Get_def cached_find_def pcache_Get_def split: option.splits)
  show ?thesis using l b g get by blast
qed

theorem archived_problem_is_hidden_witness:
  "\<exists>e. fst (prob_Get ex_deps (ex_env []) (Some ex_user) 1 (ex_archive ex_created)) = Inl e"
proof -
  obtain p where p: "find_problem (ps_db (ex_archive ex_created)) 1 = Some p" "pr_status p = status_archived"
    using ex_created_check unfolding ex_check_def by (blast elim: ex_problem)
  have "ps_cache (ex_archive ex_created) = []" using ex_created_check by (simp add: ex_check_def)
  moreover have "problem_requireAdmin (Some ex_user) \<noteq> None" by code_simp
  ultimately show ?thesis using archived_problem_is_hidden [OF ex_archive_rows p] by fastforce
qed

end
