(* ===== verification/Spec2Isabelle.thy ===== *)
theory Spec2Isabelle
  imports Judge_Usecase Judge_Outbox Worker_Consumer Contest_Usecase Contest_Relay User_Accounts User_Sessions
    Problem_Properties
begin

text \<open>
  \<^bold>\<open>Verification of the online-judge services.\<close>

  \<^bold>\<open>The program.\<close> Users submit programs for problems and contests. The judge service
  (\<open>src/services/judge\<close>) stores a submission and, in the same transaction, an event in its outbox; a relay
  publishes the events on RabbitMQ. A judge worker (\<open>src/services/judge-worker\<close>) takes a task, loads and
  verifies source and test data from the object store, compiles and runs the program in the go-judge
  sandbox, compares the outputs and publishes a result or a failure; retries go through a delay queue. The
  judge service applies the result and, for contest submissions, announces the verdict. The contest
  service (\<open>src/services/contest\<close>) projects the announced verdicts into facts, scores and totals, writes
  each new total into a cache outbox, and a relay copies the totals into a Redis leaderboard. The problem
  service (\<open>src/services/problem\<close>) keeps problems and test cases in MySQL and publishes each state of the test
  cases as an immutable judge revision in the bucket the worker reads. The user
  service (\<open>src/services/user\<close>) keeps accounts and roles in MySQL and refresh tokens in Redis. The message
  formats are shared (\<open>src/pkg/mq\<close>, \<open>src/pkg/judge\<close>).

  \<^bold>\<open>Conventions.\<close> Go's \<open>int32\<close>, \<open>int64\<close> and durations are \<open>int\<close> with \<open>wrap32\<close> and \<open>wrap64\<close> where
  the code computes; times are nanoseconds; strings and byte slices are \<open>string\<close>; errors are the left side
  of a sum or an option. JSON is a datatype with Go's rules for field names, missing and duplicate fields
  (\<open>Json\<close>). A transaction is a function from the tables to an error or to new tables; an environment
  says which statements fail, whether a commit that reports an error took effect, and what the clocks show
  (\<open>Sql_Tx\<close>, \<open>Contest_Db\<close>). Calls to the sandbox, the broker and the clock are answered by an environment
  and recorded in a history (\<open>Worker_Base\<close>, \<open>Worker_Sandbox\<close>). Code that is not in the repository is an
  argument: SHA-256, UUID parsing, the object store, the text of a JSON value, password hashing and signatures.

  \<^bold>\<open>Theories and sources.\<close>
  \<^item> \<open>Go_Prelude\<close>, \<open>Json\<close>, \<open>Sql_Tx\<close>: integers, strings, error combinators, JSON, transactions, and the
    locale \<open>idempotent_consumer\<close>, the contract of a consumer that records what it processed. Both result
    consumers interpret it: \<open>ApplyJudgeResult\<close> (\<open>Judge_Store_Props\<close>) and \<open>ApplyProjection\<close>
    (\<open>Contest_Projection_Facts\<close>).
  \<^item> \<open>Mq\<close> (\<open>pkg/mq/judge.go\<close>, \<open>envelope.go\<close>, \<open>submission.go\<close>), \<open>Manifest_Json\<close> (\<open>pkg/judge/manifest.go\<close>):
    payloads, validation, routing keys, encoding and decoding with their round trips.
  \<^item> \<open>Judge_Types\<close> (\<open>biz/submission.go\<close>, \<open>state_machine.go\<close>, \<open>errors.go\<close>), \<open>Judge_Result\<close>
    (\<open>biz/result_consumer.go\<close>), \<open>Judge_Db\<close> and \<open>Judge_Store\<close> (\<open>data/submission_repo.go\<close>): the tables and
    every transaction. \<open>Judge_Store_Facts\<close>, \<open>Judge_Store_Inv\<close>, \<open>Judge_Store_Props\<close>: what a committed
    transaction does, the invariant of the tables over all interleavings, and the properties of results,
    creation and rejudging. \<open>Judge_Usecase\<close> (\<open>biz/submission.go\<close>, \<open>data/source_store.go\<close>,
    \<open>problem_client.go\<close>): requests and access rules. \<open>Judge_Outbox\<close> (\<open>biz/outbox.go\<close>,
    \<open>message/rabbitmq.go\<close>): the relay, its leases, delays and queues.
  \<^item> \<open>Comparator\<close> (\<open>comparator/text.go\<close>), \<open>Worker_Base\<close> (\<open>biz/types.go\<close>, \<open>errors.go\<close>), \<open>Worker_Sandbox\<close>
    (\<open>sandbox\<close>, \<open>language\<close>), \<open>Worker_Loader\<close> (\<open>storage\<close>), \<open>Worker_Engine\<close> (\<open>biz/engine.go\<close>),
    \<open>Worker_Engine_Props\<close>, \<open>Worker_Consumer\<close> (\<open>message\<close>): one execution from the task to its outcome and
    the handling of a delivery; \<open>Worker_Examples\<close> holds the inputs of the witnesses.
  \<^item> \<open>Contest_Scoring\<close> (\<open>biz/scoring.go\<close>), \<open>Contest_Snapshot\<close> (\<open>biz/leaderboard_snapshot.go\<close>),
    \<open>Contest_Db\<close> (tables, \<open>data/tx_retry.go\<close>), \<open>Contest_Projection\<close> (\<open>data/projection.go\<close>,
    \<open>leaderboard_summary.go\<close>, \<open>server/result_consumer.go\<close>), \<open>Contest_Repo\<close> (\<open>data/contest_repo.go\<close>):
    operations. \<open>Contest_Projection_Facts\<close>, \<open>Contest_Inv\<close>, \<open>Contest_Props\<close>: effects, the invariant that
    facts, scores, totals and announcements agree, the refinement of a map of latest facts. \<open>Contest_Usecase\<close>
    (\<open>biz/contest.go\<close>): requests, phases and tokens. \<open>Contest_Leaderboard\<close>, \<open>Contest_Cache\<close>,
    \<open>Contest_Cache_Props\<close> (\<open>data/leaderboard_redis.go\<close>, \<open>leaderboard_generation.go\<close>): the SQL ranking, the
    Lua scripts over a store with expiring keys, the version fence. \<open>Contest_Relay\<close> (\<open>biz/cache_outbox.go\<close>,
    \<open>data/cache_outbox.go\<close>): claims and deliveries as a state machine, with the locale
    \<open>leaderboard_sink\<close> for the interface between relay and cache, interpreted on \<open>cache_Apply\<close>.
  \<^item> \<open>User_Store\<close> (\<open>data/data.go\<close>, \<open>refresh_token_store.go\<close>), \<open>User_Usecase\<close> (\<open>biz/usecase.go\<close>, \<open>user.go\<close>,
    \<open>auth.go\<close>, \<open>security/token.go\<close>): tables, tokens and requests. \<open>User_Accounts\<close>
    (\<open>cmd/user-bootstrap/main.go\<close>): the invariant of the account tables and what a lookup finds in them.
    \<open>User_Sessions\<close>: sequences of logins, refreshes and logouts, ended tokens and the invariant of the
    session index.
  \<^item> \<open>Problem_Store\<close>, \<open>Problem_Testcases\<close> (\<open>data/problem_repo.go\<close>, \<open>testcase_repo.go\<close>, \<open>object_store.go\<close>,
    \<open>problem_cache.go\<close>), \<open>Problem_Usecase\<close> (\<open>biz/problem.go\<close>, \<open>testcase.go\<close>): tables, bucket, cache and requests;
    a request reads the problem and its test cases at earlier moments than it commits. \<open>Problem_Revision\<close>: what
    publishing writes, over the locale \<open>immutable_store\<close> interpreted on \<open>PutImmutable\<close>. \<open>Problem_Inv\<close>,
    \<open>Problem_Steps\<close>, \<open>Problem_Changes\<close>, \<open>Problem_Run\<close>: the invariant between rows and published revisions, what
    earlier reads still know, one lemma per request and the runs of several instances. \<open>Problem_Properties\<close>:
    the properties, with the worker's loader as client; \<open>Problem_Examples\<close> holds the inputs of the witnesses.
  \<^item> This theory: the two legs between the services, from a stored task to the decoded task in the worker
    and from a reported outcome to the parsed result in the judge service.

  \<^bold>\<open>What is shown.\<close> Invariants over every reachable state with failing statements and lost commits (one
  request event per submission, one verdict event per judged contest submission; the leaderboard is a
  function of the facts; no announced total is lost before the cache has it); idempotence under
  redelivery; privacy and roles; lifecycle phases and optimistic locking; equivalence of the scoring
  loop with the ACM rule and of the cache order with the SQL order; verdict, measurement and resource
  accounting of the worker; termination of retries; round trips of all messages; single use of
  refresh tokens, the effect of a logout and uniqueness of accounts; the active judge revision of a problem
  is complete and in step with its test cases, every revision the judge was told of can be loaded by the
  worker, archived problems are frozen and hidden. Some theorems state where the code does not do what it
  means to: \<open>long_failure_message_is_lost\<close>, \<open>long_diagnostics_are_requeued\<close>, \<open>address_as_name_takes_admin_role\<close>,
  \<open>archive_without_testcases_panics\<close>, \<open>lost_commit_loses_uploads\<close>, \<open>published_limits_are_those_read\<close>,
  \<open>case_number_never_reused\<close> and the overflow case of \<open>measurements_round_up\<close>.

  \<^bold>\<open>Bounds and loops.\<close> There is no fuel: the loops recurse on a list or on a counter that bounds them in
  the code (the three attempts of \<open>withContestTx\<close>, the retries counted by \<open>backoff_loop\<close> and
  \<open>delay_loop\<close>). Hypotheses on ranges (\<open>bigint_db\<close>, identifiers up to \<open>max_int64\<close>) are the column types.

  \<^bold>\<open>Not modelled.\<close> Concurrency inside one transaction (row locks serialise the conflicting ones, so a
  transaction is one step); connection management, server loops and process lifecycle; metrics, logs and
  traces; protobuf conversion and the gRPC servers; the maintenance loop that rebuilds cache
  generations (its scripts are modelled) and the leaderboard request that falls back to SQL; signing and
  verification of service and user tokens, which are calls into the RSA and JSON libraries, and the gateway,
  which forwards requests; two requests of the user service that read and write the same token at the same
  time; in the problem service, the interleaving of another request with the uploads and the creation loop of
  one request (reads and commits do interleave); the generated code under \<open>src/api\<close>, the Python agent and the
  web front end.
\<close>

section \<open>Definitions\<close>

text \<open>An event of a task and a result for it, for the witnesses.\<close>

definition demo_envelope :: Envelope where
  "demo_envelope = \<lparr>env_EventID = ''t'', env_EventType = EventTypeJudgeTask, env_EventVersion = 1,
     env_OccurredAt = 5, env_TraceID = [], env_TraceParent = [], env_TraceState = [], env_CausationID = [],
     env_Data = None\<rparr>"

definition demo_result :: JudgeCompleted where
  "demo_result = \<lparr>jc_SubmissionID = 7, jc_JudgeRevision = demo_revision26, jc_Verdict = VerdictCE,
     jc_TimeMS = 0, jc_MemoryKB = 0, jc_CaseResults = []\<rparr>"

section \<open>Lemmas\<close>

lemma completed_report_parses:
  assumes ranges: "jc_SubmissionID c \<in> {min_int64..max_int64}" "jc_TimeMS c \<in> {-2147483648..max_int32}"
      "jc_MemoryKB c \<in> {-2147483648..max_int32}" "\<forall>r \<in> set (jc_CaseResults c). int32_case r"
    and rep: "ReportCompleted uuid_ok env input c h = (x, h1)"
    and p: "publications h1 = publications h @ [(route, i, body)]"
  shows "\<exists>ev. ParseJudgeResultEvent uuid_ok route (Some body) = Inr ev
      \<and> je_SubmissionID ev = jc_SubmissionID c \<and> je_JudgeRevision ev = jc_JudgeRevision c
      \<and> verdictFromWire (jc_Verdict c) = (je_Verdict ev, True)
      \<and> je_TimeMS ev = Some (jc_TimeMS c) \<and> je_MemoryKB ev = Some (jc_MemoryKB c)
      \<and> map bc_CaseNo (je_CaseResults ev) = map cr_CaseNo (jc_CaseResults c)
      \<and> je_CausationID ev = env_EventID input"
proof -
  have v: "JudgeCompleted_Validate c = None"
    using rep p by (cases "JudgeCompleted_Validate c") (auto simp: ReportCompleted_def)
  from reporter_publishes(1) [OF rep] p obtain m d where m: "enc_JudgeCompleted c = Some d"
    "em_EventType m = EventTypeJudgeCompleted" "em_CausationID m = env_EventID input"
    "MarshalEnvelope uuid_ok m (Some d) = Inr body" "route = EventTypeJudgeCompleted"
    by (auto simp: publishes_def RoutingJudgeCompleted_def)
  have d: "dec_JudgeCompleted d = Some c" "d \<noteq> JNull"
    using dec_enc_JudgeCompleted [OF m(1) ranges] by simp_all
  have u: "UnmarshalEnvelope uuid_ok (Some body) route dec_JudgeCompleted = Inr (envelope_of_metadata m d, c)"
    using unmarshal_marshal [of uuid_ok m d body dec_JudgeCompleted, OF m(4) d(2) d(1)] m(2,5) by simp
  have "validVerdict (jc_Verdict c)" "validate_case_results [] (jc_CaseResults c) = None"
    using v by (auto simp: JudgeCompleted_Validate_def split: if_splits)
  with parse_case_results_valid [of "[]" "jc_CaseResults c"] validVerdict_iff_wire [of "jc_Verdict c"]
  obtain cs where "parse_case_results (jc_CaseResults c) = Inr cs"
    "map bc_CaseNo cs = map cr_CaseNo (jc_CaseResults c)" "snd (verdictFromWire (jc_Verdict c))"
    by blast
  with u v m show ?thesis
    by (cases "verdictFromWire (jc_Verdict c)") (simp add: ParseJudgeResultEvent_def envelope_of_metadata_def)
qed

lemma failed_report_parses:
  assumes ranges: "jf_SubmissionID f \<in> {min_int64..max_int64}"
    and rep: "ReportFailed uuid_ok env input f h = (x, h1)"
    and p: "publications h1 = publications h @ [(route, i, body)]"
  shows "\<exists>ev. ParseJudgeResultEvent uuid_ok route (Some body) = Inr ev
      \<and> je_SubmissionID ev = jf_SubmissionID f \<and> je_JudgeRevision ev = jf_JudgeRevision f
      \<and> je_Code ev = jf_Code f \<and> je_Reason ev = jf_Reason f \<and> je_Message ev = jf_Message f
      \<and> je_Retryable ev = jf_Retryable f \<and> je_CausationID ev = env_EventID input"
proof -
  have v: "JudgeFailed_Validate f = None"
    using rep p by (cases "JudgeFailed_Validate f") (auto simp: ReportFailed_def)
  from reporter_publishes(2) [OF rep] p obtain m d where m: "enc_JudgeFailed f = Some d"
    "em_EventType m = EventTypeJudgeFailed" "em_CausationID m = env_EventID input"
    "MarshalEnvelope uuid_ok m (Some d) = Inr body" "route = EventTypeJudgeFailed"
    by (auto simp: publishes_def RoutingJudgeFailed_def)
  have d: "dec_JudgeFailed d = Some f" "d \<noteq> JNull"
    using dec_enc_JudgeFailed [OF m(1) ranges] by simp_all
  have u: "UnmarshalEnvelope uuid_ok (Some body) route dec_JudgeFailed = Inr (envelope_of_metadata m d, f)"
    using unmarshal_marshal [of uuid_ok m d body dec_JudgeFailed, OF m(4) d(2) d(1)] m(2,5) by simp
  have "EventTypeJudgeFailed \<noteq> EventTypeJudgeCompleted"
    by (simp add: EventTypeJudgeFailed_def EventTypeJudgeCompleted_def)
  with u v m show ?thesis by (simp add: ParseJudgeResultEvent_def envelope_of_metadata_def)
qed

lemma demo_publish:
  assumes "ty \<noteq> []"
  shows "\<exists>body. publish_event (\<lambda>u. True) (demo_env s err out) demo_envelope ty route (Some d) []
    = (None, [CallTrace, CallUUID, CallNow, CallPublish route ''u'' body])"
proof -
  let ?env = "demo_env s err out"
  let ?m = "\<lparr>em_EventID = ''u'', em_EventType = ty, em_EventVersion = 1, em_OccurredAt = 5,
      em_TraceID = [], em_TraceParent = [], em_TraceState = [], em_CausationID = ''t''\<rparr>"
  obtain body where b: "enc_envelope (envelope_of_metadata ?m d) = Some body"
    by (simp add: enc_envelope_def envelope_of_metadata_def time_json_ok_def)
  then have "MarshalEnvelope (\<lambda>u. True) ?m (Some d) = Inr body"
    using assms by (simp add: MarshalEnvelope_def validateMetadata_def EventVersion1_def zero_time_def)
  then have "marshalEvent (\<lambda>u. True) ?env demo_envelope ty (Some d) [] = (Inr body, [CallTrace, CallUUID, CallNow])"
    by (simp add: marshalEvent_def read_clock_def demo_world_def demo_envelope_def EventVersion1_def Let_def)
  moreover obtain e where "dec_struct dec_envelope body = Some e" "env_EventID e = ''u''"
    using dec_enc_envelope [OF b] by (auto simp: envelope_of_metadata_def max_int32_def)
  ultimately show ?thesis
    using publish_event_Inr [of "\<lambda>u. True" ?env demo_envelope ty "Some d" "[]" body] by (auto simp: demo_world_def)
qed

section \<open>Properties that span components\<close>

text \<open>
  C21. What the judge service asks for reaches the worker: a message the outbox relay builds from a
  judge.requested event decodes in the worker to exactly the task stored in the event, passes the
  worker's validation, names the event it came from, and is routed to the queue of the task's language.
\<close>

theorem requested_tasks_reach_the_worker:
  assumes "buildPublishedMessage uuid_ok e = Inr m" and "oe_EventType e = EventTypeJudgeRequested"
  shows "\<exists>t envelope. dec_JudgeTask (oe_Payload e) = Some t
    \<and> decodeTask uuid_ok (Some (pm_Body m)) = Inr (envelope, t) \<and> env_EventID envelope = oe_EventID e
    \<and> JudgeTaskRoutingKey (jt_Language t) = Inr (pm_RoutingKey m)"
proof -
  from assms(1) obtain payload where p: "outbox_payload e = Inr (payload, pm_EventType m, pm_RoutingKey m)"
    and b: "MarshalEnvelope uuid_ok
       \<lparr>em_EventID = oe_EventID e, em_EventType = pm_EventType m, em_EventVersion = oe_EventVersion e,
        em_OccurredAt = oe_CreatedAt e, em_TraceID = [], em_TraceParent = oe_TraceParent e,
        em_TraceState = oe_TraceState e, em_CausationID = []\<rparr> payload = Inr (pm_Body m)"
    by (rule buildPublishedMessage_Inr)
  from p assms(2) obtain t where t: "dec_JudgeTask (oe_Payload e) = Some t" "JudgeTask_Validate t = None"
    "JudgeTaskRoutingKey (jt_Language t) = Inr (pm_RoutingKey m)" "payload = enc_JudgeTask t"
    "pm_EventType m = EventTypeJudgeTask"
    by (auto simp: outbox_payload_def split: option.splits)
  obtain d where d: "enc_JudgeTask t = Some d"
    using b t(4) by (cases "enc_JudgeTask t") (auto simp: MarshalEnvelope_def errE_def split: option.splits)
  have "dec_JudgeTask d = Some t" using dec_enc_JudgeTask [OF d] dec_JudgeTask_ranges [OF t(1)] by blast
  with decode_marshalled_task [OF b [unfolded t(4) d]] t d show ?thesis
    by (fastforce simp: envelope_of_metadata_def)
qed

theorem requested_tasks_reach_the_worker_witness:
  "\<exists>m t envelope. buildPublishedMessage (\<lambda>_. True) (scanOutbox demo_outbox) = Inr m
    \<and> decodeTask (\<lambda>_. True) (Some (pm_Body m)) = Inr (envelope, t)"
proof -
  obtain m where m: "buildPublishedMessage (\<lambda>_. True) (scanOutbox demo_outbox) = Inr m"
    using demo_message_built by blast
  have "oe_EventType (scanOutbox demo_outbox) = EventTypeJudgeRequested"
    by (simp add: scanOutbox_def demo_outbox_def EventTypeJudgeRequested_def)
  from requested_tasks_reach_the_worker [OF m this] m show ?thesis by blast
qed

text \<open>
  C22. What the worker reports reaches the judge service: a published result is accepted by
  \<open>ParseJudgeResultEvent\<close> under the type the message carries, with the submission, the revision, the
  verdict, the measurements and the case numbers of the result, and names the task event as its cause; a
  published failure is accepted with its code, reason, message and retry flag.
\<close>

theorem reported_results_reach_the_judge:
  assumes "jc_SubmissionID c \<in> {min_int64..max_int64}" and "jc_TimeMS c \<in> {-2147483648..max_int32}"
    and "jc_MemoryKB c \<in> {-2147483648..max_int32}" and "\<forall>r \<in> set (jc_CaseResults c). int32_case r"
    and "jf_SubmissionID f \<in> {min_int64..max_int64}"
    and "ReportCompleted uuid_ok env input c h = (x1, h1)" and "publications h1 = publications h @ [(route1, i1, body1)]"
    and "ReportFailed uuid_ok env input f h = (x2, h2)" and "publications h2 = publications h @ [(route2, i2, body2)]"
  shows "(\<exists>ev. ParseJudgeResultEvent uuid_ok route1 (Some body1) = Inr ev
      \<and> je_SubmissionID ev = jc_SubmissionID c \<and> je_JudgeRevision ev = jc_JudgeRevision c
      \<and> verdictFromWire (jc_Verdict c) = (je_Verdict ev, True)
      \<and> je_TimeMS ev = Some (jc_TimeMS c) \<and> je_MemoryKB ev = Some (jc_MemoryKB c)
      \<and> map bc_CaseNo (je_CaseResults ev) = map cr_CaseNo (jc_CaseResults c)
      \<and> je_CausationID ev = env_EventID input)
    \<and> (\<exists>ev. ParseJudgeResultEvent uuid_ok route2 (Some body2) = Inr ev
      \<and> je_SubmissionID ev = jf_SubmissionID f \<and> je_JudgeRevision ev = jf_JudgeRevision f
      \<and> je_Code ev = jf_Code f \<and> je_Reason ev = jf_Reason f \<and> je_Message ev = jf_Message f
      \<and> je_Retryable ev = jf_Retryable f \<and> je_CausationID ev = env_EventID input)"
  using completed_report_parses [OF assms(1-4,6,7)] failed_report_parses [OF assms(5,8,9)] by blast

theorem reported_results_reach_the_judge_witness:
  "\<exists>route body ev. publications (snd (ReportCompleted (\<lambda>u. True) (demo_env PbAccepted [] []) demo_envelope demo_result []))
      = [(route, ''u'', body)]
    \<and> ParseJudgeResultEvent (\<lambda>u. True) route (Some body) = Inr ev \<and> je_SubmissionID ev = 7 \<and> je_CausationID ev = ''t''"
proof -
  let ?env = "demo_env PbAccepted [] []"
  obtain x1 h1 where r1: "ReportCompleted (\<lambda>u. True) ?env demo_envelope demo_result [] = (x1, h1)"
    by (cases "ReportCompleted (\<lambda>u. True) ?env demo_envelope demo_result []")
  obtain x2 h2 where r2: "ReportFailed (\<lambda>u. True) ?env demo_envelope (expired_event demo_work) [] = (x2, h2)"
    by (cases "ReportFailed (\<lambda>u. True) ?env demo_envelope (expired_event demo_work) []")
  obtain d1 where d1: "enc_JudgeCompleted demo_result = Some d1" by (simp add: enc_JudgeCompleted_def)
  obtain d2 where d2: "enc_JudgeFailed (expired_event demo_work) = Some d2" by (simp add: enc_JudgeFailed_def)
  have v1: "JudgeCompleted_Validate demo_result = None"
    using worker_verdicts_valid(6)
    by (simp add: JudgeCompleted_Validate_def demo_result_def demo_revision26_def)
  have v2: "JudgeFailed_Validate (expired_event demo_work) = None"
    using failure_codes_ok [of FailureTaskExpired]
    by (simp add: JudgeFailed_Validate_def expired_event_def demo_revision26_def)
  obtain b1 where b1: "publish_event (\<lambda>u. True) ?env demo_envelope EventTypeJudgeCompleted RoutingJudgeCompleted (Some d1) []
      = (None, [CallTrace, CallUUID, CallNow, CallPublish RoutingJudgeCompleted ''u'' b1])"
    using demo_publish [of EventTypeJudgeCompleted PbAccepted "[]" "[]"] by (auto simp: EventTypeJudgeCompleted_def)
  obtain b2 where b2: "publish_event (\<lambda>u. True) ?env demo_envelope EventTypeJudgeFailed RoutingJudgeFailed (Some d2) []
      = (None, [CallTrace, CallUUID, CallNow, CallPublish RoutingJudgeFailed ''u'' b2])"
    using demo_publish [of EventTypeJudgeFailed PbAccepted "[]" "[]"] by (auto simp: EventTypeJudgeFailed_def)
  have p1: "publications h1 = publications [] @ [(RoutingJudgeCompleted, ''u'', b1)]"
    using r1 by (simp add: ReportCompleted_def v1 d1 b1) auto
  have p2: "publications h2 = publications [] @ [(RoutingJudgeFailed, ''u'', b2)]"
    using r2 by (simp add: ReportFailed_def v2 d2 b2) auto
  have ranges: "jc_SubmissionID demo_result \<in> {min_int64..max_int64}" "jc_TimeMS demo_result \<in> {-2147483648..max_int32}"
    "jc_MemoryKB demo_result \<in> {-2147483648..max_int32}" "\<forall>r \<in> set (jc_CaseResults demo_result). int32_case r"
    "jf_SubmissionID (expired_event demo_work) \<in> {min_int64..max_int64}"
    by (simp_all add: demo_result_def expired_event_def min_int64_def max_int64_def max_int32_def)
  from reported_results_reach_the_judge [OF ranges r1 p1 r2 p2] r1 p1 show ?thesis
    by (auto simp: demo_result_def demo_envelope_def)
qed

end
